(* ===== verification/Prelude.thy ===== *)
theory Prelude
  imports Main "HOL-Library.Char_ord" "HOL-Library.List_Lexorder" "HOL-Library.AList"
    "HOL-Library.Sublist" "HOL-Library.Multiset"
begin

text \<open>
  The vocabulary of TypeScript values that every component uses.

  \<^item> Strings are lists of \<open>char\<close>, one \<open>char\<close> per UTF-16 code unit; the model's
    domain is the strings whose code units lie below 256, on which every operation here
    (lower-casing, trimming, comparison, splitting) is the one of the language.
  \<^item> A \<open>Map\<close> and a plain object are association lists in iteration order.
  \<^item> \<open>undefined\<close> and absent fields are \<open>None\<close>; a value of type \<open>unknown\<close> is a
    \<open>jsval\<close>.
  \<^item> \<open>Array.prototype.sort\<close> with a comparator is the stable \<open>sort_by\<close>; the locale
    \<open>comparator\<close> states what makes its result unique.
\<close>

named_theorems js_str \<open>evaluation of the string operations\<close>
named_theorems cmp_intro \<open>ways to build a comparator\<close>

section \<open>Strings\<close>

definition starts_with :: "string \<Rightarrow> string \<Rightarrow> bool" where
  "starts_with s p \<longleftrightarrow> take (length p) s = p"

definition ends_with :: "string \<Rightarrow> string \<Rightarrow> bool" where
  "ends_with s p \<longleftrightarrow> length p \<le> length s \<and> drop (length s - length p) s = p"

fun str_includes :: "string \<Rightarrow> string \<Rightarrow> bool" where
  "str_includes [] p = (p = [])"
| "str_includes (c # s) p = (starts_with (c # s) p \<or> str_includes s p)"

definition lower_char :: "char \<Rightarrow> char" where
  "lower_char c =
     (let n = of_char c :: nat in
      if (65 \<le> n \<and> n \<le> 90) \<or> (192 \<le> n \<and> n \<le> 214) \<or> (216 \<le> n \<and> n \<le> 222)
      then char_of (n + 32) else c)"

definition to_lower :: "string \<Rightarrow> string" where
  "to_lower s = map lower_char s"

text \<open>White space and line terminators of the language (tab, line feed, vertical tab, form
  feed, carriage return, space, no-break space), as \<open>trim\<close> and \<open>\s\<close> use them.\<close>

definition is_ws :: "char \<Rightarrow> bool" where
  "is_ws c = (let n = of_char c :: nat in n = 32 \<or> (9 \<le> n \<and> n \<le> 13) \<or> n = 160)"

definition trim_start :: "string \<Rightarrow> string" where
  "trim_start s = dropWhile is_ws s"

definition trim_end :: "string \<Rightarrow> string" where
  "trim_end s = rev (dropWhile is_ws (rev s))"

definition trim :: "string \<Rightarrow> string" where
  "trim s = trim_end (trim_start s)"

text \<open>\<open>split\<close> with a separator that is not empty, and \<open>join\<close>.\<close>

fun split_go :: "string \<Rightarrow> string \<Rightarrow> string \<Rightarrow> string list" where
  "split_go sep acc [] = [rev acc]"
| "split_go sep acc (c # s) =
     (if starts_with (c # s) sep
      then rev acc # split_go sep [] (drop (length sep - 1) s)
      else split_go sep (c # acc) s)"

definition split_on :: "string \<Rightarrow> string \<Rightarrow> string list" where
  "split_on sep s = split_go sep [] s"

fun join :: "string \<Rightarrow> string list \<Rightarrow> string" where
  "join sep [] = []"
| "join sep [x] = x"
| "join sep (x # y # xs) = x @ sep @ join sep (y # xs)"

text \<open>\<open>s.replace(/suffix$/, r)\<close> for a literal suffix.\<close>

definition replace_suffix :: "string \<Rightarrow> string \<Rightarrow> string \<Rightarrow> string" where
  "replace_suffix p r s = (if ends_with s p then take (length s - length p) s @ r else s)"

text \<open>The alternatives of \<open>/\.(e1|e2|...)$/\<close>: which extension, without its dot, ends the
  string, and the string with the dot and the extension removed.\<close>

definition ext_match :: "string list \<Rightarrow> string \<Rightarrow> string option" where
  "ext_match exts s = find (\<lambda>e. ends_with s (CHR ''.'' # e)) exts"

definition has_ext :: "string list \<Rightarrow> string \<Rightarrow> bool" where
  "has_ext exts s \<longleftrightarrow> ext_match exts s \<noteq> None"

definition replace_ext :: "string list \<Rightarrow> string \<Rightarrow> string \<Rightarrow> string" where
  "replace_ext exts r s =
     (case ext_match exts s of
        None \<Rightarrow> s
      | Some e \<Rightarrow> take (length s - Suc (length e)) s @ r)"

text \<open>Decimal rendering of a number in a template string.\<close>

fun digits_of :: "nat \<Rightarrow> string" where
  "digits_of n = (if n < 10 then [char_of (48 + n)] else digits_of (n div 10) @ [char_of (48 + n mod 10)])"

declare digits_of.simps [simp del]

definition show_int :: "int \<Rightarrow> string" where
  "show_int i = (if i < 0 then CHR ''-'' # digits_of (nat (- i)) else digits_of (nat i))"

definition bool_text :: "bool \<Rightarrow> string" where
  "bool_text b = (if b then ''true'' else ''false'')"

subsection \<open>Laws of the string operations\<close>

lemma starts_with_iff: "starts_with s p \<longleftrightarrow> (\<exists>r. s = p @ r)"
  unfolding starts_with_def
  by (metis append_eq_conv_conj append_take_drop_id)

lemma starts_with_append [simp]: "starts_with (p @ s) p"
  by (simp add: starts_with_def)

lemma starts_with_Nil [simp]: "starts_with s []"
  by (simp add: starts_with_def)

lemma starts_with_Cons [simp]:
  "starts_with (c # s) (d # p) \<longleftrightarrow> c = d \<and> starts_with s p"
  by (auto simp: starts_with_def)

lemma starts_with_Nil_Cons [simp]: "\<not> starts_with [] (d # p)"
  by (simp add: starts_with_def)

lemma ends_with_iff: "ends_with s p \<longleftrightarrow> (\<exists>r. s = r @ p)"
  unfolding ends_with_def
  by (metis append_take_drop_id append_eq_conv_conj diff_add_inverse2 le_add2 length_append)

lemma ends_with_append [simp]: "ends_with (s @ p) p"
  by (auto simp: ends_with_iff)

lemma ends_with_Nil [simp]: "ends_with s []"
  by (simp add: ends_with_def)

lemma ends_with_take:
  "ends_with s p \<Longrightarrow> take (length s - length p) s @ p = s"
  by (metis append_take_drop_id ends_with_def)

lemma replace_suffix_append [simp]: "replace_suffix p r (s @ p) = s @ r"
  by (simp add: replace_suffix_def)

lemma includes_iff: "str_includes s p \<longleftrightarrow> (\<exists>u v. s = u @ p @ v)"
proof (induction s)
  case Nil
  then show ?case by auto
next
  case (Cons c s)
  have "(\<exists>u v. c # s = u @ p @ v) \<longleftrightarrow> (\<exists>v. c # s = p @ v) \<or> (\<exists>u v. s = u @ p @ v)"
    by (metis append_Cons append_Nil append_eq_Cons_conv)
  then show ?case
    using Cons.IH by (simp add: starts_with_iff)
qed

lemma to_lower_append [simp]: "to_lower (s @ t) = to_lower s @ to_lower t"
  by (simp add: to_lower_def)

lemma to_lower_Nil [simp]: "to_lower [] = []"
  by (simp add: to_lower_def)

lemma length_to_lower [simp]: "length (to_lower s) = length s"
  by (simp add: to_lower_def)


lemma split_go_join:
  "sep \<noteq> [] \<Longrightarrow> join sep (split_go sep acc s) = rev acc @ s"
proof (induction sep acc s rule: split_go.induct)
  case (1 sep acc)
  then show ?case by simp
next
  case (2 sep acc c s)
  have ne: "split_go sep a t \<noteq> []" for a t
    by (induction sep a t rule: split_go.induct) auto
  show ?case
  proof (cases "starts_with (c # s) sep")
    case True
    then obtain r where r: "c # s = sep @ r" by (auto simp: starts_with_iff)
    with 2(3) obtain d sep' where sep: "sep = d # sep'" by (cases sep) auto
    with r have "drop (length sep - 1) s = r" by simp
    with True 2 have IH: "join sep (split_go sep [] r) = r" by simp
    obtain y ys where "split_go sep [] r = y # ys" using ne[of "[]" r] by (cases "split_go sep [] r") auto
    with IH have "join sep (rev acc # split_go sep [] r) = rev acc @ sep @ r" by simp
    moreover have "split_go sep acc (c # s) = rev acc # split_go sep [] r"
      using True \<open>drop (length sep - 1) s = r\<close> by simp
    ultimately show ?thesis using r by simp
  next
    case False
    with 2 show ?thesis by simp
  qed
qed

text \<open>Splitting loses nothing: joining the parts with the separator gives the text back.\<close>

lemma join_split_on: "sep \<noteq> [] \<Longrightarrow> join sep (split_on sep s) = s"
  by (simp add: split_on_def split_go_join)

lemma split_go_no_sep:
  "c \<notin> set s \<Longrightarrow> split_go [c] acc s = [rev acc @ s]"
  by (induction s arbitrary: acc) auto

lemma split_go_char:
  "c \<notin> set s \<Longrightarrow> split_go [c] acc (s @ c # t) = (rev acc @ s) # split_go [c] [] t"
  by (induction s arbitrary: acc) auto

text \<open>Joining parts that do not contain the separating character and splitting again.\<close>

lemma split_on_join:
  "xs \<noteq> [] \<Longrightarrow> \<forall>x \<in> set xs. c \<notin> set x \<Longrightarrow> split_on [c] (join [c] xs) = xs"
  unfolding split_on_def
  by (induction "[c]" xs rule: join.induct) (auto simp: split_go_no_sep split_go_char)

lemma split_go_parts:
  "c \<notin> set acc \<Longrightarrow> x \<in> set (split_go [c] acc s) \<Longrightarrow> c \<notin> set x"
proof (induction s arbitrary: acc)
  case Nil
  then show ?case by simp
next
  case (Cons d s)
  show ?case
  proof (cases "d = c")
    case True
    with Cons.prems have "x = rev acc \<or> x \<in> set (split_go [c] [] s)" by simp
    then show ?thesis using Cons.prems(1) Cons.IH[of "[]"] by auto
  next
    case False
    with Cons.prems have "x \<in> set (split_go [c] (d # acc) s)" by simp
    then show ?thesis using False Cons.prems(1) by (intro Cons.IH[of "d # acc"]) auto
  qed
qed

lemma split_on_parts: "x \<in> set (split_on [c] s) \<Longrightarrow> c \<notin> set x"
  unfolding split_on_def by (rule split_go_parts[of c "[]"]) simp_all

lemma split_on_not_Nil [simp]: "split_on sep s \<noteq> []"
proof -
  have "split_go sep acc s \<noteq> []" for acc
    by (induction sep acc s rule: split_go.induct) auto
  then show ?thesis by (simp add: split_on_def)
qed

lemma set_trim: "set (trim s) \<subseteq> set s"
  by (auto simp: trim_def trim_end_def trim_start_def dest!: set_dropWhileD)

lemma trim_Nil [simp]: "trim [] = []"
  by (simp add: trim_def trim_end_def trim_start_def)

lemma trim_hd: "trim s \<noteq> [] \<Longrightarrow> \<not> is_ws (hd (trim s))"
proof -
  assume ne: "trim s \<noteq> []"
  let ?t = "dropWhile is_ws s"
  have "hd (trim s) = hd ?t"
  proof -
    obtain w where w: "?t = trim s @ w"
      unfolding trim_def trim_end_def trim_start_def
      by (metis dropWhile_eq_drop rev_append rev_rev_ident takeWhile_dropWhile_id)
    then show ?thesis using ne by simp
  qed
  moreover have "?t \<noteq> []"
    using ne unfolding trim_def trim_start_def trim_end_def by (metis dropWhile.simps(1) rev.simps(1))
  ultimately show ?thesis by (simp add: hd_dropWhile)
qed

lemma trim_last: "trim s \<noteq> [] \<Longrightarrow> \<not> is_ws (last (trim s))"
  unfolding trim_def trim_end_def
  by (metis hd_dropWhile last_rev rev_is_Nil_conv)

lemma trim_id: "s = [] \<or> (\<not> is_ws (hd s) \<and> \<not> is_ws (last s)) \<Longrightarrow> trim s = s"
proof -
  have "\<not> is_ws c \<Longrightarrow> dropWhile is_ws (c # t) = c # t" for c t by simp
  moreover assume "s = [] \<or> (\<not> is_ws (hd s) \<and> \<not> is_ws (last s))"
  ultimately have "dropWhile is_ws s = s" and "dropWhile is_ws (rev s) = rev s"
    by (metis dropWhile.simps(1) list.exhaust_sel, metis dropWhile.simps(1) hd_rev list.exhaust_sel rev.simps(1) rev_is_Nil_conv)
  then show ?thesis by (simp add: trim_def trim_end_def trim_start_def)
qed

lemma trim_idem [simp]: "trim (trim s) = trim s"
  by (rule trim_id) (auto dest: trim_hd trim_last)

lemma trim_eq_Nil: "trim s = [] \<longleftrightarrow> (\<forall>c \<in> set s. is_ws c)"
proof
  assume t: "trim s = []"
  have "\<forall>c \<in> set (dropWhile is_ws s). is_ws c"
    using t unfolding trim_def trim_end_def trim_start_def
    by (metis dropWhile_eq_Nil_conv rev_is_Nil_conv set_rev)
  then have "dropWhile is_ws s = []"
    by (metis hd_dropWhile list.set_sel(1))
  then show "\<forall>c \<in> set s. is_ws c" by (metis dropWhile_eq_Nil_conv)
next
  assume "\<forall>c \<in> set s. is_ws c"
  then have "dropWhile is_ws s = []" by (metis dropWhile_eq_Nil_conv)
  then show "trim s = []"
    unfolding trim_def trim_start_def trim_end_def by (metis dropWhile.simps(1) rev.simps(1))
qed

lemma of_char_less [simp]: "(of_char c :: nat) < 256"
  by (metis of_char_mod_256 mod_less_divisor zero_less_numeral)

lemma lower_char_idem [simp]: "lower_char (lower_char c) = lower_char c"
proof -
  have "(of_char (lower_char c) :: nat) =
     (if (65 \<le> (of_char c :: nat) \<and> (of_char c :: nat) \<le> 90) \<or>
         (192 \<le> (of_char c :: nat) \<and> (of_char c :: nat) \<le> 214) \<or>
         (216 \<le> (of_char c :: nat) \<and> (of_char c :: nat) \<le> 222)
      then of_char c + 32 else of_char c)"
    by (auto simp: lower_char_def Let_def)
  then show ?thesis
    by (subst lower_char_def[of "lower_char c"]) (auto simp: Let_def split: if_splits)
qed

lemma to_lower_idem [simp]: "to_lower (to_lower s) = to_lower s"
  by (simp add: to_lower_def)

end
