(* ===== verification/JsSort.thy ===== *)
theory JsSort
  imports Prelude
begin

text \<open>
  Sorting with a comparator, as \<open>Array.prototype.sort\<close> does it: the result is stable. The
  locale \<open>comparator\<close> states what a comparator must satisfy for the language to determine the
  result; under it \<open>sort_by\<close> is the only stable sorted rearrangement, so an insertion sort is
  as good a model as the engine's merge sort. The comparators of the program are built from the
  combinators of this theory, and each is shown to be one.
\<close>

fun insert_by :: "('a \<Rightarrow> 'a \<Rightarrow> int) \<Rightarrow> 'a \<Rightarrow> 'a list \<Rightarrow> 'a list" where
  "insert_by c x [] = [x]"
| "insert_by c x (y # ys) = (if c x y \<le> 0 then x # y # ys else y # insert_by c x ys)"

definition sort_by :: "('a \<Rightarrow> 'a \<Rightarrow> int) \<Rightarrow> 'a list \<Rightarrow> 'a list" where
  "sort_by c xs = foldr (insert_by c) xs []"

lemma sort_by_Nil [simp]: "sort_by c [] = []"
  by (simp add: sort_by_def)

lemma sort_by_Cons [simp]: "sort_by c (x # xs) = insert_by c x (sort_by c xs)"
  by (simp add: sort_by_def)

lemma mset_insert_by [simp]: "mset (insert_by c x xs) = add_mset x (mset xs)"
  by (induction xs) auto

lemma mset_sort_by [simp]: "mset (sort_by c xs) = mset xs"
  by (induction xs) auto

lemma set_sort_by [simp]: "set (sort_by c xs) = set xs"
  by (metis mset_sort_by set_mset_mset)

lemma set_insert_by [simp]: "set (insert_by c x xs) = insert x (set xs)"
  by (metis mset_insert_by set_mset_add_mset_insert set_mset_mset)

lemma length_sort_by [simp]: "length (sort_by c xs) = length xs"
  by (metis mset_sort_by size_mset)

lemma distinct_sort_by [simp]: "distinct (sort_by c xs) = distinct xs"
  by (metis mset_sort_by mset_eq_imp_distinct_iff)

section \<open>What a comparator promises\<close>

locale comparator =
  fixes cmp :: "'a \<Rightarrow> 'a \<Rightarrow> int"
  assumes swap: "sgn (cmp x y) = - sgn (cmp y x)"
    and le_trans: "cmp x y \<le> 0 \<Longrightarrow> cmp y z \<le> 0 \<Longrightarrow> cmp x z \<le> 0"
begin

lemma self: "cmp x x = 0"
  using swap[of x x] by (auto simp: sgn_if split: if_splits)

lemma le_iff_ge: "cmp x y \<le> 0 \<longleftrightarrow> 0 \<le> cmp y x"
  using swap[of x y] by (auto simp: sgn_if split: if_splits)

lemma eq_sym: "cmp x y = 0 \<longleftrightarrow> cmp y x = 0"
  using swap[of x y] by (auto simp: sgn_if split: if_splits)

lemma total: "cmp x y \<le> 0 \<or> cmp y x \<le> 0"
  using le_iff_ge[of x y] by linarith

lemma eq_trans: "cmp x y = 0 \<Longrightarrow> cmp y z = 0 \<Longrightarrow> cmp x z = 0"
  using le_trans[of x y z] le_trans[of z y x] le_iff_ge[of x z] eq_sym[of x y] eq_sym[of y z]
    le_iff_ge[of z x]
  by force

lemma strong_trans:
  assumes "cmp x y \<le> 0" and "cmp y z \<le> 0"
  shows "cmp x z \<le> 0 \<and> (cmp x z = 0 \<longrightarrow> cmp x y = 0 \<and> cmp y z = 0)"
proof (intro conjI impI)
  show "cmp x z \<le> 0" using assms by (rule le_trans)
  assume 0: "cmp x z = 0"
  then have zx: "cmp z x \<le> 0" using le_iff_ge[of z x] by simp
  have "cmp y x \<le> 0" using le_trans[OF assms(2) zx] .
  then show "cmp x y = 0" using assms(1) le_iff_ge[of y x] by simp
  have "cmp z y \<le> 0" using le_trans[OF zx assms(1)] .
  then show "cmp y z = 0" using assms(2) le_iff_ge[of z y] by simp
qed

lemma sorted_insert_by:
  "sorted_wrt (\<lambda>x y. cmp x y \<le> 0) xs \<Longrightarrow> sorted_wrt (\<lambda>x y. cmp x y \<le> 0) (insert_by cmp a xs)"
proof (induction xs)
  case Nil
  then show ?case by simp
next
  case (Cons y ys)
  then show ?case using total[of a y] by (auto intro: le_trans)
qed

lemma sorted_sort_by: "sorted_wrt (\<lambda>x y. cmp x y \<le> 0) (sort_by cmp xs)"
  by (induction xs) (auto intro: sorted_insert_by)

lemma filter_insert_by:
  "filter (\<lambda>y. cmp x y = 0) (insert_by cmp a xs) =
     (if cmp x a = 0 then a # filter (\<lambda>y. cmp x y = 0) xs else filter (\<lambda>y. cmp x y = 0) xs)"
proof (induction xs)
  case Nil
  then show ?case by simp
next
  case (Cons y ys)
  have "\<not> (cmp x a = 0 \<and> cmp x y = 0)" if "0 < cmp a y"
    using that eq_trans[of a x y] eq_sym[of x a] by auto
  with Cons show ?case by auto
qed

text \<open>Stability: among elements the comparator does not tell apart, the order is kept.\<close>

lemma stable: "filter (\<lambda>y. cmp x y = 0) (sort_by cmp xs) = filter (\<lambda>y. cmp x y = 0) xs"
  by (induction xs) (auto simp: filter_insert_by)

lemma sorted_stable_unique:
  assumes "sorted_wrt (\<lambda>x y. cmp x y \<le> 0) xs" and "sorted_wrt (\<lambda>x y. cmp x y \<le> 0) ys"
    and "\<And>x. filter (\<lambda>y. cmp x y = 0) xs = filter (\<lambda>y. cmp x y = 0) ys"
  shows "xs = ys"
  using assms
proof (induction xs arbitrary: ys)
  case Nil
  have "y \<notin> set ys" for y
  proof
    assume "y \<in> set ys"
    then have "y \<in> set (filter (\<lambda>z. cmp y z = 0) ys)" using self by simp
    moreover have "filter (\<lambda>z. cmp y z = 0) ys = []" using Nil.prems(3)[of y] by (metis filter.simps(1))
    ultimately show False by (metis empty_iff list.set(1))
  qed
  then show ?case by (cases ys) auto
next
  case (Cons a xs)
  have "a \<in> set (filter (\<lambda>y. cmp a y = 0) (a # xs))" using self by simp
  then have a_in: "a \<in> set ys" using Cons.prems(3)[of a] by (metis filter_is_subset subsetD)
  then obtain b ys' where ys: "ys = b # ys'" by (cases ys) auto
  have "b \<in> set (filter (\<lambda>y. cmp b y = 0) ys)" using self ys by simp
  then have b_in: "b \<in> set (a # xs)" using Cons.prems(3)[of b] by (metis filter_is_subset subsetD)
  have ba: "cmp b a \<le> 0" using a_in Cons.prems(2) ys self by auto
  have ab: "cmp a b \<le> 0" using b_in Cons.prems(1) self by auto
  have eq: "cmp a b = 0" using ab ba le_iff_ge[of b a] by simp
  have "filter (\<lambda>y. cmp a y = 0) (a # xs) = filter (\<lambda>y. cmp a y = 0) (b # ys')"
    using Cons.prems(3)[of a] ys by simp
  then have [simp]: "b = a" using eq self by simp
  have "filter (\<lambda>y. cmp x y = 0) xs = filter (\<lambda>y. cmp x y = 0) ys'" for x
    using Cons.prems(3)[of x] ys by (auto split: if_splits)
  then have "xs = ys'" using Cons.prems(1,2) ys by (intro Cons.IH) auto
  then show ?case using ys by simp
qed

text \<open>The result of a sort is determined: any stable sorted rearrangement is this one.\<close>

lemma sort_unique:
  assumes "sorted_wrt (\<lambda>x y. cmp x y \<le> 0) ys"
    and "\<And>x. filter (\<lambda>y. cmp x y = 0) ys = filter (\<lambda>y. cmp x y = 0) xs"
  shows "ys = sort_by cmp xs"
  using assms(1) sorted_sort_by by (rule sorted_stable_unique) (simp add: assms(2) stable)

text \<open>Two sorted lists with as many elements of each kind agree place by place, up to what the
  comparator does not tell apart.\<close>

lemma sorted_counts:
  assumes "sorted_wrt (\<lambda>x y. cmp x y \<le> 0) xs" and "sorted_wrt (\<lambda>x y. cmp x y \<le> 0) ys"
    and "\<And>x. length (filter (\<lambda>y. cmp x y = 0) xs) = length (filter (\<lambda>y. cmp x y = 0) ys)"
  shows "list_all2 (\<lambda>a b. cmp a b = 0) xs ys"
  using assms
proof (induction xs arbitrary: ys)
  case Nil
  have "y \<notin> set ys" for y
  proof
    assume "y \<in> set ys"
    then have "y \<in> set (filter (\<lambda>z. cmp y z = 0) ys)" using self by simp
    moreover have "filter (\<lambda>z. cmp y z = 0) ys = []" using Nil.prems(3)[of y] by simp
    ultimately show False by (metis empty_iff list.set(1))
  qed
  then show ?case by (cases ys) auto
next
  case (Cons a xs)
  have "filter (\<lambda>y. cmp a y = 0) (a # xs) \<noteq> []" using self by simp
  then have "filter (\<lambda>y. cmp a y = 0) ys \<noteq> []" using Cons.prems(3)[of a] by (metis length_0_conv)
  then obtain a' where a': "a' \<in> set ys" "cmp a a' = 0" by (auto simp: filter_empty_conv)
  then obtain b ys' where ys: "ys = b # ys'" by (cases ys) auto
  have "filter (\<lambda>y. cmp b y = 0) ys \<noteq> []" using self ys by simp
  then have "filter (\<lambda>y. cmp b y = 0) (a # xs) \<noteq> []" using Cons.prems(3)[of b] by (metis length_0_conv)
  then obtain b' where b': "b' \<in> set (a # xs)" "cmp b b' = 0" by (auto simp: filter_empty_conv split: if_splits)
  have "cmp b a' \<le> 0" using a'(1) Cons.prems(2) ys self[of b] by auto
  then have ba: "cmp b a \<le> 0" using le_trans[of b a' a] a'(2) eq_sym[of a a'] by simp
  have "cmp a b' \<le> 0" using b'(1) Cons.prems(1) self[of a] by auto
  then have ab: "cmp a b \<le> 0" using le_trans[of a b' b] b'(2) eq_sym[of b b'] by simp
  have eq: "cmp a b = 0" using ab ba le_iff_ge[of b a] by simp
  have same: "cmp x a = 0 \<longleftrightarrow> cmp x b = 0" for x
    using eq eq_trans[of x a b] eq_trans[of x b a] eq_sym[of a b] by blast
  have "length (filter (\<lambda>y. cmp x y = 0) xs) = length (filter (\<lambda>y. cmp x y = 0) ys')" for x
    using Cons.prems(3)[of x] ys same[of x] by (simp split: if_splits)
  then have "list_all2 (\<lambda>a b. cmp a b = 0) xs ys'" using Cons.prems(1,2) ys by (intro Cons.IH) auto
  then show ?case using ys eq by simp
qed

text \<open>What is read off the sorted list does not depend on the order of the input, when it is the
  same for elements that are not told apart.\<close>

lemma sort_perm_map:
  assumes "mset xs = mset ys"
    and "\<And>x y. x \<in> set xs \<Longrightarrow> y \<in> set xs \<Longrightarrow> cmp x y = 0 \<Longrightarrow> f x = f y"
  shows "map f (sort_by cmp xs) = map f (sort_by cmp ys)"
proof -
  have "length (filter P xs) = length (filter P ys)" for P
    using assms(1) by (metis mset_filter size_mset)
  then have "list_all2 (\<lambda>a b. cmp a b = 0) (sort_by cmp xs) (sort_by cmp ys)"
    by (intro sorted_counts sorted_sort_by) (simp add: stable)
  then have "list_all2 (\<lambda>a b. a \<in> set xs \<and> b \<in> set xs \<and> cmp a b = 0) (sort_by cmp xs) (sort_by cmp ys)"
    using assms(1) by (auto simp: list_all2_conv_all_nth dest: mset_eq_setD intro!: nth_mem)
      (metis mset_eq_setD length_sort_by nth_mem set_sort_by)+
  then show ?thesis
    using assms(2) by (auto simp: list_all2_conv_all_nth intro!: nth_equalityI)
qed

text \<open>A rearrangement of the input does not change the result when the comparator tells all
  elements apart.\<close>

lemma sort_perm:
  assumes "mset xs = mset ys" and "\<And>x y. x \<in> set xs \<Longrightarrow> y \<in> set xs \<Longrightarrow> cmp x y = 0 \<Longrightarrow> x = y"
  shows "sort_by cmp xs = sort_by cmp ys"
proof (rule sort_unique)
  show "sorted_wrt (\<lambda>x y. cmp x y \<le> 0) (sort_by cmp xs)" by (rule sorted_sort_by)
  fix x
  have "mset (filter (\<lambda>y. cmp x y = 0) xs) = mset (filter (\<lambda>y. cmp x y = 0) ys)"
    using assms(1) by (simp add: mset_filter)
  moreover have "\<exists>v. \<forall>u \<in> set (filter (\<lambda>y. cmp x y = 0) xs). u = v"
    using assms(2) eq_trans eq_sym by (metis (mono_tags, lifting) mem_Collect_eq set_filter)
  moreover have "mset us = mset vs \<Longrightarrow> \<forall>u \<in> set us. u = v \<Longrightarrow> us = vs"
    for us vs :: "'a list" and v
  proof -
    assume m: "mset us = mset vs" and u: "\<forall>u \<in> set us. u = v"
    have "us = replicate (length us) v" using u by (simp add: map_replicate_const map_idI replicate_eqI)
    moreover have "vs = replicate (length vs) v"
      using u m by (metis mset_eq_setD replicate_eqI)
    ultimately show "us = vs" using m by (metis mset_eq_length)
  qed
  ultimately have "filter (\<lambda>y. cmp x y = 0) xs = filter (\<lambda>y. cmp x y = 0) ys" by blast
  then show "filter (\<lambda>y. cmp x y = 0) (sort_by cmp xs) = filter (\<lambda>y. cmp x y = 0) ys"
    by (simp add: stable)
qed

end

section \<open>Building comparators\<close>

text \<open>\<open>a || b\<close> on numbers: the second counts where the first is zero.\<close>

definition or_else :: "int \<Rightarrow> int \<Rightarrow> int" where
  "or_else a b = (if a \<noteq> 0 then a else b)"

definition str_cmp :: "string \<Rightarrow> string \<Rightarrow> int" where
  "str_cmp a b = (if a < b then -1 else if b < a then 1 else 0)"

definition num_cmp :: "int \<Rightarrow> int \<Rightarrow> int" where
  "num_cmp a b = a - b"

text \<open>\<open>compareNullable\<close>: \<open>null\<close> comes first.\<close>

fun null_cmp :: "('a \<Rightarrow> 'a \<Rightarrow> int) \<Rightarrow> 'a option \<Rightarrow> 'a option \<Rightarrow> int" where
  "null_cmp c None None = 0"
| "null_cmp c None (Some b) = -1"
| "null_cmp c (Some a) None = 1"
| "null_cmp c (Some a) (Some b) = c a b"

text \<open>The element-wise comparison of two arrays, and then their lengths.\<close>

fun list_cmp :: "('a \<Rightarrow> 'a \<Rightarrow> int) \<Rightarrow> 'a list \<Rightarrow> 'a list \<Rightarrow> int" where
  "list_cmp c (x # xs) (y # ys) = (let d = c x y in if d \<noteq> 0 then d else list_cmp c xs ys)"
| "list_cmp c xs ys = int (length xs) - int (length ys)"

lemma list_cmp_cong [fundef_cong]:
  "xs = xs' \<Longrightarrow> ys = ys' \<Longrightarrow> (\<And>x y. x \<in> set xs' \<Longrightarrow> y \<in> set ys' \<Longrightarrow> c x y = c' x y) \<Longrightarrow>
   list_cmp c xs ys = list_cmp c' xs' ys'"
proof (induction c xs ys arbitrary: xs' ys' rule: list_cmp.induct)
  case (1 c x xs y ys)
  have "c x y = c' x y" using 1(2-4) by auto
  moreover have "list_cmp c xs ys = list_cmp c' xs ys" if "c x y = 0"
    using that 1(2-4) by (intro "1.IH") auto
  ultimately show ?case using 1(2,3) by (auto simp: Let_def)
qed auto

text \<open>The laws of one element against all others, in the form that induction over a nested
  structure needs.\<close>

definition cmp_at :: "('a \<Rightarrow> 'a \<Rightarrow> int) \<Rightarrow> 'a \<Rightarrow> bool" where
  "cmp_at c x \<longleftrightarrow>
     (\<forall>y. sgn (c x y) = - sgn (c y x)) \<and>
     (\<forall>y z. c x y \<le> 0 \<longrightarrow> c y z \<le> 0 \<longrightarrow> c x z \<le> 0 \<and> (c x z = 0 \<longrightarrow> c x y = 0 \<and> c y z = 0))"

lemma comparator_iff: "comparator c \<longleftrightarrow> (\<forall>x. cmp_at c x)"
proof
  assume c: "comparator c"
  then show "\<forall>x. cmp_at c x"
    unfolding cmp_at_def by (metis comparator.strong_trans comparator.swap)
next
  assume "\<forall>x. cmp_at c x"
  then show "comparator c" unfolding cmp_at_def by unfold_locales blast+
qed

lemma cmp_at_swap: "cmp_at c x \<Longrightarrow> sgn (c x y) = - sgn (c y x)"
  by (simp add: cmp_at_def)

lemma cmp_at_trans:
  "cmp_at c x \<Longrightarrow> c x y \<le> 0 \<Longrightarrow> c y z \<le> 0 \<Longrightarrow> c x z \<le> 0 \<and> (c x z = 0 \<longrightarrow> c x y = 0 \<and> c y z = 0)"
  by (simp add: cmp_at_def)

lemma sgn_zero_iff: "sgn (a::int) = - sgn b \<Longrightarrow> a = 0 \<longleftrightarrow> b = 0"
  by (auto simp: sgn_if split: if_splits)

lemma cmp_at_key: "cmp_at c (f x) \<Longrightarrow> cmp_at (\<lambda>x y. c (f x) (f y)) x"
  by (auto simp: cmp_at_def)

lemma cmp_at_or_else:
  assumes a: "cmp_at c x" and b: "cmp_at d x"
  shows "cmp_at (\<lambda>x y. or_else (c x y) (d x y)) x"
  unfolding cmp_at_def
proof (intro conjI allI impI)
  fix y
  show "sgn (or_else (c x y) (d x y)) = - sgn (or_else (c y x) (d y x))"
    using cmp_at_swap[OF a, of y] cmp_at_swap[OF b, of y] sgn_zero_iff[of "c x y" "c y x"]
    by (auto simp: or_else_def)
next
  fix y z
  assume 1: "or_else (c x y) (d x y) \<le> 0" and 2: "or_else (c y z) (d y z) \<le> 0"
  have le: "c x y \<le> 0" "c y z \<le> 0" using 1 2 by (auto simp: or_else_def split: if_splits)
  note c = cmp_at_trans[OF a le]
  show "or_else (c x z) (d x z) \<le> 0"
    using c 1 2 cmp_at_trans[OF b, of y z] by (auto simp: or_else_def split: if_splits)
  assume 3: "or_else (c x z) (d x z) = 0"
  then have z: "c x z = 0" and dz: "d x z = 0" by (auto simp: or_else_def split: if_splits)
  then have cz: "c x y = 0" "c y z = 0" using c by auto
  then have "d x y \<le> 0" "d y z \<le> 0" using 1 2 by (auto simp: or_else_def)
  then have "d x y = 0" "d y z = 0" using cmp_at_trans[OF b, of y z] dz by auto
  then show "or_else (c x y) (d x y) = 0" and "or_else (c y z) (d y z) = 0"
    using cz by (auto simp: or_else_def)
qed

lemma cmp_at_num [cmp_intro]: "cmp_at num_cmp x"
  by (auto simp: cmp_at_def num_cmp_def sgn_if)

lemma cmp_at_str [cmp_intro]: "cmp_at str_cmp x"
  by (auto simp: cmp_at_def str_cmp_def)

lemma cmp_at_null [cmp_intro]:
  assumes "\<And>a. x = Some a \<Longrightarrow> cmp_at c a"
  shows "cmp_at (null_cmp c) x"
proof (cases x)
  case None
  have "sgn (null_cmp c None y) = - sgn (null_cmp c y None)" for y by (cases y) auto
  moreover have "null_cmp c None y \<le> 0 \<Longrightarrow> null_cmp c y z \<le> 0 \<Longrightarrow>
      null_cmp c None z \<le> 0 \<and> (null_cmp c None z = 0 \<longrightarrow> null_cmp c None y = 0 \<and> null_cmp c y z = 0)"
    for y z by (cases y; cases z) auto
  ultimately show ?thesis using None by (simp add: cmp_at_def)
next
  case (Some a)
  then have at: "cmp_at c a" using assms by simp
  have "sgn (null_cmp c (Some a) y) = - sgn (null_cmp c y (Some a))" for y
    using cmp_at_swap[OF at] by (cases y) auto
  moreover have "null_cmp c (Some a) y \<le> 0 \<Longrightarrow> null_cmp c y z \<le> 0 \<Longrightarrow>
      null_cmp c (Some a) z \<le> 0 \<and>
      (null_cmp c (Some a) z = 0 \<longrightarrow> null_cmp c (Some a) y = 0 \<and> null_cmp c y z = 0)"
    for y z using cmp_at_trans[OF at] by (cases y; cases z) auto
  ultimately show ?thesis using Some by (simp add: cmp_at_def)
qed

lemma list_cmp_swap:
  "\<forall>x \<in> set xs. cmp_at c x \<Longrightarrow> sgn (list_cmp c xs ys) = - sgn (list_cmp c ys xs)"
proof (induction xs arbitrary: ys)
  case Nil
  then show ?case by (cases ys) (auto simp: sgn_if)
next
  case (Cons x xs)
  show ?case
  proof (cases ys)
    case Nil
    then show ?thesis by (simp add: sgn_if)
  next
    case (Cons y ys')
    have s: "sgn (c x y) = - sgn (c y x)" using Cons.prems cmp_at_swap by auto
    have "sgn (list_cmp c xs ys') = - sgn (list_cmp c ys' xs)" using Cons.prems by (intro Cons.IH) simp
    then show ?thesis using Cons s sgn_zero_iff[OF s] by (auto simp: Let_def)
  qed
qed

lemma list_cmp_trans:
  "\<forall>x \<in> set xs. cmp_at c x \<Longrightarrow> list_cmp c xs ys \<le> 0 \<Longrightarrow> list_cmp c ys zs \<le> 0 \<Longrightarrow>
   list_cmp c xs zs \<le> 0 \<and> (list_cmp c xs zs = 0 \<longrightarrow> list_cmp c xs ys = 0 \<and> list_cmp c ys zs = 0)"
proof (induction xs arbitrary: ys zs)
  case Nil
  then show ?case by (cases ys; cases zs) auto
next
  case (Cons x xs)
  show ?case
  proof (cases ys)
    case Nil
    with Cons.prems show ?thesis by auto
  next
    case (Cons y ys')
    show ?thesis
    proof (cases zs)
      case Nil
      with Cons Cons.prems show ?thesis by auto
    next
      case (Cons z zs')
      note ys = \<open>ys = y # ys'\<close>
      have at: "cmp_at c x" using Cons.prems(1) by simp
      have le: "c x y \<le> 0" "c y z \<le> 0"
        using Cons.prems(2,3) ys Cons by (auto simp: Let_def split: if_splits)
      note t = cmp_at_trans[OF at le]
      have IH: "c x y = 0 \<Longrightarrow> c y z = 0 \<Longrightarrow> list_cmp c xs zs' \<le> 0 \<and>
          (list_cmp c xs zs' = 0 \<longrightarrow> list_cmp c xs ys' = 0 \<and> list_cmp c ys' zs' = 0)"
        using Cons.prems ys Cons by (intro Cons.IH) (auto simp: Let_def)
      show ?thesis using t IH ys Cons Cons.prems by (auto simp: Let_def split: if_splits)
    qed
  qed
qed

lemma cmp_at_list:
  assumes "\<And>x. x \<in> set xs \<Longrightarrow> cmp_at c x"
  shows "cmp_at (list_cmp c) xs"
proof -
  have at: "\<forall>x \<in> set xs. cmp_at c x" using assms by simp
  show ?thesis
    unfolding cmp_at_def[of "list_cmp c"]
  proof (intro conjI allI impI)
    show "sgn (list_cmp c xs y) = - sgn (list_cmp c y xs)" for y by (rule list_cmp_swap[OF at])
    fix y z
    assume "list_cmp c xs y \<le> 0" "list_cmp c y z \<le> 0"
    note t = list_cmp_trans[OF at this]
    show "list_cmp c xs z \<le> 0" using t by simp
    show "list_cmp c xs z = 0 \<Longrightarrow> list_cmp c xs y = 0" using t by simp
    show "list_cmp c xs z = 0 \<Longrightarrow> list_cmp c y z = 0" using t by simp
  qed
qed

lemma cmp_at_flip: "(\<And>z. cmp_at c z) \<Longrightarrow> cmp_at (\<lambda>x y. c y x) x"
proof -
  assume at: "\<And>z. cmp_at c z"
  have "sgn (c y x) = - sgn (c x y)" for y using cmp_at_swap[OF at] .
  moreover have "c y x \<le> 0 \<Longrightarrow> c z y \<le> 0 \<Longrightarrow> c z x \<le> 0 \<and> (c z x = 0 \<longrightarrow> c y x = 0 \<and> c z y = 0)" for y z
    using cmp_at_trans[OF at, of z y x] by blast
  ultimately show ?thesis by (simp add: cmp_at_def)
qed

lemma list_cmp_zero_iff:
  "(\<And>x y. x \<in> set xs \<Longrightarrow> c x y = 0 \<longleftrightarrow> x = y) \<Longrightarrow> list_cmp c xs ys = 0 \<longleftrightarrow> xs = ys"
  by (induction c xs ys rule: list_cmp.induct) (auto simp: Let_def)

lemma str_cmp_zero [simp]: "str_cmp a b = 0 \<longleftrightarrow> a = b"
  by (auto simp: str_cmp_def)

interpretation str_order: comparator str_cmp
  by (simp add: comparator_iff cmp_at_str)

text \<open>\<open>sort()\<close> without a comparator, on strings.\<close>

definition sort_strings :: "string list \<Rightarrow> string list" where
  "sort_strings xs = sort_by str_cmp xs"

lemma sorted_sort_strings: "sorted (sort_strings xs)"
proof -
  have "str_cmp x y \<le> 0 \<longleftrightarrow> x \<le> y" for x y by (auto simp: str_cmp_def)
  then show ?thesis using str_order.sorted_sort_by[of xs] by (simp add: sort_strings_def)
qed

lemma set_sort_strings [simp]: "set (sort_strings xs) = set xs"
  by (simp add: sort_strings_def)

lemma sort_strings_perm: "mset xs = mset ys \<Longrightarrow> sort_strings xs = sort_strings ys"
  unfolding sort_strings_def by (rule str_order.sort_perm) simp_all

end
