(* ===== verification/JsData.thy ===== *)
theory JsData
  imports JsSort
begin

text \<open>
  The containers and dynamic values of the program. A \<open>Map\<close> is an association list in
  insertion order, used through the interface \<open>ordered_map\<close>: \<open>get\<close>, \<open>put\<close> and \<open>keys\<close>
  with their laws, under which the two loops the program writes over maps (last entry wins,
  first entry wins) are characterised once. A plain object is an association list in the order
  of \<open>Object.entries\<close>, where keys that are array indices come first. A value of type
  \<open>unknown\<close> is a \<open>jsval\<close>.
\<close>

section \<open>Maps\<close>

text \<open>The two ways the program fills a \<open>Map\<close> from a list of entries.\<close>

definition map_set :: "'k \<Rightarrow> 'v \<Rightarrow> ('k \<times> 'v) list \<Rightarrow> ('k \<times> 'v) list" where
  "map_set k v m = AList.update k v m"

definition map_get :: "('k \<times> 'v) list \<Rightarrow> 'k \<Rightarrow> 'v option" where
  "map_get m k = map_of m k"

definition map_has :: "('k \<times> 'v) list \<Rightarrow> 'k \<Rightarrow> bool" where
  "map_has m k \<longleftrightarrow> map_get m k \<noteq> None"

definition map_keys :: "('k \<times> 'v) list \<Rightarrow> 'k list" where
  "map_keys m = map fst m"

text \<open>What the clients rely on: entries can be read back, a key keeps the place of its first
  insertion, and the keys are exactly what \<open>get\<close> finds.\<close>

locale ordered_map =
  fixes get :: "'m \<Rightarrow> 'k \<Rightarrow> 'v option"
    and put :: "'k \<Rightarrow> 'v \<Rightarrow> 'm \<Rightarrow> 'm"
    and keys :: "'m \<Rightarrow> 'k list"
  assumes get_put: "get (put k v m) = (get m)(k \<mapsto> v)"
    and keys_put: "keys (put k v m) = (if k \<in> set (keys m) then keys m else keys m @ [k])"
    and keys_get: "k \<in> set (keys m) \<longleftrightarrow> get m k \<noteq> None"
begin

text \<open>Last entry wins: \<open>for (const [k, v] of entries) map.set(k, v)\<close>.\<close>

lemma put_all:
  "get (fold (\<lambda>(k, v). put k v) es m) k =
     (case map_of (rev es) k of Some v \<Rightarrow> Some v | None \<Rightarrow> get m k)"
  by (induction es arbitrary: m) (auto simp: get_put map_add_def split: option.splits)

lemma set_keys_put_all:
  "set (keys (fold (\<lambda>(k, v). put k v) es m)) = set (keys m) \<union> fst ` set es"
  by (induction es arbitrary: m) (auto simp: keys_put split: if_splits)

lemma distinct_put_all:
  "distinct (keys m) \<Longrightarrow> distinct (keys (fold (\<lambda>(k, v). put k v) es m))"
  by (induction es arbitrary: m) (auto simp: keys_put)

text \<open>First entry wins: \<open>if (map.has(k)) continue; map.set(k, v)\<close>.\<close>

lemma put_new_all:
  "get (fold (\<lambda>(k, v) m. if get m k \<noteq> None then m else put k v m) es m) k =
     (case get m k of Some v \<Rightarrow> Some v | None \<Rightarrow> map_of es k)"
proof (induction es arbitrary: m)
  case Nil
  then show ?case by (simp split: option.splits)
next
  case (Cons e es)
  obtain a b where e: "e = (a, b)" by force
  show ?case
    using Cons.IH[of "if get m a \<noteq> None then m else put a b m"]
    by (auto simp: e get_put split: option.splits)
qed

lemma keys_put_new_all:
  "keys (fold (\<lambda>(k, v) m. if get m k \<noteq> None then m else put k v m) es m) =
     keys m @ filter (\<lambda>k. k \<notin> set (keys m)) (rev (remdups (rev (map fst es))))"
proof (induction es arbitrary: m)
  case Nil
  then show ?case by simp
next
  case (Cons e es)
  obtain a b where e: "e = (a, b)" by force
  have rr: "rev (remdups (xs @ [x])) = x # filter (\<lambda>k. k \<noteq> x) (rev (remdups xs))" for xs and x :: 'k
    by (induction xs) auto
  have ff: "filter (\<lambda>k. k \<noteq> a \<and> k \<notin> set (keys m)) xs =
      filter (\<lambda>k. k \<notin> set (keys m) \<and> k \<noteq> a) xs" for xs
    by (rule filter_cong) auto
  show ?case
  proof (cases "get m a = None")
    case True
    then have a: "a \<notin> set (keys m)" using keys_get by simp
    have "keys (fold (\<lambda>(k, v) m. if get m k \<noteq> None then m else put k v m) (e # es) m) =
      keys (put a b m) @ filter (\<lambda>k. k \<notin> set (keys (put a b m))) (rev (remdups (rev (map fst es))))"
      using True by (simp only: fold_Cons e case_prod_conv comp_apply Cons.IH if_False simp_thms)
    also have "\<dots> = keys m @ a # filter (\<lambda>k. k \<noteq> a \<and> k \<notin> set (keys m)) (rev (remdups (rev (map fst es))))"
      using a by (simp add: keys_put)
    also have "\<dots> = keys m @ filter (\<lambda>k. k \<notin> set (keys m)) (rev (remdups (rev (map fst (e # es)))))"
      using a by (simp add: e rr filter_filter ff)
    finally show ?thesis .
  next
    case False
    then have a: "a \<in> set (keys m)" using keys_get by simp
    have "filter (\<lambda>k. k \<notin> set (keys m)) (rev (remdups (rev (map fst (e # es))))) =
        filter (\<lambda>k. k \<notin> set (keys m)) (rev (remdups (rev (map fst es))))"
      using a by (auto simp: e rr filter_filter intro!: filter_cong)
    moreover have "keys (fold (\<lambda>(k, v) m. if get m k \<noteq> None then m else put k v m) (e # es) m) =
      keys m @ filter (\<lambda>k. k \<notin> set (keys m)) (rev (remdups (rev (map fst es))))"
      using False by (simp only: fold_Cons e case_prod_conv comp_apply Cons.IH if_True simp_thms)
    ultimately show ?thesis by simp
  qed
qed

end

interpretation js_map: ordered_map map_get map_set map_keys
proof
  show "map_get (map_set k v m) = (map_get m)(k \<mapsto> v)" for k :: 'a and v :: 'b and m
    by (rule ext) (simp add: map_get_def map_set_def update_conv)
  show "map_keys (map_set k v m) = (if k \<in> set (map_keys m) then map_keys m else map_keys m @ [k])"
    for k :: 'a and v :: 'b and m
    by (simp add: map_keys_def map_set_def update_keys)
  show "k \<in> set (map_keys m) \<longleftrightarrow> map_get m k \<noteq> None" for k :: 'a and m :: "('a \<times> 'b) list"
    by (simp add: map_keys_def map_get_def map_of_eq_None_iff)
qed

lemma map_get_Nil [simp]: "map_get [] k = None"
  by (simp add: map_get_def)

lemma map_keys_Nil [simp]: "map_keys [] = []"
  by (simp add: map_keys_def)

lemma map_get_Some_mem: "map_get m k = Some v \<Longrightarrow> (k, v) \<in> set m"
  by (simp add: map_get_def map_of_SomeD)

lemma map_get_iff: "distinct (map_keys m) \<Longrightarrow> map_get m k = Some v \<longleftrightarrow> (k, v) \<in> set m"
  by (simp add: map_get_def map_keys_def map_of_eq_Some_iff)

section \<open>Sets\<close>

text \<open>A \<open>Set\<close> is the list of its elements in the order of their insertion.\<close>

definition add_new :: "'a \<Rightarrow> 'a list \<Rightarrow> 'a list" where
  "add_new x xs = (if x \<in> set xs then xs else xs @ [x])"

locale ordered_set =
  fixes has :: "'s \<Rightarrow> 'a \<Rightarrow> bool"
    and add :: "'a \<Rightarrow> 's \<Rightarrow> 's"
    and elems :: "'s \<Rightarrow> 'a list"
  assumes has_add: "has (add x s) y \<longleftrightarrow> y = x \<or> has s y"
    and elems_add: "elems (add x s) = (if has s x then elems s else elems s @ [x])"
    and has_elems: "has s x \<longleftrightarrow> x \<in> set (elems s)"
begin

text \<open>\<open>for (const x of xs) set.add(x)\<close>.\<close>

lemma has_add_all: "has (fold add xs s) y \<longleftrightarrow> y \<in> set xs \<or> has s y"
  by (induction xs arbitrary: s) (auto simp: has_add)

lemma distinct_add_all: "distinct (elems s) \<Longrightarrow> distinct (elems (fold add xs s))"
  by (induction xs arbitrary: s) (auto simp: elems_add has_elems)

end

interpretation js_set: ordered_set "\<lambda>s x. x \<in> set s" add_new "\<lambda>s. s"
  by unfold_locales (auto simp: add_new_def)

section \<open>Values of type unknown\<close>

text \<open>\<open>JFrac\<close> is a number that is not an integer, by the text that \<open>String\<close> gives for it;
  negative zero is not told apart from zero. \<open>JObj\<close> lists the own properties in the order of
  \<open>Object.entries\<close>.\<close>

datatype jsval =
    JUndef
  | JNull
  | JBool bool
  | JInt int
  | JFrac string
  | JStr string
  | JArr "jsval list"
  | JObj "(string \<times> jsval) list"

text \<open>A key that is an array index: canonical decimal text of a number below \<open>2^32 - 1\<close>.\<close>

definition is_digit :: "char \<Rightarrow> bool" where
  "is_digit c = (let n = of_char c :: nat in 48 \<le> n \<and> n \<le> 57)"

definition is_letter :: "char \<Rightarrow> bool" where
  "is_letter c = (let n = of_char c :: nat in (65 \<le> n \<and> n \<le> 90) \<or> (97 \<le> n \<and> n \<le> 122))"

definition is_word_char :: "char \<Rightarrow> bool" where
  "is_word_char c \<longleftrightarrow> is_letter c \<or> is_digit c \<or> c = CHR ''_''"

definition decimal :: "string \<Rightarrow> nat" where
  "decimal s = foldl (\<lambda>n c. 10 * n + (of_char c - 48)) 0 s"

definition array_index :: "string \<Rightarrow> nat option" where
  "array_index s =
     (if s \<noteq> [] \<and> list_all is_digit s \<and> (s = ''0'' \<or> hd s \<noteq> CHR ''0'') \<and> decimal s < 4294967295
      then Some (decimal s) else None)"

text \<open>Whether a new key \<open>k\<close> goes before the existing key \<open>k'\<close>.\<close>

definition key_before :: "string \<Rightarrow> string \<Rightarrow> bool" where
  "key_before k k' =
     (case array_index k of
        None \<Rightarrow> False
      | Some n \<Rightarrow> (case array_index k' of None \<Rightarrow> True | Some n' \<Rightarrow> n < n'))"

fun obj_insert :: "string \<Rightarrow> 'v \<Rightarrow> (string \<times> 'v) list \<Rightarrow> (string \<times> 'v) list" where
  "obj_insert k v [] = [(k, v)]"
| "obj_insert k v ((k', v') # o') =
     (if key_before k k' then (k, v) # (k', v') # o' else (k', v') # obj_insert k v o')"

text \<open>\<open>o[k] = v\<close>. Assigning a primitive value to \<open>__proto__\<close> creates no property.\<close>

definition obj_set :: "string \<Rightarrow> 'v \<Rightarrow> (string \<times> 'v) list \<Rightarrow> (string \<times> 'v) list" where
  "obj_set k v ob =
     (if k = ''__proto__'' then ob
      else if k \<in> fst ` set ob then AList.update k v ob
      else obj_insert k v ob)"

lemma obj_insert_map_of:
  "k \<notin> fst ` set ob \<Longrightarrow> map_of (obj_insert k v ob) = (map_of ob)(k \<mapsto> v)"
  by (induction k v ob rule: obj_insert.induct) (auto simp: fun_upd_twist)

lemma set_obj_insert: "set (obj_insert k v ob) = insert (k, v) (set ob)"
  by (induction k v ob rule: obj_insert.induct) auto

lemma obj_set_get:
  "k \<noteq> ''__proto__'' \<Longrightarrow> map_of (obj_set k v ob) = (map_of ob)(k \<mapsto> v)"
  by (auto simp: obj_set_def obj_insert_map_of update_conv')

lemma obj_set_keys:
  "k \<noteq> ''__proto__'' \<Longrightarrow> fst ` set (obj_set k v ob) = insert k (fst ` set ob)"
  using obj_set_get[of k v ob] by (metis dom_fun_upd dom_map_of_conv_image_fst option.distinct(1))

lemma distinct_obj_insert:
  "k \<notin> fst ` set ob \<Longrightarrow> distinct (map fst ob) \<Longrightarrow> distinct (map fst (obj_insert k v ob))"
  by (induction k v ob rule: obj_insert.induct) (auto simp: set_obj_insert)

lemma distinct_obj_set: "distinct (map fst ob) \<Longrightarrow> distinct (map fst (obj_set k v ob))"
  by (auto simp: obj_set_def distinct_obj_insert distinct_update)

text \<open>\<open>Object.fromEntries\<close>: properties are defined, so \<open>__proto__\<close> is an ordinary key here.\<close>

definition obj_define :: "string \<Rightarrow> 'v \<Rightarrow> (string \<times> 'v) list \<Rightarrow> (string \<times> 'v) list" where
  "obj_define k v ob = (if k \<in> fst ` set ob then AList.update k v ob else obj_insert k v ob)"

definition from_entries :: "(string \<times> 'v) list \<Rightarrow> (string \<times> 'v) list" where
  "from_entries es = fold (\<lambda>(k, v). obj_define k v) es []"

definition undefined_or :: "'a option \<Rightarrow> ('a \<Rightarrow> jsval) \<Rightarrow> jsval" where
  "undefined_or x f = (case x of None \<Rightarrow> JUndef | Some v \<Rightarrow> f v)"

section \<open>JSON text\<close>

definition hex_digit :: "nat \<Rightarrow> char" where
  "hex_digit n = (if n < 10 then char_of (48 + n) else char_of (87 + n))"

definition unicode_escape :: "char \<Rightarrow> string" where
  "unicode_escape c =
     (let n = of_char c :: nat in CHR 92 # ''u00'' @ [hex_digit (n div 16), hex_digit (n mod 16)])"

definition json_char :: "char \<Rightarrow> string" where
  "json_char c =
     (let n = of_char c :: nat in
      if n = 34 then [CHR 92, CHR 34]
      else if n = 92 then [CHR 92, CHR 92]
      else if n = 8 then [CHR 92, CHR ''b'']
      else if n = 12 then [CHR 92, CHR ''f'']
      else if n = 10 then [CHR 92, CHR ''n'']
      else if n = 13 then [CHR 92, CHR ''r'']
      else if n = 9 then [CHR 92, CHR ''t'']
      else if n < 32 then unicode_escape c
      else [c])"

definition json_string :: "string \<Rightarrow> string" where
  "json_string s = CHR 34 # concat (map json_char s) @ [CHR 34]"

end
