(* ===== verification/Directives.thy ===== *)
theory Directives
  imports JsData
begin

text \<open>
  The directive recognisers of \<open>scripts/emit/src/directives.ts\<close>. Each regular expression is
  read left to right with \<open>dropWhile\<close> and \<open>takeWhile\<close>: in both expressions every repeated class
  is disjoint from what must follow it, so the greedy match is the only one. The grammar lemmas
  say the same without an algorithm.
\<close>

record directive_line =
  d_key :: string
  d_val :: string

text \<open>\<open>[A-Za-z0-9_]\<close> and, for flags, \<open>[A-Za-z0-9_-]\<close>.\<close>

definition is_word :: "char \<Rightarrow> bool" where
  "is_word c =
     (let n = of_char c :: nat in
      (65 \<le> n \<and> n \<le> 90) \<or> (97 \<le> n \<and> n \<le> 122) \<or> (48 \<le> n \<and> n \<le> 57) \<or> n = 95)"

definition is_flag_char :: "char \<Rightarrow> bool" where
  "is_flag_char c \<longleftrightarrow> is_word c \<or> c = CHR ''-''"

definition cr :: char where "cr = CHR 13"

definition lf :: char where "lf = CHR 10"

definition strip_cr :: "string \<Rightarrow> string" where
  "strip_cr line = replace_suffix [cr] [] line"

text \<open>The common head \<open>^\s*//\s*@\<close> of both expressions: what follows it.\<close>

definition after_at :: "string \<Rightarrow> string option" where
  "after_at s =
     (let s1 = dropWhile is_ws s in
      if \<not> starts_with s1 ''//'' then None
      else case dropWhile is_ws (drop 2 s1) of
             [] \<Rightarrow> None
           | c # s2 \<Rightarrow> if c = CHR ''@'' then Some s2 else None)"

definition no_newline :: "string \<Rightarrow> bool" where
  "no_newline s \<longleftrightarrow> cr \<notin> set s \<and> lf \<notin> set s"

definition parseDirectiveLine :: "string \<Rightarrow> directive_line option" where
  "parseDirectiveLine line =
     (case after_at (strip_cr line) of
        None \<Rightarrow> None
      | Some s \<Rightarrow>
          let k = takeWhile is_word s; rest = dropWhile is_ws (dropWhile is_word s) in
          if k = [] then None
          else case rest of
                 [] \<Rightarrow> None
               | c # v \<Rightarrow>
                   if c = CHR '':'' \<and> no_newline v
                   then Some \<lparr>d_key = to_lower k, d_val = trim v\<rparr> else None)"

definition parseFlagDirectiveLine :: "string \<Rightarrow> string option" where
  "parseFlagDirectiveLine line =
     (case after_at (strip_cr line) of
        None \<Rightarrow> None
      | Some s \<Rightarrow>
          let name = takeWhile is_flag_char s; rest = dropWhile is_flag_char s in
          if name = [] then None
          else if list_all is_ws rest then Some name else None)"

definition splitListValues :: "string \<Rightarrow> string list" where
  "splitListValues v = filter (\<lambda>p. 0 < length p) (map trim (split_on '','' v))"

definition firstListValue :: "string \<Rightarrow> string" where
  "firstListValue v = trim (hd (split_on '','' v))"

section \<open>The character classes\<close>

lemma ws_chars [simp]:
  "\<not> is_ws (CHR ''/'')" "\<not> is_ws (CHR ''@'')" "\<not> is_ws (CHR '':'')" "\<not> is_ws (CHR '','')"
  "\<not> is_ws (CHR ''-'')" "\<not> is_ws (CHR ''.'')"
  by (simp_all add: is_ws_def)

lemma word_not_ws: "is_word c \<Longrightarrow> \<not> is_ws c"
  by (auto simp: is_word_def is_ws_def Let_def)

lemma flag_not_ws: "is_flag_char c \<Longrightarrow> \<not> is_ws c"
  by (auto simp: is_flag_char_def word_not_ws)

lemma colon_not_word [simp]: "\<not> is_word (CHR '':'')" "\<not> is_flag_char (CHR '':'')"
  by (simp_all add: is_word_def is_flag_char_def)

lemma dropWhile_span:
  "\<forall>c \<in> set w. P c \<Longrightarrow> r = [] \<or> \<not> P (hd r) \<Longrightarrow> dropWhile P (w @ r) = r"
  by (induction w) (auto simp: dropWhile_eq_self_iff)

lemma takeWhile_span:
  "\<forall>c \<in> set w. P c \<Longrightarrow> r = [] \<or> \<not> P (hd r) \<Longrightarrow> takeWhile P (w @ r) = w"
  by (induction w) (auto simp: takeWhile_eq_Nil_iff)

lemma span_ex: "\<exists>w. s = w @ dropWhile P s \<and> (\<forall>c \<in> set w. P c)"
  by (metis set_takeWhileD takeWhile_dropWhile_id)

section \<open>The grammar\<close>

lemma after_at_iff:
  "after_at s = Some t \<longleftrightarrow>
     (\<exists>w1 w2. s = w1 @ ''//'' @ w2 @ ''@'' @ t \<and> (\<forall>c \<in> set w1 \<union> set w2. is_ws c))"
proof
  assume a: "after_at s = Some t"
  obtain w1 where w1: "s = w1 @ dropWhile is_ws s" "\<forall>c \<in> set w1. is_ws c"
    using span_ex[of s is_ws] by auto
  have "starts_with (dropWhile is_ws s) ''//''"
    using a by (auto simp: after_at_def Let_def split: if_splits)
  then obtain r where r: "dropWhile is_ws s = ''//'' @ r" by (auto simp: starts_with_iff)
  obtain w2 where w2: "r = w2 @ dropWhile is_ws r" "\<forall>c \<in> set w2. is_ws c"
    using span_ex[of r is_ws] by auto
  have t: "dropWhile is_ws r = CHR ''@'' # t"
    using a r by (auto simp: after_at_def Let_def split: if_splits list.splits)
  have "s = w1 @ ''//'' @ w2 @ ''@'' @ t" using w1(1)[unfolded r] w2(1)[unfolded t] by simp
  then show "\<exists>w1 w2. s = w1 @ ''//'' @ w2 @ ''@'' @ t \<and> (\<forall>c \<in> set w1 \<union> set w2. is_ws c)"
    using w1(2) w2(2) by blast
next
  assume "\<exists>w1 w2. s = w1 @ ''//'' @ w2 @ ''@'' @ t \<and> (\<forall>c \<in> set w1 \<union> set w2. is_ws c)"
  then obtain w1 w2 where s: "s = w1 @ ''//'' @ w2 @ ''@'' @ t"
    and w: "\<forall>c \<in> set w1. is_ws c" "\<forall>c \<in> set w2. is_ws c" by blast
  have "dropWhile is_ws s = ''//'' @ w2 @ ''@'' @ t" using s w(1) by (simp add: dropWhile_span)
  moreover have "dropWhile is_ws (w2 @ ''@'' @ t) = ''@'' @ t" using w(2) by (simp add: dropWhile_span)
  ultimately show "after_at s = Some t" by (simp add: after_at_def Let_def)
qed

text \<open>A line is a key/value directive exactly when, after an optional final carriage return
  is dropped, it reads: white space, two slashes, white space, an at sign, a word, white space,
  a colon, and a rest without line breaks; the key is the word in lower case and the value the
  trimmed rest.\<close>

theorem parseDirectiveLine_grammar:
  "parseDirectiveLine line = Some d \<longleftrightarrow>
     (\<exists>w1 w2 k w3 v.
        strip_cr line = w1 @ ''//'' @ w2 @ ''@'' @ k @ w3 @ '':'' @ v \<and>
        (\<forall>c \<in> set w1 \<union> set w2 \<union> set w3. is_ws c) \<and>
        k \<noteq> [] \<and> (\<forall>c \<in> set k. is_word c) \<and> no_newline v \<and>
        d = \<lparr>d_key = to_lower k, d_val = trim v\<rparr>)"
proof
  assume a: "parseDirectiveLine line = Some d"
  then obtain s where s: "after_at (strip_cr line) = Some s"
    by (auto simp: parseDirectiveLine_def split: option.splits)
  define k where "k = takeWhile is_word s"
  have sk: "s = k @ dropWhile is_word s" by (simp add: k_def)
  have kw: "\<forall>c \<in> set k. is_word c" unfolding k_def by (metis set_takeWhileD)
  obtain w3 where w3: "dropWhile is_word s = w3 @ dropWhile is_ws (dropWhile is_word s)"
    "\<forall>c \<in> set w3. is_ws c" using span_ex[of "dropWhile is_word s" is_ws] by auto
  obtain v where v: "dropWhile is_ws (dropWhile is_word s) = CHR '':'' # v" "k \<noteq> []" "no_newline v"
    "d = \<lparr>d_key = to_lower k, d_val = trim v\<rparr>"
    using a s by (auto simp: parseDirectiveLine_def Let_def k_def split: if_splits list.splits)
  have "s = k @ w3 @ '':'' @ v" using sk[unfolded w3(1)[unfolded v(1)]] by simp
  moreover obtain w1 w2 where "strip_cr line = w1 @ ''//'' @ w2 @ ''@'' @ s"
    "\<forall>c \<in> set w1 \<union> set w2. is_ws c" using s by (auto simp: after_at_iff)
  ultimately show "\<exists>w1 w2 k w3 v.
        strip_cr line = w1 @ ''//'' @ w2 @ ''@'' @ k @ w3 @ '':'' @ v \<and>
        (\<forall>c \<in> set w1 \<union> set w2 \<union> set w3. is_ws c) \<and>
        k \<noteq> [] \<and> (\<forall>c \<in> set k. is_word c) \<and> no_newline v \<and>
        d = \<lparr>d_key = to_lower k, d_val = trim v\<rparr>"
    using kw w3(2) v(2-4) by blast
next
  assume "\<exists>w1 w2 k w3 v.
        strip_cr line = w1 @ ''//'' @ w2 @ ''@'' @ k @ w3 @ '':'' @ v \<and>
        (\<forall>c \<in> set w1 \<union> set w2 \<union> set w3. is_ws c) \<and>
        k \<noteq> [] \<and> (\<forall>c \<in> set k. is_word c) \<and> no_newline v \<and>
        d = \<lparr>d_key = to_lower k, d_val = trim v\<rparr>"
  then obtain w1 w2 k w3 v where l: "strip_cr line = w1 @ ''//'' @ w2 @ ''@'' @ k @ w3 @ '':'' @ v"
    and w: "\<forall>c \<in> set w1 \<union> set w2. is_ws c" "\<forall>c \<in> set w3. is_ws c"
    and k: "k \<noteq> []" "\<forall>c \<in> set k. is_word c" and v: "no_newline v"
    and d: "d = \<lparr>d_key = to_lower k, d_val = trim v\<rparr>" by blast
  have at: "after_at (strip_cr line) = Some (k @ w3 @ '':'' @ v)"
    using l w(1) by (subst after_at_iff) blast
  have h: "w3 @ '':'' @ v = [] \<or> \<not> is_word (hd (w3 @ '':'' @ v))"
    using w(2) word_not_ws by (cases w3) auto
  have "takeWhile is_word (k @ w3 @ '':'' @ v) = k" "dropWhile is_word (k @ w3 @ '':'' @ v) = w3 @ '':'' @ v"
    using takeWhile_span[OF k(2) h] dropWhile_span[OF k(2) h] by simp_all
  moreover have "dropWhile is_ws (w3 @ '':'' @ v) = '':'' @ v" using w(2) by (simp add: dropWhile_span)
  ultimately show "parseDirectiveLine line = Some d"
    using at k(1) v d by (simp add: parseDirectiveLine_def Let_def)
qed

theorem parseDirectiveLine_grammar_witness:
  "parseDirectiveLine '' //@Lib : es5, dom '' = Some \<lparr>d_key = ''lib'', d_val = ''es5, dom''\<rparr>"
proof (subst parseDirectiveLine_grammar, intro exI conjI)
  show "strip_cr '' //@Lib : es5, dom '' = '' '' @ ''//'' @ [] @ ''@'' @ ''Lib'' @ '' '' @ '':'' @ '' es5, dom ''"
    by code_simp
qed code_simp+

lemma parseFlagDirectiveLine_grammar:
  "parseFlagDirectiveLine line = Some n \<longleftrightarrow>
     (\<exists>w1 w2 w3. strip_cr line = w1 @ ''//'' @ w2 @ ''@'' @ n @ w3 \<and>
        (\<forall>c \<in> set w1 \<union> set w2 \<union> set w3. is_ws c) \<and> n \<noteq> [] \<and> (\<forall>c \<in> set n. is_flag_char c))"
proof
  assume a: "parseFlagDirectiveLine line = Some n"
  then obtain s where s: "after_at (strip_cr line) = Some s"
    by (auto simp: parseFlagDirectiveLine_def split: option.splits)
  then obtain w1 w2 where w: "strip_cr line = w1 @ ''//'' @ w2 @ ''@'' @ s"
    "\<forall>c \<in> set w1 \<union> set w2. is_ws c" by (auto simp: after_at_iff)
  have n: "n = takeWhile is_flag_char s" "n \<noteq> []" "\<forall>c \<in> set (dropWhile is_flag_char s). is_ws c"
    using a s by (auto simp: parseFlagDirectiveLine_def Let_def list_all_iff split: if_splits)
  have "strip_cr line = w1 @ ''//'' @ w2 @ ''@'' @ n @ dropWhile is_flag_char s"
    using w(1) n(1) by simp
  moreover have "\<forall>c \<in> set n. is_flag_char c" using n(1) by (metis set_takeWhileD)
  ultimately show "\<exists>w1 w2 w3. strip_cr line = w1 @ ''//'' @ w2 @ ''@'' @ n @ w3 \<and>
        (\<forall>c \<in> set w1 \<union> set w2 \<union> set w3. is_ws c) \<and> n \<noteq> [] \<and> (\<forall>c \<in> set n. is_flag_char c)"
    using w(2) n(2,3) by blast
next
  assume "\<exists>w1 w2 w3. strip_cr line = w1 @ ''//'' @ w2 @ ''@'' @ n @ w3 \<and>
        (\<forall>c \<in> set w1 \<union> set w2 \<union> set w3. is_ws c) \<and> n \<noteq> [] \<and> (\<forall>c \<in> set n. is_flag_char c)"
  then obtain w1 w2 w3 where l: "strip_cr line = w1 @ ''//'' @ w2 @ ''@'' @ n @ w3"
    and w: "\<forall>c \<in> set w1 \<union> set w2. is_ws c" "\<forall>c \<in> set w3. is_ws c"
    and n: "n \<noteq> []" "\<forall>c \<in> set n. is_flag_char c" by blast
  have at: "after_at (strip_cr line) = Some (n @ w3)" using l w(1) by (subst after_at_iff) blast
  have h: "w3 = [] \<or> \<not> is_flag_char (hd w3)" using w(2) flag_not_ws by (cases w3) auto
  show "parseFlagDirectiveLine line = Some n"
    using at n(1) w(2) takeWhile_span[OF n(2) h] dropWhile_span[OF n(2) h]
    by (simp add: parseFlagDirectiveLine_def Let_def list_all_iff)
qed

text \<open>No line is both a key/value directive and a flag, so the order in which the callers try
  the two recognisers does not matter.\<close>

lemma directive_not_flag:
  assumes "parseDirectiveLine line = Some d"
  shows "parseFlagDirectiveLine line = None"
proof (cases "after_at (strip_cr line)")
  case None
  then show ?thesis by (simp add: parseFlagDirectiveLine_def)
next
  case (Some s)
  obtain v where "dropWhile is_ws (dropWhile is_word s) = CHR '':'' # v"
    using assms Some by (auto simp: parseDirectiveLine_def Let_def split: if_splits list.splits)
  then have "CHR '':'' \<in> set s" by (metis list.set_intros(1) set_dropWhileD)
  then have "CHR '':'' \<in> set (takeWhile is_flag_char s) \<or> CHR '':'' \<in> set (dropWhile is_flag_char s)"
    by (metis Un_iff set_append takeWhile_dropWhile_id)
  then have "CHR '':'' \<in> set (dropWhile is_flag_char s)"
    by (metis colon_not_word(2) set_takeWhileD)
  then have "\<not> list_all is_ws (dropWhile is_flag_char s)" unfolding list_all_iff using ws_chars(3) by blast
  then show ?thesis using Some by (simp add: parseFlagDirectiveLine_def Let_def)
qed

section \<open>List values\<close>

lemma split_trim_id:
  "trim x = x \<Longrightarrow> x \<noteq> [] \<Longrightarrow> CHR '','' \<notin> set x \<Longrightarrow> splitListValues x = [x]"
  using split_on_join[of "[x]" "CHR '',''"] by (simp add: splitListValues_def)

lemma splitListValues_items:
  "x \<in> set (splitListValues v) \<Longrightarrow> x \<noteq> [] \<and> trim x = x \<and> CHR '','' \<notin> set x"
  using set_trim split_on_parts by (fastforce simp: splitListValues_def)

text \<open>Splitting a list value is stable: the parts joined by commas split into the same
  parts, so a value the harness renders for the command line is read back unchanged.\<close>

theorem splitListValues_roundtrip:
  "splitListValues (join '','' (splitListValues v)) = splitListValues v"
proof (cases "splitListValues v = []")
  case True
  then show ?thesis by (simp add: splitListValues_def split_on_def)
next
  case False
  have "split_on '','' (join '','' (splitListValues v)) = splitListValues v"
    using False splitListValues_items by (intro split_on_join) auto
  moreover have "map trim (splitListValues v) = splitListValues v"
    using splitListValues_items by (simp add: map_idI)
  moreover have "filter (\<lambda>p. 0 < length p) (splitListValues v) = splitListValues v"
    using splitListValues_items by (intro filter_True) auto
  ultimately show ?thesis by (simp add: splitListValues_def[of "join '','' (splitListValues v)"])
qed

text \<open>The first list value is the first part of the split value, unless it is blank.\<close>

lemma firstListValue_hd:
  "firstListValue v \<noteq> [] \<Longrightarrow> hd (splitListValues v) = firstListValue v"
  by (cases "split_on '','' v") (auto simp: firstListValue_def splitListValues_def)

end
