(* ===== verification/NodePath.thy ===== *)
theory NodePath
  imports Directives
begin

text \<open>
  The functions of the platform's POSIX path module that the program calls: \<open>normalize\<close>,
  \<open>resolve\<close> with the working directory as an argument, \<open>join\<close>, \<open>relative\<close>, \<open>dirname\<close>,
  \<open>basename\<close> and \<open>isAbsolute\<close>. Every one works on the segments between slashes; \<open>norm_go\<close>
  is the common loop, with the kept segments on a stack.
\<close>

definition segments :: "string \<Rightarrow> string list" where
  "segments s = split_on ''/'' s"

fun norm_go :: "bool \<Rightarrow> string list \<Rightarrow> string list \<Rightarrow> string list" where
  "norm_go aboveRoot acc [] = rev acc"
| "norm_go aboveRoot acc (s # ss) =
     (if s = [] \<or> s = ''.'' then norm_go aboveRoot acc ss
      else if s = ''..'' then
        (case acc of
           [] \<Rightarrow> norm_go aboveRoot (if aboveRoot then [''..''] else []) ss
         | a # acc' \<Rightarrow>
             if a \<noteq> ''..'' then norm_go aboveRoot acc' ss
             else norm_go aboveRoot (if aboveRoot then ''..'' # acc else acc) ss)
      else norm_go aboveRoot (s # acc) ss)"

definition isAbsolute :: "string \<Rightarrow> bool" where
  "isAbsolute s \<longleftrightarrow> starts_with s ''/''"

definition path_normalize :: "string \<Rightarrow> string" where
  "path_normalize s =
     (if s = [] then ''.''
      else
        let ab = isAbsolute s; trailing = ends_with s ''/'';
            body = join ''/'' (norm_go (\<not> ab) [] (segments s))
        in if body = [] then (if ab then ''/'' else if trailing then ''./'' else ''.'')
           else (if ab then ''/'' else []) @ body @ (if trailing then ''/'' else []))"

fun resolve_go :: "string list \<Rightarrow> string \<Rightarrow> string" where
  "resolve_go [] acc = acc"
| "resolve_go (p # ps) acc =
     (if p = [] then resolve_go ps acc
      else if isAbsolute p then p @ ''/'' @ acc
      else resolve_go ps (p @ ''/'' @ acc))"

definition path_resolve :: "string \<Rightarrow> string list \<Rightarrow> string" where
  "path_resolve cwd args =
     (let r = resolve_go (rev args @ [cwd]) [];
          body = join ''/'' (norm_go (\<not> isAbsolute r) [] (segments r))
      in if isAbsolute r then ''/'' @ body else if body = [] then ''.'' else body)"

definition path_join :: "string list \<Rightarrow> string" where
  "path_join args =
     (let j = join ''/'' (filter (\<lambda>a. a \<noteq> []) args) in if j = [] then ''.'' else path_normalize j)"

fun common_prefix :: "string list \<Rightarrow> string list \<Rightarrow> nat" where
  "common_prefix (x # xs) (y # ys) = (if x = y then Suc (common_prefix xs ys) else 0)"
| "common_prefix xs ys = 0"

text \<open>The segments of a resolved absolute path.\<close>

definition abs_segments :: "string \<Rightarrow> string list" where
  "abs_segments s = norm_go False [] (segments s)"

definition path_relative :: "string \<Rightarrow> string \<Rightarrow> string \<Rightarrow> string" where
  "path_relative cwd fromDir toFile =
     (let f = abs_segments (path_resolve cwd [fromDir]); t = abs_segments (path_resolve cwd [toFile]);
          n = common_prefix f t
      in join ''/'' (replicate (length f - n) ''..'' @ drop n t))"

definition path_dirname :: "string \<Rightarrow> string" where
  "path_dirname s =
     (let t = rev (dropWhile (\<lambda>c. c = CHR ''/'') (rev s));
          d = rev (dropWhile (\<lambda>c. c = CHR ''/'') (dropWhile (\<lambda>c. c \<noteq> CHR ''/'') (rev t)))
      in if t = [] then (if s = [] then ''.'' else ''/'')
         else if CHR ''/'' \<notin> set t then ''.''
         else if d = [] then ''/'' else d)"

definition path_basename :: "string \<Rightarrow> string" where
  "path_basename s =
     rev (takeWhile (\<lambda>c. c \<noteq> CHR ''/'') (dropWhile (\<lambda>c. c = CHR ''/'') (rev s)))"

definition abs_text :: "string list \<Rightarrow> string" where
  "abs_text cs = ''/'' @ join ''/'' cs"

section \<open>Laws\<close>

text \<open>A kept segment is a name: not empty, not a dot, without a slash; above a root also not two
  dots.\<close>

definition is_name :: "string \<Rightarrow> bool" where
  "is_name s \<longleftrightarrow> s \<noteq> [] \<and> s \<noteq> ''.'' \<and> s \<noteq> ''..'' \<and> CHR ''/'' \<notin> set s"

lemma segments_no_slash: "s \<in> set (segments p) \<Longrightarrow> CHR ''/'' \<notin> set s"
  unfolding segments_def by (rule split_on_parts)

lemma norm_go_names:
  "\<forall>a \<in> set acc. is_name a \<Longrightarrow> \<forall>s \<in> set ss. CHR ''/'' \<notin> set s \<Longrightarrow>
   \<forall>a \<in> set (norm_go False acc ss). is_name a"
proof (induction ss arbitrary: acc)
  case Nil
  then show ?case by simp
next
  case (Cons s ss)
  consider "s = [] \<or> s = ''.''" | "s = ''..''" | "is_name s" using Cons.prems(2) by (auto simp: is_name_def)
  then show ?case
  proof cases
    case 1
    then have "norm_go False acc (s # ss) = norm_go False acc ss" by auto
    then show ?thesis using Cons by simp
  next
    case 2
    have "\<exists>acc'. set acc' \<subseteq> set acc \<and> norm_go False acc (s # ss) = norm_go False acc' ss"
    proof (cases acc)
      case Nil
      then show ?thesis using 2 by auto
    next
      case (Cons a as)
      then show ?thesis using 2 by (cases "a = ''..''") (auto intro: exI[of _ acc] exI[of _ as])
    qed
    then obtain acc' where a: "set acc' \<subseteq> set acc" "norm_go False acc (s # ss) = norm_go False acc' ss" by blast
    have "\<forall>x \<in> set acc'. is_name x" using Cons.prems(1) a(1) by blast
    then show ?thesis unfolding a(2) using Cons.prems(2) by (intro Cons.IH) simp_all
  next
    case 3
    then have eq: "norm_go False acc (s # ss) = norm_go False (s # acc) ss" by (simp add: is_name_def)
    have "\<forall>x \<in> set (norm_go False (s # acc) ss). is_name x"
      using Cons.prems 3 by (intro Cons.IH) simp_all
    then show ?thesis by (simp only: eq)
  qed
qed

lemma norm_go_up_names:
  "\<forall>a \<in> set acc. is_name a \<or> a = ''..'' \<Longrightarrow> \<forall>s \<in> set ss. CHR ''/'' \<notin> set s \<Longrightarrow>
   \<forall>a \<in> set (norm_go True acc ss). is_name a \<or> a = ''..''"
proof (induction ss arbitrary: acc)
  case Nil
  then show ?case by simp
next
  case (Cons s ss)
  have "\<exists>acc'. (\<forall>a \<in> set acc'. is_name a \<or> a = ''..'') \<and> norm_go True acc (s # ss) = norm_go True acc' ss"
  proof (cases "s = [] \<or> s = ''.''")
    case True
    then show ?thesis using Cons.prems(1) by auto
  next
    case False
    then have n: "is_name s \<or> s = ''..''" using Cons.prems(2) by (auto simp: is_name_def)
    show ?thesis
    proof (cases "s = ''..'' \<and> acc \<noteq> [] \<and> hd acc \<noteq> ''..''")
      case True
      then have "norm_go True acc (s # ss) = norm_go True (tl acc) ss" by (cases acc) auto
      moreover have "\<forall>a \<in> set (tl acc). is_name a \<or> a = ''..''"
        using Cons.prems(1) True by (cases acc) auto
      ultimately show ?thesis by blast
    next
      case p: False
      then have "norm_go True acc (s # ss) = norm_go True (s # acc) ss" using False by (cases acc) auto
      moreover have "\<forall>a \<in> set (s # acc). is_name a \<or> a = ''..''" using Cons.prems(1) n by auto
      ultimately show ?thesis by blast
    qed
  qed
  then obtain acc' where a: "\<forall>a \<in> set acc'. is_name a \<or> a = ''..''"
    "norm_go True acc (s # ss) = norm_go True acc' ss" by blast
  show ?case unfolding a(2) using a(1) Cons.prems(2) by (intro Cons.IH) simp_all
qed

lemma abs_segments_names: "\<forall>a \<in> set (abs_segments p). is_name a"
  unfolding abs_segments_def by (rule norm_go_names) (use segments_no_slash in simp_all)

lemma norm_go_append: "norm_go u acc (xs @ ys) = norm_go u (rev (norm_go u acc xs)) ys"
proof -
  have "norm_go True acc (xs @ ys) = norm_go True (rev (norm_go True acc xs)) ys" for acc
    by (induction xs arbitrary: acc) (simp_all split: list.split)
  moreover have "norm_go False acc (xs @ ys) = norm_go False (rev (norm_go False acc xs)) ys" for acc
    by (induction xs arbitrary: acc) (simp_all split: list.split)
  ultimately show ?thesis by (cases u) simp_all
qed

lemma norm_go_Cons: "norm_go u acc (s # ss) = norm_go u (rev (norm_go u acc [s])) ss"
  using norm_go_append[of u acc "[s]" ss] by simp

lemma norm_go_id: "\<forall>a \<in> set xs. is_name a \<Longrightarrow> norm_go u acc xs = rev acc @ xs"
  by (induction xs arbitrary: acc) (auto simp: is_name_def)

lemma norm_go_Nil_seg: "norm_go u acc ([] # ss) = norm_go u acc ss"
  by simp

lemma segments_join:
  "cs \<noteq> [] \<Longrightarrow> \<forall>c \<in> set cs. CHR ''/'' \<notin> set c \<Longrightarrow> segments (join ''/'' cs) = cs"
  unfolding segments_def by (rule split_on_join) auto

lemma segments_char: "CHR ''/'' \<notin> set a \<Longrightarrow> segments (a @ ''/'' @ t) = a # segments t"
  using split_go_char[of "CHR ''/''" a "[]" t] by (simp add: segments_def split_on_def)

lemma split_go_append_char:
  "split_go [c] acc (s @ c # t) = split_go [c] acc s @ split_go [c] [] t"
proof (induction s arbitrary: acc)
  case Nil
  then show ?case by simp
next
  case (Cons d s)
  then show ?case by (cases "d = c") simp_all
qed

lemma segments_append: "segments (s @ ''/'' @ t) = segments s @ segments t"
  using split_go_append_char[of "CHR ''/''" "[]" s t] by (simp add: segments_def split_on_def)

lemma segments_Nil [simp]: "segments [] = [[]]"
  by (simp add: segments_def split_on_def)

lemma norm_join_segments:
  "\<forall>c \<in> set cs. CHR ''/'' \<notin> set c \<Longrightarrow> norm_go u acc (segments (join ''/'' cs)) = norm_go u acc cs"
  by (cases "cs = []") (simp_all add: segments_join)

lemma abs_segments_text: "\<forall>a \<in> set cs. is_name a \<Longrightarrow> abs_segments (abs_text cs) = cs"
proof -
  assume n: "\<forall>a \<in> set cs. is_name a"
  have "segments (abs_text cs) = [] # segments (join ''/'' cs)"
    using segments_char[of "[]" "join ''/'' cs"] by (simp add: abs_text_def)
  then have "abs_segments (abs_text cs) = norm_go False [] (segments (join ''/'' cs))"
    by (simp add: abs_segments_def)
  also have "\<dots> = norm_go False [] cs" using n by (intro norm_join_segments) (simp add: is_name_def)
  also have "\<dots> = cs" using norm_go_id[OF n, of False "[]"] by simp
  finally show ?thesis .
qed

text \<open>Normalising a relative path first does not change where it leads.\<close>

lemma norm_go_pre:
  "\<forall>b \<in> set bcc. b \<noteq> [] \<and> b \<noteq> ''.'' \<Longrightarrow>
   norm_go False acc (norm_go True bcc ss) = norm_go False (rev (norm_go False acc (rev bcc))) ss"
proof (induction ss arbitrary: bcc)
  case Nil
  then show ?case by simp
next
  case (Cons s ss)
  let ?X = "norm_go False acc (rev bcc)"
  have push: "norm_go False acc (norm_go True (s # bcc) ss) = norm_go False (rev ?X) (s # ss)"
    if "s \<noteq> []" "s \<noteq> ''.''"
  proof -
    have "norm_go False acc (norm_go True (s # bcc) ss) = norm_go False (rev (norm_go False acc (rev (s # bcc)))) ss"
      using Cons that by simp
    also have "\<dots> = norm_go False (rev (norm_go False (rev ?X) [s])) ss" by (simp only: rev.simps norm_go_append)
    also have "\<dots> = norm_go False (rev ?X) (s # ss)" by (rule norm_go_Cons[symmetric])
    finally show ?thesis .
  qed
  consider "s = [] \<or> s = ''.''" | "s \<noteq> []" "s \<noteq> ''.''" "s \<noteq> ''..'' \<or> bcc = [] \<or> hd bcc = ''..''"
    | b bs where "s = ''..''" "bcc = b # bs" "b \<noteq> ''..''"
    by (cases bcc) auto
  then show ?case
  proof cases
    case 1
    then have "norm_go True bcc (s # ss) = norm_go True bcc ss" "norm_go False (rev ?X) (s # ss) = norm_go False (rev ?X) ss"
      by auto
    then show ?thesis using Cons by simp
  next
    case 2
    then have "norm_go True bcc (s # ss) = norm_go True (s # bcc) ss" by (cases bcc) auto
    then show ?thesis using push[OF 2(1,2)] by simp
  next
    case 3
    let ?Y = "norm_go False acc (rev bs)"
    have b: "b \<noteq> []" "b \<noteq> ''.''" using Cons.prems 3(2) by auto
    have "norm_go True bcc (s # ss) = norm_go True bs ss" using 3 by simp
    moreover have "norm_go False acc (norm_go True bs ss) = norm_go False (rev ?Y) ss"
      using Cons 3(2) by simp
    moreover have "?X = norm_go False (rev ?Y) [b]" unfolding 3(2) rev.simps by (rule norm_go_append)
    then have "?X = ?Y @ [b]" using b 3(3) by simp
    then have "norm_go False (rev ?X) (s # ss) = norm_go False (rev ?Y) ss" using 3(1,3) by simp
    ultimately show ?thesis by simp
  qed
qed

text \<open>Resolving against an absolute directory.\<close>

definition resolve_segs :: "string list \<Rightarrow> string list \<Rightarrow> string list" where
  "resolve_segs st args =
     fold (\<lambda>a st. if isAbsolute a then abs_segments a else norm_go False (rev st) (segments a)) args st"

lemma absolute_not_Nil: "isAbsolute s \<Longrightarrow> s \<noteq> []"
  by (auto simp: isAbsolute_def)

lemma absolute_append: "isAbsolute s \<Longrightarrow> isAbsolute (s @ t)"
  by (auto simp: isAbsolute_def starts_with_iff)

lemma norm_base: "norm_go False [] (segments (s @ ''/'' @ t)) = norm_go False (rev (abs_segments s)) (segments t)"
  by (simp only: segments_append norm_go_append abs_segments_def)

lemma resolve_go_segs:
  assumes "isAbsolute cwd"
  shows "isAbsolute (resolve_go (rev args @ [cwd]) acc) \<and>
    norm_go False [] (segments (resolve_go (rev args @ [cwd]) acc)) =
      norm_go False (rev (resolve_segs (abs_segments cwd) args)) (segments acc)"
proof (induction args arbitrary: acc rule: rev_induct)
  case Nil
  have "resolve_go (rev [] @ [cwd]) acc = cwd @ ''/'' @ acc"
    using assms absolute_not_Nil by simp
  then show ?case using assms absolute_append norm_base by (simp add: resolve_segs_def del: append.simps)
next
  case (snoc a args)
  let ?st = "resolve_segs (abs_segments cwd) args"
  consider "a = []" | "isAbsolute a" | "a \<noteq> []" "\<not> isAbsolute a" by blast
  then show ?case
  proof cases
    case 1
    then have "resolve_segs (abs_segments cwd) (args @ [a]) = ?st"
      by (simp add: resolve_segs_def isAbsolute_def)
    then show ?thesis using snoc[of acc] 1 by simp
  next
    case 2
    then have "resolve_go (rev (args @ [a]) @ [cwd]) acc = a @ ''/'' @ acc"
      using absolute_not_Nil by auto
    moreover have "resolve_segs (abs_segments cwd) (args @ [a]) = abs_segments a"
      using 2 by (simp add: resolve_segs_def)
    ultimately show ?thesis using 2 absolute_append norm_base by (simp del: append.simps)
  next
    case 3
    then have "resolve_go (rev (args @ [a]) @ [cwd]) acc = resolve_go (rev args @ [cwd]) (a @ ''/'' @ acc)"
      by simp
    moreover have "resolve_segs (abs_segments cwd) (args @ [a]) = norm_go False (rev ?st) (segments a)"
      using 3 by (simp add: resolve_segs_def)
    ultimately show ?thesis using snoc[of "a @ ''/'' @ acc"]
      by (simp only: segments_append norm_go_append)
  qed
qed

text \<open>\<open>resolve\<close> from an absolute working directory: the segments of every argument in turn, an
  absolute argument starting over.\<close>

lemma path_resolve_segs:
  "isAbsolute cwd \<Longrightarrow> path_resolve cwd args = abs_text (resolve_segs (abs_segments cwd) args)"
  using resolve_go_segs[of cwd args "[]"] by (simp add: path_resolve_def Let_def abs_text_def)

lemma resolve_segs_names:
  "\<forall>a \<in> set st. is_name a \<Longrightarrow> \<forall>a \<in> set (resolve_segs st args). is_name a"
proof (induction args arbitrary: st)
  case (Cons a args)
  have "\<forall>x \<in> set (if isAbsolute a then abs_segments a else norm_go False (rev st) (segments a)). is_name x"
  proof (cases "isAbsolute a")
    case True
    then show ?thesis using abs_segments_names by simp
  next
    case False
    have "\<forall>x \<in> set (norm_go False (rev st) (segments a)). is_name x"
      using Cons.prems segments_no_slash by (intro norm_go_names) auto
    then show ?thesis using False by simp
  qed
  then show ?case using Cons.IH by (simp only: resolve_segs_def fold_Cons comp_apply)
qed (simp add: resolve_segs_def)

lemma abs_segments_resolve:
  assumes "isAbsolute cwd"
  shows "abs_segments (path_resolve cwd args) = resolve_segs (abs_segments cwd) args"
  unfolding path_resolve_segs[OF assms]
  by (rule abs_segments_text[OF resolve_segs_names[OF abs_segments_names]])

lemma isAbsolute_text [simp]: "isAbsolute (abs_text cs)"
  by (simp add: isAbsolute_def abs_text_def)

lemma resolve_segs_snoc:
  "resolve_segs st (args @ [a]) =
     (if isAbsolute a then abs_segments a else norm_go False (rev (resolve_segs st args)) (segments a))"
  by (simp add: resolve_segs_def)

text \<open>Relative to a directory and resolved against it again, a path is where it was.\<close>

lemma common_prefix_take:
  "take (common_prefix xs ys) xs = take (common_prefix xs ys) ys"
  "common_prefix xs ys \<le> length xs" "common_prefix xs ys \<le> length ys"
  by (induction xs ys rule: common_prefix.induct) auto

lemma norm_go_ups:
  "n \<le> length acc \<Longrightarrow> \<forall>a \<in> set acc. is_name a \<Longrightarrow>
   norm_go False acc (replicate n ''..'' @ ss) = norm_go False (drop n acc) ss"
proof (induction n arbitrary: acc)
  case (Suc n)
  then obtain a acc' where acc: "acc = a # acc'" by (cases acc) auto
  then have "a \<noteq> ''..''" using Suc.prems(2) by (simp add: is_name_def)
  then have "norm_go False acc (replicate (Suc n) ''..'' @ ss) = norm_go False acc' (replicate n ''..'' @ ss)"
    using acc by simp
  then show ?case using Suc acc by simp
qed simp

lemma relative_back:
  assumes "\<forall>a \<in> set f. is_name a" and "\<forall>a \<in> set t. is_name a"
  defines "n \<equiv> common_prefix f t"
  shows "norm_go False (rev f) (replicate (length f - n) ''..'' @ drop n t) = t"
proof -
  have n: "n \<le> length f" "take n f = take n t" using common_prefix_take[of f t] by (simp_all add: n_def)
  have "norm_go False (rev f) (replicate (length f - n) ''..'' @ drop n t) =
      norm_go False (drop (length f - n) (rev f)) (drop n t)"
    using assms(1) by (intro norm_go_ups) simp_all
  also have "drop (length f - n) (rev f) = rev (take n f)" using n(1) by (simp add: drop_rev)
  also have "norm_go False (rev (take n f)) (drop n t) = take n f @ drop n t"
  proof -
    have "\<forall>a \<in> set (drop n t). is_name a" using assms(2) by (meson in_set_dropD)
    then show ?thesis by (simp add: norm_go_id)
  qed
  finally show ?thesis using n(2) by simp
qed

lemma relative_not_absolute:
  "\<forall>a \<in> set cs. a \<noteq> [] \<and> CHR ''/'' \<notin> set a \<Longrightarrow> \<not> isAbsolute (join ''/'' cs)"
proof (cases cs)
  case (Cons c cs')
  assume "\<forall>a \<in> set cs. a \<noteq> [] \<and> CHR ''/'' \<notin> set a"
  then obtain d c' where "c = d # c'" "d \<noteq> CHR ''/''" using Cons by (cases c) auto
  then show ?thesis using Cons by (cases cs') (auto simp: isAbsolute_def)
qed (simp add: isAbsolute_def)

lemma path_relative_back:
  assumes "isAbsolute cwd"
  shows "path_resolve cwd [fro, path_relative cwd fro tto] = path_resolve cwd [tto]"
proof -
  let ?f = "abs_segments (path_resolve cwd [fro])" and ?t = "abs_segments (path_resolve cwd [tto])"
  let ?n = "common_prefix ?f ?t"
  let ?cs = "replicate (length ?f - ?n) ''..'' @ drop ?n ?t"
  have nf: "\<forall>a \<in> set ?f. is_name a" and nt: "\<forall>a \<in> set ?t. is_name a" by (rule abs_segments_names)+
  have rel: "path_relative cwd fro tto = join ''/'' ?cs" by (simp add: path_relative_def Let_def)
  have cs: "\<forall>a \<in> set ?cs. a \<noteq> [] \<and> CHR ''/'' \<notin> set a"
  proof -
    have "\<forall>a \<in> set (drop ?n ?t). is_name a" using nt by (meson in_set_dropD)
    then show ?thesis by (simp add: is_name_def ball_Un)
  qed
  have "resolve_segs (abs_segments cwd) ([fro] @ [path_relative cwd fro tto]) =
      norm_go False (rev ?f) (segments (join ''/'' ?cs))"
    unfolding resolve_segs_snoc rel abs_segments_resolve[OF assms]
    using relative_not_absolute[OF cs] by (simp only: if_False abs_segments_resolve[OF assms])
  also have "\<dots> = norm_go False (rev ?f) ?cs" using cs by (intro norm_join_segments) blast
  also have "\<dots> = ?t" by (rule relative_back[OF nf nt])
  also have "?t = resolve_segs (abs_segments cwd) [tto]" by (rule abs_segments_resolve[OF assms])
  finally have "resolve_segs (abs_segments cwd) [fro, path_relative cwd fro tto] =
      resolve_segs (abs_segments cwd) [tto]" by (simp only: append.simps)
  then show ?thesis by (simp only: path_resolve_segs[OF assms])
qed

end
