(* ===== verification/TsEnums.thy ===== *)
theory TsEnums
  imports Directives
begin

text \<open>
  The target and module conversions of \<open>scripts/emit/src/ts-enums.ts\<close>: the option text of a
  test is read into the compiler's enum number, and the number is rendered for the command line.
\<close>

definition TS_TARGET_DEFAULT :: int where "TS_TARGET_DEFAULT = 12"

definition TS_MODULE_DEFAULT :: int where "TS_MODULE_DEFAULT = 0"

definition TARGET_CLI_ARGS :: "(int \<times> string) list" where
  "TARGET_CLI_ARGS =
     [(0, ''es3''), (1, ''es5''), (2, ''es2015''), (3, ''es2016''), (4, ''es2017''), (5, ''es2018''),
      (6, ''es2019''), (7, ''es2020''), (8, ''es2021''), (9, ''es2022''), (10, ''es2023''),
      (11, ''es2024''), (12, ''es2025''), (99, ''esnext'')]"

definition MODULE_CLI_ARGS :: "(int \<times> string) list" where
  "MODULE_CLI_ARGS =
     [(0, ''none''), (1, ''commonjs''), (2, ''amd''), (3, ''umd''), (4, ''system''), (5, ''es2015''),
      (6, ''es2020''), (7, ''es2022''), (99, ''esnext''), (100, ''node16''), (101, ''node18''),
      (102, ''node20''), (199, ''nodenext''), (200, ''preserve'')]"

definition parseTarget :: "string \<Rightarrow> int" where
  "parseTarget targetStr =
     (let lower = to_lower targetStr in
      if str_includes lower ''es3'' then 0
      else if str_includes lower ''es5'' then 1
      else if str_includes lower ''es2015'' \<or> lower = ''es6'' then 2
      else if str_includes lower ''es2016'' then 3
      else if str_includes lower ''es2017'' then 4
      else if str_includes lower ''es2018'' then 5
      else if str_includes lower ''es2019'' then 6
      else if str_includes lower ''es2020'' then 7
      else if str_includes lower ''es2021'' then 8
      else if str_includes lower ''es2022'' then 9
      else if str_includes lower ''es2023'' then 10
      else if str_includes lower ''es2024'' then 11
      else if str_includes lower ''es2025'' then 12
      else if str_includes lower ''esnext'' then 99
      else TS_TARGET_DEFAULT)"

definition parseModule :: "string \<Rightarrow> int" where
  "parseModule moduleStr =
     (let lower = to_lower moduleStr in
      if lower = ''none'' then 0
      else if lower = ''commonjs'' then 1
      else if lower = ''amd'' then 2
      else if lower = ''umd'' then 3
      else if lower = ''system'' then 4
      else if lower = ''es2015'' \<or> lower = ''es6'' then 5
      else if lower = ''es2020'' then 6
      else if lower = ''es2022'' then 7
      else if lower = ''esnext'' then 99
      else if lower = ''node16'' then 100
      else if lower = ''node18'' then 101
      else if lower = ''node20'' then 102
      else if lower = ''nodenext'' then 199
      else if lower = ''preserve'' then 200
      else TS_MODULE_DEFAULT)"

definition targetToCliArg :: "int \<Rightarrow> string" where
  "targetToCliArg target = (case map_of TARGET_CLI_ARGS target of Some s \<Rightarrow> s | None \<Rightarrow> ''esnext'')"

definition moduleToCliArg :: "int \<Rightarrow> string" where
  "moduleToCliArg m = (case map_of MODULE_CLI_ARGS m of Some s \<Rightarrow> s | None \<Rightarrow> ''none'')"

definition inferDefaultModule :: "int \<Rightarrow> int" where
  "inferDefaultModule target =
     (if target = 99 then 99
      else if 9 \<le> target then 7
      else if 7 \<le> target then 6
      else if 2 \<le> target then 5
      else 1)"

lemma target_table: "\<forall>p \<in> set TARGET_CLI_ARGS. parseTarget (snd p) = fst p"
  by (simp add: TARGET_CLI_ARGS_def parseTarget_def to_lower_def lower_char_def)

lemma module_table: "\<forall>p \<in> set MODULE_CLI_ARGS. parseModule (snd p) = fst p"
  by code_simp

lemma parse_defaults: "parseTarget ''esnext'' = 99" "parseModule ''none'' = 0"
proof -
  have "(99, ''esnext'') \<in> set TARGET_CLI_ARGS" by (simp add: TARGET_CLI_ARGS_def)
  from bspec[OF target_table this] show "parseTarget ''esnext'' = 99" by simp
  have "(0, ''none'') \<in> set MODULE_CLI_ARGS" by (simp add: MODULE_CLI_ARGS_def)
  from bspec[OF module_table this] show "parseModule ''none'' = 0" by simp
qed

lemma map_of_table:
  "\<forall>p \<in> set xs. g (snd p) = fst p \<Longrightarrow> g d = e \<Longrightarrow>
   g (case map_of xs t of Some s \<Rightarrow> s | None \<Rightarrow> d) = (if t \<in> fst ` set xs then t else e)"
  by (induction xs) auto

lemma parse_targetToCliArg:
  "parseTarget (targetToCliArg t) = (if t \<in> fst ` set TARGET_CLI_ARGS then t else 99)"
  unfolding targetToCliArg_def using target_table parse_defaults(1) by (rule map_of_table[of TARGET_CLI_ARGS parseTarget])

lemma parse_moduleToCliArg:
  "parseModule (moduleToCliArg m) = (if m \<in> fst ` set MODULE_CLI_ARGS then m else 0)"
  unfolding moduleToCliArg_def using module_table parse_defaults(2) by (rule map_of_table[of MODULE_CLI_ARGS parseModule])

text \<open>The two conversions agree. A number of the table, rendered for the command line, is
  read back as itself, in any letter case; any other number is rendered as the last target or as
  no module.\<close>

theorem enum_cli_roundtrip:
  "to_lower s = targetToCliArg t \<and> to_lower s' = moduleToCliArg m \<Longrightarrow>
   parseTarget s = (if t \<in> fst ` set TARGET_CLI_ARGS then t else 99) \<and>
   parseModule s' = (if m \<in> fst ` set MODULE_CLI_ARGS then m else 0)"
proof -
  assume eq: "to_lower s = targetToCliArg t \<and> to_lower s' = moduleToCliArg m"
  have "parseTarget (to_lower s) = parseTarget s" "parseModule (to_lower s') = parseModule s'"
    by (simp_all add: parseTarget_def parseModule_def)
  then show ?thesis using eq parse_targetToCliArg[of t] parse_moduleToCliArg[of m] by metis
qed

theorem enum_cli_roundtrip_witness: "parseTarget ''ES2022'' = 9 \<and> parseModule ''NodeNext'' = 199"
proof -
  have "to_lower ''ES2022'' = targetToCliArg 9 \<and> to_lower ''NodeNext'' = moduleToCliArg 199"
    by code_simp
  from enum_cli_roundtrip[OF this] show ?thesis by (simp add: TARGET_CLI_ARGS_def MODULE_CLI_ARGS_def)
qed

text \<open>The default module of a target is always a module the command line can name, and a later
  target never gets an earlier module kind.\<close>

lemma inferDefaultModule_known:
  "inferDefaultModule t \<in> fst ` set MODULE_CLI_ARGS" "inferDefaultModule t \<noteq> TS_MODULE_DEFAULT"
  by (auto simp: inferDefaultModule_def MODULE_CLI_ARGS_def TS_MODULE_DEFAULT_def)

lemma inferDefaultModule_mono: "t \<le> u \<Longrightarrow> u \<le> 99 \<Longrightarrow> inferDefaultModule t \<le> inferDefaultModule u"
  by (auto simp: inferDefaultModule_def)

end
