(* ===== verification/JsonText.thy ===== *)
theory JsonText
  imports JsData
begin

text \<open>
  JSON text of dynamic values. The program writes JSON twice with its own key order, to compare
  embedded configurations and to fingerprint result rows; both comparisons are sound only if
  equal texts mean equal values. The interface \<open>json_escape\<close> states what that needs of the
  escape of a character, and the injectivity of the text is proved once inside it.
\<close>

definition num_char :: "char \<Rightarrow> bool" where
  "num_char c \<longleftrightarrow> is_digit c \<or> c \<in> {CHR ''-'', CHR ''+'', CHR ''.'', CHR ''e''}"

text \<open>The text of a number that is not an integer has a point or an exponent.\<close>

definition frac_text :: "string \<Rightarrow> bool" where
  "frac_text s \<longleftrightarrow> list_all num_char s \<and> (CHR ''.'' \<in> set s \<or> CHR ''e'' \<in> set s)"

text \<open>The values a JSON document can hold: no \<open>undefined\<close>, no key twice in an object.\<close>

fun json_value :: "jsval \<Rightarrow> bool" where
  "json_value JUndef = False"
| "json_value (JFrac s) = frac_text s"
| "json_value (JArr vs) = list_all json_value vs"
| "json_value (JObj ob) = (distinct (map fst ob) \<and> list_all (\<lambda>p. json_value (snd p)) ob)"
| "json_value v = True"

definition quote_with :: "(char \<Rightarrow> string) \<Rightarrow> string \<Rightarrow> string" where
  "quote_with e s = CHR 34 # concat (map e s) @ [CHR 34]"

fun render :: "(char \<Rightarrow> string) \<Rightarrow> jsval \<Rightarrow> string" where
  "render e JUndef = ''undefined''"
| "render e JNull = ''null''"
| "render e (JBool b) = bool_text b"
| "render e (JInt i) = show_int i"
| "render e (JFrac s) = s"
| "render e (JStr s) = quote_with e s"
| "render e (JArr vs) = ''['' @ join '','' (map (render e) vs) @ '']''"
| "render e (JObj ob) =
     ''{'' @ join '','' (map (\<lambda>p. quote_with e (fst p) @ '':'' @ render e (snd p)) ob) @ ''}''"

section \<open>Numbers\<close>

lemma digit_char: "n < 10 \<Longrightarrow> is_digit (char_of (48 + n))" for n :: nat
  by (simp add: is_digit_def)

lemma digits_of_digits: "\<forall>c \<in> set (digits_of n). is_digit c"
proof (induction n rule: digits_of.induct)
  case (1 n)
  show ?case
  proof (cases "n < 10")
    case True
    then show ?thesis by (subst digits_of.simps) (simp add: digit_char)
  next
    case False
    then have "\<forall>c \<in> set (digits_of (n div 10)). is_digit c" using 1 by simp
    then show ?thesis using False by (subst digits_of.simps) (simp add: digit_char)
  qed
qed

lemma digits_of_not_Nil: "digits_of n \<noteq> []"
  by (subst digits_of.simps) simp

lemma decimal_digits_of: "decimal (digits_of n) = n"
proof (induction n rule: digits_of.induct)
  case (1 n)
  show ?case
  proof (cases "n < 10")
    case True
    then show ?thesis by (subst digits_of.simps) (simp add: decimal_def)
  next
    case False
    then have IH: "decimal (digits_of (n div 10)) = n div 10" using 1 by simp
    have "decimal (digits_of n) = 10 * decimal (digits_of (n div 10)) + n mod 10"
      using False by (subst digits_of.simps) (simp add: decimal_def)
    then show ?thesis using IH by simp
  qed
qed

lemma digit_head: "\<exists>c s. digits_of n = c # s \<and> is_digit c"
  using digits_of_digits[of n] digits_of_not_Nil[of n] by (cases "digits_of n") auto

lemma minus_not_digit [simp]: "\<not> is_digit (CHR ''-'')"
  by (simp add: is_digit_def)

definition read_int :: "string \<Rightarrow> int" where
  "read_int s = (if s \<noteq> [] \<and> hd s = CHR ''-'' then - int (decimal (tl s)) else int (decimal s))"

lemma read_show_int: "read_int (show_int i) = i"
proof (cases "i < 0")
  case True
  then show ?thesis by (simp add: show_int_def read_int_def decimal_digits_of)
next
  case False
  obtain c s where d: "digits_of (nat i) = c # s" "is_digit c" using digit_head by blast
  then have "c \<noteq> CHR ''-''" by (metis minus_not_digit)
  then have "read_int (digits_of (nat i)) = int (decimal (digits_of (nat i)))"
    using d(1) by (simp add: read_int_def)
  then show ?thesis using False by (simp add: show_int_def decimal_digits_of)
qed

lemma show_int_inject [simp]: "show_int i = show_int j \<longleftrightarrow> i = j"
  by (metis read_show_int)

lemma show_int_chars: "\<forall>c \<in> set (show_int i). is_digit c \<or> c = CHR ''-''"
  using digits_of_digits by (auto simp: show_int_def)

lemma show_int_num: "\<forall>c \<in> set (show_int i). num_char c"
  using show_int_chars by (auto simp: num_char_def)

lemma show_int_not_frac: "\<not> frac_text (show_int i)"
proof
  assume "frac_text (show_int i)"
  then have "CHR ''.'' \<in> set (show_int i) \<or> CHR ''e'' \<in> set (show_int i)" by (simp add: frac_text_def)
  then show False using show_int_chars[of i] by (auto simp: is_digit_def)
qed

lemma show_int_not_Nil: "show_int i \<noteq> []"
  using digits_of_not_Nil by (simp add: show_int_def)

text \<open>The text after a value never continues a number.\<close>

definition follow :: "string \<Rightarrow> bool" where
  "follow r \<longleftrightarrow> r = [] \<or> \<not> num_char (hd r)"

lemma follow_Cons [simp]: "follow (c # r) \<longleftrightarrow> \<not> num_char c"
  by (simp add: follow_def)

lemma punct_not_num [simp]:
  "\<not> num_char (CHR '','')" "\<not> num_char (CHR '']'')" "\<not> num_char (CHR ''}'')" "\<not> num_char (CHR 34)"
  "\<not> num_char (CHR ''['')" "\<not> num_char (CHR ''{'')" "\<not> num_char (CHR ''n'')" "\<not> num_char (CHR ''t'')"
  "\<not> num_char (CHR ''f'')" "\<not> num_char (CHR ''u'')"
  by (simp_all add: num_char_def is_digit_def)

lemma num_token:
  assumes "\<forall>c \<in> set s. num_char c" "\<forall>c \<in> set t. num_char c" "follow r" "follow r'" "s @ r = t @ r'"
  shows "s = t \<and> r = r'"
proof -
  have "takeWhile num_char (s @ r) = s" "takeWhile num_char (t @ r') = t"
    using assms(1-4) by (auto simp: follow_def takeWhile_eq_Nil_iff)
  then show ?thesis using assms(5) by auto
qed

section \<open>Sequences\<close>

definition tail_text :: "('a \<Rightarrow> string) \<Rightarrow> 'a list \<Rightarrow> string" where
  "tail_text f xs = concat (map (\<lambda>x. CHR '','' # f x) xs)"

lemma join_map_Cons: "join '','' (map f (x # xs)) = f x @ tail_text f xs"
  by (induction xs arbitrary: x) (auto simp: tail_text_def)

text \<open>An element text that can be read off the front of a text.\<close>

definition reads_off :: "('a \<Rightarrow> string) \<Rightarrow> 'a \<Rightarrow> 'a \<Rightarrow> bool" where
  "reads_off f x y \<longleftrightarrow>
     (\<forall>r r'. follow r \<longrightarrow> follow r' \<longrightarrow> f x @ r = f y @ r' \<longrightarrow> x = y \<and> r = r')"

lemma tail_follow: "\<not> num_char c \<Longrightarrow> follow (tail_text f xs @ c # r)"
  by (cases xs) (simp_all add: tail_text_def)

lemma tail_text_inject:
  assumes "\<forall>x \<in> set xs. \<forall>y \<in> set ys. reads_off f x y" and "\<not> num_char c" and "c \<noteq> CHR '',''"
    and "tail_text f xs @ c # r = tail_text f ys @ c # r'"
  shows "xs = ys \<and> r = r'"
  using assms
proof (induction xs arbitrary: ys)
  case Nil
  then show ?case by (cases ys) (auto simp: tail_text_def)
next
  case (Cons x xs)
  then obtain y ys' where ys: "ys = y # ys'" by (cases ys) (auto simp: tail_text_def)
  have eq: "f x @ tail_text f xs @ c # r = f y @ tail_text f ys' @ c # r'"
    using Cons.prems(4) ys by (simp add: tail_text_def)
  have "x = y \<and> tail_text f xs @ c # r = tail_text f ys' @ c # r'"
    using Cons.prems(1) ys eq tail_follow[OF Cons.prems(2)] unfolding reads_off_def
    by (metis list.set_intros(1))
  moreover from this have "xs = ys' \<and> r = r'" using Cons.prems ys by (intro Cons.IH) auto
  ultimately show ?case using ys by simp
qed

lemma join_inject:
  assumes ro: "\<forall>x \<in> set xs. \<forall>y \<in> set ys. reads_off f x y" and c: "\<not> num_char c" "c \<noteq> CHR '',''"
    and hd: "\<forall>x \<in> set xs \<union> set ys. \<exists>d s. f x = d # s \<and> d \<noteq> c"
    and eq: "join '','' (map f xs) @ c # r = join '','' (map f ys) @ c # r'"
  shows "xs = ys \<and> r = r'"
proof (cases xs)
  case Nil
  then show ?thesis using eq hd by (cases ys) (fastforce simp: join_map_Cons simp del: list.map(2))+
next
  case (Cons x xs')
  note xs = this
  show ?thesis
  proof (cases ys)
    case Nil
    then show ?thesis using eq hd xs by (fastforce simp: join_map_Cons simp del: list.map(2))
  next
    case (Cons y ys')
    have eq: "f x @ tail_text f xs' @ c # r = f y @ tail_text f ys' @ c # r'"
      using eq xs Cons by (simp add: join_map_Cons del: list.map(2))
    have "x = y \<and> tail_text f xs' @ c # r = tail_text f ys' @ c # r'"
      using ro xs Cons eq tail_follow[OF c(1)] unfolding reads_off_def by (metis list.set_intros(1))
    moreover from this have "xs' = ys' \<and> r = r'" using ro xs Cons c by (intro tail_text_inject) auto
    ultimately show ?thesis using xs Cons by simp
  qed
qed

section \<open>The escape of characters\<close>

locale json_escape =
  fixes e :: "char \<Rightarrow> string"
  assumes escape_prefix: "e c @ r = e d @ s \<Longrightarrow> c = d"
    and escape_head: "\<exists>x xs. e c = x # xs \<and> x \<noteq> CHR 34"
begin

lemma quote_inject:
  "concat (map e s) @ CHR 34 # r = concat (map e t) @ CHR 34 # r' \<Longrightarrow> s = t \<and> r = r'"
proof (induction s arbitrary: t)
  case Nil
  then show ?case
  proof (cases t)
    case (Cons d t')
    obtain x xs where "e d = x # xs" "x \<noteq> CHR 34" using escape_head by blast
    then show ?thesis using Nil Cons by simp
  qed simp
next
  case (Cons c s)
  show ?case
  proof (cases t)
    case Nil
    obtain x xs where "e c = x # xs" "x \<noteq> CHR 34" using escape_head by blast
    then show ?thesis using Nil Cons by simp
  next
    case (Cons d t')
    have "e c @ concat (map e s) @ CHR 34 # r = e d @ concat (map e t') @ CHR 34 # r'"
      using Cons Cons.prems by simp
    moreover from this have "c = d" by (rule escape_prefix)
    ultimately have "s = t' \<and> r = r'" using Cons.IH by simp
    then show ?thesis using Cons \<open>c = d\<close> by simp
  qed
qed

lemma quote_reads_off: "quote_with e s @ r = quote_with e t @ r' \<Longrightarrow> s = t \<and> r = r'"
  using quote_inject[of s r t r'] by (simp add: quote_with_def)

end

text \<open>The first character tells the kind of a value.\<close>

definition kind :: "jsval \<Rightarrow> nat" where
  "kind v = (case v of JUndef \<Rightarrow> 0 | JNull \<Rightarrow> 1 | JBool b \<Rightarrow> (if b then 2 else 3) | JInt i \<Rightarrow> 4
     | JFrac s \<Rightarrow> 4 | JStr s \<Rightarrow> 5 | JArr vs \<Rightarrow> 6 | JObj ob \<Rightarrow> 7)"

definition head_kind :: "char \<Rightarrow> nat" where
  "head_kind c = (if c = CHR ''u'' then 0 else if c = CHR ''n'' then 1 else if c = CHR ''t'' then 2
     else if c = CHR ''f'' then 3 else if c = CHR 34 then 5 else if c = CHR ''['' then 6
     else if c = CHR ''{'' then 7 else if num_char c then 4 else 8)"

lemma head_kind_num: "num_char c \<Longrightarrow> head_kind c = 4"
proof -
  assume c: "num_char c"
  have "c \<noteq> CHR ''u''" "c \<noteq> CHR ''n''" "c \<noteq> CHR ''t''" "c \<noteq> CHR ''f''" "c \<noteq> CHR 34"
    "c \<noteq> CHR ''[''" "c \<noteq> CHR ''{''"
    using c punct_not_num by (metis, metis, metis, metis, metis, metis, metis)
  then show ?thesis using c by (simp add: head_kind_def)
qed

lemma render_head:
  assumes "json_value v"
  shows "\<exists>c s. render e v = c # s \<and> head_kind c = kind v"
proof (cases v)
  case (JInt i)
  obtain c s where "show_int i = c # s" using show_int_not_Nil by (cases "show_int i") auto
  then show ?thesis using JInt show_int_num[of i] head_kind_num[of c] by (simp add: kind_def)
next
  case (JFrac s)
  then have "s \<noteq> []" "\<forall>c \<in> set s. num_char c" using assms by (auto simp: frac_text_def list_all_iff)
  then show ?thesis using JFrac head_kind_num by (cases s) (auto simp: kind_def)
qed (use assms in \<open>auto simp: kind_def head_kind_def bool_text_def quote_with_def\<close>)

lemma render_head_not:
  assumes "json_value v"
  shows "\<exists>c s. render e v = c # s \<and> c \<noteq> CHR '']'' \<and> c \<noteq> CHR ''}''"
proof -
  have "head_kind (CHR '']'') = 8" "head_kind (CHR ''}'') = 8" by (simp_all add: head_kind_def)
  moreover have "kind v < 8" by (cases v) (simp_all add: kind_def)
  ultimately show ?thesis using render_head[OF assms, of e] by force
qed

lemma render_kind:
  assumes "json_value v" and "json_value w" and "render e v @ r = render e w @ r'"
  shows "kind v = kind w"
proof -
  obtain c s where v: "render e v = c # s" "head_kind c = kind v" using render_head[OF assms(1)] by blast
  obtain d t where w: "render e w = d # t" "head_kind d = kind w" using render_head[OF assms(2)] by blast
  show ?thesis using assms(3) v w by simp
qed

lemma kind_simps [simp]:
  "kind JNull = 1" "kind (JBool b) = (if b then 2 else 3)" "kind (JInt i) = 4" "kind (JFrac x) = 4"
  "kind (JStr t) = 5" "kind (JArr vs) = 6" "kind (JObj ob) = 7"
  by (simp_all add: kind_def)

lemma kind_cases:
  "kind w = 1 \<Longrightarrow> w = JNull"
  "kind w = (if b then 2 else 3) \<Longrightarrow> w = JBool b"
  "kind w = 4 \<Longrightarrow> (\<exists>i. w = JInt i) \<or> (\<exists>x. w = JFrac x)"
  "kind w = 5 \<Longrightarrow> \<exists>t. w = JStr t"
  "kind w = 6 \<Longrightarrow> \<exists>vs. w = JArr vs"
  "kind w = 7 \<Longrightarrow> \<exists>ob. w = JObj ob"
  by (cases w; simp add: kind_def split: if_splits)+

text \<open>A number is its text, and no text is that of two numbers.\<close>

lemma number_text:
  "kind v = 4 \<Longrightarrow> json_value v \<Longrightarrow> \<forall>c \<in> set (render e v). num_char c"
  using show_int_num by (auto dest!: kind_cases(3) simp: frac_text_def list_all_iff)

lemma number_inject:
  "kind v = 4 \<Longrightarrow> kind w = 4 \<Longrightarrow> json_value v \<Longrightarrow> json_value w \<Longrightarrow>
   render e v = render e w \<Longrightarrow> v = w"
  using show_int_not_frac by (auto dest!: kind_cases(3))

lemma reads_offI:
  assumes "json_value v" and "json_value w"
    and "\<And>r r'. kind w = kind v \<Longrightarrow> render e v @ r = render e w @ r' \<Longrightarrow> v = w \<and> r = r'"
  shows "reads_off (render e) v w"
  unfolding reads_off_def using assms(3) render_kind[OF assms(1,2)] by metis

lemma number_reads_off:
  assumes "kind v = 4" and "json_value v" and "json_value w"
  shows "reads_off (render e) v w"
  unfolding reads_off_def
proof (intro allI impI)
  fix r r'
  assume f: "follow r" "follow r'" and eq: "render e v @ r = render e w @ r'"
  have w: "kind w = 4" using render_kind[OF assms(2,3) eq] assms(1) by simp
  have "render e v = render e w \<and> r = r'"
    using number_text[OF assms(1,2)] number_text[OF w assms(3)] f eq by (rule num_token)
  then show "v = w \<and> r = r'" using number_inject[OF assms(1) w assms(2,3)] by blast
qed

context json_escape
begin

lemma render_reads_off: "json_value v \<Longrightarrow> json_value w \<Longrightarrow> reads_off (render e) v w"
proof (induction v arbitrary: w)
  case JUndef
  then show ?case by simp
next
  case JNull
  show ?case
  proof (rule reads_offI[OF JNull])
    fix r r' assume "kind w = kind JNull" and eq: "render e JNull @ r = render e w @ r'"
    then have w: "w = JNull" using kind_cases(1) by simp
    show "JNull = w \<and> r = r'" using eq unfolding w by simp
  qed
next
  case (JBool b)
  show ?case
  proof (rule reads_offI[OF JBool])
    fix r r' assume "kind w = kind (JBool b)" and eq: "render e (JBool b) @ r = render e w @ r'"
    then have w: "w = JBool b" using kind_cases(2)[of w b] by (simp only: kind_simps)
    show "JBool b = w \<and> r = r'" using eq unfolding w by simp
  qed
next
  case (JInt i)
  show ?case using JInt by (rule number_reads_off[OF kind_simps(3)])
next
  case (JFrac x)
  show ?case using JFrac by (rule number_reads_off[OF kind_simps(4)])
next
  case (JStr s)
  show ?case
  proof (rule reads_offI[OF JStr])
    fix r r' assume "kind w = kind (JStr s)" and eq: "render e (JStr s) @ r = render e w @ r'"
    then obtain t where w: "w = JStr t" using kind_cases(4)[of w] by (auto simp only: kind_simps)
    show "JStr s = w \<and> r = r'" using eq quote_reads_off[of s r t r'] unfolding w by simp
  qed
next
  case (JArr vs)
  show ?case unfolding reads_off_def
  proof (intro allI impI)
    fix r r'
    assume eq: "render e (JArr vs) @ r = render e w @ r'"
    then obtain ws where w: "w = JArr ws" using render_kind[OF JArr(2,3)] kind_cases(5) by fastforce
    have "vs = ws \<and> r = r'"
    proof (rule join_inject[where f = "render e" and c = "CHR '']''"])
      show "\<forall>x \<in> set vs. \<forall>y \<in> set ws. reads_off (render e) x y"
        using JArr w by (simp add: list_all_iff)
      show "\<forall>x \<in> set vs \<union> set ws. \<exists>d s. render e x = d # s \<and> d \<noteq> CHR '']''"
        using render_head_not JArr(2,3) w by (fastforce simp: list_all_iff)
    qed (use eq w in simp_all)
    then show "JArr vs = w \<and> r = r'" using w by simp
  qed
next
  case (JObj ob)
  let ?f = "\<lambda>p. quote_with e (fst p) @ '':'' @ render e (snd p)"
  show ?case unfolding reads_off_def
  proof (intro allI impI)
    fix r r'
    assume eq: "render e (JObj ob) @ r = render e w @ r'"
    then obtain ob' where w: "w = JObj ob'" using render_kind[OF JObj(2,3)] kind_cases(6) by fastforce
    have "ob = ob' \<and> r = r'"
    proof (rule join_inject[where f = ?f and c = "CHR ''}''"])
      show "\<forall>x \<in> set ob. \<forall>y \<in> set ob'. reads_off ?f x y"
      proof (intro ballI)
        fix x y
        assume x: "x \<in> set ob" and y: "y \<in> set ob'"
        have "reads_off (render e) (snd x) (snd y)"
          using JObj w x y by (cases x) (auto simp: list_all_iff)
        then show "reads_off ?f x y"
          unfolding reads_off_def
        proof (intro allI impI)
          fix r r' assume f: "follow r" "follow r'" and "?f x @ r = ?f y @ r'"
          then have "quote_with e (fst x) @ '':'' @ render e (snd x) @ r =
              quote_with e (fst y) @ '':'' @ render e (snd y) @ r'" by simp
          from quote_reads_off[OF this]
          have "fst x = fst y" "render e (snd x) @ r = render e (snd y) @ r'" by simp_all
          then show "x = y \<and> r = r'"
            using \<open>reads_off (render e) (snd x) (snd y)\<close> f unfolding reads_off_def prod_eq_iff by blast
        qed
      qed
      show "\<forall>x \<in> set ob \<union> set ob'. \<exists>d s. ?f x = d # s \<and> d \<noteq> CHR ''}''"
        by (simp add: quote_with_def)
    qed (use eq w in simp_all)
    then show "JObj ob = w \<and> r = r'" using w by simp
  qed
qed

lemma render_inject: "json_value v \<Longrightarrow> json_value w \<Longrightarrow> render e v = render e w \<longleftrightarrow> v = w"
  using render_reads_off[of v w] by (fastforce simp: reads_off_def follow_def)

end

section \<open>The two escapes of the program\<close>

definition hex_value :: "char \<Rightarrow> nat" where
  "hex_value c = (let n = of_char c :: nat in if n < 58 then n - 48 else n - 87)"

lemma hex_value_digit: "k < 16 \<Longrightarrow> hex_value (hex_digit k) = k"
  by (simp add: hex_value_def hex_digit_def)

definition unescape :: "string \<Rightarrow> char" where
  "unescape s =
     (if s ! 0 \<noteq> CHR 92 then s ! 0
      else if s ! 1 = CHR ''b'' then CHR 8
      else if s ! 1 = CHR ''f'' then CHR 12
      else if s ! 1 = CHR ''n'' then CHR 10
      else if s ! 1 = CHR ''r'' then CHR 13
      else if s ! 1 = CHR ''t'' then CHR 9
      else if s ! 1 = CHR ''u'' then char_of (16 * hex_value (s ! 4) + hex_value (s ! 5))
      else s ! 1)"

lemma unescape_unicode: "unescape (unicode_escape c @ r) = c"
proof -
  have "(of_char c :: nat) div 16 < 16" using of_char_less[of c] by linarith
  then show ?thesis
    by (simp add: unescape_def unicode_escape_def Let_def hex_value_digit del: of_char_less)
qed

text \<open>\<open>canonicalJson\<close> also escapes every character from 127 on.\<close>

definition ascii_char :: "char \<Rightarrow> string" where
  "ascii_char c = (if 127 \<le> (of_char c :: nat) then unicode_escape c else json_char c)"

lemma unescape_json: "unescape (json_char c @ r) = c"
proof -
  let ?n = "of_char c :: nat"
  consider "?n \<in> {34, 92, 8, 12, 10, 13, 9}" | "?n \<notin> {34, 92, 8, 12, 10, 13, 9}" "?n < 32"
    | "?n \<notin> {34, 92, 8, 12, 10, 13, 9}" "32 \<le> ?n" by linarith
  then show ?thesis
  proof cases
    case 1
    then have "?n = of_char (CHR 34) \<or> ?n = of_char (CHR 92) \<or> ?n = of_char (CHR 8) \<or>
        ?n = of_char (CHR 12) \<or> ?n = of_char (CHR 10) \<or> ?n = of_char (CHR 13) \<or>
        ?n = of_char (CHR 9)" by simp
    then have "c = CHR 34 \<or> c = CHR 92 \<or> c = CHR 8 \<or> c = CHR 12 \<or> c = CHR 10 \<or> c = CHR 13 \<or>
        c = CHR 9" by (simp only: of_char_eq_iff)
    then show ?thesis by (elim disjE) (simp_all add: json_char_def unescape_def)
  next
    case 2
    then have "json_char c = unicode_escape c" by (simp add: json_char_def Let_def)
    then show ?thesis by (simp add: unescape_unicode)
  next
    case 3
    then have "json_char c = [c]" "c \<noteq> CHR 92" by (auto simp: json_char_def Let_def)
    then show ?thesis by (simp add: unescape_def)
  qed
qed

lemma unescape_ascii: "unescape (ascii_char c @ r) = c"
  by (simp add: ascii_char_def unescape_unicode unescape_json)

lemma unicode_escape_head: "\<exists>x xs. unicode_escape c = x # xs \<and> x \<noteq> CHR 34"
  by (simp add: unicode_escape_def Let_def)

lemma json_char_head: "\<exists>x xs. json_char c = x # xs \<and> x \<noteq> CHR 34"
  using unicode_escape_head[of c] by (auto simp: json_char_def Let_def)

interpretation plain_json: json_escape json_char
  using json_char_head by unfold_locales (metis unescape_json, blast)

interpretation ascii_json: json_escape ascii_char
  using json_char_head unicode_escape_head
  by unfold_locales (metis unescape_ascii, simp add: ascii_char_def)

section \<open>Order of keys\<close>

definition key_cmp :: "string \<times> 'v \<Rightarrow> string \<times> 'v \<Rightarrow> int" where
  "key_cmp p q = str_cmp (fst p) (fst q)"

lemma map_insert_by:
  "(\<And>x y. c (f x) (f y) = d x y) \<Longrightarrow> insert_by c (f x) (map f xs) = map f (insert_by d x xs)"
  by (induction xs) auto

lemma map_sort_by: "(\<And>x y. c (f x) (f y) = d x y) \<Longrightarrow> sort_by c (map f xs) = map f (sort_by d xs)"
  by (induction xs) (auto simp: map_insert_by)

interpretation key_order: comparator key_cmp
proof -
  have "cmp_at (\<lambda>p q. str_cmp (fst p) (fst q)) x" for x :: "string \<times> 'a"
    by (rule cmp_at_key[of str_cmp fst x, OF cmp_at_str])
  then show "comparator (key_cmp :: string \<times> 'a \<Rightarrow> _)" by (simp add: comparator_iff key_cmp_def[abs_def])
qed

text \<open>A value with the keys of every object sorted, which is the value up to the order of its
  keys.\<close>

fun sort_keys :: "jsval \<Rightarrow> jsval" where
  "sort_keys (JArr vs) = JArr (map sort_keys vs)"
| "sort_keys (JObj ob) = JObj (sort_by key_cmp (map (\<lambda>p. (fst p, sort_keys (snd p))) ob))"
| "sort_keys v = v"

lemma sort_keys_value: "json_value v \<Longrightarrow> json_value (sort_keys v)"
proof (induction v)
  case (JObj ob)
  have k: "map fst (map (\<lambda>p. (fst p, sort_keys (snd p))) ob) = map fst ob" by simp
  have "distinct (map fst (sort_by key_cmp (map (\<lambda>p. (fst p, sort_keys (snd p))) ob)))"
    using JObj.prems k by (metis mset_sort_by mset_map json_value.simps(4) mset_eq_imp_distinct_iff)
  then show ?case using JObj by (auto simp: list_all_iff)
qed (auto simp: list_all_iff)

lemma sort_keys_perm:
  assumes "distinct (map fst ob)" and "mset ob = mset ob'"
  shows "sort_keys (JObj ob) = sort_keys (JObj ob')"
proof -
  let ?f = "\<lambda>p. (fst p, sort_keys (snd p))"
  have "sort_by key_cmp (map ?f ob) = sort_by key_cmp (map ?f ob')"
  proof (rule key_order.sort_perm)
    show "mset (map ?f ob) = mset (map ?f ob')" using assms(2) by simp
    show "x \<in> set (map ?f ob) \<Longrightarrow> y \<in> set (map ?f ob) \<Longrightarrow> key_cmp x y = 0 \<Longrightarrow> x = y" for x y
      using assms(1) by (auto simp: key_cmp_def dest: eq_key_imp_eq_value)
  qed
  then show ?thesis by simp
qed

end
