(* ===== verification/SourceTest.thy ===== *)
theory SourceTest
  imports Directives "HOL-Library.Word"
begin

text \<open>
  The harness test parser of \<open>scripts/emit/src/source-test.ts\<close>: the decoding of a checked-in
  test file, its exact lines, its units, p_options and p_links, and the choice of the root files.
  A decoded text is a list of 16-bit code units; the parser itself works on the strings of the
  model, so \<open>parseSourceTest\<close> first drops a byte order mark and then narrows the text, with
  \<open>None\<close> for a text outside the model's character range.
\<close>

section \<open>Decoding\<close>

type_synonym byte = "8 word"
type_synonym unit16 = "16 word"

definition from_char_code :: "byte \<Rightarrow> byte \<Rightarrow> unit16" where
  "from_char_code hi lo = or (push_bit 8 (ucast hi)) (ucast lo)"

text \<open>The loop \<open>for (index = 2; index + 1 < length; index += 2)\<close>: a last odd byte is ignored.\<close>

fun decode_be :: "byte list \<Rightarrow> unit16 list" where
  "decode_be (hi # lo # bs) = from_char_code hi lo # decode_be bs"
| "decode_be bs = []"

fun decode_le :: "byte list \<Rightarrow> unit16 list" where
  "decode_le (lo # hi # bs) = from_char_code hi lo # decode_le bs"
| "decode_le bs = []"

text \<open>\<open>toString('utf8')\<close> is the platform's decoder, an argument of the model.\<close>

definition decodeTypeScriptTestFile :: "(byte list \<Rightarrow> unit16 list) \<Rightarrow> byte list \<Rightarrow> unit16 list" where
  "decodeTypeScriptTestFile utf8 bytes =
     (if 2 \<le> length bytes \<and> bytes ! 0 = 0xff \<and> bytes ! 1 = 0xfe then decode_le (drop 2 bytes)
      else if 2 \<le> length bytes \<and> bytes ! 0 = 0xfe \<and> bytes ! 1 = 0xff then decode_be (drop 2 bytes)
      else utf8 bytes)"

definition encode_be :: "unit16 list \<Rightarrow> byte list" where
  "encode_be us = concat (map (\<lambda>u. [ucast (drop_bit 8 u), ucast u]) us)"

definition encode_le :: "unit16 list \<Rightarrow> byte list" where
  "encode_le us = concat (map (\<lambda>u. [ucast u, ucast (drop_bit 8 u)]) us)"

lemma from_char_code_split:
  "from_char_code (ucast (drop_bit 8 u)) (ucast u) = u"
  by (rule bit_word_eqI)
     (auto simp: from_char_code_def bit_or_iff bit_push_bit_iff bit_unsigned_iff bit_drop_bit_eq
       bit_simps)

lemma decode_be_encode: "decode_be (encode_be us) = us"
  by (induction us) (simp_all add: encode_be_def from_char_code_split)

lemma decode_le_encode: "decode_le (encode_le us) = us"
  by (induction us) (simp_all add: encode_le_def from_char_code_split)

text \<open>A text written in UTF-16 of either byte order, after its byte order mark, is decoded
  to the same code units, whatever the platform's UTF-8 decoder does.\<close>

theorem decode_utf16_roundtrip:
  "decodeTypeScriptTestFile utf8 ([0xff, 0xfe] @ encode_le us) = us \<and>
   decodeTypeScriptTestFile utf8 ([0xfe, 0xff] @ encode_be us) = us"
  by (simp add: decodeTypeScriptTestFile_def decode_le_encode decode_be_encode)

definition strip_bom :: "unit16 list \<Rightarrow> unit16 list" where
  "strip_bom us = (case us of [] \<Rightarrow> [] | u # us' \<Rightarrow> if u = 0xfeff then us' else us)"

definition narrow_text :: "unit16 list \<Rightarrow> string option" where
  "narrow_text us =
     (if \<forall>u \<in> set us. unat u < 256 then Some (map (\<lambda>u. char_of (unat u)) us) else None)"

section \<open>Exact lines\<close>

record exact_line =
  ln_body :: string
  ln_bytes :: string

definition whole_line :: "string \<Rightarrow> string \<Rightarrow> exact_line" where
  "whole_line b e = \<lparr>ln_body = b, ln_bytes = b @ e\<rparr>"

fun exact_go :: "string \<Rightarrow> string \<Rightarrow> exact_line list" where
  "exact_go acc [] = (if acc = [] then [] else [whole_line (rev acc) []])"
| "exact_go acc (c # s) =
     (if c = cr \<and> s \<noteq> [] \<and> hd s = lf then whole_line (rev acc) [cr, lf] # exact_go [] (tl s)
      else if c = cr \<or> c = lf then whole_line (rev acc) [c] # exact_go [] s
      else exact_go (c # acc) s)"

definition exactLines :: "string \<Rightarrow> exact_line list" where
  "exactLines content = exact_go [] content"

lemma exact_go_bytes: "concat (map ln_bytes (exact_go acc s)) = rev acc @ s"
proof (induction acc s rule: exact_go.induct)
  case (1 acc)
  then show ?case by (simp add: whole_line_def)
next
  case (2 acc c s)
  then show ?case by (cases s) (auto simp: whole_line_def)
qed

lemma exact_go_line:
  "no_newline acc \<Longrightarrow> l \<in> set (exact_go acc s) \<Longrightarrow>
   no_newline (ln_body l) \<and> (\<exists>e \<in> {[], [cr], [lf], [cr, lf]}. ln_bytes l = ln_body l @ e)"
proof (induction acc s rule: exact_go.induct)
  case (1 acc)
  then show ?case by (auto simp: whole_line_def no_newline_def split: if_splits)
next
  case (2 acc c s)
  consider (crlf) "c = cr \<and> s \<noteq> [] \<and> hd s = lf"
    | (single) "\<not> (c = cr \<and> s \<noteq> [] \<and> hd s = lf)" "c = cr \<or> c = lf"
    | (other) "c \<noteq> cr" "c \<noteq> lf" by blast
  then show ?case
  proof cases
    case crlf
    then show ?thesis using 2 by (auto simp: whole_line_def no_newline_def)
  next
    case single
    then show ?thesis using 2 by (auto simp: whole_line_def no_newline_def split: if_splits)
  next
    case other
    have "no_newline (c # acc)" using other 2(4) by (auto simp: no_newline_def)
    then show ?thesis using other 2 by simp
  qed
qed

lemma exactLines_bytes [simp]: "concat (map ln_bytes (exactLines content)) = content"
  by (simp add: exactLines_def exact_go_bytes)

text \<open>The lines keep every byte. Their bytes in order are the text, and each line is a body
  without line breaks followed by one line ending or, at the end of the text, by none.\<close>

theorem exactLines_lossless:
  "concat (map ln_bytes (exactLines content)) = content \<and>
   (\<forall>l \<in> set (exactLines content).
      no_newline (ln_body l) \<and> (\<exists>e \<in> {[], [cr], [lf], [cr, lf]}. ln_bytes l = ln_body l @ e))"
proof (intro conjI ballI)
  show "concat (map ln_bytes (exactLines content)) = content" by simp
  fix l
  assume "l \<in> set (exactLines content)"
  then have l: "l \<in> set (exact_go [] content)" by (simp add: exactLines_def)
  have nn: "no_newline []" by (simp add: no_newline_def)
  from exact_go_line[OF nn l] show "no_newline (ln_body l)"
    and "\<exists>e \<in> {[], [cr], [lf], [cr, lf]}. ln_bytes l = ln_body l @ e" by auto
qed

theorem exactLines_lossless_witness:
  "no_newline (ln_body (hd (exactLines [CHR ''a'', cr, lf, lf, CHR ''b''])))"
proof -
  have "hd (exactLines [CHR ''a'', cr, lf, lf, CHR ''b'']) \<in> set (exactLines [CHR ''a'', cr, lf, lf, CHR ''b''])"
    by (rule hd_in_set) (simp add: exactLines_def)
  then show ?thesis using exactLines_lossless by blast
qed

section \<open>Units, options and links\<close>

record source_unit =
  u_name :: string
  u_content :: string

record link_input =
  l_target :: string
  l_link :: string

record parsed_source_test =
  p_options :: "(string \<times> jsval) list"
  p_source :: "string option"
  sourceFileName :: "string option"
  sourceFiles :: "source_unit list"
  p_links :: "link_input list"

text \<open>The variables of the loop over the lines.\<close>

record parse_state =
  ps_options :: "(string \<times> jsval) list"
  ps_files :: "source_unit list"
  ps_links :: "link_input list"
  ps_current :: "string option"
  ps_content :: "string list"

definition truthy :: "string option \<Rightarrow> bool" where
  "truthy x = (case x of None \<Rightarrow> False | Some s \<Rightarrow> s \<noteq> [])"

definition flushCurrentFile :: "parse_state \<Rightarrow> parse_state" where
  "flushCurrentFile st =
     (case ps_current st of
        None \<Rightarrow> st
      | Some n \<Rightarrow>
          if n = [] then st
          else st\<lparr>ps_files := ps_files st @ [\<lparr>u_name = n, u_content = concat (ps_content st)\<rparr>],
                  ps_current := None, ps_content := []\<rparr>)"

definition push_bytes :: "exact_line \<Rightarrow> parse_state \<Rightarrow> parse_state" where
  "push_bytes l st =
     (if truthy (ps_current st) then st\<lparr>ps_content := ps_content st @ [ln_bytes l]\<rparr> else st)"

text \<open>\<open>const [target, link] = value.split('->').map(trim)\<close>\<close>

definition parse_link :: "string \<Rightarrow> link_input option" where
  "parse_link v =
     (case map trim (split_on ''->'' v) of
        t # l # _ \<Rightarrow> if t \<noteq> [] \<and> l \<noteq> [] then Some \<lparr>l_target = t, l_link = l\<rparr> else None
      | _ \<Rightarrow> None)"

definition directive_value :: "string \<Rightarrow> jsval" where
  "directive_value v =
     (if to_lower v = ''true'' then JBool True
      else if to_lower v = ''false'' then JBool False
      else JStr v)"

definition on_directive :: "directive_line \<Rightarrow> parse_state \<Rightarrow> parse_state" where
  "on_directive d st =
     (if d_key d = ''filename'' then (flushCurrentFile st)\<lparr>ps_current := Some (d_val d)\<rparr>
      else if d_key d = ''link'' then
        (case parse_link (d_val d) of
           None \<Rightarrow> st
         | Some l \<Rightarrow> st\<lparr>ps_links := ps_links st @ [l]\<rparr>)
      else st\<lparr>ps_options := obj_set (d_key d) (directive_value (d_val d)) (ps_options st)\<rparr>)"

definition on_flag :: "string \<Rightarrow> parse_state \<Rightarrow> parse_state" where
  "on_flag flag st =
     (let k = to_lower flag in
      if k = ''ts-check'' then st\<lparr>ps_options := obj_set ''checkjs'' (JBool True) (ps_options st)\<rparr>
      else if k = ''ts-nocheck'' then st\<lparr>ps_options := obj_set ''checkjs'' (JBool False) (ps_options st)\<rparr>
      else if \<not> truthy (ps_current st) \<and> k \<noteq> ''internal''
        then st\<lparr>ps_options := obj_set k (JBool True) (ps_options st)\<rparr>
      else st)"

definition parse_step :: "exact_line \<Rightarrow> parse_state \<Rightarrow> parse_state" where
  "parse_step l st =
     (case parseDirectiveLine (ln_body l) of
        Some d \<Rightarrow> on_directive d st
      | None \<Rightarrow>
          (case parseFlagDirectiveLine (ln_body l) of
             Some f \<Rightarrow> push_bytes l (on_flag f st)
           | None \<Rightarrow> push_bytes l st))"

definition init_parse :: parse_state where
  "init_parse = \<lparr>ps_options = [], ps_files = [], ps_links = [], ps_current = None, ps_content = []\<rparr>"

text \<open>\<open>/^\/\/\s*@(internal|ts-check|ts-nocheck)\s*$/i\<close> and
  \<open>/^\/\/\s*@[\w-]+(?:\s*:\s*[^\r\n]*)?$/i\<close>, on trimmed text.\<close>

definition after_slashes_at :: "string \<Rightarrow> string option" where
  "after_slashes_at t =
     (if \<not> starts_with t ''//'' then None
      else case dropWhile is_ws (drop 2 t) of
             [] \<Rightarrow> None
           | c # s \<Rightarrow> if c = CHR ''@'' then Some s else None)"

definition source_comment :: "string \<Rightarrow> bool" where
  "source_comment t =
     (case after_slashes_at t of
        None \<Rightarrow> False
      | Some s \<Rightarrow> to_lower (trim_end s) \<in> {''internal'', ''ts-check'', ''ts-nocheck''})"

definition directive_shape :: "string \<Rightarrow> bool" where
  "directive_shape t =
     (case after_slashes_at t of
        None \<Rightarrow> False
      | Some s \<Rightarrow>
          takeWhile is_flag_char s \<noteq> [] \<and>
          (let rest = dropWhile is_flag_char s in
           rest = [] \<or>
           (case dropWhile is_ws rest of
              [] \<Rightarrow> False
            | c # v \<Rightarrow> c = CHR '':'' \<and> no_newline (dropWhile is_ws v))))"

definition header_directive :: "exact_line \<Rightarrow> bool" where
  "header_directive l \<longleftrightarrow> directive_shape (trim (ln_body l)) \<and> \<not> source_comment (trim (ln_body l))"

fun default_lines :: "bool \<Rightarrow> exact_line list \<Rightarrow> string list" where
  "default_lines inHeader [] = []"
| "default_lines inHeader (l # ls) =
     (if inHeader then
        if header_directive l then default_lines True ls
        else if trim (ln_body l) = [] then ln_bytes l # default_lines True ls
        else ln_bytes l # default_lines False ls
      else ln_bytes l # default_lines False ls)"

definition is_entry_candidate :: "source_unit \<Rightarrow> bool" where
  "is_entry_candidate f \<longleftrightarrow>
     0 < length (u_content f) \<and> \<not> ends_with (u_name f) ''.d.ts'' \<and>
     \<not> ends_with (u_name f) ''package.json'' \<and> \<not> ends_with (u_name f) ''tsconfig.json''"

definition parse_lines :: "exact_line list \<Rightarrow> parse_state" where
  "parse_lines ls = flushCurrentFile (fold parse_step ls init_parse)"

definition parse_units :: "string \<Rightarrow> string option \<Rightarrow> parsed_source_test" where
  "parse_units text dflt =
     (let ls = exactLines text;
          st = parse_lines ls;
          files = (case dflt of
                     Some d \<Rightarrow>
                       if ps_files st = [] \<and> d \<noteq> []
                       then [\<lparr>u_name = d, u_content = concat (default_lines True ls)\<rparr>]
                       else ps_files st
                   | None \<Rightarrow> ps_files st);
          entry = find is_entry_candidate files
      in \<lparr>p_options = ps_options st,
          p_source = map_option u_content entry,
          sourceFileName = map_option u_name entry,
          sourceFiles = files,
          p_links = ps_links st\<rparr>)"

definition parseSourceTest :: "unit16 list \<Rightarrow> string option \<Rightarrow> parsed_source_test option" where
  "parseSourceTest us dflt = map_option (\<lambda>t. parse_units t dflt) (narrow_text (strip_bom us))"


subsection \<open>What the parser keeps\<close>

definition kept :: "parse_state \<Rightarrow> string" where
  "kept st = concat (map u_content (ps_files st)) @ concat (ps_content st)"

lemma kept_flush [simp]: "kept (flushCurrentFile st) = kept st"
  by (auto simp: kept_def flushCurrentFile_def split: option.splits)

lemma kept_on_directive [simp]: "kept (on_directive d st) = kept st"
  using kept_flush[of st] by (auto simp: kept_def on_directive_def split: option.splits)

lemma kept_on_flag [simp]: "kept (on_flag f st) = kept st"
  by (simp add: kept_def on_flag_def Let_def)

lemma kept_push: "subseq (kept (push_bytes l st)) (kept st @ ln_bytes l)"
  by (auto simp: kept_def push_bytes_def)

lemma kept_step: "subseq (kept (parse_step l st)) (kept st @ ln_bytes l)"
  using kept_push[of l st] kept_push[of l "on_flag f st" for f]
  by (auto simp: parse_step_def split: option.splits)

lemma kept_fold: "subseq (kept (fold parse_step ls st)) (kept st @ concat (map ln_bytes ls))"
proof (induction ls arbitrary: st)
  case Nil
  then show ?case by simp
next
  case (Cons l ls)
  have "subseq (kept (fold parse_step ls (parse_step l st))) (kept (parse_step l st) @ concat (map ln_bytes ls))"
    by (rule Cons.IH)
  also have "subseq \<dots> ((kept st @ ln_bytes l) @ concat (map ln_bytes ls))"
    by (rule list_emb_append_mono[OF kept_step]) simp
  finally show ?case by simp
qed

lemma default_lines_subseq: "subseq (concat (default_lines h ls)) (concat (map ln_bytes ls))"
proof (induction h ls rule: default_lines.induct)
  case (1 h)
  then show ?case by simp
next
  case (2 h l ls)
  have drop: "subseq xs ys \<Longrightarrow> subseq xs (zs @ ys)" for xs ys zs :: string
    by (metis append_Nil list_emb_append_mono list_emb_Nil)
  show ?case using 2 by (auto intro: drop list_emb_append_mono)
qed

text \<open>The units hold nothing but bytes of the test file, in their order: joined, their
  contents are a subsequence of the text.\<close>

theorem parse_units_subsequence:
  "subseq (concat (map u_content (sourceFiles (parse_units text dflt)))) text"
proof -
  let ?ls = "exactLines text"
  let ?st = "parse_lines ?ls"
  have "kept init_parse = []" by (simp add: kept_def init_parse_def)
  then have "subseq (kept ?st) text"
    using kept_fold[of ?ls init_parse] by (simp add: parse_lines_def)
  moreover have "subseq (concat (map u_content (ps_files ?st))) (kept ?st)"
    unfolding kept_def by (rule prefix_imp_subseq) simp
  ultimately have files: "subseq (concat (map u_content (ps_files ?st))) text"
    using subseq_order.trans by blast
  have "subseq (concat (default_lines True ?ls)) text"
    using default_lines_subseq[of True ?ls] by simp
  with files show ?thesis by (auto simp: parse_units_def Let_def split: option.splits)
qed


subsection \<open>A named unit, exactly\<close>

definition is_plain :: "exact_line \<Rightarrow> bool" where
  "is_plain l \<longleftrightarrow> parseDirectiveLine (ln_body l) = None"

definition names_file :: "exact_line \<Rightarrow> string \<Rightarrow> bool" where
  "names_file l n \<longleftrightarrow> (\<exists>d. parseDirectiveLine (ln_body l) = Some d \<and> d_key d = ''filename'' \<and> d_val d = n)"

lemma on_flag_files [simp]:
  "ps_files (on_flag f st) = ps_files st" "ps_current (on_flag f st) = ps_current st"
  "ps_content (on_flag f st) = ps_content st"
  by (simp_all add: on_flag_def Let_def)

lemma parse_step_inside:
  assumes "ps_current st = Some n" and "n \<noteq> []" and "\<nexists>m. names_file l m"
  shows "ps_files (parse_step l st) = ps_files st \<and> ps_current (parse_step l st) = Some n \<and>
    ps_content (parse_step l st) = ps_content st @ (if is_plain l then [ln_bytes l] else [])"
  using assms
  by (auto simp: parse_step_def is_plain_def names_file_def push_bytes_def truthy_def on_directive_def
      split: option.splits)

lemma parse_fold_inside:
  assumes "ps_current st = Some n" and "n \<noteq> []" and "\<forall>l \<in> set ls. \<nexists>m. names_file l m"
  shows "ps_files (fold parse_step ls st) = ps_files st \<and> ps_current (fold parse_step ls st) = Some n \<and>
    ps_content (fold parse_step ls st) = ps_content st @ map ln_bytes (filter is_plain ls)"
  using assms
proof (induction ls arbitrary: st)
  case Nil
  then show ?case by simp
next
  case (Cons l ls)
  have step: "ps_files (parse_step l st) = ps_files st \<and> ps_current (parse_step l st) = Some n \<and>
      ps_content (parse_step l st) = ps_content st @ (if is_plain l then [ln_bytes l] else [])"
    using Cons.prems by (intro parse_step_inside) auto
  then have "ps_files (fold parse_step ls (parse_step l st)) = ps_files (parse_step l st) \<and>
      ps_current (fold parse_step ls (parse_step l st)) = Some n \<and>
      ps_content (fold parse_step ls (parse_step l st)) =
        ps_content (parse_step l st) @ map ln_bytes (filter is_plain ls)"
    using Cons.prems by (intro Cons.IH) auto
  then show ?case using step by simp
qed

text \<open>Nothing is collected outside a unit, so a new unit always starts empty.\<close>

definition parse_inv :: "parse_state \<Rightarrow> bool" where
  "parse_inv st \<longleftrightarrow>
     (\<not> truthy (ps_current st) \<longrightarrow> ps_content st = []) \<and> (\<forall>f \<in> set (ps_files st). u_name f \<noteq> [])"

lemma parse_inv_init: "parse_inv init_parse"
  by (simp add: parse_inv_def init_parse_def)

lemma parse_inv_flush: "parse_inv st \<Longrightarrow> parse_inv (flushCurrentFile st) \<and> ps_content (flushCurrentFile st) = []"
  by (auto simp: parse_inv_def flushCurrentFile_def truthy_def split: option.splits)

lemma parse_inv_push: "parse_inv st \<Longrightarrow> parse_inv (push_bytes l st)"
  by (auto simp: parse_inv_def push_bytes_def)

lemma parse_inv_step: "parse_inv st \<Longrightarrow> parse_inv (parse_step l st)"
proof -
  assume inv: "parse_inv st"
  have "parse_inv (on_directive d st)" for d
    using inv parse_inv_flush[OF inv]
    by (auto simp: on_directive_def parse_inv_def truthy_def split: option.splits)
  moreover have "parse_inv (push_bytes l (on_flag f st))" for f
    using inv by (intro parse_inv_push) (simp add: parse_inv_def)
  ultimately show ?thesis
    using inv parse_inv_push by (simp add: parse_step_def split: option.splits)
qed

lemma parse_inv_fold: "parse_inv st \<Longrightarrow> parse_inv (fold parse_step ls st)"
  by (induction ls arbitrary: st) (auto intro: parse_inv_step)

text \<open>C26: a unit opened by a file name directive holds exactly the bytes of the lines up to the
  next file name directive or the end, less the key/value directive lines; the units before it
  are those of the lines before it.\<close>

theorem parse_lines_unit:
  assumes "names_file f n" and "n \<noteq> []" and "\<forall>l \<in> set ls. \<nexists>m. names_file l m"
  shows "ps_files (parse_lines (pre @ f # ls)) =
    ps_files (parse_lines pre) @ [\<lparr>u_name = n, u_content = concat (map ln_bytes (filter is_plain ls))\<rparr>]"
proof -
  let ?s0 = "fold parse_step pre init_parse"
  have inv: "parse_inv ?s0" by (intro parse_inv_fold parse_inv_init)
  have s1: "parse_step f ?s0 = (flushCurrentFile ?s0)\<lparr>ps_current := Some n\<rparr>"
    using assms(1) by (auto simp: names_file_def parse_step_def on_directive_def)
  have "ps_files (fold parse_step ls (parse_step f ?s0)) = ps_files (flushCurrentFile ?s0) \<and>
    ps_current (fold parse_step ls (parse_step f ?s0)) = Some n \<and>
    ps_content (fold parse_step ls (parse_step f ?s0)) = map ln_bytes (filter is_plain ls)"
    using parse_fold_inside[of "parse_step f ?s0" n ls] assms(2,3) parse_inv_flush[OF inv] by (simp add: s1)
  then show ?thesis using assms(2) by (simp add: parse_lines_def flushCurrentFile_def)
qed

theorem parse_lines_unit_witness:
  "names_file (whole_line ''// @filename: a.ts'' [lf]) ''a.ts'' \<and>
   ps_files (parse_lines ([] @ whole_line ''// @filename: a.ts'' [lf] #
     [whole_line ''// @strict: true'' [lf], whole_line ''x;'' []])) =
     ps_files (parse_lines []) @ [\<lparr>u_name = ''a.ts'', u_content = ''x;''\<rparr>]"
proof -
  let ?f = "whole_line ''// @filename: a.ts'' [lf]"
  let ?ls = "[whole_line ''// @strict: true'' [lf], whole_line ''x;'' []]"
  have f: "parseDirectiveLine (ln_body ?f) = Some \<lparr>d_key = ''filename'', d_val = ''a.ts''\<rparr>" by code_simp
  have a: "parseDirectiveLine (ln_body (whole_line ''// @strict: true'' [lf])) = Some \<lparr>d_key = ''strict'', d_val = ''true''\<rparr>"
    by code_simp
  have b: "parseDirectiveLine (ln_body (whole_line ''x;'' [])) = None" by code_simp
  have n: "names_file ?f ''a.ts''" using f by (simp add: names_file_def)
  have o: "\<forall>l \<in> set ?ls. \<nexists>m. names_file l m" using a b by (simp add: names_file_def)
  have "concat (map ln_bytes (filter is_plain ?ls)) = ''x;''"
    using a b by (simp add: is_plain_def) (simp add: whole_line_def)
  then show ?thesis using parse_lines_unit[OF n _ o, of "[]"] n by simp
qed


subsection \<open>The default unit, exactly\<close>

definition in_header :: "exact_line \<Rightarrow> bool" where
  "in_header l \<longleftrightarrow> header_directive l \<or> trim (ln_body l) = []"

lemma default_lines_body: "default_lines False ls = map ln_bytes ls"
  by (induction ls) auto

lemma default_lines_header:
  "default_lines True ls =
     map ln_bytes (filter (\<lambda>l. \<not> header_directive l) (takeWhile in_header ls)) @
     map ln_bytes (dropWhile in_header ls)"
  by (induction ls) (auto simp: in_header_def default_lines_body)

lemma parse_fold_outside:
  "ps_current st = None \<Longrightarrow> \<forall>l \<in> set ls. \<nexists>m. names_file l m \<Longrightarrow>
   ps_files (fold parse_step ls st) = ps_files st \<and> ps_current (fold parse_step ls st) = None"
proof (induction ls arbitrary: st)
  case Nil
  then show ?case by simp
next
  case (Cons l ls)
  have "ps_files (parse_step l st) = ps_files st \<and> ps_current (parse_step l st) = None"
    using Cons.prems
    by (auto simp: parse_step_def names_file_def push_bytes_def truthy_def on_directive_def
        split: option.splits)
  then show ?case using Cons.IH[of "parse_step l st"] Cons.prems(2) by auto
qed

text \<open>A test without file name directives is one unit under the default name. Its text is
  the test file without the directive lines of the leading header; the header ends at the first
  line that is neither a directive nor blank, and its blank lines stay.\<close>

theorem parse_units_default:
  assumes "\<forall>l \<in> set (exactLines tx). \<nexists>m. names_file l m" and "d \<noteq> []"
  shows "sourceFiles (parse_units tx (Some d)) =
    [\<lparr>u_name = d,
      u_content = concat (map ln_bytes
        (filter (\<lambda>l. \<not> header_directive l) (takeWhile in_header (exactLines tx)) @
         dropWhile in_header (exactLines tx)))\<rparr>]"
proof -
  have "ps_files (parse_lines (exactLines tx)) = []"
    using parse_fold_outside[of init_parse "exactLines tx"] assms(1)
    by (simp add: parse_lines_def flushCurrentFile_def init_parse_def)
  then show ?thesis using assms(2) by (simp add: parse_units_def Let_def default_lines_header)
qed

theorem parse_units_default_witness:
  "sourceFiles (parse_units (''// @strict: true'' @ [lf, lf] @ ''x; // @y'') (Some ''a.ts'')) =
     [\<lparr>u_name = ''a.ts'', u_content = lf # ''x; // @y''\<rparr>]"
proof -
  let ?t = "''// @strict: true'' @ [lf, lf] @ ''x; // @y''"
  have ls: "exactLines ?t = [whole_line ''// @strict: true'' [lf], whole_line [] [lf], whole_line ''x; // @y'' []]"
    by (simp add: exactLines_def cr_def lf_def)
  have d: "parseDirectiveLine ''// @strict: true'' = Some \<lparr>d_key = ''strict'', d_val = ''true''\<rparr>"
    "parseDirectiveLine [] = None" "parseDirectiveLine ''x; // @y'' = None" by code_simp+
  have n: "\<forall>l \<in> set (exactLines ?t). \<nexists>m. names_file l m"
    unfolding ls using d by (simp add: names_file_def whole_line_def)
  have h: "header_directive (whole_line ''// @strict: true'' [lf])" "\<not> header_directive (whole_line [] [lf])"
    "\<not> header_directive (whole_line ''x; // @y'' [])" "in_header (whole_line [] [lf])"
    "\<not> in_header (whole_line ''x; // @y'' [])" "in_header (whole_line ''// @strict: true'' [lf])"
    by code_simp+
  have "concat (map ln_bytes (filter (\<lambda>l. \<not> header_directive l) (takeWhile in_header (exactLines ?t)) @
      dropWhile in_header (exactLines ?t))) = lf # ''x; // @y''"
    unfolding ls using h by simp (simp add: whole_line_def)
  then show ?thesis using parse_units_default[OF n, of "''a.ts''"] by simp
qed


section \<open>The root files\<close>

datatype root_reason = All_units | Last_unit_no_implicit_references | Last_unit_discovery

record root_selection =
  rootFileNames :: "string list"
  r_reason :: root_reason
  unsupportedReason :: "string option"

definition is_tsconfig :: "source_unit \<Rightarrow> bool" where
  "is_tsconfig f \<longleftrightarrow> ends_with (to_lower (u_name f)) ''tsconfig.json''"

definition rootable :: "string \<Rightarrow> bool" where
  "rootable n \<longleftrightarrow> \<not> ends_with (to_lower n) ''.json''"

text \<open>The loop over \<open>seenNames\<close>: the first u_name that occurs a second time.\<close>

fun first_duplicate :: "string list \<Rightarrow> string list \<Rightarrow> string option" where
  "first_duplicate seen [] = None"
| "first_duplicate seen (n # ns) =
     (if n \<in> set seen then Some n else first_duplicate (n # seen) ns)"

text \<open>\<open>/reference\spath/\<close>, anywhere in the text.\<close>

fun reference_path :: "string \<Rightarrow> bool" where
  "reference_path [] = False"
| "reference_path (c # s) =
     ((starts_with (c # s) ''reference'' \<and>
       (case drop 9 (c # s) of [] \<Rightarrow> False | w # r \<Rightarrow> is_ws w \<and> starts_with r ''path'')) \<or>
      reference_path s)"

definition root_names :: "source_unit list \<Rightarrow> string list" where
  "root_names fs = map u_name (filter (\<lambda>f. rootable (u_name f)) fs)"

definition selectHarnessRootFiles :: "source_unit list \<Rightarrow> bool option \<Rightarrow> root_selection" where
  "selectHarnessRootFiles files noImplicitReferences =
     (let configNames = map u_name (filter is_tsconfig files);
          harnessUnits = filter (\<lambda>f. \<not> is_tsconfig f) files;
          duplicateName = first_duplicate [] (map u_name files);
          lastUnit = (if harnessUnits = [] then None else Some (last harnessUnits));
          lastUnitDiscovery = (case lastUnit of
              None \<Rightarrow> False
            | Some u \<Rightarrow> str_includes (u_content u) ''require('' \<or> reference_path (u_content u));
          why = (if noImplicitReferences = Some True then Last_unit_no_implicit_references
                 else Last_unit_discovery)
      in
      if truthy duplicateName then
        \<lparr>rootFileNames = [], r_reason = All_units,
         unsupportedReason = Some (''duplicate-harness-unit-name:'' @ the duplicateName)\<rparr>
      else if 0 < length configNames then
        \<lparr>rootFileNames = root_names harnessUnits, r_reason = All_units,
         unsupportedReason =
           Some (''embedded-tsconfig-root-selection-not-modeled:'' @ join ''|'' configNames)\<rparr>
      else
        case (if noImplicitReferences = Some True \<or> lastUnitDiscovery then lastUnit else None) of
          Some u \<Rightarrow>
            if \<not> rootable (u_name u) then
              \<lparr>rootFileNames = [], r_reason = why,
               unsupportedReason = Some (''last-harness-root-is-json:'' @ u_name u)\<rparr>
            else \<lparr>rootFileNames = [u_name u], r_reason = why, unsupportedReason = None\<rparr>
        | None \<Rightarrow>
            \<lparr>rootFileNames = root_names harnessUnits, r_reason = All_units,
             unsupportedReason =
               (if root_names harnessUnits = [] then Some ''no-compilable-harness-roots'' else None)\<rparr>)"

lemma first_duplicate_None:
  "first_duplicate seen ns = None \<longleftrightarrow> distinct ns \<and> set ns \<inter> set seen = {}"
  by (induction seen ns rule: first_duplicate.induct) auto

lemma first_duplicate_mem: "first_duplicate seen ns = Some n \<Longrightarrow> n \<in> set ns"
  by (induction seen ns rule: first_duplicate.induct) (auto split: if_splits)

lemma truthy_Some: "truthy x \<Longrightarrow> \<exists>s. x = Some s \<and> s \<noteq> []"
  by (simp add: truthy_def split: option.splits)

text \<open>A unit with a \<open>.json\<close> u_name is never handed to the compiler as a root, whatever the
  selection decides.\<close>

lemma roots_are_units:
  "set (rootFileNames (selectHarnessRootFiles fs nir)) \<subseteq> {n \<in> u_name ` set fs. rootable n}"
  by (auto simp: selectHarnessRootFiles_def Let_def root_names_def dest!: last_in_set
      split: option.splits if_splits)

text \<open>A selection without an unsupported reason names at least one root, every root is a
  unit whose name does not end in \<open>.json\<close>, no two units share a u_name that is not empty, and no
  unit is an embedded tsconfig.\<close>

theorem selectHarnessRootFiles_sound:
  assumes "unsupportedReason (selectHarnessRootFiles fs nir) = None"
  shows "rootFileNames (selectHarnessRootFiles fs nir) \<noteq> [] \<and>
    set (rootFileNames (selectHarnessRootFiles fs nir)) \<subseteq> {n \<in> u_name ` set fs. rootable n} \<and>
    ((\<forall>f \<in> set fs. u_name f \<noteq> []) \<longrightarrow> distinct (map u_name fs)) \<and> (\<forall>f \<in> set fs. \<not> is_tsconfig f)"
proof (intro conjI impI ballI roots_are_units)
  show "rootFileNames (selectHarnessRootFiles fs nir) \<noteq> []"
    using assms by (auto simp: selectHarnessRootFiles_def Let_def split: option.splits if_splits)
  show "\<not> is_tsconfig f" if "f \<in> set fs" for f
    using assms that by (auto simp: selectHarnessRootFiles_def Let_def filter_empty_conv split: option.splits if_splits)
  assume ne: "\<forall>f \<in> set fs. u_name f \<noteq> []"
  have "\<not> truthy (first_duplicate [] (map u_name fs))"
    using assms by (auto simp: selectHarnessRootFiles_def Let_def split: option.splits if_splits)
  then have "first_duplicate [] (map u_name fs) = None"
    using first_duplicate_mem[of "[]" "map u_name fs"] ne by (force simp: truthy_def split: option.splits)
  then show "distinct (map u_name fs)" by (simp add: first_duplicate_None)
qed

theorem selectHarnessRootFiles_sound_witness:
  "rootFileNames (selectHarnessRootFiles
     [\<lparr>u_name = ''a.ts'', u_content = []\<rparr>, \<lparr>u_name = ''b.ts'', u_content = ''require(1)''\<rparr>] None) = [''b.ts''] \<and>
   set [''b.ts''] \<subseteq> {n \<in> {''a.ts'', ''b.ts''}. rootable n}"
proof -
  let ?fs = "[\<lparr>u_name = ''a.ts'', u_content = []\<rparr>, \<lparr>u_name = ''b.ts'', u_content = ''require(1)''\<rparr>]"
  have u: "unsupportedReason (selectHarnessRootFiles ?fs None) = None" by code_simp
  have r: "rootFileNames (selectHarnessRootFiles ?fs None) = [''b.ts'']" by code_simp
  show ?thesis using selectHarnessRootFiles_sound[OF u] r by simp
qed

end
