(* ===== verification/AuthoredOptions.thy ===== *)
theory AuthoredOptions
  imports TsEnums JsonText SourceTest
begin

text \<open>
  The compiler options a test author wrote, \<open>scripts/emit/src/authored-options.ts\<close>: the s_variant
  in a baseline's file u_name, the merge of the three sources of options, the check that every
  option can be forwarded without loss, the readers the runner uses afterwards, and the embedded
  tsconfig files. The JSONC parser is a library and an argument of the model.
\<close>

section \<open>The variant in a baseline name\<close>

definition line_terminator :: "char \<Rightarrow> bool" where
  "line_terminator c \<longleftrightarrow> c = cr \<or> c = lf"

text \<open>\<open>/^(.+?)\(([^)]+)\)\.js$/\<close>: the shortest first group whose next parenthesis, up to its
  first closing one, is followed by \<open>.js\<close> and the end.\<close>

fun variant_match :: "string \<Rightarrow> string \<Rightarrow> (string \<times> string) option" where
  "variant_match acc [] = None"
| "variant_match acc (c # s) =
     (let v = takeWhile (\<lambda>d. d \<noteq> CHR '')'') s in
      if acc \<noteq> [] \<and> c = CHR ''('' \<and> v \<noteq> [] \<and> drop (length v) s = '').js'' then Some (rev acc, v)
      else if line_terminator c then None
      else variant_match (c # acc) s)"

definition variant_entry :: "string \<Rightarrow> string \<times> jsval" where
  "variant_entry v =
     (let k = takeWhile (\<lambda>c. c \<noteq> CHR ''='') v in
      if CHR ''='' \<in> set v then (to_lower k, JStr (drop (Suc (length k)) v))
      else (to_lower v, JUndef))"

definition extractAuthoredVariantFromFilename :: "string \<Rightarrow> (string \<times> jsval) list" where
  "extractAuthoredVariantFromFilename filename =
     (case variant_match [] filename of
        None \<Rightarrow> [(''base'', JStr (replace_suffix ''.js'' [] filename))]
      | Some (b, vs) \<Rightarrow>
          fold (\<lambda>v. obj_set (fst (variant_entry v)) (snd (variant_entry v)))
            (split_on '','' vs) [(''base'', JStr b)])"

section \<open>The option sets\<close>

definition BOOLEAN_FORWARDED_OPTIONS :: "string list" where
  "BOOLEAN_FORWARDED_OPTIONS =
     [''allowjs'', ''allowunreachablecode'', ''alwaysstrict'', ''checkjs'', ''declaration'',
      ''declarationmap'', ''downleveliteration'', ''emitdeclarationonly'', ''emitdecoratormetadata'',
      ''esmoduleinterop'', ''exactoptionalpropertytypes'', ''experimentaldecorators'',
      ''importhelpers'', ''inlinesourcemap'', ''isolatedmodules'', ''nocheck'', ''noemit'',
      ''noemithelpers'', ''noemitonerror'', ''noimplicitany'', ''nolib'', ''nounusedlocals'',
      ''nounusedparameters'', ''preserveconstenums'', ''preservevalueimports'', ''removecomments'',
      ''rewriterelativeimportextensions'', ''sourcemap'', ''skiplibcheck'', ''strict'',
      ''strictnullchecks'', ''strictpropertyinitialization'', ''stripinternal'',
      ''usedefineforclassfields'', ''verbatimmodulesyntax'']"

definition STRING_FORWARDED_OPTIONS :: "string list" where
  "STRING_FORWARDED_OPTIONS =
     [''baseurl'', ''declarationdir'', ''importsnotusedasvalues'', ''jsx'', ''jsxfactory'',
      ''jsxfragmentfactory'', ''jsximportsource'', ''module'', ''moduledetection'',
      ''moduleresolution'', ''outdir'', ''outfile'', ''rootdir'', ''target'']"

definition TARGET_VALUES :: "string list" where
  "TARGET_VALUES =
     [''es3'', ''es5'', ''es6'', ''es2015'', ''es2016'', ''es2017'', ''es2018'', ''es2019'',
      ''es2020'', ''es2021'', ''es2022'', ''es2023'', ''es2024'', ''es2025'', ''esnext'']"

definition MODULE_VALUES :: "string list" where
  "MODULE_VALUES =
     [''none'', ''commonjs'', ''amd'', ''umd'', ''system'', ''es6'', ''es2015'', ''es2020'',
      ''es2022'', ''esnext'', ''node16'', ''node18'', ''node20'', ''nodenext'', ''preserve'']"

definition FORWARDED_OPTIONS :: "string list" where
  "FORWARDED_OPTIONS = BOOLEAN_FORWARDED_OPTIONS @ STRING_FORWARDED_OPTIONS @ [''lib'']"

definition QUARANTINED_OPTIONS :: "string list" where
  "QUARANTINED_OPTIONS = [''inlinesources'', ''maproot'', ''sourceroot'']"

definition HARNESS_OPTIONS :: "string list" where
  "HARNESS_OPTIONS = [''base'', ''noimplicitreferences'', ''notypesandsymbols'']"

datatype option_disposition = Forwarded | Quarantined | Harness_only | Unhandled

definition authoredOptionDisposition :: "string \<Rightarrow> option_disposition" where
  "authoredOptionDisposition k =
     (let normalized = to_lower k in
      if normalized \<in> set FORWARDED_OPTIONS then Forwarded
      else if normalized \<in> set QUARANTINED_OPTIONS then Quarantined
      else if normalized \<in> set HARNESS_OPTIONS then Harness_only
      else Unhandled)"

section \<open>Merging the sources\<close>

datatype option_source = Embedded_config | Directive | Filename_variant

record authored_option =
  ao_key :: string
  ao_value :: jsval
  ao_source :: option_source

record authored_sources =
  s_variant :: "(string \<times> jsval) list"
  s_directives :: "(string \<times> jsval) list"
  s_embedded :: "(string \<times> jsval) list"

type_synonym resolved_options = "(string \<times> authored_option) list"

definition normalizedEntries :: "(string \<times> jsval) list \<Rightarrow> (string \<times> jsval) list" where
  "normalizedEntries source = map (\<lambda>(k, v). (to_lower k, v)) source"

definition merge_source :: "option_source \<Rightarrow> (string \<times> jsval) list \<Rightarrow> resolved_options \<Rightarrow> resolved_options" where
  "merge_source provenance source =
     fold (\<lambda>(k, v). map_set k \<lparr>ao_key = k, ao_value = v, ao_source = provenance\<rparr>)
       (normalizedEntries source)"

definition resolveAuthoredOptions :: "authored_sources \<Rightarrow> resolved_options" where
  "resolveAuthoredOptions s =
     merge_source Filename_variant (s_variant s)
       (merge_source Directive (s_directives s)
         (merge_source Embedded_config (s_embedded s) []))"

section \<open>Which options cannot be forwarded\<close>

definition option_cmp :: "authored_option \<Rightarrow> authored_option \<Rightarrow> int" where
  "option_cmp l r = str_cmp (ao_key l) (ao_key r)"

definition unhandledAuthoredOptions :: "resolved_options \<Rightarrow> authored_option list" where
  "unhandledAuthoredOptions opts =
     sort_by option_cmp
       (filter (\<lambda>opt. authoredOptionDisposition (ao_key opt) = Unhandled) (map snd opts))"

definition isExactBoolean :: "authored_option \<Rightarrow> bool" where
  "isExactBoolean opt =
     (case ao_value opt of
        JBool _ \<Rightarrow> True
      | JStr s \<Rightarrow> ao_source opt = Filename_variant \<and> (s = ''true'' \<or> s = ''false'')
      | _ \<Rightarrow> False)"

definition isNonEmptyString :: "jsval \<Rightarrow> bool" where
  "isNonEmptyString v = (case v of JStr s \<Rightarrow> 0 < length s | _ \<Rightarrow> False)"

definition lib_item :: "jsval \<Rightarrow> bool" where
  "lib_item v =
     (case v of
        JStr s \<Rightarrow> 0 < length s \<and> \<not> (is_ws (hd s) \<or> is_ws (last s)) \<and> \<not> str_includes s '',''
      | _ \<Rightarrow> False)"

definition isValidLibList :: "authored_option \<Rightarrow> bool" where
  "isValidLibList opt =
     (if ao_source opt = Embedded_config then
        (case ao_value opt of JArr vs \<Rightarrow> 0 < length vs \<and> list_all lib_item vs | _ \<Rightarrow> False)
      else
        (case ao_value opt of
           JStr s \<Rightarrow>
             if ao_source opt = Filename_variant then 0 < length s \<and> \<not> str_includes s '',''
             else list_ex (\<lambda>part. 0 < length (trim part)) (split_on '','' s)
         | _ \<Rightarrow> False))"

definition harness_flag :: "string \<Rightarrow> bool" where
  "harness_flag k \<longleftrightarrow> k = ''noimplicitreferences'' \<or> k = ''notypesandsymbols''"

definition invalid_option :: "authored_option \<Rightarrow> bool" where
  "invalid_option opt =
     (let k = ao_key opt; disposition = authoredOptionDisposition k in
      if disposition = Unhandled \<or> disposition = Quarantined then False
      else if k \<in> set BOOLEAN_FORWARDED_OPTIONS \<or> harness_flag k then
        (if harness_flag k \<and> ao_source opt = Embedded_config then True else \<not> isExactBoolean opt)
      else if k \<in> set STRING_FORWARDED_OPTIONS \<or> k = ''base'' then
        (case ao_value opt of
           JStr s \<Rightarrow>
             if \<not> isNonEmptyString (JStr s) then True
             else
               let normalized = to_lower s in
               if ao_source opt = Directive \<and> str_includes normalized '','' then True
               else if k = ''target'' then normalized \<notin> set TARGET_VALUES
               else if k = ''module'' then normalized \<notin> set MODULE_VALUES
               else False
         | _ \<Rightarrow> True)
      else if k = ''lib'' then \<not> isValidLibList opt
      else True)"

definition invalidAuthoredOptions :: "resolved_options \<Rightarrow> authored_option list" where
  "invalidAuthoredOptions opts = sort_by option_cmp (filter invalid_option (map snd opts))"

definition source_text :: "option_source \<Rightarrow> string" where
  "source_text s = (case s of Embedded_config \<Rightarrow> ''embedded-config'' | Directive \<Rightarrow> ''directive''
     | Filename_variant \<Rightarrow> ''filename-variant'')"

definition authoredOptionFailureReasons :: "resolved_options \<Rightarrow> string list" where
  "authoredOptionFailureReasons opts =
     map (\<lambda>opt. ''invalid-authored-option:'' @ ao_key opt @ ''('' @ source_text (ao_source opt) @ '')'')
       (invalidAuthoredOptions opts) @
     map (\<lambda>opt. ''unhandled-authored-option:'' @ ao_key opt @ ''('' @ source_text (ao_source opt) @ '')'')
       (unhandledAuthoredOptions opts)"

section \<open>Reading the options\<close>

definition optionValue :: "resolved_options \<Rightarrow> string \<Rightarrow> jsval" where
  "optionValue opts k = undefined_or (map_get opts (to_lower k)) ao_value"

definition optionBoolean :: "resolved_options \<Rightarrow> string \<Rightarrow> bool option" where
  "optionBoolean opts k =
     (case map_get opts (to_lower k) of
        None \<Rightarrow> None
      | Some opt \<Rightarrow>
          (case ao_value opt of
             JBool b \<Rightarrow> Some b
           | JStr s \<Rightarrow>
               if ao_source opt \<noteq> Filename_variant then None
               else if s = ''true'' then Some True
               else if s = ''false'' then Some False
               else None
           | _ \<Rightarrow> None))"

definition optionString :: "resolved_options \<Rightarrow> string \<Rightarrow> string option" where
  "optionString opts k = (case optionValue opts k of JStr s \<Rightarrow> Some s | _ \<Rightarrow> None)"

fun string_items :: "jsval list \<Rightarrow> string list option" where
  "string_items [] = Some []"
| "string_items (JStr s # vs) = map_option ((#) s) (string_items vs)"
| "string_items (_ # vs) = None"

definition optionLibList :: "resolved_options \<Rightarrow> string list option" where
  "optionLibList opts =
     (case map_get opts ''lib'' of
        None \<Rightarrow> None
      | Some opt \<Rightarrow>
          if ao_source opt = Embedded_config then
            (case ao_value opt of JArr vs \<Rightarrow> string_items vs | _ \<Rightarrow> None)
          else
            (case ao_value opt of
               JStr s \<Rightarrow>
                 if ao_source opt = Filename_variant then Some [s]
                 else Some (filter (\<lambda>part. 0 < length part) (map trim (split_on '','' s)))
             | _ \<Rightarrow> None))"

section \<open>Embedded configurations\<close>

text \<open>\<open>Array.prototype.join\<close> turns \<open>undefined\<close> into the empty text. The entries of an object
  are rendered before they are sorted by key, which is the same list.\<close>

fun stableJson :: "jsval \<Rightarrow> string" where
  "stableJson (JArr vs) =
     ''['' @ join '','' (map (\<lambda>v. if v = JUndef then [] else stableJson v) vs) @ '']''"
| "stableJson (JObj ob) =
     ''{'' @ join '','' (map (\<lambda>p. json_string (fst p) @ '':'' @ snd p)
       (sort_by key_cmp (map (\<lambda>p. (fst p, stableJson (snd p))) ob))) @ ''}''"
| "stableJson JUndef = ''undefined''"
| "stableJson JNull = ''null''"
| "stableJson (JBool b) = bool_text b"
| "stableJson (JInt i) = show_int i"
| "stableJson (JFrac s) = s"
| "stableJson (JStr s) = json_string s"

record selected_config =
  sel_name :: string
  sel_options :: "(string \<times> jsval) list"
  sel_fingerprint :: string

record embedded_state =
  es_selected :: "selected_config option"
  es_reasons :: "string list"
  es_names :: "string list"

record embedded_result =
  er_options :: "(string \<times> jsval) list"
  er_reasons :: "string list"
  er_names :: "string list"

definition add_reason :: "string \<Rightarrow> embedded_state \<Rightarrow> embedded_state" where
  "add_reason r st = st\<lparr>es_reasons := es_reasons st @ [r]\<rparr>"

definition unhandled_fields :: "string \<Rightarrow> (string \<times> jsval) list \<Rightarrow> string list" where
  "unhandled_fields n config =
     map (\<lambda>k. ''unhandled-embedded-tsconfig-field:'' @ k @ ''('' @ n @ '')'')
       (filter (\<lambda>k. k \<noteq> ''compilerOptions'' \<and> k \<noteq> ''$schema'') (map fst config))"

definition select_options :: "string \<Rightarrow> (string \<times> jsval) list \<Rightarrow> embedded_state \<Rightarrow> embedded_state" where
  "select_options n opts st =
     (let fingerprint = stableJson (JObj opts) in
      case es_selected st of
        None \<Rightarrow> st\<lparr>es_selected :=
          Some \<lparr>sel_name = n, sel_options = opts, sel_fingerprint = fingerprint\<rparr>\<rparr>
      | Some sel \<Rightarrow>
          if sel_fingerprint sel \<noteq> fingerprint
          then add_reason (''conflicting-embedded-tsconfigs:'' @ sel_name sel @ ''|'' @ n) st
          else st)"

text \<open>The body of the loop. \<open>parseJsonc\<close> gives the parsed value and the number of errors.\<close>

definition embedded_step ::
  "(string \<Rightarrow> jsval \<times> nat) \<Rightarrow> source_unit \<Rightarrow> embedded_state \<Rightarrow> embedded_state" where
  "embedded_step parseJsonc f st =
     (if \<not> is_tsconfig f then st
      else
        let st = st\<lparr>es_names := es_names st @ [u_name f]\<rparr>; (parsed, errors) = parseJsonc (u_content f) in
        if 0 < errors then add_reason (''embedded-tsconfig-jsonc-parse-error:'' @ u_name f) st
        else case parsed of
          JObj config \<Rightarrow>
            let st = st\<lparr>es_reasons := es_reasons st @ unhandled_fields (u_name f) config\<rparr> in
            (case map_of config ''compilerOptions'' of
               None \<Rightarrow> st
             | Some JUndef \<Rightarrow> st
             | Some (JObj opts) \<Rightarrow> select_options (u_name f) opts st
             | Some _ \<Rightarrow> add_reason (''embedded-tsconfig-invalid-compiler-options:'' @ u_name f) st)
        | _ \<Rightarrow> add_reason (''embedded-tsconfig-invalid-root:'' @ u_name f) st)"

definition parseEmbeddedCompilerOptions ::
  "(string \<Rightarrow> jsval \<times> nat) \<Rightarrow> source_unit list \<Rightarrow> embedded_result" where
  "parseEmbeddedCompilerOptions parseJsonc files =
     (let st = fold (embedded_step parseJsonc) files
                 \<lparr>es_selected = None, es_reasons = [], es_names = []\<rparr>
      in \<lparr>er_options = (case es_selected st of None \<Rightarrow> [] | Some s \<Rightarrow> sel_options s),
          er_reasons = es_reasons st, er_names = es_names st\<rparr>)"

section \<open>Precedence\<close>

lemma merge_source_get:
  "map_get (merge_source p src m) k =
     (case map_of (rev (normalizedEntries src)) k of
        Some v \<Rightarrow> Some \<lparr>ao_key = k, ao_value = v, ao_source = p\<rparr>
      | None \<Rightarrow> map_get m k)"
proof -
  let ?g = "\<lambda>(k, v). (k, \<lparr>ao_key = k, ao_value = v, ao_source = p\<rparr>)"
  have f: "(\<lambda>(k, v). map_set k \<lparr>ao_key = k, ao_value = v, ao_source = p\<rparr>) =
      (\<lambda>(k, v). map_set k v) \<circ> ?g" by (rule ext) auto
  have "merge_source p src m = fold (\<lambda>(k, v). map_set k v) (map ?g (normalizedEntries src)) m"
    unfolding merge_source_def f by (simp add: fold_map)
  moreover have "map_of (rev (map ?g es)) k =
      map_option (\<lambda>v. \<lparr>ao_key = k, ao_value = v, ao_source = p\<rparr>) (map_of (rev es) k)" for es
    by (induction es rule: rev_induct) auto
  ultimately show ?thesis using js_map.put_all[of "map ?g (normalizedEntries src)" m k]
    by (simp split: option.splits)
qed

lemma merge_source_keys:
  "distinct (map_keys m) \<Longrightarrow> distinct (map_keys (merge_source p src m))"
proof -
  have "distinct (map_keys m) \<Longrightarrow>
     distinct (map_keys (fold (\<lambda>(k, v). map_set k \<lparr>ao_key = k, ao_value = v, ao_source = p\<rparr>) es m))" for es
    by (induction es arbitrary: m) (auto simp: js_map.keys_put)
  then show "distinct (map_keys m) \<Longrightarrow> ?thesis" by (simp add: merge_source_def)
qed

lemma resolve_distinct: "distinct (map_keys (resolveAuthoredOptions s))"
  by (simp add: resolveAuthoredOptions_def merge_source_keys)

lemma resolve_get:
  "map_get (resolveAuthoredOptions s) k =
     (case map_of (rev (normalizedEntries (s_variant s))) k of
        Some v \<Rightarrow> Some \<lparr>ao_key = k, ao_value = v, ao_source = Filename_variant\<rparr>
      | None \<Rightarrow>
     (case map_of (rev (normalizedEntries (s_directives s))) k of
        Some v \<Rightarrow> Some \<lparr>ao_key = k, ao_value = v, ao_source = Directive\<rparr>
      | None \<Rightarrow>
        map_option (\<lambda>v. \<lparr>ao_key = k, ao_value = v, ao_source = Embedded_config\<rparr>)
          (map_of (rev (normalizedEntries (s_embedded s))) k)))"
  by (simp add: resolveAuthoredOptions_def merge_source_get split: option.splits)

lemma resolve_key: "map_get (resolveAuthoredOptions s) k = Some opt \<Longrightarrow> ao_key opt = k"
  by (auto simp: resolve_get split: option.splits)

lemma resolve_values:
  "set (map snd (resolveAuthoredOptions s)) = {opt. map_get (resolveAuthoredOptions s) (ao_key opt) = Some opt}"
proof (intro set_eqI iffI)
  fix opt
  assume "opt \<in> set (map snd (resolveAuthoredOptions s))"
  then obtain k where "(k, opt) \<in> set (resolveAuthoredOptions s)" by auto
  then have "map_get (resolveAuthoredOptions s) k = Some opt" by (simp add: map_get_iff resolve_distinct)
  then show "opt \<in> {opt. map_get (resolveAuthoredOptions s) (ao_key opt) = Some opt}"
    using resolve_key by auto
qed (auto dest: map_get_Some_mem intro: rev_image_eqI)

lemma lower_normalized: "map_of (rev (normalizedEntries src)) k = Some v \<Longrightarrow> to_lower k = k"
  by (auto simp: normalizedEntries_def dest!: map_of_SomeD)

lemma resolve_key_lower: "map_get (resolveAuthoredOptions s) k = Some opt \<Longrightarrow> to_lower k = k"
  by (auto simp: resolve_get lower_normalized split: option.splits)

text \<open>An option is looked up in lower case, and its value comes from the most specific
  source that names it: the file name variant before the directives before the embedded
  configuration, and in one source the last entry of that name in any letter case.\<close>

theorem resolve_precedence:
  "optionValue (resolveAuthoredOptions s) k =
     (case map_of (rev (normalizedEntries (s_variant s))) (to_lower k) of Some v \<Rightarrow> v
      | None \<Rightarrow> (case map_of (rev (normalizedEntries (s_directives s))) (to_lower k) of Some v \<Rightarrow> v
      | None \<Rightarrow> (case map_of (rev (normalizedEntries (s_embedded s))) (to_lower k) of Some v \<Rightarrow> v
      | None \<Rightarrow> JUndef)))"
  by (simp add: optionValue_def resolve_get undefined_or_def split: option.splits)

section \<open>Forwarding without loss\<close>

lemma no_failures:
  assumes "authoredOptionFailureReasons (resolveAuthoredOptions s) = []"
    and "map_get (resolveAuthoredOptions s) k = Some opt"
  shows "\<not> invalid_option opt \<and> authoredOptionDisposition k \<noteq> Unhandled"
proof -
  have "opt \<in> set (map snd (resolveAuthoredOptions s))"
    unfolding resolve_values using assms(2) resolve_key by auto
  moreover have "sort_by option_cmp xs = [] \<longleftrightarrow> xs = []" for xs
    by (metis length_0_conv length_sort_by)
  ultimately show ?thesis using assms(1) resolve_key[OF assms(2)]
    by (auto simp: authoredOptionFailureReasons_def invalidAuthoredOptions_def
        unhandledAuthoredOptions_def filter_empty_conv)
qed

lemma sets_disjoint:
  "k \<in> set BOOLEAN_FORWARDED_OPTIONS \<Longrightarrow> k \<notin> set STRING_FORWARDED_OPTIONS"
  "k \<in> set STRING_FORWARDED_OPTIONS \<Longrightarrow> k \<notin> set BOOLEAN_FORWARDED_OPTIONS \<and> \<not> harness_flag k"
  "''lib'' \<notin> set BOOLEAN_FORWARDED_OPTIONS" "''lib'' \<notin> set STRING_FORWARDED_OPTIONS"
  by (auto simp: BOOLEAN_FORWARDED_OPTIONS_def STRING_FORWARDED_OPTIONS_def harness_flag_def)

lemma forwarded_disposition:
  "to_lower k = k \<Longrightarrow> k \<in> set FORWARDED_OPTIONS \<Longrightarrow> authoredOptionDisposition k = Forwarded"
  by (simp add: authoredOptionDisposition_def)

lemma boolean_valid:
  assumes "\<not> invalid_option opt" and "authoredOptionDisposition (ao_key opt) = Forwarded"
    and "ao_key opt \<in> set BOOLEAN_FORWARDED_OPTIONS"
  shows "isExactBoolean opt"
  using assms by (auto simp: invalid_option_def Let_def split: if_splits)

lemma string_valid:
  assumes "\<not> invalid_option opt" and "authoredOptionDisposition (ao_key opt) = Forwarded"
    and "ao_key opt \<in> set STRING_FORWARDED_OPTIONS"
  shows "\<exists>v. ao_value opt = JStr v \<and> v \<noteq> [] \<and>
    (ao_key opt = ''target'' \<longrightarrow> to_lower v \<in> set TARGET_VALUES) \<and>
    (ao_key opt = ''module'' \<longrightarrow> to_lower v \<in> set MODULE_VALUES)"
  using assms sets_disjoint(2)[OF assms(3)]
  by (cases "ao_value opt") (auto simp: invalid_option_def Let_def isNonEmptyString_def split: if_splits)

lemma option_names:
  "''target'' \<in> set STRING_FORWARDED_OPTIONS" "''module'' \<in> set STRING_FORWARDED_OPTIONS"
  by (simp_all add: STRING_FORWARDED_OPTIONS_def)

lemma target_valid:
  assumes "\<not> invalid_option opt" "authoredOptionDisposition (ao_key opt) = Forwarded"
    "ao_key opt = ''target''" "ao_value opt = JStr v"
  shows "to_lower v \<in> set TARGET_VALUES"
  using string_valid[OF assms(1,2)] assms(3,4) option_names by auto

lemma module_valid:
  assumes "\<not> invalid_option opt" "authoredOptionDisposition (ao_key opt) = Forwarded"
    "ao_key opt = ''module''" "ao_value opt = JStr v"
  shows "to_lower v \<in> set MODULE_VALUES"
  using string_valid[OF assms(1,2)] assms(3,4) option_names by auto

lemma lib_valid:
  assumes "\<not> invalid_option opt" and "authoredOptionDisposition (ao_key opt) = Forwarded"
    and "ao_key opt = ''lib''"
  shows "isValidLibList opt"
  using assms sets_disjoint by (auto simp: invalid_option_def Let_def harness_flag_def split: if_splits)

lemma string_items_valid:
  "list_all lib_item vs \<Longrightarrow>
   \<exists>ls. string_items vs = Some ls \<and> map JStr ls = vs \<and> (\<forall>l \<in> set ls. l \<noteq> [] \<and> CHR '','' \<notin> set l)"
proof (induction vs)
  case Nil
  then show ?case by simp
next
  case (Cons v vs)
  then obtain x where "v = JStr x" "x \<noteq> []" "\<not> str_includes x '',''"
    by (auto simp: lib_item_def split: jsval.splits)
  moreover have "\<not> str_includes x '','' \<Longrightarrow> CHR '','' \<notin> set x" for x
    by (metis append_Cons append_Nil includes_iff split_list)
  ultimately show ?case using Cons by auto
qed

lemma no_comma: "\<not> str_includes x '','' \<Longrightarrow> CHR '','' \<notin> set x"
  by (metis append_Cons append_Nil includes_iff split_list)

lemma lib_list_valid:
  assumes "map_get opts ''lib'' = Some opt" and "isValidLibList opt"
  shows "\<exists>ls. optionLibList opts = Some ls \<and> ls \<noteq> [] \<and> (\<forall>l \<in> set ls. l \<noteq> [] \<and> CHR '','' \<notin> set l)"
proof (cases "ao_source opt = Embedded_config")
  case True
  then obtain vs where "ao_value opt = JArr vs" "vs \<noteq> []" "list_all lib_item vs"
    using assms(2) by (auto simp: isValidLibList_def split: jsval.splits)
  then show ?thesis using assms(1) True string_items_valid[of vs] by (auto simp: optionLibList_def)
next
  case False
  then obtain v where v: "ao_value opt = JStr v" using assms(2)
    by (auto simp: isValidLibList_def split: jsval.splits)
  show ?thesis
  proof (cases "ao_source opt = Filename_variant")
    case True
    then show ?thesis using assms v no_comma by (auto simp: optionLibList_def isValidLibList_def)
  next
    case False
    then have "optionLibList opts = Some (splitListValues v)"
      using assms(1) v \<open>ao_source opt \<noteq> Embedded_config\<close> by (simp add: optionLibList_def splitListValues_def)
    moreover have "splitListValues v \<noteq> []"
      using assms(2) v False \<open>ao_source opt \<noteq> Embedded_config\<close>
      by (auto simp: isValidLibList_def splitListValues_def list_ex_iff filter_empty_conv)
    ultimately show ?thesis using splitListValues_items by auto
  qed
qed



section \<open>Accepted targets and modules\<close>

text \<open>The names the command line uses for an accepted token: \<open>es6\<close> is the only alias.\<close>

definition canonical_token :: "string \<Rightarrow> string" where
  "canonical_token t = (if t = ''es6'' then ''es2015'' else t)"

lemma target_values: "list_all (\<lambda>t. targetToCliArg (parseTarget t) = canonical_token t) TARGET_VALUES"
  by (simp add: TARGET_VALUES_def canonical_token_def targetToCliArg_def TARGET_CLI_ARGS_def parseTarget_def
      to_lower_def lower_char_def)

lemma module_values: "list_all (\<lambda>t. moduleToCliArg (parseModule t) = canonical_token t) MODULE_VALUES"
  by (simp add: MODULE_VALUES_def canonical_token_def moduleToCliArg_def MODULE_CLI_ARGS_def parseModule_def
      to_lower_def lower_char_def)

lemma parse_lower [simp]: "parseTarget (to_lower v) = parseTarget v" "parseModule (to_lower v) = parseModule v"
  by (simp_all add: parseTarget_def parseModule_def)

lemma target_token:
  "to_lower v \<in> set TARGET_VALUES \<Longrightarrow> targetToCliArg (parseTarget v) = canonical_token (to_lower v)"
  using target_values by (auto simp: list_all_iff dest!: bspec)

lemma module_token:
  "to_lower v \<in> set MODULE_VALUES \<Longrightarrow> moduleToCliArg (parseModule v) = canonical_token (to_lower v)"
  using module_values by (auto simp: list_all_iff dest!: bspec)

text \<open>A target or module that passes validation reaches the command line as the token the
  author wrote, in lower case and with \<open>es6\<close> written \<open>es2015\<close>; it never falls back to a default.\<close>

theorem target_module_exact:
  assumes "authoredOptionFailureReasons (resolveAuthoredOptions s) = []"
  shows "(\<forall>v. optionString (resolveAuthoredOptions s) ''target'' = Some v \<longrightarrow>
            targetToCliArg (parseTarget v) = canonical_token (to_lower v)) \<and>
    (\<forall>v. optionString (resolveAuthoredOptions s) ''module'' = Some v \<longrightarrow>
            moduleToCliArg (parseModule v) = canonical_token (to_lower v))"
proof -
  have low: "to_lower ''target'' = ''target''" "to_lower ''module'' = ''module''"
    by (simp_all add: to_lower_def lower_char_def)
  note mem = option_names
  have get: "\<exists>opt. map_get (resolveAuthoredOptions s) k = Some opt \<and> ao_value opt = JStr v"
    if "optionString (resolveAuthoredOptions s) k = Some v" "to_lower k = k" for k v
    using that by (auto simp: optionString_def optionValue_def undefined_or_def
        split: option.splits jsval.splits)
  have ok: "\<not> invalid_option opt \<and> authoredOptionDisposition (ao_key opt) = Forwarded \<and> ao_key opt = k"
    if "map_get (resolveAuthoredOptions s) k = Some opt" "k \<in> set STRING_FORWARDED_OPTIONS" for k opt
    using no_failures[OF assms that(1)] resolve_key[OF that(1)] that(2)
      forwarded_disposition[OF resolve_key_lower[OF that(1)]] by (simp add: FORWARDED_OPTIONS_def)
  show ?thesis
  proof (intro conjI allI impI)
    fix v assume "optionString (resolveAuthoredOptions s) ''target'' = Some v"
    from get[OF this low(1)] obtain opt where o: "map_get (resolveAuthoredOptions s) ''target'' = Some opt"
      "ao_value opt = JStr v" by blast
    have "to_lower v \<in> set TARGET_VALUES"
      using ok[OF o(1) mem(1)] o(2) target_valid[of opt v] by blast
    then show "targetToCliArg (parseTarget v) = canonical_token (to_lower v)"
      by (rule target_token)
  next
    fix v assume "optionString (resolveAuthoredOptions s) ''module'' = Some v"
    from get[OF this low(2)] obtain opt where o: "map_get (resolveAuthoredOptions s) ''module'' = Some opt"
      "ao_value opt = JStr v" by blast
    have "to_lower v \<in> set MODULE_VALUES"
      using ok[OF o(1) mem(2)] o(2) module_valid[of opt v] by blast
    then show "moduleToCliArg (parseModule v) = canonical_token (to_lower v)"
      by (rule module_token)
  qed
qed

theorem target_module_exact_witness:
  "targetToCliArg (parseTarget ''ES6'') = canonical_token (to_lower ''ES6'')"
proof -
  let ?s = "\<lparr>s_variant = [], s_directives = [(''target'', JStr ''ES6'')], s_embedded = []\<rparr>"
  have n: "authoredOptionFailureReasons (resolveAuthoredOptions ?s) = []" by code_simp
  have "optionString (resolveAuthoredOptions ?s) ''target'' = Some ''ES6''" by code_simp
  then show ?thesis using target_module_exact[OF n] by blast
qed

section \<open>Embedded configurations agree\<close>

lemma json_string_quote: "json_string s = quote_with json_char s"
  by (simp add: json_string_def quote_with_def)

lemma stableJson_render: "json_value v \<Longrightarrow> stableJson v = render json_char (sort_keys v)"
proof (induction v)
  case (JArr vs)
  have "map (\<lambda>v. if v = JUndef then [] else stableJson v) vs = map (render json_char) (map sort_keys vs)"
    using JArr by (auto simp: list_all_iff)
  then show ?case by (simp del: map_map)
next
  case (JObj ob)
  let ?g = "\<lambda>p. (fst p, render json_char (snd p))" and ?h = "\<lambda>p. (fst p, sort_keys (snd p))"
  have "map (\<lambda>p. (fst p, stableJson (snd p))) ob = map ?g (map ?h ob)"
    using JObj by (auto simp: list_all_iff)
  moreover have "sort_by key_cmp (map ?g (map ?h ob)) = map ?g (sort_by key_cmp (map ?h ob))"
    by (rule map_sort_by) (simp add: key_cmp_def)
  ultimately show ?case unfolding sort_keys.simps stableJson.simps render.simps
    by (simp only: map_map comp_def json_string_quote fst_conv snd_conv)
qed (simp_all add: json_string_quote)

text \<open>The fingerprint of a configuration is exact: two JSON values have the same text exactly
  when they are equal up to the order of keys.\<close>

lemma stableJson_iff:
  "json_value v \<Longrightarrow> json_value w \<Longrightarrow> stableJson v = stableJson w \<longleftrightarrow> sort_keys v = sort_keys w"
  by (simp add: stableJson_render plain_json.render_inject sort_keys_value)

lemma reasons_select: "es_reasons (select_options n opts st) = [] \<Longrightarrow> es_reasons st = []"
  by (auto simp: select_options_def add_reason_def Let_def split: option.splits if_splits)

lemma reasons_step: "es_reasons (embedded_step parse f st) = [] \<Longrightarrow> es_reasons st = []"
  by (auto simp: embedded_step_def add_reason_def Let_def dest!: reasons_select
      split: option.splits if_splits jsval.splits prod.splits)

lemma select_cases:
  assumes "es_reasons (select_options n opts st) = []"
  shows "(es_selected st = None \<and> es_selected (select_options n opts st) =
        Some \<lparr>sel_name = n, sel_options = opts, sel_fingerprint = stableJson (JObj opts)\<rparr>) \<or>
     (\<exists>sel. es_selected st = Some sel \<and> es_selected (select_options n opts st) = Some sel \<and>
        sel_fingerprint sel = stableJson (JObj opts))"
  using assms by (auto simp: select_options_def add_reason_def Let_def split: option.splits if_splits)

text \<open>A configuration file without a reason: it parses, its root is an object with the two known
  fields, and the options, when present, are an object.\<close>

definition clean_config ::
  "(string \<Rightarrow> jsval \<times> nat) \<Rightarrow> source_unit \<Rightarrow> (string \<times> jsval) list option \<Rightarrow> bool" where
  "clean_config parse f opts \<longleftrightarrow>
     (\<exists>config. parse (u_content f) = (JObj config, 0) \<and>
        fst ` set config \<subseteq> {''compilerOptions'', ''$schema''} \<and>
        (case opts of None \<Rightarrow> map_of config ''compilerOptions'' \<in> {None, Some JUndef}
         | Some ob \<Rightarrow> map_of config ''compilerOptions'' = Some (JObj ob)))"

lemma unhandled_fields_Nil:
  "unhandled_fields n config = [] \<longleftrightarrow> fst ` set config \<subseteq> {''compilerOptions'', ''$schema''}"
  by (auto simp: unhandled_fields_def filter_empty_conv)

lemma step_cases:
  assumes "es_reasons (embedded_step parse f st) = []" and "is_tsconfig f"
  shows "(clean_config parse f None \<and> es_selected (embedded_step parse f st) = es_selected st) \<or>
     (\<exists>opts. clean_config parse f (Some opts) \<and>
        (\<exists>n st'. es_selected st' = es_selected st \<and> es_reasons (select_options n opts st') = [] \<and>
           es_selected (embedded_step parse f st) = es_selected (select_options n opts st')))"
proof -
  obtain config where p: "parse (u_content f) = (JObj config, 0)"
    using assms by (cases "parse (u_content f)")
      (auto simp: embedded_step_def add_reason_def Let_def split: if_splits jsval.splits)
  let ?st = "st\<lparr>es_names := es_names st @ [u_name f]\<rparr>"
  let ?st' = "?st\<lparr>es_reasons := es_reasons ?st @ unhandled_fields (u_name f) config\<rparr>"
  have step: "embedded_step parse f st =
      (case map_of config ''compilerOptions'' of
         None \<Rightarrow> ?st'
       | Some JUndef \<Rightarrow> ?st'
       | Some (JObj opts) \<Rightarrow> select_options (u_name f) opts ?st'
       | Some _ \<Rightarrow> add_reason (''embedded-tsconfig-invalid-compiler-options:'' @ u_name f) ?st')"
    using p assms(2) by (simp add: embedded_step_def Let_def)
  define st' where "st' = ?st'"
  note step = step[folded st'_def]
  have "es_reasons st' = []"
  proof (cases "map_of config ''compilerOptions''")
    case None
    then show ?thesis using assms(1) by (simp add: step)
  next
    case (Some v)
    show ?thesis
    proof (cases "\<exists>opts. v = JObj opts")
      case True
      then show ?thesis using assms(1) Some reasons_select by (fastforce simp only: step option.case jsval.case)
    next
      case False
      then show ?thesis using assms(1) Some by (cases v) (simp_all add: step add_reason_def)
    qed
  qed
  then have known: "fst ` set config \<subseteq> {''compilerOptions'', ''$schema''}"
    by (simp add: unhandled_fields_Nil st'_def)
  have sel: "es_selected st' = es_selected st" by (simp add: st'_def)
  have cases: "map_of config ''compilerOptions'' \<in> {None, Some JUndef} \<or>
      (\<exists>opts. map_of config ''compilerOptions'' = Some (JObj opts))"
  proof (cases "map_of config ''compilerOptions''")
    case (Some v)
    then show ?thesis using assms(1) by (cases v) (simp_all add: step add_reason_def)
  qed simp
  consider "map_of config ''compilerOptions'' \<in> {None, Some JUndef}"
    | opts where "map_of config ''compilerOptions'' = Some (JObj opts)" using cases by blast
  then show ?thesis
  proof cases
    case 1
    then have "embedded_step parse f st = st'" by (auto simp: step)
    then show ?thesis using 1 p known sel by (auto simp: clean_config_def)
  next
    case 2
    have e: "embedded_step parse f st = select_options (u_name f) opts st'" using 2 by (simp add: step)
    have "clean_config parse f (Some opts)" using 2 p known by (auto simp: clean_config_def)
    then show ?thesis using assms(1) sel unfolding e by blast
  qed
qed

definition config_inv ::
  "(string \<Rightarrow> jsval \<times> nat) \<Rightarrow> source_unit list \<Rightarrow> embedded_state \<Rightarrow> bool" where
  "config_inv parse fs st \<longleftrightarrow>
     (\<forall>f \<in> set fs. is_tsconfig f \<longrightarrow>
        (\<exists>opts. clean_config parse f opts \<and>
           (\<forall>ob. opts = Some ob \<longrightarrow>
              (\<exists>sel. es_selected st = Some sel \<and> sel_fingerprint sel = stableJson (JObj ob))))) \<and>
     (\<forall>sel. es_selected st = Some sel \<longrightarrow> sel_fingerprint sel = stableJson (JObj (sel_options sel)) \<and>
        (\<exists>f \<in> set fs. clean_config parse f (Some (sel_options sel))))"

lemma config_inv_step:
  assumes inv: "config_inv parse fs st" and r: "es_reasons (embedded_step parse f st) = []"
  shows "config_inv parse (fs @ [f]) (embedded_step parse f st)"
proof (cases "is_tsconfig f")
  case False
  then show ?thesis using inv by (auto simp: config_inv_def embedded_step_def)
next
  case True
  from step_cases[OF r True] show ?thesis
  proof
    assume "clean_config parse f None \<and> es_selected (embedded_step parse f st) = es_selected st"
    then show ?thesis using inv unfolding config_inv_def by fastforce
  next
    assume "\<exists>opts. clean_config parse f (Some opts) \<and>
        (\<exists>n st'. es_selected st' = es_selected st \<and> es_reasons (select_options n opts st') = [] \<and>
           es_selected (embedded_step parse f st) = es_selected (select_options n opts st'))"
    then obtain opts n st' where c: "clean_config parse f (Some opts)"
      and st': "es_selected st' = es_selected st" "es_reasons (select_options n opts st') = []"
        "es_selected (embedded_step parse f st) = es_selected (select_options n opts st')" by blast
    from select_cases[OF st'(2)] show ?thesis
    proof
      assume "es_selected st' = None \<and> es_selected (select_options n opts st') =
        Some \<lparr>sel_name = n, sel_options = opts, sel_fingerprint = stableJson (JObj opts)\<rparr>"
      then have s: "es_selected st = None" "es_selected (embedded_step parse f st) =
        Some \<lparr>sel_name = n, sel_options = opts, sel_fingerprint = stableJson (JObj opts)\<rparr>"
        using st' by simp_all
      show ?thesis using inv c unfolding config_inv_def s by fastforce
    next
      assume "\<exists>sel. es_selected st' = Some sel \<and> es_selected (select_options n opts st') = Some sel \<and>
        sel_fingerprint sel = stableJson (JObj opts)"
      then obtain sel where s: "es_selected st = Some sel"
        "es_selected (embedded_step parse f st) = Some sel" "sel_fingerprint sel = stableJson (JObj opts)"
        using st' by auto
      show ?thesis using inv c s(3) unfolding config_inv_def s(1,2) by fastforce
    qed
  qed
qed

lemma reasons_fold: "es_reasons (fold (embedded_step parse) hs st) = [] \<Longrightarrow> es_reasons st = []"
proof (induction hs arbitrary: st)
  case (Cons h hs)
  have "es_reasons (fold (embedded_step parse) hs (embedded_step parse h st)) = []"
    using Cons.prems unfolding fold_Cons comp_apply .
  then have "es_reasons (embedded_step parse h st) = []" by (rule Cons.IH)
  then show ?case by (rule reasons_step)
qed simp

lemma config_inv_fold:
  "config_inv parse fs st \<Longrightarrow> es_reasons (fold (embedded_step parse) gs st) = [] \<Longrightarrow>
   config_inv parse (fs @ gs) (fold (embedded_step parse) gs st) \<and> es_reasons st = []"
proof (induction gs arbitrary: fs st)
  case Nil
  then show ?case by simp
next
  case (Cons g gs)
  have r: "es_reasons (embedded_step parse g st) = []"
    by (rule reasons_fold[of parse gs]) (use Cons.prems(2) in \<open>simp only: fold_Cons comp_apply\<close>)
  have "config_inv parse ((fs @ [g]) @ gs) (fold (embedded_step parse) gs (embedded_step parse g st))"
    using Cons.IH[OF config_inv_step[OF Cons.prems(1) r]] Cons.prems(2) by simp
  then show ?case using reasons_step[OF r] by simp
qed

text \<open>When reading the embedded configurations gives no reason, every tsconfig unit parses
  to an object with known fields only, and all that carry compiler options carry the same
  options up to the order of keys: the ones that are returned. The JSONC parser is assumed to
  give JSON values where it reports no error.\<close>

theorem embedded_configs_agree:
  assumes parser: "\<forall>tx v. parse tx = (v, 0) \<longrightarrow> json_value v"
    and none: "er_reasons (parseEmbeddedCompilerOptions parse fs) = []"
    and f: "f \<in> set fs" "is_tsconfig f"
  shows "\<exists>opts. clean_config parse f opts \<and>
    (\<forall>ob. opts = Some ob \<longrightarrow>
       sort_keys (JObj ob) = sort_keys (JObj (er_options (parseEmbeddedCompilerOptions parse fs))))"
proof -
  let ?s0 = "\<lparr>es_selected = None, es_reasons = [], es_names = []\<rparr>"
  let ?st = "fold (embedded_step parse) fs ?s0"
  have "config_inv parse [] ?s0" by (simp add: config_inv_def)
  moreover have "es_reasons ?st = []" using none by (simp add: parseEmbeddedCompilerOptions_def Let_def)
  ultimately have inv: "config_inv parse fs ?st" using config_inv_fold[of parse "[]" ?s0 fs] by simp
  obtain opts where o: "clean_config parse f opts"
    "\<forall>ob. opts = Some ob \<longrightarrow> (\<exists>sel. es_selected ?st = Some sel \<and> sel_fingerprint sel = stableJson (JObj ob))"
    using inv f unfolding config_inv_def by blast
  have jv: "clean_config parse g (Some ob) \<Longrightarrow> json_value (JObj ob)" for g ob
  proof -
    assume "clean_config parse g (Some ob)"
    then obtain config where c: "parse (u_content g) = (JObj config, 0)"
      "map_of config ''compilerOptions'' = Some (JObj ob)" by (auto simp: clean_config_def)
    then have "json_value (JObj config)" using parser by blast
    then show "json_value (JObj ob)" using map_of_SomeD[OF c(2)] by (force simp: list_all_iff)
  qed
  have "sort_keys (JObj ob) = sort_keys (JObj (er_options (parseEmbeddedCompilerOptions parse fs)))"
    if ob: "opts = Some ob" for ob
  proof -
    obtain sel where sel: "es_selected ?st = Some sel" "sel_fingerprint sel = stableJson (JObj ob)"
      using o(2) ob by blast
    have "stableJson (JObj ob) = stableJson (JObj (sel_options sel))"
      and v: "json_value (JObj (sel_options sel))"
      using inv sel jv unfolding config_inv_def by metis+
    then have "sort_keys (JObj ob) = sort_keys (JObj (sel_options sel))"
      using stableJson_iff[of "JObj ob" "JObj (sel_options sel)"] jv[of f ob] o(1) ob by blast
    then show ?thesis using sel(1) by (simp add: parseEmbeddedCompilerOptions_def Let_def del: sort_keys.simps)
  qed
  then show ?thesis using o(1) by blast
qed

theorem embedded_configs_agree_witness:
  "\<exists>opts. clean_config (\<lambda>tx. (JObj [(''compilerOptions'', JObj [(''strict'', JBool True)])], 0))
      \<lparr>u_name = ''tsconfig.json'', u_content = []\<rparr> opts"
proof -
  let ?p = "\<lambda>tx :: string. (JObj [(''compilerOptions'', JObj [(''strict'', JBool True)])], 0 :: nat)"
  let ?f = "\<lparr>u_name = ''tsconfig.json'', u_content = []\<rparr>"
  have p: "\<forall>tx v. ?p tx = (v, 0) \<longrightarrow> json_value v" by auto
  have r: "er_reasons (parseEmbeddedCompilerOptions ?p [?f]) = []" by code_simp
  have t: "?f \<in> set [?f]" "is_tsconfig ?f" by (simp, code_simp)
  from embedded_configs_agree[OF p r t] show ?thesis by blast
qed

section \<open>Reading a variant back\<close>

definition variant_name :: "string \<Rightarrow> string \<Rightarrow> string" where
  "variant_name b v = b @ ''('' @ v @ '').js''"

lemma takeWhile_before: "c \<notin> set v \<Longrightarrow> takeWhile (\<lambda>d. d \<noteq> c) (v @ c # r) = v"
  by (induction v) auto

lemma variant_match_name:
  "v \<noteq> [] \<Longrightarrow> CHR '')'' \<notin> set v \<Longrightarrow> acc @ b \<noteq> [] \<Longrightarrow>
   \<forall>c \<in> set b. c \<noteq> CHR ''('' \<and> \<not> line_terminator c \<Longrightarrow>
   variant_match acc (variant_name b v) = Some (rev acc @ b, v)"
proof (induction b arbitrary: acc)
  case Nil
  then show ?case by (simp add: variant_name_def takeWhile_before Let_def)
next
  case (Cons c b)
  then have "variant_match (c # acc) (variant_name b v) = Some (rev (c # acc) @ b, v)"
    by (intro Cons.IH) auto
  then show ?case using Cons.prems(4) by (simp add: variant_name_def Let_def)
qed

text \<open>The name of a baseline permutation is read back: a base name without parentheses or
  line breaks and one option without commas or a closing parenthesis give the base and the
  option, its key in lower case.\<close>

theorem variant_roundtrip:
  assumes "b \<noteq> []" and "\<forall>c \<in> set b. c \<noteq> CHR ''('' \<and> \<not> line_terminator c"
    and "CHR ''='' \<notin> set k" and "\<forall>c \<in> set (k @ v). c \<noteq> CHR '')'' \<and> c \<noteq> CHR '',''"
    and "to_lower k \<noteq> ''base''" and "to_lower k \<noteq> ''__proto__''"
  shows "map_of (extractAuthoredVariantFromFilename (variant_name b (k @ ''='' @ v))) =
    [''base'' \<mapsto> JStr b, to_lower k \<mapsto> JStr v]"
proof -
  let ?e = "k @ ''='' @ v"
  have m: "variant_match [] (variant_name b ?e) = Some (b, ?e)"
    using variant_match_name[of ?e "[]" b] assms by auto
  have "split_on '','' ?e = [?e]"
    using split_on_join[of "[?e]" "CHR '',''"] assms(4) by auto
  moreover have "variant_entry ?e = (to_lower k, JStr v)"
    using assms(3) by (simp add: variant_entry_def takeWhile_before Let_def)
  ultimately have "extractAuthoredVariantFromFilename (variant_name b ?e) =
      obj_set (to_lower k) (JStr v) [(''base'', JStr b)]"
    by (simp add: extractAuthoredVariantFromFilename_def m del: append.simps)
  then show ?thesis using assms(5,6) by (simp add: obj_set_get)
qed

theorem variant_roundtrip_witness:
  "map_of (extractAuthoredVariantFromFilename (variant_name ''a'' (''Target'' @ ''='' @ ''es5''))) =
    [''base'' \<mapsto> JStr ''a'', to_lower ''Target'' \<mapsto> JStr ''es5'']"
  by (rule variant_roundtrip) (simp_all add: line_terminator_def cr_def lf_def to_lower_def lower_char_def)

end
