(* ===== verification/HarnessConfig.thy ===== *)
theory HarnessConfig
  imports NodePath AuthoredOptions
begin

text \<open>
  The corpus paths of \<open>scripts/emit/src/harness-config.ts\<close>: how the path-valued options are
  resolved and how a path of the virtual test file system becomes a path below the staged root;
  and the support decision and inventory of \<open>canonical-support.ts\<close>. The working directory and
  the file system's \<open>realpath\<close> are arguments.
\<close>

section \<open>Directory options\<close>

datatype directory_option = OutDir | DeclarationDir | RootDir

record directory_options =
  d_outDir :: "string option"
  d_declarationDir :: "string option"
  d_rootDir :: "string option"

definition option_name :: "directory_option \<Rightarrow> string" where
  "option_name d = (case d of OutDir \<Rightarrow> ''outDir'' | DeclarationDir \<Rightarrow> ''declarationDir''
     | RootDir \<Rightarrow> ''rootDir'')"

text \<open>\<open>a ?? b\<close>\<close>

definition nullish :: "jsval option \<Rightarrow> bool" where
  "nullish v \<longleftrightarrow> v = None \<or> v = Some JUndef \<or> v = Some JNull"

definition as_string :: "jsval option \<Rightarrow> string option" where
  "as_string v = (case v of Some (JStr s) \<Rightarrow> Some s | _ \<Rightarrow> None)"

definition readStringOption :: "(string \<times> jsval) list \<Rightarrow> directory_option \<Rightarrow> string option" where
  "readStringOption source d =
     (let nm = option_name d; lowerName = to_lower nm;
          direct = (if nullish (map_of source nm) then map_of source lowerName else map_of source nm)
      in case as_string direct of
           Some s \<Rightarrow> Some s
         | None \<Rightarrow>
             (case find (\<lambda>k. to_lower k = lowerName) (map fst source) of
                None \<Rightarrow> None
              | Some k \<Rightarrow> as_string (map_of source k)))"

definition or_option :: "'a option \<Rightarrow> 'a option \<Rightarrow> 'a option" where
  "or_option a b = (case a of None \<Rightarrow> b | Some x \<Rightarrow> Some x)"

definition resolve_directory :: "authored_sources \<Rightarrow> directory_option \<Rightarrow> string option" where
  "resolve_directory s d =
     or_option (or_option (readStringOption (s_variant s) d) (readStringOption (s_directives s) d))
       (readStringOption (s_embedded s) d)"

definition resolveDirectoryCompilerOptions :: "authored_sources \<Rightarrow> directory_options" where
  "resolveDirectoryCompilerOptions s =
     \<lparr>d_outDir = resolve_directory s OutDir,
      d_declarationDir = resolve_directory s DeclarationDir,
      d_rootDir = resolve_directory s RootDir\<rparr>"

section \<open>Corpus paths\<close>

definition to_slashes :: "string \<Rightarrow> string" where
  "to_slashes s = map (\<lambda>c. if c = CHR 92 then CHR ''/'' else c) s"

definition virtual_absolute :: "string \<Rightarrow> bool" where
  "virtual_absolute s \<longleftrightarrow>
     starts_with s ''/'' \<or> (case s of d # r \<Rightarrow> is_letter d \<and> starts_with r '':/'' | [] \<Rightarrow> False)"

definition corpusRelativePath :: "string \<Rightarrow> string" where
  "corpusRelativePath v =
     (let slashPath = to_slashes v;
          normalized =
            (if virtual_absolute slashPath
             then drop 1 (path_normalize (''/'' @ dropWhile (\<lambda>c. c = CHR ''/'') slashPath))
             else path_normalize slashPath)
      in if normalized = ''.'' then [] else normalized)"

definition corpusPhysicalPath :: "string \<Rightarrow> string \<Rightarrow> string \<Rightarrow> string" where
  "corpusPhysicalPath cwd testRoot v =
     (let physicalRoot = path_resolve cwd [testRoot]; rel = corpusRelativePath v
      in if rel = [] then physicalRoot else path_resolve cwd (physicalRoot # split_on ''/'' rel))"

definition physicalDirectoryCompilerOptions ::
  "string \<Rightarrow> string \<Rightarrow> directory_options \<Rightarrow> directory_options" where
  "physicalDirectoryCompilerOptions cwd testRoot opts =
     \<lparr>d_outDir = map_option (corpusPhysicalPath cwd testRoot) (d_outDir opts),
      d_declarationDir = map_option (corpusPhysicalPath cwd testRoot) (d_declarationDir opts),
      d_rootDir = map_option (corpusPhysicalPath cwd testRoot) (d_rootDir opts)\<rparr>"

text \<open>\<open>realpath\<close> gives \<open>None\<close> where the call throws.\<close>

definition physicalPathIdentity :: "string \<Rightarrow> (string \<Rightarrow> string option) \<Rightarrow> string \<Rightarrow> string" where
  "physicalPathIdentity cwd realpath v =
     (let absolute = path_resolve cwd [v] in
      case realpath absolute of Some p \<Rightarrow> p | None \<Rightarrow> absolute)"

definition isStagedInputPath ::
  "string \<Rightarrow> (string \<Rightarrow> string option) \<Rightarrow> string list \<Rightarrow> string \<Rightarrow> bool" where
  "isStagedInputPath cwd realpath inputPathSet v \<longleftrightarrow> physicalPathIdentity cwd realpath v \<in> set inputPathSet"

section \<open>Where a corpus path leads\<close>

lemma resolve_segs_parts:
  "\<forall>c \<in> set cs. CHR ''/'' \<notin> set c \<Longrightarrow> resolve_segs st cs = norm_go False (rev st) cs"
proof (induction cs arbitrary: st)
  case Nil
  then show ?case by (simp add: resolve_segs_def)
next
  case (Cons c cs)
  have c: "CHR ''/'' \<notin> set c" "\<not> isAbsolute c" using Cons.prems by (auto simp: isAbsolute_def starts_with_iff)
  then have "segments c = [c]" using segments_join[of "[c]"] by simp
  then have "resolve_segs st (c # cs) = resolve_segs (norm_go False (rev st) [c]) cs"
    using c(2) by (simp only: resolve_segs_def fold_Cons comp_apply if_False)
  also have "\<dots> = norm_go False (rev (norm_go False (rev st) [c])) cs" using Cons by simp
  also have "\<dots> = norm_go False (rev st) (c # cs)" by (rule norm_go_Cons[symmetric])
  finally show ?case .
qed

lemma physical_segments:
  assumes "isAbsolute cwd"
  shows "corpusPhysicalPath cwd testRoot v =
    abs_text (norm_go False (rev (abs_segments (path_resolve cwd [testRoot]))) (segments (corpusRelativePath v)))"
proof (cases "corpusRelativePath v = []")
  case True
  have "abs_text (abs_segments (path_resolve cwd [testRoot])) = path_resolve cwd [testRoot]"
    unfolding abs_segments_resolve[OF assms(1)] by (rule path_resolve_segs[OF assms(1), symmetric])
  then show ?thesis using True by (simp add: corpusPhysicalPath_def)
next
  case False
  let ?p = "path_resolve cwd [testRoot]"
  have "isAbsolute ?p" by (simp add: path_resolve_segs[OF assms(1)])
  then have "resolve_segs (abs_segments cwd) (?p # segments (corpusRelativePath v)) =
      resolve_segs (abs_segments ?p) (segments (corpusRelativePath v))"
    by (simp add: resolve_segs_def)
  also have "\<dots> = norm_go False (rev (abs_segments ?p)) (segments (corpusRelativePath v))"
    using segments_no_slash by (intro resolve_segs_parts) blast
  finally show ?thesis using False
    by (simp add: corpusPhysicalPath_def path_resolve_segs[OF assms(1)] segments_def Let_def)
qed

lemma segments_slashes: "norm_go u acc (segments (dropWhile (\<lambda>c. c = CHR ''/'') s)) = norm_go u acc (segments s)"
proof (induction s)
  case (Cons c s)
  have "segments (CHR ''/'' # s) = [] # segments s" using segments_char[of "[]" s] by simp
  then show ?case using Cons by auto
qed simp

lemma normalize_segments:
  assumes "s \<noteq> []"
  shows "norm_go False acc (segments (if isAbsolute s then drop 1 (path_normalize s) else path_normalize s)) =
    (if isAbsolute s then norm_go False acc (norm_go False [] (segments s)) else norm_go False acc (segments s))"
proof -
  let ?ns = "norm_go (\<not> isAbsolute s) [] (segments s)"
  have nm: "\<forall>c \<in> set ?ns. c \<noteq> [] \<and> CHR ''/'' \<notin> set c"
  proof (cases "isAbsolute s")
    case True
    have "\<forall>c \<in> set (norm_go False [] (segments s)). is_name c"
      using segments_no_slash by (intro norm_go_names) auto
    then show ?thesis using True by (simp add: is_name_def)
  next
    case False
    have "\<forall>c \<in> set (norm_go True [] (segments s)). is_name c \<or> c = ''..''"
      by (rule norm_go_up_names) (use segments_no_slash in simp_all)
    then have n: "is_name c \<or> c = ''..''" if "c \<in> set ?ns" for c using False that by simp
    have "c \<noteq> [] \<and> CHR ''/'' \<notin> set c" if "c \<in> set ?ns" for c
      using n[OF that] by (elim disjE) (simp_all add: is_name_def)
    then show ?thesis by blast
  qed
  have empty: "join ''/'' ?ns = [] \<longleftrightarrow> ?ns = []"
  proof
    assume j: "join ''/'' ?ns = []"
    show "?ns = []"
    proof (cases ?ns)
      case (Cons c cs)
      then have "c \<noteq> []" using nm by simp
      then show ?thesis using j Cons by (cases cs) auto
    qed
  qed simp
  have segs: "norm_go False acc (segments (join ''/'' ?ns @ t)) = norm_go False acc ?ns" if "t = [] \<or> t = ''/''" for t
  proof -
    have "norm_go False acc (segments (join ''/'' ?ns)) = norm_go False acc ?ns"
      using nm by (intro norm_join_segments) blast
    moreover have "segments (join ''/'' ?ns @ ''/'' @ []) = segments (join ''/'' ?ns) @ [[]]"
      by (simp only: segments_append segments_Nil)
    ultimately show ?thesis using that by (auto simp: norm_go_append)
  qed
  have dot: "segments ''.'' = [''.'']" "segments ''./'' = [''.'', []]"
    by (simp_all add: segments_def split_on_def)
  have "norm_go False acc (segments (if isAbsolute s then drop 1 (path_normalize s) else path_normalize s)) =
      norm_go False acc ?ns"
  proof (cases "?ns = []")
    case True
    then show ?thesis using assms dot empty by (auto simp: path_normalize_def Let_def)
  next
    case False
    then have "(if isAbsolute s then drop 1 (path_normalize s) else path_normalize s) =
        join ''/'' ?ns @ (if ends_with s ''/'' then ''/'' else [])"
      using assms empty by (cases "isAbsolute s") (simp_all add: path_normalize_def Let_def)
    then show ?thesis using segs by simp
  qed
  moreover have "norm_go False acc (norm_go True [] (segments s)) = norm_go False acc (segments s)"
    using norm_go_pre[of "[]" acc "segments s"] by simp
  ultimately show ?thesis by simp
qed

lemma relative_segments:
  "norm_go False acc (segments (corpusRelativePath v)) =
     (if virtual_absolute (to_slashes v) then norm_go False acc (norm_go False [] (segments (to_slashes v)))
      else norm_go False acc (segments (to_slashes v)))"
proof -
  have dot: "norm_go False acc (segments (if n = ''.'' then [] else n)) = norm_go False acc (segments n)" for n
    by (simp add: segments_def split_on_def)
  let ?s = "to_slashes v" and ?d = "dropWhile (\<lambda>c. c = CHR ''/'') (to_slashes v)"
  show ?thesis
  proof (cases "virtual_absolute ?s")
    case True
    have ab: "isAbsolute (''/'' @ ?d)" by (simp add: isAbsolute_def)
    have "segments (''/'' @ ?d) = [] # segments ?d" using segments_char[of "[]" ?d] by simp
    then have "norm_go False [] (segments (''/'' @ ?d)) = norm_go False [] (segments ?s)"
      using segments_slashes[of False "[]" ?s] by simp
    moreover have "corpusRelativePath v = (if drop 1 (path_normalize (''/'' @ ?d)) = ''.'' then []
        else drop 1 (path_normalize (''/'' @ ?d)))"
      using True by (simp add: corpusRelativePath_def Let_def del: append.simps)
    ultimately show ?thesis using normalize_segments[of "''/'' @ ?d" acc] ab True
        dot[of "drop 1 (path_normalize (''/'' @ ?d))"]
      by (simp del: append.simps)
  next
    case False
    then have na: "\<not> isAbsolute ?s" by (simp add: virtual_absolute_def isAbsolute_def)
    show ?thesis
    proof (cases "?s = []")
      case True
      then show ?thesis using False by (simp add: corpusRelativePath_def path_normalize_def)
    next
      case ne: False
      have "corpusRelativePath v = (if path_normalize ?s = ''.'' then [] else path_normalize ?s)"
        using False by (simp add: corpusRelativePath_def Let_def)
      then show ?thesis using normalize_segments[OF ne, of acc] na False dot[of "path_normalize ?s"]
        by simp
    qed
  qed
qed

text \<open>A virtual absolute path (a leading slash or a drive) leads to a place below the staged
  root: the root's segments followed by the path's own, with its parent steps clamped at the
  root. Any other path is followed from the root, and its parent steps may leave it.\<close>

theorem corpusPhysicalPath_place:
  assumes "isAbsolute cwd"
  shows "corpusPhysicalPath cwd testRoot v =
    abs_text
      (if virtual_absolute (to_slashes v)
       then abs_segments (path_resolve cwd [testRoot]) @ norm_go False [] (segments (to_slashes v))
       else norm_go False (rev (abs_segments (path_resolve cwd [testRoot]))) (segments (to_slashes v)))"
proof -
  have "\<forall>c \<in> set (norm_go False [] (segments (to_slashes v))). is_name c"
    using segments_no_slash by (intro norm_go_names) auto
  then show ?thesis
    by (simp add: physical_segments[OF assms] relative_segments norm_go_id)
qed

theorem corpusPhysicalPath_place_witness:
  "corpusPhysicalPath ''/w'' ''t'' ''C:/../../a'' = ''/w/t/a'' \<and> corpusPhysicalPath ''/w'' ''t'' ''../a'' = ''/w/a''"
proof -
  have a: "isAbsolute ''/w''" by (simp add: isAbsolute_def)
  have "virtual_absolute (to_slashes ''C:/../../a'')" "\<not> virtual_absolute (to_slashes ''../a'')"
    "abs_segments (path_resolve ''/w'' [''t'']) = [''w'', ''t'']"
    "norm_go False [] (segments (to_slashes ''C:/../../a'')) = [''a'']"
    "norm_go False [''t'', ''w''] (segments (to_slashes ''../a'')) = [''w'', ''a'']" by code_simp+
  then show ?thesis using corpusPhysicalPath_place[OF a] by (simp add: abs_text_def)
qed

section \<open>Support and inventory\<close>

record support_input =
  parserHasSource :: bool
  parserHasJs :: bool
  parserHasDts :: bool
  si_dtsOnly :: bool
  sourceReadFailed :: bool
  si_target :: int
  si_module :: int
  si_moduleResolution :: string
  si_alwaysStrict :: "bool option"
  hasDownlevelIterationOption :: bool
  esModuleInteropDisabled :: bool
  hasOutFile :: bool
  hasBaseUrl :: bool
  hasMapOption :: bool
  hasBaselineSidecar :: bool

definition reason_when :: "bool \<Rightarrow> string \<Rightarrow> string list" where
  "reason_when b r = (if b then [r] else [])"

definition canonicalUnsupportedReasons :: "support_input \<Rightarrow> string list" where
  "canonicalUnsupportedReasons i =
     reason_when (\<not> parserHasSource i) ''baseline-parser-missing-source'' @
     reason_when (\<not> parserHasJs i) ''baseline-parser-missing-js-products'' @
     reason_when (si_dtsOnly i \<and> \<not> parserHasDts i) ''dts-only-baseline-missing-dts-products'' @
     reason_when (sourceReadFailed i) ''source-read-failed'' @
     reason_when (si_target i \<le> 1) ''target-below-es2015'' @
     reason_when (si_module i \<in> set [0, 2, 3, 4]) (''module-kind-'' @ show_int (si_module i)) @
     reason_when (si_moduleResolution i \<in> set [''classic'', ''node'', ''node10''])
       (''module-resolution-'' @ si_moduleResolution i) @
     reason_when (si_alwaysStrict i = Some False) ''always-strict-false'' @
     reason_when (hasDownlevelIterationOption i) ''downlevel-iteration-option'' @
     reason_when (esModuleInteropDisabled i) ''es-module-interop-false'' @
     reason_when (hasOutFile i) ''out-file-product-layout'' @
     reason_when (hasBaseUrl i) ''base-url-invocation'' @
     reason_when (hasMapOption i \<or> hasBaselineSidecar i) ''source-map-products-not-compared''"

text \<open>\<open>None\<close> is a bound that is not below infinity; a negative bound counts from the end, as
  \<open>slice\<close> has it.\<close>

definition retainCanonicalInventory :: "'a list \<Rightarrow> int option \<Rightarrow> 'a list" where
  "retainCanonicalInventory candidates mx =
     (case mx of
        None \<Rightarrow> candidates
      | Some m \<Rightarrow> if 0 \<le> m then take (nat m) candidates
                  else take (length candidates - nat (- m)) candidates)"

definition hasEmitSidecar :: "string \<Rightarrow> string list \<Rightarrow> bool" where
  "hasEmitSidecar baselineFile entries \<longleftrightarrow>
     (baselineFile @ ''.map'') \<in> set entries \<or>
     replace_suffix ''.js'' ''.sourcemap.txt'' baselineFile \<in> set entries"

lemma supported_module:
  "canonicalUnsupportedReasons i = [] \<Longrightarrow>
     2 \<le> si_target i \<and> si_module i \<notin> {0, 2, 3, 4} \<and> parserHasSource i \<and> parserHasJs i \<and>
     \<not> sourceReadFailed i \<and> si_moduleResolution i \<notin> {''classic'', ''node'', ''node10''}"
  by (auto simp: canonicalUnsupportedReasons_def reason_when_def split: if_splits)

text \<open>The default module of a supported target is never one of the kinds the harness rejects.\<close>

lemma default_module_supported:
  "2 \<le> t \<Longrightarrow> canonicalUnsupportedReasons (i\<lparr>si_target := t, si_module := inferDefaultModule t\<rparr>) =
     canonicalUnsupportedReasons (i\<lparr>si_target := 2, si_module := 5\<rparr>)"
  by (simp add: canonicalUnsupportedReasons_def reason_when_def inferDefaultModule_def)

end
