(* ===== verification/CanonicalProducts.thy ===== *)
theory CanonicalProducts
  imports JsonText
begin

text \<open>
  The comparison of two compiler runs, \<open>scripts/emit/src/canonical-products.ts\<close>: the emitted
  products as maps from paths to bytes, the structured diagnostics as dynamic values, and the
  process outcomes. \<open>Object.is\<close> on two arrays or two objects is taken to be false: the
  comparison below it gives the same answer on equal values.
\<close>

section \<open>Products\<close>

record emit_product =
  p_path :: string
  p_content :: string

datatype mismatch_kind = Duplicate_oracle | Duplicate_product | Missing | Extra | Content

record product_mismatch =
  mm_kind :: mismatch_kind
  mm_path :: string
  mm_expected :: "string option"
  mm_actual :: "string option"

record set_comparison =
  sc_match :: bool
  sc_mismatches :: "product_mismatch list"

text \<open>One turn of the loops that fill \<open>oracleByPath\<close> and \<open>productByPath\<close>.\<close>

definition add_product ::
  "mismatch_kind \<Rightarrow> emit_product \<Rightarrow> (string \<times> string) list \<times> product_mismatch list \<Rightarrow>
   (string \<times> string) list \<times> product_mismatch list" where
  "add_product duplicate emitted st =
     (case st of (byPath, mismatches) \<Rightarrow>
        if map_has byPath (p_path emitted)
        then (byPath, mismatches @
          [\<lparr>mm_kind = duplicate, mm_path = p_path emitted, mm_expected = None, mm_actual = None\<rparr>])
        else (map_set (p_path emitted) (p_content emitted) byPath, mismatches))"

definition compare_entry ::
  "(string \<times> string) list \<Rightarrow> string \<times> string \<Rightarrow> product_mismatch list" where
  "compare_entry productByPath e =
     (case map_get productByPath (fst e) of
        None \<Rightarrow> [\<lparr>mm_kind = Missing, mm_path = fst e, mm_expected = Some (snd e), mm_actual = None\<rparr>]
      | Some actual \<Rightarrow>
          if snd e \<noteq> actual
          then [\<lparr>mm_kind = Content, mm_path = fst e, mm_expected = Some (snd e), mm_actual = Some actual\<rparr>]
          else [])"

definition extra_entry ::
  "(string \<times> string) list \<Rightarrow> string \<times> string \<Rightarrow> product_mismatch list" where
  "extra_entry oracleByPath e =
     (if \<not> map_has oracleByPath (fst e)
      then [\<lparr>mm_kind = Extra, mm_path = fst e, mm_expected = None, mm_actual = Some (snd e)\<rparr>]
      else [])"

definition compareCanonicalProductSets :: "emit_product list \<Rightarrow> emit_product list \<Rightarrow> set_comparison" where
  "compareCanonicalProductSets oracle tsz =
     (let (oracleByPath, m1) = fold (add_product Duplicate_oracle) oracle ([], []);
          (productByPath, m2) = fold (add_product Duplicate_product) tsz ([], m1);
          m3 = m2 @ concat (map (compare_entry productByPath) oracleByPath);
          mismatches = m3 @ concat (map (extra_entry oracleByPath) productByPath)
      in \<lparr>sc_match = (length mismatches = 0), sc_mismatches = mismatches\<rparr>)"

definition by_path :: "emit_product list \<Rightarrow> (string \<times> string) list" where
  "by_path ps = map (\<lambda>p. (p_path p, p_content p)) ps"

definition keep_first :: "(string \<times> string) list \<Rightarrow> (string \<times> string) list \<Rightarrow> (string \<times> string) list" where
  "keep_first es m = fold (\<lambda>(k, v) m. if map_get m k \<noteq> None then m else map_set k v m) es m"

lemma add_product_fold:
  "fst (fold (add_product kd) ps (m, ms)) = keep_first (by_path ps) m \<and>
   (\<exists>dups. snd (fold (add_product kd) ps (m, ms)) = ms @ dups \<and>
      (dups = [] \<longleftrightarrow> distinct (map p_path ps) \<and> (\<forall>p \<in> set ps. p_path p \<notin> set (map_keys m))))"
proof (induction ps arbitrary: m ms)
  case Nil
  then show ?case by (simp add: by_path_def keep_first_def)
next
  case (Cons p ps)
  define m' where "m' = map_set (p_path p) (p_content p) m"
  define one where "one = \<lparr>mm_kind = kd, mm_path = p_path p, mm_expected = None :: string option, mm_actual = None :: string option\<rparr>"
  show ?case
  proof (cases "map_get m (p_path p) = None")
    case True
    then have new: "p_path p \<notin> set (map_keys m)" by (simp add: js_map.keys_get)
    have step: "add_product kd p (m, ms) = (m', ms)"
      using True by (simp add: add_product_def map_has_def m'_def)
    have ks: "map_keys m' = map_keys m @ [p_path p]" using new by (simp add: m'_def js_map.keys_put)
    have "keep_first (by_path (p # ps)) m = keep_first (by_path ps) m'"
      using True by (simp add: by_path_def keep_first_def m'_def)
    moreover have "distinct (map p_path ps) \<and> (\<forall>q \<in> set ps. p_path q \<notin> set (map_keys m')) \<longleftrightarrow>
        distinct (map p_path (p # ps)) \<and> (\<forall>q \<in> set (p # ps). p_path q \<notin> set (map_keys m))"
    proof -
      have "(\<forall>q \<in> set ps. p_path q \<notin> set (map_keys m')) \<longleftrightarrow>
          (\<forall>q \<in> set ps. p_path q \<notin> set (map_keys m)) \<and> p_path p \<notin> p_path ` set ps"
        unfolding ks by (simp add: image_iff) metis
      then show ?thesis using new by (simp add: conj_ac)
    qed
    moreover have "fold (add_product kd) (p # ps) (m, ms) = fold (add_product kd) ps (m', ms)"
      by (simp add: step)
    ultimately show ?thesis using Cons.IH[of m' ms] by (simp only:)
  next
    case False
    then have old: "p_path p \<in> set (map_keys m)" by (simp add: js_map.keys_get)
    have step: "add_product kd p (m, ms) = (m, ms @ [one])"
      using False by (simp add: add_product_def map_has_def one_def)
    have k: "keep_first (by_path (p # ps)) m = keep_first (by_path ps) m"
      using False by (simp add: by_path_def keep_first_def)
    obtain dups where "snd (fold (add_product kd) ps (m, ms @ [one])) = (ms @ [one]) @ dups"
      using Cons.IH[of m "ms @ [one]"] by blast
    moreover have f: "fold (add_product kd) (p # ps) (m, ms) = fold (add_product kd) ps (m, ms @ [one])"
      by (simp add: step)
    ultimately have sn: "snd (fold (add_product kd) (p # ps) (m, ms)) = ms @ (one # dups)" by simp
    have "\<not> (\<forall>q \<in> set (p # ps). p_path q \<notin> set (map_keys m))" using old by simp
    then have "\<exists>dups. snd (fold (add_product kd) (p # ps) (m, ms)) = ms @ dups \<and>
        (dups = [] \<longleftrightarrow> distinct (map p_path (p # ps)) \<and> (\<forall>q \<in> set (p # ps). p_path q \<notin> set (map_keys m)))"
      using sn by (intro exI[of _ "one # dups"]) blast
    moreover have "fst (fold (add_product kd) (p # ps) (m, ms)) = keep_first (by_path (p # ps)) m"
      using Cons.IH[of m "ms @ [one]"] unfolding f k by (rule conjunct1)
    ultimately show ?thesis by (intro conjI)
  qed
qed

lemma fill_map:
  "\<exists>dups byPath. fold (add_product kd) ps ([], ms) = (byPath, ms @ dups) \<and>
     (dups = [] \<longleftrightarrow> distinct (map p_path ps)) \<and>
     map_get byPath = map_of (by_path ps) \<and> distinct (map_keys byPath)"
proof -
  let ?m = "keep_first (by_path ps) []"
  obtain dups where d: "fold (add_product kd) ps ([], ms) = (?m, ms @ dups)"
    "dups = [] \<longleftrightarrow> distinct (map p_path ps)"
    using add_product_fold[of kd ps "[]" ms] by (auto simp: prod_eq_iff)
  have "map_get ?m = map_of (by_path ps)"
    unfolding keep_first_def by (rule ext) (simp only: js_map.put_new_all, simp)
  moreover have "distinct (map_keys ?m)"
    unfolding keep_first_def by (simp only: js_map.keys_put_new_all, simp)
  ultimately show ?thesis using d by blast
qed

lemma compare_entry_Nil: "compare_entry m e = [] \<longleftrightarrow> map_get m (fst e) = Some (snd e)"
  by (auto simp: compare_entry_def split: option.splits)

lemma extra_entry_Nil: "extra_entry m e = [] \<longleftrightarrow> map_get m (fst e) \<noteq> None"
  by (simp add: extra_entry_def map_has_def)

lemma same_map:
  "f = g \<longleftrightarrow> (\<forall>k v. f k = Some v \<longrightarrow> g k = Some v) \<and> (\<forall>k v. g k = Some v \<longrightarrow> f k \<noteq> None)"
proof
  assume a: "(\<forall>k v. f k = Some v \<longrightarrow> g k = Some v) \<and> (\<forall>k v. g k = Some v \<longrightarrow> f k \<noteq> None)"
  show "f = g"
  proof
    fix k show "f k = g k" using a by (cases "f k"; cases "g k") auto
  qed
qed simp

lemma sets_match_iff:
  "sc_match (compareCanonicalProductSets oracle tsz) \<longleftrightarrow>
     distinct (map p_path oracle) \<and> distinct (map p_path tsz) \<and>
     map_of (by_path oracle) = map_of (by_path tsz)"
proof -
  obtain d1 m1 where 1: "fold (add_product Duplicate_oracle) oracle ([], []) = (m1, d1)"
    "d1 = [] \<longleftrightarrow> distinct (map p_path oracle)" "map_get m1 = map_of (by_path oracle)" "distinct (map_keys m1)"
    using fill_map[of Duplicate_oracle "oracle" "[]"] by auto
  obtain d2 m2 where 2: "fold (add_product Duplicate_product) tsz ([], d1) = (m2, d1 @ d2)"
    "d2 = [] \<longleftrightarrow> distinct (map p_path tsz)" "map_get m2 = map_of (by_path tsz)" "distinct (map_keys m2)"
    using fill_map[of Duplicate_product tsz d1] by auto
  have e1: "(k, v) \<in> set m1 \<longleftrightarrow> map_of (by_path oracle) k = Some v" for k v
    using map_get_iff[OF 1(4)] 1(3) by metis
  have e2: "(k, v) \<in> set m2 \<longleftrightarrow> map_of (by_path tsz) k = Some v" for k v
    using map_get_iff[OF 2(4)] 2(3) by metis
  have c: "concat (map (compare_entry m2) m1) = [] \<longleftrightarrow>
      (\<forall>k v. map_of (by_path oracle) k = Some v \<longrightarrow> map_of (by_path tsz) k = Some v)"
    by (auto simp: concat_eq_Nil_conv compare_entry_Nil 2(3) e1[symmetric])
  have x: "concat (map (extra_entry m1) m2) = [] \<longleftrightarrow>
      (\<forall>k v. map_of (by_path tsz) k = Some v \<longrightarrow> map_of (by_path oracle) k \<noteq> None)"
    by (auto simp: concat_eq_Nil_conv extra_entry_Nil 1(3) e2[symmetric])
  have "sc_match (compareCanonicalProductSets oracle tsz) \<longleftrightarrow>
      d1 = [] \<and> d2 = [] \<and> concat (map (compare_entry m2) m1) = [] \<and> concat (map (extra_entry m1) m2) = []"
    by (simp add: compareCanonicalProductSets_def 1(1) 2(1))
  also have "\<dots> \<longleftrightarrow> distinct (map p_path oracle) \<and> distinct (map p_path tsz) \<and>
      map_of (by_path oracle) = map_of (by_path tsz)"
    unfolding c x 1(2) 2(2) using same_map[of "map_of (by_path oracle)"] by blast
  finally show ?thesis .
qed

text \<open>C8: two product sets match exactly when neither names a path twice and both are the same
  map from paths to bytes.\<close>

theorem compareCanonicalProductSets_match:
  "sc_match (compareCanonicalProductSets oracle tsz) =
     (distinct (map p_path oracle) \<and> distinct (map p_path tsz) \<and>
      map_of (by_path oracle) = map_of (by_path tsz))"
  by (rule sets_match_iff)

section \<open>Diagnostics\<close>

fun first_some :: "('a \<Rightarrow> 'b option) \<Rightarrow> 'a list \<Rightarrow> 'b option" where
  "first_some f [] = None"
| "first_some f (x # xs) = (case f x of None \<Rightarrow> first_some f xs | Some d \<Rightarrow> Some d)"

lemma first_some_cong [fundef_cong]:
  "xs = ys \<Longrightarrow> (\<And>x. x \<in> set ys \<Longrightarrow> f x = g x) \<Longrightarrow> first_some f xs = first_some g ys"
proof -
  have "(\<And>x. x \<in> set ys \<Longrightarrow> f x = g x) \<Longrightarrow> first_some f ys = first_some g ys"
    by (induction ys) (auto split: option.splits)
  then show "xs = ys \<Longrightarrow> (\<And>x. x \<in> set ys \<Longrightarrow> f x = g x) \<Longrightarrow> first_some f xs = first_some g ys"
    by simp
qed

lemma first_some_None: "first_some f xs = None \<longleftrightarrow> (\<forall>x \<in> set xs. f x = None)"
  by (induction xs) (auto split: option.splits)

definition obj_get :: "(string \<times> jsval) list \<Rightarrow> string \<Rightarrow> jsval" where
  "obj_get ob k = (case map_of ob k of None \<Rightarrow> JUndef | Some v \<Rightarrow> v)"

definition show_nat :: "nat \<Rightarrow> string" where "show_nat n = show_int (int n)"

definition nul :: char where "nul = CHR 0x00"

definition nul_free :: "string \<Rightarrow> bool" where
  "nul_free s \<longleftrightarrow> nul \<notin> set s"

lemma nul_split_first: "nul_free n \<Longrightarrow> nul_free m \<Longrightarrow> n @ nul # s = m @ nul # t \<longleftrightarrow> n = m \<and> s = t"
proof (induction n arbitrary: m)
  case Nil
  then show ?case by (cases m) (auto simp: nul_free_def)
next
  case (Cons c n)
  then show ?case by (cases m) (auto simp: nul_free_def)
qed

lemma size_obj_get: "k \<in> fst ` set ob \<Longrightarrow> size (obj_get ob k) < size (JObj ob)"
proof -
  assume "k \<in> fst ` set ob"
  then obtain v where v: "map_of ob k = Some v" by (metis map_of_eq_None_iff not_None_eq)
  then have "(k, v) \<in> set ob" by (rule map_of_SomeD)
  then have "size v < Suc (size_list (size_prod (\<lambda>_. 0) size) ob)"
    by (induction ob) auto
  then show ?thesis using v by (simp add: obj_get_def)
qed

lemma size_nth_arr: "i < length xs \<Longrightarrow> size (xs ! i) < size (JArr xs)"
  using size_list_estimation'[of "xs ! i" xs _ size] by (auto simp: less_Suc_eq_le)

function diagnosticWitnessDifference :: "jsval \<Rightarrow> jsval \<Rightarrow> string \<Rightarrow> string option" where
  "diagnosticWitnessDifference oracle tsz location =
     (case (oracle, tsz) of
        (JArr xs, JArr ys) \<Rightarrow>
          if length xs \<noteq> length ys then Some (location @ ''.length'')
          else first_some (\<lambda>i. diagnosticWitnessDifference (xs ! i) (ys ! i)
                 (location @ ''['' @ show_nat i @ '']'')) [0..<length xs]
      | (JObj a, JObj b) \<Rightarrow>
          let oracleKeys = sort_strings (map fst a); productKeys = sort_strings (map fst b) in
          if join [nul] oracleKeys \<noteq> join [nul] productKeys then Some (location @ ''.keys'')
          else first_some (\<lambda>k. diagnosticWitnessDifference (obj_get a k) (obj_get b k)
                 (location @ ''.'' @ k)) oracleKeys
      | (u, v) \<Rightarrow> if u = v then None else Some location)"
  by pat_completeness auto
termination
  by (relation "measure (\<lambda>(v, _, _). size v)") (auto simp: size_nth_arr intro!: size_obj_get simp del: jsval.size intro: rev_image_eqI)

declare diagnosticWitnessDifference.simps [simp del]

text \<open>The keys the comparison can tell apart: not empty and without the character it joins them
  with. The keys of a diagnostic witness are the field names of its type.\<close>

fun plain_value :: "jsval \<Rightarrow> bool" where
  "plain_value (JArr vs) = list_all plain_value vs"
| "plain_value (JObj ob) =
     (distinct (map fst ob) \<and> list_all (\<lambda>p. fst p \<noteq> [] \<and> nul \<notin> set (fst p) \<and> plain_value (snd p)) ob)"
| "plain_value v = True"

lemma plain_join_inject:
  assumes "\<forall>k \<in> set ks \<union> set ls. k \<noteq> [] \<and> nul \<notin> set k" and "join [nul] ks = join [nul] ls"
  shows "ks = ls"
proof (cases "ks = [] \<or> ls = []")
  case True
  have "join [nul] (x # xs) \<noteq> []" if "x \<noteq> []" for x xs using that by (cases xs) auto
  then show ?thesis using True assms by (cases ks; cases ls) (auto, metis+)
next
  case False
  then show ?thesis using assms split_on_join[of ks nul] split_on_join[of ls nul] by (metis UnI1 UnI2)
qed

lemma sort_key_eq_iff:
  assumes "distinct (map fst a)" and "distinct (map fst b)"
  shows "sort_by key_cmp a = sort_by key_cmp b \<longleftrightarrow> map_of a = map_of b"
proof
  assume "sort_by key_cmp a = sort_by key_cmp b"
  then have "mset a = mset b" by (metis mset_sort_by)
  then show "map_of a = map_of b" using assms by (metis map_of_inject_set mset_eq_setD)
next
  assume "map_of a = map_of b"
  then have "set a = set b" using assms by (metis map_of_inject_set)
  then have m: "mset a = mset b" using assms by (metis distinct_map set_eq_iff_mset_eq_distinct)
  show "sort_by key_cmp a = sort_by key_cmp b"
    by (rule key_order.sort_perm[OF m]) (use assms in \<open>auto simp: key_cmp_def dest: eq_key_imp_eq_value\<close>)
qed

lemma map_of_map_snd: "map_of (map (\<lambda>p. (fst p, f (snd p))) xs) k = map_option f (map_of xs k)"
  by (induction xs) auto

lemma sort_keys_obj_iff:
  assumes "distinct (map fst a)" and "distinct (map fst b)" and "fst ` set a = fst ` set b"
  shows "sort_keys (JObj a) = sort_keys (JObj b) \<longleftrightarrow>
    (\<forall>k \<in> fst ` set a. sort_keys (obj_get a k) = sort_keys (obj_get b k))"
proof -
  let ?f = "\<lambda>p. (fst p, sort_keys (snd p))"
  have mf: "map fst (map ?f xs) = map fst xs" for xs by simp
  have "sort_keys (JObj a) = sort_keys (JObj b) \<longleftrightarrow> map_of (map ?f a) = map_of (map ?f b)"
    unfolding sort_keys.simps jsval.inject by (intro sort_key_eq_iff) (simp_all only: mf assms(1,2))
  also have "\<dots> \<longleftrightarrow> (\<forall>k \<in> fst ` set a. sort_keys (obj_get a k) = sort_keys (obj_get b k))"
  proof
    assume eq: "map_of (map ?f a) = map_of (map ?f b)"
    show "\<forall>k \<in> fst ` set a. sort_keys (obj_get a k) = sort_keys (obj_get b k)"
    proof
      fix k assume "k \<in> fst ` set a"
      then obtain v w where "map_of a k = Some v" "map_of b k = Some w"
        using assms(3) by (metis map_of_eq_None_iff not_None_eq)
      then show "sort_keys (obj_get a k) = sort_keys (obj_get b k)"
        using fun_cong[OF eq, of k] by (simp add: map_of_map_snd obj_get_def)
    qed
  next
    assume all: "\<forall>k \<in> fst ` set a. sort_keys (obj_get a k) = sort_keys (obj_get b k)"
    show "map_of (map ?f a) = map_of (map ?f b)"
    proof
      fix k
      show "map_of (map ?f a) k = map_of (map ?f b) k"
      proof (cases "k \<in> fst ` set a")
        case True
        then obtain v w where "map_of a k = Some v" "map_of b k = Some w"
          using assms(3) by (metis map_of_eq_None_iff not_None_eq)
        then show ?thesis using bspec[OF all True] by (simp add: map_of_map_snd obj_get_def)
      next
        case False
        then have "map_of a k = None" "map_of b k = None" using assms(3) by (simp_all add: map_of_eq_None_iff)
        then show ?thesis by (simp add: map_of_map_snd)
      qed
    qed
  qed
  finally show ?thesis .
qed

lemma obj_get_plain:
  "plain_value (JObj ob) \<Longrightarrow> k \<in> fst ` set ob \<Longrightarrow> plain_value (obj_get ob k)"
  by (auto simp: obj_get_def list_all_iff dest: map_of_SomeD split: option.splits)

lemma sort_keys_kind: "kind (sort_keys v) = kind v"
  by (cases v) simp_all

lemma sort_keys_arr_iff:
  "sort_keys (JArr xs) = sort_keys (JArr ys) \<longleftrightarrow>
     length xs = length ys \<and> (\<forall>i < length xs. sort_keys (xs ! i) = sort_keys (ys ! i))"
  by (auto simp: list_eq_iff_nth_eq)

lemma difference_None:
  assumes "plain_value ov" and "plain_value tv"
  shows "diagnosticWitnessDifference ov tv location = None \<longleftrightarrow> sort_keys ov = sort_keys tv"
  using assms
proof (induction ov tv location rule: diagnosticWitnessDifference.induct)
  case (1 ov tv location)
  consider (arr) xs ys where "ov = JArr xs" "tv = JArr ys"
    | (obj) a b where "ov = JObj a" "tv = JObj b"
    | (other) "\<not> (\<exists>xs ys. ov = JArr xs \<and> tv = JArr ys)" "\<not> (\<exists>a b. ov = JObj a \<and> tv = JObj b)"
    by blast
  then show ?case
  proof cases
    case arr
    have "\<And>i. i < length xs \<Longrightarrow> length xs = length ys \<Longrightarrow>
        diagnosticWitnessDifference (xs ! i) (ys ! i) (location @ ''['' @ show_nat i @ '']'') = None \<longleftrightarrow>
        sort_keys (xs ! i) = sort_keys (ys ! i)"
      using 1 arr by (auto simp: list_all_length)
    then show ?thesis unfolding arr sort_keys_arr_iff
      by (subst diagnosticWitnessDifference.simps) (auto simp: first_some_None)
  next
    case obj
    let ?ka = "sort_strings (map fst a)" and ?kb = "sort_strings (map fst b)"
    have d: "distinct (map fst a)" "distinct (map fst b)" using 1(3,4) obj by simp_all
    have pl: "\<forall>k \<in> set ?ka \<union> set ?kb. k \<noteq> [] \<and> nul \<notin> set k"
      using 1(3,4) obj by (auto simp: list_all_iff)
    have keys: "join [nul] ?ka = join [nul] ?kb \<longleftrightarrow> ?ka = ?kb" by (intro iffI plain_join_inject[OF pl]) simp_all
    have same: "?ka = ?kb \<longleftrightarrow> fst ` set a = fst ` set b"
    proof
      assume "?ka = ?kb" then show "fst ` set a = fst ` set b" by (metis set_sort_strings set_map)
    next
      assume "fst ` set a = fst ` set b"
      then have "mset (map fst a) = mset (map fst b)" using d by (metis set_map set_eq_iff_mset_eq_distinct)
      then show "?ka = ?kb" by (rule sort_strings_perm)
    qed
    show ?thesis
    proof (cases "fst ` set a = fst ` set b")
      case True
      have IH: "\<And>k. k \<in> fst ` set a \<Longrightarrow>
          diagnosticWitnessDifference (obj_get a k) (obj_get b k) (location @ ''.'' @ k) = None \<longleftrightarrow>
          sort_keys (obj_get a k) = sort_keys (obj_get b k)"
        using 1(2)[OF _ obj refl refl, simplified] True same keys 1(3,4) obj obj_get_plain
        by (simp del: plain_value.simps)
      show ?thesis using IH True same keys unfolding obj sort_keys_obj_iff[OF d True]
        by (subst diagnosticWitnessDifference.simps) (simp add: first_some_None)
    next
      case False
      have "sort_keys (JObj a) \<noteq> sort_keys (JObj b)"
      proof
        assume "sort_keys (JObj a) = sort_keys (JObj b)"
        then have "set (sort_by key_cmp (map (\<lambda>p. (fst p, sort_keys (snd p))) a)) =
            set (sort_by key_cmp (map (\<lambda>p. (fst p, sort_keys (snd p))) b))" by simp
        then have "fst ` (\<lambda>p. (fst p, sort_keys (snd p))) ` set a = fst ` (\<lambda>p. (fst p, sort_keys (snd p))) ` set b"
          by simp
        then show False using False by (simp add: image_image)
      qed
      then show ?thesis using False same keys unfolding obj
        by (subst diagnosticWitnessDifference.simps) simp
    qed
  next
    case other
    have "diagnosticWitnessDifference ov tv location = (if ov = tv then None else Some location)"
      using other by (subst diagnosticWitnessDifference.simps) (auto split: jsval.splits)
    moreover have "sort_keys ov = sort_keys tv \<longleftrightarrow> ov = tv"
      using other by (cases ov; cases tv) auto
    ultimately show ?thesis by simp
  qed
qed

text \<open>The structural comparison of two diagnostic values reports no difference exactly when
  they are equal up to the order of object keys; in particular a value never differs from
  itself. Keys are distinct, not empty and without a NUL character.\<close>

theorem diagnosticWitnessDifference_exact:
  assumes "plain_value oracle" and "plain_value tsz"
  shows "diagnosticWitnessDifference oracle tsz location = None \<longleftrightarrow> sort_keys oracle = sort_keys tsz"
  using assms by (rule difference_None)

theorem diagnosticWitnessDifference_exact_witness:
  "diagnosticWitnessDifference (JObj [(''a'', JInt 1), (''b'', JNull)]) (JObj [(''b'', JNull), (''a'', JInt 1)]) ''d''
     = None \<longleftrightarrow>
   sort_keys (JObj [(''a'', JInt 1), (''b'', JNull)]) = sort_keys (JObj [(''b'', JNull), (''a'', JInt 1)])"
  by (rule diagnosticWitnessDifference_exact) (simp_all add: nul_def)

section \<open>Outcomes\<close>

text \<open>The witnesses are the structured diagnostics of a run, as dynamic values.\<close>

record compiler_outcome =
  co_exit :: int
  co_codes :: "string list"
  co_witnesses :: "jsval list option"

record outcome_comparison =
  oc_match :: bool
  oc_error :: "string option"

definition outcome_mismatch :: "string \<Rightarrow> outcome_comparison" where
  "outcome_mismatch e = \<lparr>oc_match = False, oc_error = Some e\<rparr>"

definition codes_or_none :: "string list \<Rightarrow> string" where
  "codes_or_none cs = (let j = join '','' cs in if j \<noteq> [] then j else ''<none>'')"

definition diagnosticCodesMatch :: "compiler_outcome \<Rightarrow> compiler_outcome \<Rightarrow> bool" where
  "diagnosticCodesMatch oracle tsz \<longleftrightarrow>
     length (co_codes oracle) = length (co_codes tsz) \<and>
     list_all (\<lambda>i. co_codes oracle ! i = co_codes tsz ! i) [0..<length (co_codes oracle)]"

definition compareCompilerOutcomes :: "compiler_outcome \<Rightarrow> compiler_outcome \<Rightarrow> outcome_comparison" where
  "compareCompilerOutcomes oracle tsz =
     (let codes = join '', '' (co_codes oracle) in
      if co_exit oracle \<noteq> 0 \<and> co_exit tsz = 0 then
        outcome_mismatch (''TYPESCRIPT_7_NONZERO_OUTCOME: exit='' @ show_int (co_exit oracle) @
          '', diagnostics='' @ codes_or_none (co_codes oracle))
      else if co_exit tsz \<noteq> 0 \<and> co_exit oracle = 0 then
        outcome_mismatch (''TSZ_NONZERO_OUTCOME: exit='' @ show_int (co_exit tsz) @
          '', diagnostics='' @ codes_or_none (co_codes tsz))
      else if co_exit oracle \<noteq> co_exit tsz then
        outcome_mismatch (''Compiler outcome mismatch: TypeScript 7 exit='' @ show_int (co_exit oracle) @
          '', TSZ exit='' @ show_int (co_exit tsz))
      else if \<not> diagnosticCodesMatch oracle tsz then
        outcome_mismatch (''Compiler diagnostic mismatch: TypeScript 7=['' @ codes @ ''], TSZ=['' @
          join '', '' (co_codes tsz) @ '']'')
      else if co_exit oracle \<noteq> 0 \<or> co_exit tsz \<noteq> 0 then
        (if co_exit oracle \<noteq> 1 \<and> co_exit oracle \<noteq> 2 then
           outcome_mismatch (''NONSTANDARD_COMPILER_OUTCOME: exit='' @ show_int (co_exit oracle) @
             '' is not an ordinary diagnostic exit'')
         else case (co_witnesses oracle, co_witnesses tsz) of
           (Some ws, Some ws') \<Rightarrow>
             (case diagnosticWitnessDifference (JArr ws) (JArr ws') ''diagnostics'' of
                None \<Rightarrow> \<lparr>oc_match = True, oc_error = None\<rparr>
              | Some difference \<Rightarrow>
                  outcome_mismatch (''Compiler diagnostic identity mismatch at '' @ difference @
                    '': codes=['' @ codes @ '']''))
         | _ \<Rightarrow>
             outcome_mismatch (''UNVERIFIED_DIAGNOSTIC_IDENTITY: ordinary nonzero exit='' @
               show_int (co_exit oracle) @ '' has matching codes=['' @ codes @
               ''], but one or both original invocations lack complete ordered structured diagnostics''))
      else \<lparr>oc_match = True, oc_error = None\<rparr>)"

lemma diagnosticCodesMatch_iff: "diagnosticCodesMatch o1 o2 \<longleftrightarrow> co_codes o1 = co_codes o2"
  unfolding diagnosticCodesMatch_def list_eq_iff_nth_eq[of "co_codes o1"] by (auto simp: list_all_iff)

lemma mismatch_not_match: "oc_match (outcome_mismatch e) = False"
  by (simp add: outcome_mismatch_def)

lemma outcomes_match:
  "oc_match (compareCompilerOutcomes o1 o2) \<longleftrightarrow>
     co_exit o1 = co_exit o2 \<and> co_codes o1 = co_codes o2 \<and>
     (co_exit o1 = 0 \<or>
      (co_exit o1 \<in> {1, 2} \<and>
       (\<exists>ws ws'. co_witnesses o1 = Some ws \<and> co_witnesses o2 = Some ws' \<and>
          diagnosticWitnessDifference (JArr ws) (JArr ws') ''diagnostics'' = None)))"
  unfolding compareCompilerOutcomes_def Let_def diagnosticCodesMatch_iff if_distrib[of oc_match]
    mismatch_not_match option.case_distrib[of oc_match] prod.case
  by (cases "co_witnesses o1"; cases "co_witnesses o2"; simp only: option.case) (auto split: option.splits)

text \<open>Two runs count as equal exactly when both exit codes and both code lists are equal and
  either the exit is zero, or it is an ordinary diagnostic exit and both runs carry structured
  diagnostics that are equal up to the order of keys. Equal codes alone never pass.\<close>

theorem compareCompilerOutcomes_match:
  assumes "\<forall>ws. co_witnesses o1 = Some ws \<or> co_witnesses o2 = Some ws \<longrightarrow> list_all plain_value ws"
  shows "oc_match (compareCompilerOutcomes o1 o2) \<longleftrightarrow>
    co_exit o1 = co_exit o2 \<and> co_codes o1 = co_codes o2 \<and>
    (co_exit o1 = 0 \<or>
     (co_exit o1 \<in> {1, 2} \<and>
      (\<exists>ws ws'. co_witnesses o1 = Some ws \<and> co_witnesses o2 = Some ws' \<and>
         map sort_keys ws = map sort_keys ws')))"
proof -
  have "diagnosticWitnessDifference (JArr ws) (JArr ws') ''diagnostics'' = None \<longleftrightarrow>
      map sort_keys ws = map sort_keys ws'" if "co_witnesses o1 = Some ws" "co_witnesses o2 = Some ws'" for ws ws'
    using assms that by (subst difference_None) auto
  then show ?thesis unfolding outcomes_match by blast
qed

theorem compareCompilerOutcomes_match_witness:
  "\<not> oc_match (compareCompilerOutcomes \<lparr>co_exit = 2, co_codes = [''TS1005''], co_witnesses = None\<rparr>
     \<lparr>co_exit = 2, co_codes = [''TS1005''], co_witnesses = Some []\<rparr>)"
  by (subst compareCompilerOutcomes_match) simp_all

end
