(* ===== verification/DiagnosticWitness.thy ===== *)
theory DiagnosticWitness
  imports CanonicalProducts NodePath
begin

text \<open>
  The structured diagnostics of \<open>scripts/emit/src/diagnostic-witness.ts\<close>. The JSON that TSZ
  prints holds a message chain as a flat list of depth-indexed records, which the program turns
  into a forest by pushing onto nodes it keeps on a stack; the nodes are mutable objects that
  are shared between the forest and the stack, so the model has a store of nodes and addresses.
  The diagnostics of the TypeScript API are canonicalised, sorted and freed of adjacent
  duplicates. The working directory is an argument.
\<close>

datatype category = Cat_warning | Cat_error | Cat_suggestion | Cat_message

datatype message =
  Msg (m_text: string) (m_category: category) (m_code: string) (m_next: "message list")

datatype witness =
  Wit (w_path: "string option") (w_start: "int option") (w_length: "int option")
    (w_category: category) (w_code: string) (w_text: string)
    (w_chain: "message list") (w_related: "witness list")

record scope =
  invocationDirectory :: string
  scopeDirectory :: string
  forbiddenFile :: "string option"

record tsz_related =
  tr_file :: string
  tr_start :: int
  tr_length :: int
  tr_text :: string
  tr_code :: int
  tr_depth :: int

record tsz_diagnostic =
  tz_file :: string
  tz_start :: int
  tz_length :: int
  tz_text :: string
  tz_category :: category
  tz_code :: int
  tz_related :: "tsz_related list"

section \<open>Reading JSON values\<close>

definition hasOnlyKeys :: "(string \<times> jsval) list \<Rightarrow> string list \<Rightarrow> bool" where
  "hasOnlyKeys ob ks \<longleftrightarrow> list_all (\<lambda>k. k \<in> set ks) (map fst ob)"

definition safe_integer :: "int \<Rightarrow> bool" where
  "safe_integer n \<longleftrightarrow> \<bar>n\<bar> \<le> 9007199254740991"

definition isNonNegativeInteger :: "jsval \<Rightarrow> bool" where
  "isNonNegativeInteger v = (case v of JInt n \<Rightarrow> safe_integer n \<and> 0 \<le> n | _ \<Rightarrow> False)"

definition isPositiveInteger :: "jsval \<Rightarrow> bool" where
  "isPositiveInteger v = (case v of JInt n \<Rightarrow> safe_integer n \<and> 0 < n | _ \<Rightarrow> False)"

definition category_of :: "jsval \<Rightarrow> category option" where
  "category_of v =
     (if v = JStr ''warning'' then Some Cat_warning
      else if v = JStr ''error'' then Some Cat_error
      else if v = JStr ''suggestion'' then Some Cat_suggestion
      else if v = JStr ''message'' then Some Cat_message
      else None)"

definition ts_code :: "int \<Rightarrow> string" where
  "ts_code n = ''TS'' @ show_int n"

definition numericCode :: "jsval \<Rightarrow> string option" where
  "numericCode v = (case v of JInt n \<Rightarrow> if isNonNegativeInteger v then Some (ts_code n) else None | _ \<Rightarrow> None)"

definition int_of :: "jsval \<Rightarrow> int" where
  "int_of v = (case v of JInt n \<Rightarrow> n | _ \<Rightarrow> 0)"

definition is_string :: "jsval \<Rightarrow> bool" where
  "is_string v = (case v of JStr _ \<Rightarrow> True | _ \<Rightarrow> False)"

definition string_of :: "jsval \<Rightarrow> string" where
  "string_of v = (case v of JStr s \<Rightarrow> s | _ \<Rightarrow> [])"

definition parseTszRelated :: "jsval \<Rightarrow> tsz_related option" where
  "parseTszRelated v =
     (case v of
        JObj ob \<Rightarrow>
          if \<not> hasOnlyKeys ob [''file'', ''start'', ''length'', ''message_text'', ''code'', ''depth''] \<or>
             \<not> is_string (obj_get ob ''file'') \<or>
             \<not> isNonNegativeInteger (obj_get ob ''start'') \<or>
             \<not> isNonNegativeInteger (obj_get ob ''length'') \<or>
             \<not> is_string (obj_get ob ''message_text'') \<or>
             numericCode (obj_get ob ''code'') = None \<or>
             \<not> isPositiveInteger (obj_get ob ''depth'')
          then None
          else Some \<lparr>tr_file = string_of (obj_get ob ''file''), tr_start = int_of (obj_get ob ''start''),
                     tr_length = int_of (obj_get ob ''length''),
                     tr_text = string_of (obj_get ob ''message_text''),
                     tr_code = int_of (obj_get ob ''code''), tr_depth = int_of (obj_get ob ''depth'')\<rparr>
      | _ \<Rightarrow> None)"

text \<open>The loop that maps a list and gives up at the first element without a result.\<close>

fun map_all :: "('a \<Rightarrow> 'b option) \<Rightarrow> 'a list \<Rightarrow> 'b list option" where
  "map_all f [] = Some []"
| "map_all f (x # xs) =
     (case f x of None \<Rightarrow> None | Some y \<Rightarrow> map_option ((#) y) (map_all f xs))"

lemma map_all_cong [fundef_cong]:
  "xs = ys \<Longrightarrow> (\<And>x. x \<in> set ys \<Longrightarrow> f x = g x) \<Longrightarrow> map_all f xs = map_all g ys"
proof -
  have "(\<And>x. x \<in> set ys \<Longrightarrow> f x = g x) \<Longrightarrow> map_all f ys = map_all g ys"
    by (induction ys) (auto split: option.splits)
  then show "xs = ys \<Longrightarrow> (\<And>x. x \<in> set ys \<Longrightarrow> f x = g x) \<Longrightarrow> map_all f xs = map_all g ys" by simp
qed

lemma map_all_Some: "map_all f xs = Some ys \<longleftrightarrow> map f xs = map Some ys"
  by (induction xs arbitrary: ys) (auto split: option.splits)

lemma map_all_None: "map_all f xs = None \<longleftrightarrow> (\<exists>x \<in> set xs. f x = None)"
  by (induction xs) (auto split: option.splits)

definition related_values :: "jsval \<Rightarrow> jsval list option" where
  "related_values v = (case v of JUndef \<Rightarrow> Some [] | JArr vs \<Rightarrow> Some vs | _ \<Rightarrow> None)"

definition parseTszDiagnostic :: "jsval \<Rightarrow> tsz_diagnostic option" where
  "parseTszDiagnostic v =
     (case v of
        JObj ob \<Rightarrow>
          if \<not> hasOnlyKeys ob [''file'', ''start'', ''length'', ''message_text'', ''category'', ''code'',
                 ''related_information''] \<or>
             \<not> is_string (obj_get ob ''file'') \<or>
             \<not> isNonNegativeInteger (obj_get ob ''start'') \<or>
             \<not> isNonNegativeInteger (obj_get ob ''length'') \<or>
             \<not> is_string (obj_get ob ''message_text'') \<or>
             category_of (obj_get ob ''category'') = None \<or>
             numericCode (obj_get ob ''code'') = None \<or>
             related_values (obj_get ob ''related_information'') = None
          then None
          else map_option
            (\<lambda>related. \<lparr>tz_file = string_of (obj_get ob ''file''), tz_start = int_of (obj_get ob ''start''),
               tz_length = int_of (obj_get ob ''length''), tz_text = string_of (obj_get ob ''message_text''),
               tz_category = the (category_of (obj_get ob ''category'')),
               tz_code = int_of (obj_get ob ''code''), tz_related = related\<rparr>)
            (map_all parseTszRelated (the (related_values (obj_get ob ''related_information''))))
      | _ \<Rightarrow> None)"

section \<open>Texts and paths\<close>

text \<open>\<open>value.replace(/\r\n?/g, '\n')\<close>\<close>

fun normalizeLineEndings :: "string \<Rightarrow> string" where
  "normalizeLineEndings [] = []"
| "normalizeLineEndings (c # s) =
     (if c = CHR 13
      then CHR 10 # (case s of d # t \<Rightarrow> if d = CHR 10 then normalizeLineEndings t else normalizeLineEndings s
                     | [] \<Rightarrow> [])
      else c # normalizeLineEndings s)"

definition replaceAllLiteral :: "string \<Rightarrow> string \<Rightarrow> string \<Rightarrow> string" where
  "replaceAllLiteral v search replacement =
     (if length search = 0 then v else join replacement (split_on search v))"

definition back_to_slash :: "string \<Rightarrow> string" where
  "back_to_slash s = map (\<lambda>c. if c = CHR 92 then CHR ''/'' else c) s"

definition normalizeDiagnosticText :: "string \<Rightarrow> string \<Rightarrow> string \<Rightarrow> string" where
  "normalizeDiagnosticText cwd v scopeDir =
     (let normalizedScope = path_resolve cwd [scopeDir]; native = normalizeLineEndings v;
          withNativeScope = replaceAllLiteral native normalizedScope ''<invocation-scope>''
      in replaceAllLiteral withNativeScope (back_to_slash normalizedScope) ''<invocation-scope>'')"

definition resolvedDiagnosticFile :: "string \<Rightarrow> string \<Rightarrow> string \<Rightarrow> string" where
  "resolvedDiagnosticFile cwd fileName invocationDir =
     (if isAbsolute fileName then path_resolve cwd [fileName] else path_resolve cwd [invocationDir, fileName])"

text \<open>\<open>None\<close> is \<open>undefined\<close> (the forbidden file), \<open>Some None\<close> is \<open>null\<close> (no file).\<close>

definition normalizeDiagnosticPath :: "string \<Rightarrow> string option \<Rightarrow> scope \<Rightarrow> string option option" where
  "normalizeDiagnosticPath cwd fileName sc =
     (case fileName of
        None \<Rightarrow> Some None
      | Some f \<Rightarrow>
          if f = [] then Some None
          else
            let resolved = resolvedDiagnosticFile cwd f (invocationDirectory sc) in
            if (case forbiddenFile sc of None \<Rightarrow> False | Some g \<Rightarrow> resolved = path_resolve cwd [g]) then None
            else Some (Some (path_relative cwd (invocationDirectory sc) resolved)))"

section \<open>The message chain of TSZ\<close>

text \<open>A node of the store: its text and code, and the addresses of its continuations. The category
  is the same for all nodes of a chain.\<close>

record chain_node =
  cn_text :: string
  cn_code :: string
  cn_next :: "nat list"

record chain_state =
  ch_store :: "chain_node list"
  ch_roots :: "nat list"
  ch_stack :: "nat list"

definition chain_step :: "string \<Rightarrow> scope \<Rightarrow> tsz_related \<Rightarrow> chain_state \<Rightarrow> chain_state option" where
  "chain_step cwd sc e st =
     (if tr_file e \<noteq> [] \<or> tr_start e \<noteq> 0 \<or> tr_length e \<noteq> 0 then None
      else if tr_depth e > int (length (ch_stack st)) + 1 then None
      else
        let node = length (ch_store st);
            store = ch_store st @
              [\<lparr>cn_text = normalizeDiagnosticText cwd (tr_text e) (scopeDirectory sc),
                cn_code = ts_code (tr_code e), cn_next = []\<rparr>];
            d = nat (tr_depth e)
        in Some
          (if tr_depth e = 1
           then \<lparr>ch_store = store, ch_roots = ch_roots st @ [node], ch_stack = [node]\<rparr>
           else
             let parent = ch_stack st ! (d - 2)
             in \<lparr>ch_store = store[parent := (store ! parent)\<lparr>cn_next := cn_next (store ! parent) @ [node]\<rparr>],
                 ch_roots = ch_roots st,
                 ch_stack = take (d - 1) (ch_stack st) @ [node]\<rparr>))"

fun chain_go :: "string \<Rightarrow> scope \<Rightarrow> tsz_related list \<Rightarrow> chain_state \<Rightarrow> chain_state option" where
  "chain_go cwd sc [] st = Some st"
| "chain_go cwd sc (e # es) st =
     (case chain_step cwd sc e st of None \<Rightarrow> None | Some st' \<Rightarrow> chain_go cwd sc es st')"

text \<open>The message an address stands for; the fuel bounds the depth, which is at most the size of
  the store.\<close>

fun node_tree :: "category \<Rightarrow> chain_node list \<Rightarrow> nat \<Rightarrow> nat \<Rightarrow> message" where
  "node_tree cat store 0 a = Msg [] cat [] []"
| "node_tree cat store (Suc n) a =
     Msg (cn_text (store ! a)) cat (cn_code (store ! a)) (map (node_tree cat store n) (cn_next (store ! a)))"

definition tszMessageChain ::
  "string \<Rightarrow> tsz_related list \<Rightarrow> scope \<Rightarrow> category \<Rightarrow> message list option" where
  "tszMessageChain cwd entries sc cat =
     map_option (\<lambda>st. map (node_tree cat (ch_store st) (length (ch_store st))) (ch_roots st))
       (chain_go cwd sc entries \<lparr>ch_store = [], ch_roots = [], ch_stack = []\<rparr>)"

definition tsz_witness :: "string \<Rightarrow> scope \<Rightarrow> jsval \<Rightarrow> witness option" where
  "tsz_witness cwd sc raw =
     (case parseTszDiagnostic raw of
        None \<Rightarrow> None
      | Some d \<Rightarrow>
          (case (normalizeDiagnosticPath cwd (Some (tz_file d)) sc,
                 tszMessageChain cwd (tz_related d) sc (tz_category d)) of
             (Some p, Some chain) \<Rightarrow>
               let global = (p = None) in
               if global \<and> (tz_start d \<noteq> 0 \<or> tz_length d \<noteq> 0) then None
               else Some (Wit p (if global then None else Some (tz_start d))
                      (if global then None else Some (tz_length d)) (tz_category d) (ts_code (tz_code d))
                      (normalizeDiagnosticText cwd (tz_text d) (scopeDirectory sc)) chain [])
           | _ \<Rightarrow> None))"

definition canonicalizeTszDiagnosticsJson :: "string \<Rightarrow> jsval \<Rightarrow> scope \<Rightarrow> witness list option" where
  "canonicalizeTszDiagnosticsJson cwd v sc =
     (case v of JArr vs \<Rightarrow> map_all (tsz_witness cwd sc) vs | _ \<Rightarrow> None)"

section \<open>The diagnostics of the TypeScript API\<close>

text \<open>The fields the program reads. Absent lists are empty; the text is a string in the API's
  type, so the test of its type always passes.\<close>

datatype ts_diag =
  TsDiag (td_file: "string option") (td_pos: int) (td_end: int) (td_code: int) (td_category: int)
    (td_text: string) (td_chain: "ts_diag list") (td_related: "ts_diag list")

definition typeScriptCategory :: "int \<Rightarrow> category option" where
  "typeScriptCategory v =
     (if v = 0 then Some Cat_warning else if v = 1 then Some Cat_error
      else if v = 2 then Some Cat_suggestion else if v = 3 then Some Cat_message else None)"

definition isGlobalApiSpan :: "int \<Rightarrow> int \<Rightarrow> bool" where
  "isGlobalApiSpan p e \<longleftrightarrow> (p = 0 \<and> e = 0) \<or> (p = -1 \<and> e = -1)"

record location =
  lo_path :: "string option"
  lo_pos :: int
  lo_end :: int

fun canonicalizeTypeScriptMessage :: "string \<Rightarrow> scope \<Rightarrow> location \<Rightarrow> ts_diag \<Rightarrow> message option" where
  "canonicalizeTypeScriptMessage cwd sc owner (TsDiag f p e c cat t chain related) =
     (case (typeScriptCategory cat, numericCode (JInt c), normalizeDiagnosticPath cwd f sc) of
        (Some category, Some code, Some path) \<Rightarrow>
          let unlocated = (path = None \<and> isGlobalApiSpan p e);
              repeatsOwner = (path = lo_path owner \<and> p = lo_pos owner \<and> e = lo_end owner)
          in if (\<not> unlocated \<and> \<not> repeatsOwner) \<or> length related \<noteq> 0 then None
             else map_option
               (Msg (normalizeDiagnosticText cwd t (scopeDirectory sc)) category code)
               (map_all (canonicalizeTypeScriptMessage cwd sc owner) chain)
      | _ \<Rightarrow> None)"

definition bad_span :: "bool \<Rightarrow> int \<Rightarrow> int \<Rightarrow> bool" where
  "bad_span global p e \<longleftrightarrow> (if global then \<not> isGlobalApiSpan p e else p < 0 \<or> e < p)"

fun canonicalizeTypeScriptDiagnostic :: "string \<Rightarrow> scope \<Rightarrow> ts_diag \<Rightarrow> witness option" where
  "canonicalizeTypeScriptDiagnostic cwd sc (TsDiag f p e c cat t chain related) =
     (case (normalizeDiagnosticPath cwd f sc, typeScriptCategory cat, numericCode (JInt c)) of
        (Some path, Some category, Some code) \<Rightarrow>
          if \<not> safe_integer p \<or> \<not> safe_integer e \<or> bad_span (path = None) p e then None
          else
            (case (map_all (canonicalizeTypeScriptMessage cwd sc
                     \<lparr>lo_path = path, lo_pos = p, lo_end = e\<rparr>) chain,
                   map_all (canonicalizeTypeScriptDiagnostic cwd sc) related) of
               (Some messageChain, Some relatedInformation) \<Rightarrow>
                 Some (Wit path (if path = None then None else Some p)
                   (if path = None then None else Some (e - p)) category code
                   (normalizeDiagnosticText cwd t (scopeDirectory sc)) messageChain relatedInformation)
             | _ \<Rightarrow> None)
      | _ \<Rightarrow> None)"

fun compareTypeScriptMessage :: "ts_diag \<Rightarrow> ts_diag \<Rightarrow> int" where
  "compareTypeScriptMessage (TsDiag f p e c cat t chain related) r =
     or_else (str_cmp t (td_text r))
       (or_else (num_cmp c (td_code r))
         (or_else (num_cmp cat (td_category r))
           (list_cmp compareTypeScriptMessage chain (td_chain r))))"

definition resolved_file :: "string \<Rightarrow> scope \<Rightarrow> string option \<Rightarrow> string option" where
  "resolved_file cwd sc f = map_option (\<lambda>g. resolvedDiagnosticFile cwd g (invocationDirectory sc)) f"

fun compareTypeScriptDiagnostic :: "string \<Rightarrow> scope \<Rightarrow> ts_diag \<Rightarrow> ts_diag \<Rightarrow> int" where
  "compareTypeScriptDiagnostic cwd sc (TsDiag f p e c cat t chain related) r =
     or_else (null_cmp str_cmp (resolved_file cwd sc f) (resolved_file cwd sc (td_file r)))
      (or_else (num_cmp p (td_pos r))
       (or_else (num_cmp (e - p) (td_end r - td_pos r))
        (or_else (num_cmp c (td_code r))
         (or_else (str_cmp t (td_text r))
          (or_else (list_cmp compareTypeScriptMessage chain (td_chain r))
           (or_else (num_cmp (int (length (td_related r))) (int (length related)))
            (or_else (list_cmp (compareTypeScriptDiagnostic cwd sc) related (td_related r))
             (num_cmp cat (td_category r)))))))))"

section \<open>Witnesses as JSON\<close>

definition category_text :: "category \<Rightarrow> string" where
  "category_text c = (case c of Cat_warning \<Rightarrow> ''warning'' | Cat_error \<Rightarrow> ''error''
     | Cat_suggestion \<Rightarrow> ''suggestion'' | Cat_message \<Rightarrow> ''message'')"

definition null_or :: "('a \<Rightarrow> jsval) \<Rightarrow> 'a option \<Rightarrow> jsval" where
  "null_or f x = (case x of None \<Rightarrow> JNull | Some v \<Rightarrow> f v)"

fun message_value :: "message \<Rightarrow> jsval" where
  "message_value (Msg t cat c ns) =
     JObj [(''text'', JStr t), (''category'', JStr (category_text cat)), (''code'', JStr c),
           (''next'', JArr (map message_value ns))]"

fun witness_value :: "witness \<Rightarrow> jsval" where
  "witness_value (Wit p s l cat c t chain related) =
     JObj [(''path'', null_or JStr p), (''start'', null_or JInt s), (''length'', null_or JInt l),
           (''category'', JStr (category_text cat)), (''code'', JStr c), (''text'', JStr t),
           (''messageChain'', JArr (map message_value chain)),
           (''relatedInformation'', JArr (map witness_value related))]"

text \<open>\<open>JSON.stringify\<close> of a witness: its fields in the order of the literal, nothing undefined.\<close>

definition witness_json :: "witness \<Rightarrow> string" where
  "witness_json w = render json_char (witness_value w)"

definition drop_repeats :: "witness list \<Rightarrow> witness list" where
  "drop_repeats ws =
     map (\<lambda>i. ws ! i)
       (filter (\<lambda>i. i = 0 \<or> witness_json (ws ! i) \<noteq> witness_json (ws ! (i - 1))) [0..<length ws])"

definition canonicalizeTypeScriptDiagnostics :: "string \<Rightarrow> ts_diag list \<Rightarrow> scope \<Rightarrow> witness list option" where
  "canonicalizeTypeScriptDiagnostics cwd diagnostics sc =
     map_option
       (\<lambda>ws. drop_repeats (map snd
          (sort_by (\<lambda>l r. compareTypeScriptDiagnostic cwd sc (fst l) (fst r)) (zip diagnostics ws))))
       (map_all (canonicalizeTypeScriptDiagnostic cwd sc) diagnostics)"

definition witnessCodesMatch :: "witness list \<Rightarrow> string list \<Rightarrow> bool" where
  "witnessCodesMatch ws codes \<longleftrightarrow>
     length ws = length codes \<and> list_all (\<lambda>i. w_code (ws ! i) = codes ! i) [0..<length ws]"

end
