(* ===== verification/DiagnosticChain.thy ===== *)
theory DiagnosticChain
  imports DiagnosticWitness
begin

text \<open>
  What the message chain of TSZ means. The abstract side is a forest of messages read in
  preorder with its depths; the relation \<open>numbered\<close> says that addresses stand for a forest whose
  nodes lie in the store in preorder, and every step of the loop adds one node at the right end
  of the forest. The chain is then the one forest whose preorder is the list of entries.
\<close>

section \<open>Preorder\<close>

fun preorder :: "nat \<Rightarrow> message \<Rightarrow> (nat \<times> string \<times> string) list" where
  "preorder d (Msg t cat c ns) = (d, t, c) # concat (map (preorder (Suc d)) ns)"

definition forest :: "nat \<Rightarrow> message list \<Rightarrow> (nat \<times> string \<times> string) list" where
  "forest d ts = concat (map (preorder d) ts)"

fun one_category :: "category \<Rightarrow> message \<Rightarrow> bool" where
  "one_category cat (Msg t c cd ns) \<longleftrightarrow> c = cat \<and> list_all (one_category cat) ns"

lemma forest_simps [simp]:
  "forest d [] = []" "forest d (t # ts) = preorder d t @ forest d ts"
  "forest d (ts @ us) = forest d ts @ forest d us"
  by (simp_all add: forest_def)

lemma preorder_Msg: "preorder d (Msg t cat c ns) = (d, t, c) # forest (Suc d) ns"
  by (simp add: forest_def)

declare preorder.simps [simp del]
declare preorder_Msg [simp]

definition ends_at :: "nat \<Rightarrow> (nat \<times> string \<times> string) list \<Rightarrow> bool" where
  "ends_at d r \<longleftrightarrow> r = [] \<or> fst (hd r) \<le> d"

lemma ends_at_simps [simp]: "ends_at d []" "ends_at d (x # r) \<longleftrightarrow> fst x \<le> d"
  by (simp_all add: ends_at_def)

lemma ends_at_preorder: "ends_at d (preorder d t @ r)"
  by (cases t) simp

lemma ends_at_forest: "ends_at d r \<Longrightarrow> ends_at d (forest d ts @ r)"
  by (cases ts) (auto simp: ends_at_preorder)

definition splits :: "category \<Rightarrow> message \<Rightarrow> bool" where
  "splits cat t \<longleftrightarrow>
     (\<forall>d u r r'. one_category cat u \<longrightarrow> ends_at d r \<longrightarrow> ends_at d r' \<longrightarrow>
        preorder d t @ r = preorder d u @ r' \<longrightarrow> t = u \<and> r = r')"

lemma forest_split:
  assumes "\<forall>t \<in> set ts. splits cat t" and "list_all (one_category cat) us"
    and "ends_at d r" and "ends_at d r'" and "forest (Suc d) ts @ r = forest (Suc d) us @ r'"
  shows "ts = us \<and> r = r'"
  using assms
proof (induction ts arbitrary: us)
  case Nil
  show ?case
  proof (cases us)
    case (Cons u us')
    then show ?thesis using Nil by (cases u) auto
  qed (use Nil in simp)
next
  case (Cons t ts)
  show ?case
  proof (cases us)
    case Nil
    then show ?thesis using Cons.prems by (cases t) auto
  next
    case us: (Cons u us')
    have e: "preorder (Suc d) t @ (forest (Suc d) ts @ r) = preorder (Suc d) u @ (forest (Suc d) us' @ r')"
      using Cons.prems(5) us by simp
    have le: "ends_at (Suc d) x" if "ends_at d x" for x using that by (auto simp: ends_at_def)
    have "t = u \<and> forest (Suc d) ts @ r = forest (Suc d) us' @ r'"
      using Cons.prems(1,2) us e ends_at_forest[OF le[OF Cons.prems(3)]] ends_at_forest[OF le[OF Cons.prems(4)]]
      unfolding splits_def by (metis list.set_intros(1) list.pred_inject(2))
    moreover from this have "ts = us' \<and> r = r'"
      using Cons.prems us by (intro Cons.IH) simp_all
    ultimately show ?thesis using us by simp
  qed
qed

lemma preorder_split: "one_category cat t \<Longrightarrow> splits cat t"
proof (induction t)
  case (Msg tx c cd ns)
  have kids: "\<forall>t \<in> set ns. splits cat t" using Msg by (simp add: list_all_iff)
  show ?case unfolding splits_def
  proof (intro allI impI)
    fix d u r r'
    assume u: "one_category cat u" and r: "ends_at d r" "ends_at d r'"
      and eq: "preorder d (Msg tx c cd ns) @ r = preorder d u @ r'"
    obtain tx' c' cd' ns' where ud: "u = Msg tx' c' cd' ns'" by (cases u)
    have "ns = ns' \<and> r = r'"
      using eq u unfolding ud by (intro forest_split[OF kids _ r]) simp_all
    then show "Msg tx c cd ns = u \<and> r = r'" using eq u Msg.prems unfolding ud by simp
  qed
qed

lemma forest_inject:
  "list_all (one_category cat) ts \<Longrightarrow> list_all (one_category cat) us \<Longrightarrow>
   forest 1 ts = forest 1 us \<Longrightarrow> ts = us"
  using forest_split[of ts cat us 0 "[]" "[]"] preorder_split by (auto simp: list_all_iff)

text \<open>The depths of a forest never jump.\<close>

fun no_jump :: "nat \<Rightarrow> nat list \<Rightarrow> bool" where
  "no_jump n [] = True"
| "no_jump n (d # ds) \<longleftrightarrow> 1 \<le> d \<and> d \<le> n + 1 \<and> no_jump d ds"

lemma no_jump_preorder:
  "1 \<le> d \<Longrightarrow> d \<le> n + 1 \<Longrightarrow> (\<And>m. d \<le> m + 1 \<Longrightarrow> no_jump m rest) \<Longrightarrow>
   no_jump n (map fst (preorder d t) @ rest)"
proof (induction t arbitrary: d n rest)
  case (Msg tx c cd ns)
  have "no_jump m (map fst (forest (Suc d) us) @ rest)" if "set us \<subseteq> set ns" "d \<le> m" for us m
    using that
  proof (induction us arbitrary: m)
    case Nil
    then show ?case using Msg.prems(3) by simp
  next
    case (Cons u us)
    have "no_jump m (map fst (preorder (Suc d) u) @ (map fst (forest (Suc d) us) @ rest))"
      using Cons by (intro Msg.IH) simp_all
    then show ?case by simp
  qed
  then show ?case using Msg.prems(1,2) by simp
qed

lemma no_jump_forest: "no_jump 0 (map fst (forest 1 ts))"
proof -
  have "no_jump m (map fst (forest 1 ts))" for m
  proof (induction ts arbitrary: m)
    case (Cons t ts)
    then show ?case using no_jump_preorder[of 1 m "map fst (forest 1 ts)" t] by simp
  qed simp
  then show ?thesis .
qed

section \<open>The store\<close>

inductive numbered :: "chain_node list \<Rightarrow> category \<Rightarrow> nat \<Rightarrow> nat list \<Rightarrow> message list \<Rightarrow> nat \<Rightarrow> bool"
  for s cat where
  num_Nil: "numbered s cat lo [] [] lo"
| num_Node: "lo < length s \<Longrightarrow> numbered s cat (Suc lo) (cn_next (s ! lo)) ns mid \<Longrightarrow>
    numbered s cat mid as ts hi \<Longrightarrow>
    numbered s cat lo (lo # as) (Msg (cn_text (s ! lo)) cat (cn_code (s ! lo)) ns # ts) hi"

inductive_cases num_NilE: "numbered s cat lo [] ts hi"
inductive_cases num_ConsE: "numbered s cat lo (a # as) ts hi"

lemma num_range: "numbered s cat lo as ts hi \<Longrightarrow> lo \<le> hi \<and> (\<forall>a \<in> set as. lo \<le> a \<and> a < hi)"
proof (induction rule: numbered.induct)
  case (num_Node lo ns mid as ts hi)
  have "lo \<le> a \<and> a < hi" if "a \<in> set (lo # as)" for a
    using that num_Node.IH by (cases "a = lo") force+
  then show ?case using num_Node.IH by force
qed simp

lemma num_frame:
  "numbered s cat lo as ts hi \<Longrightarrow> (\<And>i. lo \<le> i \<Longrightarrow> i < hi \<Longrightarrow> i < length s' \<and> s' ! i = s ! i) \<Longrightarrow>
   numbered s' cat lo as ts hi"
proof (induction rule: numbered.induct)
  case (num_Nil lo)
  show ?case by (rule numbered.num_Nil)
next
  case (num_Node lo ns mid as ts hi)
  have le: "Suc lo \<le> mid" "mid \<le> hi" using num_Node(2,3) num_range by blast+
  have lo: "lo < length s'" "s' ! lo = s ! lo" using num_Node.prems[of lo] le by simp_all
  have "numbered s' cat (Suc lo) (cn_next (s ! lo)) ns mid" using num_Node.prems le by (intro num_Node.IH(1)) simp_all
  moreover have "numbered s' cat mid as ts hi" using num_Node.prems le by (intro num_Node.IH(2)) simp_all
  ultimately show ?case using numbered.num_Node[of lo s' cat ns mid as ts hi] lo by simp
qed

lemma num_snoc:
  "numbered s cat lo (as @ [p]) ts hi \<longleftrightarrow>
     (\<exists>us ns. ts = us @ [Msg (cn_text (s ! p)) cat (cn_code (s ! p)) ns] \<and> p < length s \<and>
        numbered s cat lo as us p \<and> numbered s cat (Suc p) (cn_next (s ! p)) ns hi)"
proof (induction as arbitrary: lo ts)
  case Nil
  have "numbered s cat lo [lo] [Msg (cn_text (s ! lo)) cat (cn_code (s ! lo)) ns] hi"
    if "lo < length s" "numbered s cat (Suc lo) (cn_next (s ! lo)) ns hi" for ns
    using that numbered.num_Nil by (rule numbered.num_Node)
  then show ?case
    by (auto intro: numbered.num_Nil elim!: num_ConsE[of s cat lo p "[]"] num_NilE)
next
  case (Cons a as)
  show ?case
  proof
    assume "numbered s cat lo ((a # as) @ [p]) ts hi"
    then have "numbered s cat lo (a # (as @ [p])) ts hi" by simp
    then obtain ns mid ts' where n: "a = lo" "lo < length s" "numbered s cat (Suc lo) (cn_next (s ! lo)) ns mid"
      "numbered s cat mid (as @ [p]) ts' hi" "ts = Msg (cn_text (s ! lo)) cat (cn_code (s ! lo)) ns # ts'"
      by (rule num_ConsE) blast
    from n(4)[unfolded Cons.IH] obtain us ns' where
      u: "ts' = us @ [Msg (cn_text (s ! p)) cat (cn_code (s ! p)) ns']" "p < length s"
      "numbered s cat mid as us p" "numbered s cat (Suc p) (cn_next (s ! p)) ns' hi" by blast
    have "numbered s cat lo (a # as) (Msg (cn_text (s ! lo)) cat (cn_code (s ! lo)) ns # us) p"
      unfolding n(1) by (rule numbered.num_Node[OF n(2,3) u(3)])
    then show "\<exists>us ns. ts = us @ [Msg (cn_text (s ! p)) cat (cn_code (s ! p)) ns] \<and> p < length s \<and>
        numbered s cat lo (a # as) us p \<and> numbered s cat (Suc p) (cn_next (s ! p)) ns hi"
      using u n(5) by (intro exI[of _ "Msg (cn_text (s ! lo)) cat (cn_code (s ! lo)) ns # us"] exI[of _ ns']) simp
  next
    assume "\<exists>us ns. ts = us @ [Msg (cn_text (s ! p)) cat (cn_code (s ! p)) ns] \<and> p < length s \<and>
        numbered s cat lo (a # as) us p \<and> numbered s cat (Suc p) (cn_next (s ! p)) ns hi"
    then obtain us ns where u: "ts = us @ [Msg (cn_text (s ! p)) cat (cn_code (s ! p)) ns]" "p < length s"
      "numbered s cat lo (a # as) us p" "numbered s cat (Suc p) (cn_next (s ! p)) ns hi" by blast
    from u(3) obtain ns' mid us' where n: "a = lo" "lo < length s"
      "numbered s cat (Suc lo) (cn_next (s ! lo)) ns' mid" "numbered s cat mid as us' p"
      "us = Msg (cn_text (s ! lo)) cat (cn_code (s ! lo)) ns' # us'" by (rule num_ConsE) blast
    have "numbered s cat mid (as @ [p]) (us' @ [Msg (cn_text (s ! p)) cat (cn_code (s ! p)) ns]) hi"
      unfolding Cons.IH using n(4) u(2,4) by blast
    from numbered.num_Node[OF n(2,3) this]
    show "numbered s cat lo ((a # as) @ [p]) ts hi" using u(1) n(1,5) by simp
  qed
qed

lemma num_tree:
  "numbered s cat lo as ts hi \<Longrightarrow> hi - lo \<le> n \<Longrightarrow> map (node_tree cat s n) as = ts"
proof (induction arbitrary: n rule: numbered.induct)
  case (num_Nil lo)
  then show ?case by simp
next
  case (num_Node lo ns mid as ts hi)
  have le: "Suc lo \<le> mid" "mid \<le> hi" using num_Node(2,3) num_range by blast+
  then obtain m where m: "n = Suc m" using num_Node.prems by (cases n) auto
  have "map (node_tree cat s m) (cn_next (s ! lo)) = ns" using le num_Node.prems m by (intro num_Node.IH(1)) simp
  moreover have "map (node_tree cat s n) as = ts" using le num_Node.prems by (intro num_Node.IH(2)) simp
  moreover have "node_tree cat s n lo = Msg (cn_text (s ! lo)) cat (cn_code (s ! lo))
      (map (node_tree cat s m) (cn_next (s ! lo)))" unfolding m by (rule node_tree.simps(2))
  ultimately show ?case by (simp only: list.map)
qed

section \<open>One step\<close>

text \<open>Adding a message at the right end of a forest, \<open>k\<close> levels down.\<close>

fun add_right :: "nat \<Rightarrow> message \<Rightarrow> message list \<Rightarrow> message list" where
  "add_right 0 m ts = ts @ [m]"
| "add_right (Suc k) m ts =
     (if ts = [] then [] else
      butlast ts @ [Msg (m_text (last ts)) (m_category (last ts)) (m_code (last ts)) (add_right k m (m_next (last ts)))])"

lemma add_right_snoc:
  "add_right (Suc k) m (ts @ [Msg t cat c ns]) = ts @ [Msg t cat c (add_right k m ns)]"
  by simp

fun right_path :: "chain_node list \<Rightarrow> nat list \<Rightarrow> nat list \<Rightarrow> bool" where
  "right_path s as [] = True"
| "right_path s as (p # ps) \<longleftrightarrow> as \<noteq> [] \<and> last as = p \<and> right_path s (cn_next (s ! p)) ps"

fun spine :: "nat \<Rightarrow> message list \<Rightarrow> bool" where
  "spine 0 ts = True"
| "spine (Suc k) ts \<longleftrightarrow> ts \<noteq> [] \<and> spine k (m_next (last ts))"

lemma path_range:
  "numbered s cat lo as ts hi \<Longrightarrow> right_path s as ps \<Longrightarrow>
   (\<forall>q \<in> set ps. lo \<le> q \<and> q < hi) \<and> spine (length ps) ts"
proof (induction ps arbitrary: lo as ts)
  case Nil
  then show ?case by simp
next
  case (Cons p ps)
  obtain as' where as: "as = as' @ [p]" using Cons.prems(2) by (metis append_butlast_last_id right_path.simps(2))
  obtain us ns where u: "ts = us @ [Msg (cn_text (s ! p)) cat (cn_code (s ! p)) ns]"
    "numbered s cat lo as' us p" "numbered s cat (Suc p) (cn_next (s ! p)) ns hi"
    using Cons.prems(1) unfolding as num_snoc by blast
  have "lo \<le> p" "Suc p \<le> hi" using u(2,3) num_range by blast+
  moreover have "(\<forall>q \<in> set ps. Suc p \<le> q \<and> q < hi) \<and> spine (length ps) ns"
    by (rule Cons.IH[OF u(3)]) (use Cons.prems(2) in simp)
  ultimately show ?case using u(1) by auto
qed

lemma add_node:
  assumes "numbered s cat lo as ts (length s)" and "right_path s as stk" and "k \<le> length stk"
    and "cn_next nd = []"
  defines "n \<equiv> length s" and "leaf \<equiv> Msg (cn_text nd) cat (cn_code nd) []"
  shows "(k = 0 \<longrightarrow> numbered (s @ [nd]) cat lo (as @ [n]) (ts @ [leaf]) (Suc n)) \<and>
    (0 < k \<longrightarrow> (let q = stk ! (k - 1); s' = (s @ [nd])[q := (s ! q)\<lparr>cn_next := cn_next (s ! q) @ [n]\<rparr>] in
       numbered s' cat lo as (add_right k leaf ts) (Suc n) \<and> right_path s' as (take k stk @ [n])))"
  using assms(1-3)
proof (induction k arbitrary: lo as ts stk)
  case 0
  have "numbered (s @ [nd]) cat lo as ts n"
    unfolding n_def using 0(1) by (rule num_frame) (simp add: nth_append)
  moreover have "numbered (s @ [nd]) cat (Suc n) [] [] (Suc n)" by (rule num_Nil)
  ultimately show ?case by (auto simp: num_snoc n_def leaf_def assms(4))
next
  case (Suc k)
  obtain p ps where stk: "stk = p # ps" using Suc.prems(3) by (cases stk) auto
  obtain as' where as: "as = as' @ [p]"
    using Suc.prems(2) stk by (metis append_butlast_last_id right_path.simps(2))
  obtain us ns where u: "ts = us @ [Msg (cn_text (s ! p)) cat (cn_code (s ! p)) ns]" "p < length s"
    "numbered s cat lo as' us p" "numbered s cat (Suc p) (cn_next (s ! p)) ns (length s)"
    using Suc.prems(1) unfolding as num_snoc by blast
  have rp: "right_path s (cn_next (s ! p)) ps" using Suc.prems(2) stk by simp
  note IH = Suc.IH[OF u(4) rp] and prems = Suc.prems
  show ?case
  proof (cases k)
    case 0
    let ?s' = "(s @ [nd])[p := (s ! p)\<lparr>cn_next := cn_next (s ! p) @ [n]\<rparr>]"
    have sp: "?s' ! p = (s ! p)\<lparr>cn_next := cn_next (s ! p) @ [n]\<rparr>" "length ?s' = Suc n"
      using u(2) by (simp_all add: n_def)
    have "numbered ?s' cat lo as' us p"
      using u(3) by (rule num_frame) (use u(2) in \<open>auto simp: nth_append\<close>)
    moreover have "numbered (s @ [nd]) cat (Suc p) (cn_next (s ! p) @ [n]) (ns @ [leaf]) (Suc n)"
      using IH 0 by simp
    then have "numbered ?s' cat (Suc p) (cn_next (s ! p) @ [n]) (ns @ [leaf]) (Suc n)"
      by (rule num_frame) (auto simp: n_def)
    ultimately have r: "numbered ?s' cat lo as' us p \<and>
        numbered ?s' cat (Suc p) (cn_next (?s' ! p)) (ns @ [leaf]) (Suc n)" unfolding sp(1) by simp
    have "add_right (Suc k) leaf ts =
        us @ [Msg (cn_text (?s' ! p)) cat (cn_code (?s' ! p)) (ns @ [leaf])]"
      unfolding u(1) add_right_snoc sp(1) 0 by simp
    then have "numbered ?s' cat lo as (add_right (Suc k) leaf ts) (Suc n)"
      unfolding as num_snoc using r sp(2) u(2) n_def by auto
    moreover have "right_path ?s' as (take (Suc k) stk @ [n])" using 0 stk as sp by simp
    ultimately show ?thesis using 0 stk by (simp add: Let_def)
  next
    case (Suc j)
    define q where "q = ps ! j"
    define s' where "s' = (s @ [nd])[q := (s ! q)\<lparr>cn_next := cn_next (s ! q) @ [n]\<rparr>]"
    have j: "j < length ps" using prems(3) stk Suc by simp
    then have q: "Suc p \<le> q" "q < length s" using path_range[OF u(4) rp] by (auto simp: q_def)
    have I: "numbered s' cat (Suc p) (cn_next (s ! p)) (add_right k leaf ns) (Suc n)"
      "right_path s' (cn_next (s ! p)) (take k ps @ [n])"
      using IH Suc j by (simp_all add: Let_def q_def s'_def)
    have sp: "s' ! p = s ! p" "p < length s'" using q u(2) by (auto simp: s'_def nth_append)
    have "numbered s' cat lo as' us p"
      using u(3) by (rule num_frame) (use q u(2) in \<open>auto simp: s'_def nth_append\<close>)
    moreover have "add_right (Suc k) leaf ts =
        us @ [Msg (cn_text (s' ! p)) cat (cn_code (s' ! p)) (add_right k leaf ns)]"
      unfolding u(1) add_right_snoc sp(1) ..
    ultimately have "numbered s' cat lo as (add_right (Suc k) leaf ts) (Suc n)"
      unfolding as num_snoc using sp I(1) by auto
    moreover have "right_path s' as (take (Suc k) stk @ [n])" using stk as sp I(2) by simp
    ultimately show ?thesis using stk Suc by (simp add: Let_def q_def s'_def)
  qed
qed

lemma spine_less: "spine m ts \<Longrightarrow> k \<le> m \<Longrightarrow> spine k ts"
proof (induction k arbitrary: m ts)
  case (Suc k)
  then obtain m' where m: "m = Suc m'" by (cases m) auto
  then have "spine k (m_next (last ts))" using Suc.prems by (intro Suc.IH[of m']) simp_all
  then show ?case using Suc.prems(1) m by simp
qed simp

lemma forest_add: "spine k ts \<Longrightarrow> forest d (add_right k m ts) = forest d ts @ preorder (d + k) m"
proof (induction k arbitrary: ts d)
  case 0
  then show ?case by simp
next
  case (Suc k)
  then obtain us t cat c ns where ts: "ts = us @ [Msg t cat c ns]"
    by (metis append_butlast_last_id message.exhaust spine.simps(2))
  have "forest (Suc d) (add_right k m ns) = forest (Suc d) ns @ preorder (Suc d + k) m"
    using Suc ts by (intro Suc.IH) simp
  then show ?case unfolding ts add_right_snoc by simp
qed

lemma category_add:
  "one_category cat m \<Longrightarrow> list_all (one_category cat) ts \<Longrightarrow> list_all (one_category cat) (add_right k m ts)"
proof (induction k arbitrary: ts)
  case 0
  then show ?case by simp
next
  case (Suc k)
  show ?case
  proof (cases "ts = []")
    case False
    then obtain us t c cd ns where ts: "ts = us @ [Msg t c cd ns]"
      by (metis append_butlast_last_id message.exhaust)
    have "list_all (one_category cat) (add_right k m ns)" using Suc ts by (intro Suc.IH) simp_all
    then show ?thesis using Suc.prems unfolding ts add_right_snoc by simp
  qed simp
qed

section \<open>The loop\<close>

definition located :: "tsz_related \<Rightarrow> bool" where
  "located e \<longleftrightarrow> tr_file e \<noteq> [] \<or> tr_start e \<noteq> 0 \<or> tr_length e \<noteq> 0"

definition entry_key :: "string \<Rightarrow> scope \<Rightarrow> tsz_related \<Rightarrow> nat \<times> string \<times> string" where
  "entry_key cwd sc e =
     (nat (tr_depth e), normalizeDiagnosticText cwd (tr_text e) (scopeDirectory sc), ts_code (tr_code e))"

definition chain_inv :: "category \<Rightarrow> (nat \<times> string \<times> string) list \<Rightarrow> chain_state \<Rightarrow> bool" where
  "chain_inv cat dn st \<longleftrightarrow>
     (\<exists>ts. numbered (ch_store st) cat 0 (ch_roots st) ts (length (ch_store st)) \<and>
        right_path (ch_store st) (ch_roots st) (ch_stack st) \<and>
        forest 1 ts = dn \<and> list_all (one_category cat) ts)"

lemma chain_step_inv:
  assumes inv: "chain_inv cat dn st" and d: "1 \<le> tr_depth e" and step: "chain_step cwd sc e st = Some st'"
  shows "chain_inv cat (dn @ [entry_key cwd sc e]) st' \<and> length (ch_stack st') = nat (tr_depth e)"
proof -
  obtain ts where ts: "numbered (ch_store st) cat 0 (ch_roots st) ts (length (ch_store st))"
    "right_path (ch_store st) (ch_roots st) (ch_stack st)" "forest 1 ts = dn" "list_all (one_category cat) ts"
    using inv unfolding chain_inv_def by blast
  define k where "k = nat (tr_depth e) - 1"
  define nd where "nd = \<lparr>cn_text = normalizeDiagnosticText cwd (tr_text e) (scopeDirectory sc),
    cn_code = ts_code (tr_code e), cn_next = []\<rparr>"
  define n where "n = length (ch_store st)"
  define leaf where "leaf = Msg (cn_text nd) cat (cn_code nd) []"
  have k: "k \<le> length (ch_stack st)" and dk: "nat (tr_depth e) = Suc k"
    using step d by (auto simp: chain_step_def k_def split: if_splits)
  have leafk: "preorder (1 + k) leaf = [entry_key cwd sc e]" using dk by (simp add: leaf_def nd_def entry_key_def)
  have lc: "one_category cat leaf" by (simp add: leaf_def)
  have nx: "cn_next nd = []" by (simp add: nd_def)
  note add = add_node[OF ts(1,2) k nx, folded n_def leaf_def]
  have sp: "spine k ts"
  proof -
    have "spine (length (ch_stack st)) ts" using path_range[OF ts(1,2)] by blast
    then show ?thesis using k by (rule spine_less)
  qed
  show ?thesis
  proof (cases k)
    case 0
    then have e1: "tr_depth e = 1" using dk d by linarith
    have st': "st' = \<lparr>ch_store = ch_store st @ [nd], ch_roots = ch_roots st @ [n], ch_stack = [n]\<rparr>"
      using step e1 by (auto simp: chain_step_def nd_def n_def Let_def split: if_splits)
    have "numbered (ch_store st') cat 0 (ch_roots st') (ts @ [leaf]) (length (ch_store st'))"
      using add 0 by (simp add: st' n_def)
    moreover have "forest 1 (ts @ [leaf]) = dn @ [entry_key cwd sc e]" using ts(3) leafk 0 by simp
    moreover have "list_all (one_category cat) (ts @ [leaf])" using ts(4) lc by simp
    ultimately have "chain_inv cat (dn @ [entry_key cwd sc e]) st'"
      unfolding chain_inv_def by (intro exI[of _ "ts @ [leaf]"]) (simp add: st')
    then show ?thesis using e1 by (simp add: st')
  next
    case (Suc j)
    define q where "q = ch_stack st ! j"
    have e1: "tr_depth e \<noteq> 1" using dk Suc by auto
    have q: "q < length (ch_store st)" using path_range[OF ts(1,2)] k Suc by (auto simp: q_def)
    have st': "st' = \<lparr>ch_store = (ch_store st @ [nd])[q := (ch_store st ! q)\<lparr>cn_next := cn_next (ch_store st ! q) @ [n]\<rparr>],
        ch_roots = ch_roots st, ch_stack = take k (ch_stack st) @ [n]\<rparr>"
      using step e1 dk Suc q
      by (auto simp: chain_step_def nd_def n_def q_def Let_def nth_append split: if_splits)
    have "numbered (ch_store st') cat 0 (ch_roots st') (add_right k leaf ts) (length (ch_store st'))"
      "right_path (ch_store st') (ch_roots st') (ch_stack st')"
      using add Suc by (simp_all add: st' n_def q_def Let_def)
    moreover have "forest 1 (add_right k leaf ts) = dn @ [entry_key cwd sc e]"
      using forest_add[OF sp, of 1 leaf] ts(3) leafk by simp
    moreover have "list_all (one_category cat) (add_right k leaf ts)" using category_add[OF lc ts(4)] .
    ultimately have "chain_inv cat (dn @ [entry_key cwd sc e]) st'" unfolding chain_inv_def by blast
    then show ?thesis using dk k by (simp add: st')
  qed
qed

lemma chain_step_defined:
  "1 \<le> tr_depth e \<Longrightarrow>
   chain_step cwd sc e st \<noteq> None \<longleftrightarrow> \<not> located e \<and> nat (tr_depth e) \<le> length (ch_stack st) + 1"
  by (auto simp: chain_step_def located_def Let_def)

lemma chain_go_inv:
  assumes "chain_inv cat dn st" and "\<forall>e \<in> set es. 1 \<le> tr_depth e"
  shows "(chain_go cwd sc es st \<noteq> None \<longleftrightarrow>
       (\<forall>e \<in> set es. \<not> located e) \<and> no_jump (length (ch_stack st)) (map (\<lambda>e. nat (tr_depth e)) es)) \<and>
    (\<forall>st'. chain_go cwd sc es st = Some st' \<longrightarrow> chain_inv cat (dn @ map (entry_key cwd sc) es) st')"
  using assms
proof (induction es arbitrary: dn st)
  case Nil
  then show ?case by simp
next
  case (Cons e es)
  have d: "1 \<le> tr_depth e" using Cons.prems(2) by simp
  show ?case
  proof (cases "chain_step cwd sc e st")
    case None
    then have "\<not> (\<not> located e \<and> nat (tr_depth e) \<le> length (ch_stack st) + 1)"
      using chain_step_defined[OF d, of cwd sc st] by simp
    then show ?thesis using None by auto
  next
    case (Some st1)
    then have ok: "\<not> located e" "nat (tr_depth e) \<le> length (ch_stack st) + 1"
      using chain_step_defined[OF d, of cwd sc st] by auto
    note s = chain_step_inv[OF Cons.prems(1) d Some]
    have es: "\<forall>e \<in> set es. 1 \<le> tr_depth e" using Cons.prems(2) by simp
    note IH = Cons.IH[OF conjunct1[OF s] es]
    show ?thesis using IH Some ok s d by auto
  qed
qed

lemma chain_iff:
  assumes "\<forall>e \<in> set es. 1 \<le> tr_depth e"
  shows "tszMessageChain cwd es sc cat = Some ts \<longleftrightarrow>
    (\<forall>e \<in> set es. \<not> located e) \<and> list_all (one_category cat) ts \<and> forest 1 ts = map (entry_key cwd sc) es"
proof -
  let ?s0 = "\<lparr>ch_store = [], ch_roots = [], ch_stack = []\<rparr> :: chain_state"
  have inv0: "chain_inv cat [] ?s0" by (auto simp: chain_inv_def intro: numbered.intros)
  note go = chain_go_inv[OF inv0 assms, of cwd sc]
  have res: "\<exists>us. tszMessageChain cwd es sc cat = Some us \<and> list_all (one_category cat) us \<and>
      forest 1 us = map (entry_key cwd sc) es" if "chain_go cwd sc es ?s0 = Some st'" for st'
  proof -
    have "chain_inv cat ([] @ map (entry_key cwd sc) es) st'" using go that by blast
    then obtain us where us: "numbered (ch_store st') cat 0 (ch_roots st') us (length (ch_store st'))"
      "forest 1 us = map (entry_key cwd sc) es" "list_all (one_category cat) us"
      unfolding chain_inv_def append.simps by blast
    have "map (node_tree cat (ch_store st') (length (ch_store st'))) (ch_roots st') = us"
      by (rule num_tree[OF us(1)]) simp
    then show ?thesis using that us by (simp add: tszMessageChain_def)
  qed
  show ?thesis
  proof
    assume c: "tszMessageChain cwd es sc cat = Some ts"
    then obtain st' where st': "chain_go cwd sc es ?s0 = Some st'" by (auto simp: tszMessageChain_def)
    then show "(\<forall>e \<in> set es. \<not> located e) \<and> list_all (one_category cat) ts \<and> forest 1 ts = map (entry_key cwd sc) es"
      using res[OF st'] c go by auto
  next
    assume r: "(\<forall>e \<in> set es. \<not> located e) \<and> list_all (one_category cat) ts \<and> forest 1 ts = map (entry_key cwd sc) es"
    have "map (\<lambda>e. nat (tr_depth e)) es = map fst (forest 1 ts)" using r by (simp add: entry_key_def comp_def)
    then have "no_jump 0 (map (\<lambda>e. nat (tr_depth e)) es)" using no_jump_forest[of ts] by simp
    then obtain st' where st': "chain_go cwd sc es ?s0 = Some st'" using go r by auto
    from res[OF st'] obtain us where "tszMessageChain cwd es sc cat = Some us" "list_all (one_category cat) us"
      "forest 1 us = map (entry_key cwd sc) es" by blast
    then show "tszMessageChain cwd es sc cat = Some ts" using r forest_inject[of cat us ts] by simp
  qed
qed

text \<open>C24: the message chain of TSZ is exact. From entries with positive depths the loop returns a
  forest exactly when no entry is located and the depths are those of a forest, and then it is
  the one forest of the owning category whose preorder lists the depth, text and code of every
  entry; nothing is lost, added or attached elsewhere.\<close>

theorem tszMessageChain_exact:
  assumes "\<forall>e \<in> set es. 1 \<le> tr_depth e"
  shows "tszMessageChain cwd es sc cat = Some ts \<longleftrightarrow>
    (\<forall>e \<in> set es. \<not> located e) \<and> list_all (one_category cat) ts \<and> forest 1 ts = map (entry_key cwd sc) es"
  using assms by (rule chain_iff)

theorem tszMessageChain_exact_witness:
  "tszMessageChain ''/w''
     [\<lparr>tr_file = [], tr_start = 0, tr_length = 0, tr_text = ''a'', tr_code = 1, tr_depth = 1\<rparr>,
      \<lparr>tr_file = [], tr_start = 0, tr_length = 0, tr_text = ''b'', tr_code = 2, tr_depth = 2\<rparr>]
     \<lparr>invocationDirectory = ''/w'', scopeDirectory = ''/w'', forbiddenFile = None\<rparr> Cat_error =
   Some [Msg ''a'' Cat_error ''TS1'' [Msg ''b'' Cat_error ''TS2'' []]]"
proof (subst tszMessageChain_exact)
  let ?sc = "\<lparr>invocationDirectory = ''/w'', scopeDirectory = ''/w'', forbiddenFile = None\<rparr>"
  have t: "normalizeDiagnosticText ''/w'' ''a'' ''/w'' = ''a''" "normalizeDiagnosticText ''/w'' ''b'' ''/w'' = ''b''"
    "ts_code 1 = ''TS1''" "ts_code 2 = ''TS2''" by code_simp+
  show "(\<forall>e \<in> set [\<lparr>tr_file = [], tr_start = 0, tr_length = 0, tr_text = ''a'', tr_code = 1, tr_depth = 1\<rparr>,
      \<lparr>tr_file = [], tr_start = 0, tr_length = 0, tr_text = ''b'', tr_code = 2, tr_depth = 2\<rparr>]. \<not> located e) \<and>
    list_all (one_category Cat_error) [Msg ''a'' Cat_error ''TS1'' [Msg ''b'' Cat_error ''TS2'' []]] \<and>
    forest 1 [Msg ''a'' Cat_error ''TS1'' [Msg ''b'' Cat_error ''TS2'' []]] =
      map (entry_key ''/w'' ?sc)
        [\<lparr>tr_file = [], tr_start = 0, tr_length = 0, tr_text = ''a'', tr_code = 1, tr_depth = 1\<rparr>,
         \<lparr>tr_file = [], tr_start = 0, tr_length = 0, tr_text = ''b'', tr_code = 2, tr_depth = 2\<rparr>]"
    by (simp add: located_def entry_key_def t)
qed simp

end
