(* ===== verification/DiagnosticOrder.thy ===== *)
theory DiagnosticOrder
  imports DiagnosticChain
begin

text \<open>
  The order of the TypeScript diagnostics. The nested comparison is a comparator, elements it
  does not tell apart have the same witness, and so the canonical list does not depend on the
  order in which the API's phases deliver the diagnostics. Witnesses are written as JSON without
  loss, so the removal of repeats and the comparison of two runs compare the witnesses
  themselves.
\<close>

section \<open>The comparison is a comparator\<close>

lemma message_cmp_alt:
  "compareTypeScriptMessage =
     (\<lambda>l r. or_else (str_cmp (td_text l) (td_text r))
       (or_else (num_cmp (td_code l) (td_code r))
         (or_else (num_cmp (td_category l) (td_category r))
           (list_cmp compareTypeScriptMessage (td_chain l) (td_chain r)))))"
  by (intro ext) (metis compareTypeScriptMessage.simps ts_diag.collapse)

lemma message_cmp_at: "cmp_at compareTypeScriptMessage d"
proof (induction d)
  case (TsDiag f p e c cat t chain related)
  let ?d = "TsDiag f p e c cat t chain related"
  have l: "cmp_at (\<lambda>l r. list_cmp compareTypeScriptMessage (td_chain l) (td_chain r)) ?d"
    using TsDiag(1) by (intro cmp_at_key[of "list_cmp compareTypeScriptMessage" td_chain] cmp_at_list) simp
  show ?case
    by (subst message_cmp_alt) (intro cmp_at_or_else cmp_at_key[OF cmp_at_str] cmp_at_key[OF cmp_at_num] l)
qed

lemma diagnostic_cmp_alt:
  "compareTypeScriptDiagnostic cwd sc =
     (\<lambda>l r. or_else (null_cmp str_cmp (resolved_file cwd sc (td_file l)) (resolved_file cwd sc (td_file r)))
      (or_else (num_cmp (td_pos l) (td_pos r))
       (or_else (num_cmp (td_end l - td_pos l) (td_end r - td_pos r))
        (or_else (num_cmp (td_code l) (td_code r))
         (or_else (str_cmp (td_text l) (td_text r))
          (or_else (list_cmp compareTypeScriptMessage (td_chain l) (td_chain r))
           (or_else (num_cmp (int (length (td_related r))) (int (length (td_related l))))
            (or_else (list_cmp (compareTypeScriptDiagnostic cwd sc) (td_related l) (td_related r))
             (num_cmp (td_category l) (td_category r))))))))))"
  by (intro ext) (metis compareTypeScriptDiagnostic.simps ts_diag.collapse)

lemma diagnostic_cmp_at: "cmp_at (compareTypeScriptDiagnostic cwd sc) d"
proof (induction d)
  case (TsDiag f p e c cat t chain related)
  let ?d = "TsDiag f p e c cat t chain related"
  have n: "cmp_at (\<lambda>l r. num_cmp (g l) (g r)) x" for g :: "ts_diag \<Rightarrow> int" and x
    by (rule cmp_at_key[of num_cmp g, OF cmp_at_num])
  have s: "cmp_at (\<lambda>l r. str_cmp (td_text l) (td_text r)) ?d"
    by (rule cmp_at_key[of str_cmp td_text, OF cmp_at_str])
  have f: "cmp_at (\<lambda>l r. null_cmp str_cmp (resolved_file cwd sc (td_file l)) (resolved_file cwd sc (td_file r))) ?d"
    by (rule cmp_at_key[of "null_cmp str_cmp" "\<lambda>l. resolved_file cwd sc (td_file l)", OF cmp_at_null[OF cmp_at_str]])
  have m: "cmp_at (\<lambda>l r. list_cmp compareTypeScriptMessage (td_chain l) (td_chain r)) ?d"
    by (rule cmp_at_key[of "list_cmp compareTypeScriptMessage" td_chain, OF cmp_at_list[OF message_cmp_at]])
  have r: "cmp_at (\<lambda>l r. list_cmp (compareTypeScriptDiagnostic cwd sc) (td_related l) (td_related r)) ?d"
    using TsDiag(2)
    by (intro cmp_at_key[of "list_cmp (compareTypeScriptDiagnostic cwd sc)" td_related] cmp_at_list) simp
  have fl: "cmp_at (\<lambda>l r. num_cmp (int (length (td_related r))) (int (length (td_related l)))) ?d"
    using n[of "\<lambda>d. int (length (td_related d))"] by (rule cmp_at_flip)
  show ?case
    by (subst diagnostic_cmp_alt) (intro cmp_at_or_else n s f m r fl)
qed

interpretation ts_order: comparator "compareTypeScriptDiagnostic cwd sc" for cwd sc
  by (simp add: comparator_iff diagnostic_cmp_at)

section \<open>Equal for the comparison, equal as witnesses\<close>

lemma list_cmp_zero: "list_cmp c xs ys = 0 \<Longrightarrow> list_all2 (\<lambda>x y. c x y = 0) xs ys"
  by (induction c xs ys rule: list_cmp.induct) (auto simp: Let_def split: if_splits)

lemma or_else_zero: "or_else a b = 0 \<longleftrightarrow> a = 0 \<and> b = 0"
  by (simp add: or_else_def)

lemma num_cmp_zero: "num_cmp a b = 0 \<longleftrightarrow> a = b"
  by (simp add: num_cmp_def)

lemma null_cmp_zero: "null_cmp str_cmp a b = 0 \<longleftrightarrow> a = b"
  by (cases a; cases b) simp_all

lemmas cmp_zero = or_else_zero num_cmp_zero null_cmp_zero str_cmp_zero

lemma map_all_eq:
  "list_all2 P xs ys \<Longrightarrow> (\<And>x y a b. x \<in> set xs \<Longrightarrow> P x y \<Longrightarrow> f x = Some a \<Longrightarrow> g y = Some b \<Longrightarrow> a = b) \<Longrightarrow>
   map_all f xs = Some as \<Longrightarrow> map_all g ys = Some bs \<Longrightarrow> as = bs"
proof (induction arbitrary: as bs rule: list_all2_induct)
  case Nil
  then show ?case by simp
next
  case (Cons x xs y ys)
  obtain a as' where a: "f x = Some a" "map_all f xs = Some as'" "as = a # as'"
    using Cons.prems(2) by (auto split: option.splits)
  obtain b bs' where b: "g y = Some b" "map_all g ys = Some bs'" "bs = b # bs'"
    using Cons.prems(3) by (auto split: option.splits)
  have "a = b" using Cons.hyps(1) Cons.prems(1)[of x y] a(1) b(1) by simp
  moreover have "as' = bs'"
  proof (rule Cons.IH[OF _ a(2) b(2)])
    show "c = d" if "z \<in> set xs" "P z w" "f z = Some c" "g w = Some d" for z w c d
      using Cons.prems(1)[of z w c d] that by simp
  qed
  ultimately show ?case using a(3) b(3) by simp
qed

lemma message_equal:
  "compareTypeScriptMessage l r = 0 \<Longrightarrow> canonicalizeTypeScriptMessage cwd sc ow l = Some a \<Longrightarrow>
   canonicalizeTypeScriptMessage cwd sc ow' r = Some b \<Longrightarrow> a = b"
proof (induction l arbitrary: r a b)
  case (TsDiag f p e c cat t chain related)
  obtain f' p' e' c' cat' t' chain' related' where r: "r = TsDiag f' p' e' c' cat' t' chain' related'" by (cases r)
  have z: "t = t'" "c = c'" "cat = cat'" "list_all2 (\<lambda>x y. compareTypeScriptMessage x y = 0) chain chain'"
    using TsDiag.prems(1) unfolding r by (auto simp: cmp_zero list_cmp_zero)
  obtain ms ct cd where a: "a = Msg (normalizeDiagnosticText cwd t (scopeDirectory sc)) ct cd ms"
    "typeScriptCategory cat = Some ct" "numericCode (JInt c) = Some cd"
    "map_all (canonicalizeTypeScriptMessage cwd sc ow) chain = Some ms"
    using TsDiag.prems(2) by (auto simp: Let_def split: option.splits if_splits)
  obtain ms' ct' cd' where b: "b = Msg (normalizeDiagnosticText cwd t' (scopeDirectory sc)) ct' cd' ms'"
    "typeScriptCategory cat' = Some ct'" "numericCode (JInt c') = Some cd'"
    "map_all (canonicalizeTypeScriptMessage cwd sc ow') chain' = Some ms'"
    using TsDiag.prems(3) unfolding r by (auto simp: Let_def split: option.splits if_splits)
  have "ms = ms'" using z(4) TsDiag.IH(1) a(4) b(4) by (rule map_all_eq)
  then show ?case using a b z by simp
qed

text \<open>A file name that is given is not empty: an empty one would be sorted as the invocation
  directory and reported as no file.\<close>

fun named :: "ts_diag \<Rightarrow> bool" where
  "named (TsDiag f p e c cat t chain related) \<longleftrightarrow> f \<noteq> Some [] \<and> list_all named related"

lemma path_equal:
  "f \<noteq> Some [] \<Longrightarrow> g \<noteq> Some [] \<Longrightarrow> resolved_file cwd sc f = resolved_file cwd sc g \<Longrightarrow>
   normalizeDiagnosticPath cwd f sc = normalizeDiagnosticPath cwd g sc"
  by (cases f; cases g) (simp_all add: resolved_file_def normalizeDiagnosticPath_def)

lemma diagnostic_equal:
  "compareTypeScriptDiagnostic cwd sc l r = 0 \<Longrightarrow> named l \<Longrightarrow> named r \<Longrightarrow>
   canonicalizeTypeScriptDiagnostic cwd sc l = Some a \<Longrightarrow>
   canonicalizeTypeScriptDiagnostic cwd sc r = Some b \<Longrightarrow> a = b"
proof (induction l arbitrary: r a b)
  case (TsDiag f p e c cat t chain related)
  obtain f' p' e' c' cat' t' chain' related' where r: "r = TsDiag f' p' e' c' cat' t' chain' related'" by (cases r)
  have z: "resolved_file cwd sc f = resolved_file cwd sc f'" "p = p'" "e - p = e' - p'" "c = c'" "t = t'"
    "list_all2 (\<lambda>x y. compareTypeScriptMessage x y = 0) chain chain'"
    "list_all2 (\<lambda>x y. compareTypeScriptDiagnostic cwd sc x y = 0) related related'" "cat = cat'"
    using TsDiag.prems(1) unfolding r by (auto simp: cmp_zero list_cmp_zero)
  have path: "normalizeDiagnosticPath cwd f sc = normalizeDiagnosticPath cwd f' sc"
    using TsDiag.prems(2,3) z(1) unfolding r by (intro path_equal) simp_all
  obtain pa ct cd ms ws where a: "normalizeDiagnosticPath cwd f sc = Some pa" "typeScriptCategory cat = Some ct"
    "numericCode (JInt c) = Some cd"
    "map_all (canonicalizeTypeScriptMessage cwd sc \<lparr>lo_path = pa, lo_pos = p, lo_end = e\<rparr>) chain = Some ms"
    "map_all (canonicalizeTypeScriptDiagnostic cwd sc) related = Some ws"
    "a = Wit pa (if pa = None then None else Some p) (if pa = None then None else Some (e - p)) ct cd
       (normalizeDiagnosticText cwd t (scopeDirectory sc)) ms ws"
    using TsDiag.prems(4) by (auto split: option.splits if_splits)
  obtain pa' ct' cd' ms' ws' where b: "normalizeDiagnosticPath cwd f' sc = Some pa'"
    "typeScriptCategory cat' = Some ct'" "numericCode (JInt c') = Some cd'"
    "map_all (canonicalizeTypeScriptMessage cwd sc \<lparr>lo_path = pa', lo_pos = p', lo_end = e'\<rparr>) chain' = Some ms'"
    "map_all (canonicalizeTypeScriptDiagnostic cwd sc) related' = Some ws'"
    "b = Wit pa' (if pa' = None then None else Some p') (if pa' = None then None else Some (e' - p')) ct' cd'
       (normalizeDiagnosticText cwd t' (scopeDirectory sc)) ms' ws'"
    using TsDiag.prems(5) unfolding r by (auto split: option.splits if_splits)
  have "ms = ms'" using z(6) message_equal a(4) b(4) by (rule map_all_eq)
  moreover have "ws = ws'"
  proof (rule map_all_eq[of "\<lambda>x y. compareTypeScriptDiagnostic cwd sc x y = 0 \<and> named y"])
    show "list_all2 (\<lambda>x y. compareTypeScriptDiagnostic cwd sc x y = 0 \<and> named y) related related'"
      using z(7) TsDiag.prems(3) unfolding r by (auto simp: list_all2_conv_all_nth list_all_length)
    show "x' = y'" if "x \<in> set related" "compareTypeScriptDiagnostic cwd sc x y = 0 \<and> named y"
      "canonicalizeTypeScriptDiagnostic cwd sc x = Some x'" "canonicalizeTypeScriptDiagnostic cwd sc y = Some y'"
      for x y x' y'
      using TsDiag.IH(2)[OF that(1), of y x' y'] that TsDiag.prems(2) by (simp add: list_all_iff)
  qed (use a(5) b(5) in simp_all)
  ultimately show ?case using a b z path by simp
qed

section \<open>The canonical list\<close>

definition canonical_witness :: "string \<Rightarrow> scope \<Rightarrow> ts_diag \<Rightarrow> witness" where
  "canonical_witness cwd sc d = the (canonicalizeTypeScriptDiagnostic cwd sc d)"

lemma canonical_list:
  "canonicalizeTypeScriptDiagnostics cwd ds sc =
     (if \<exists>d \<in> set ds. canonicalizeTypeScriptDiagnostic cwd sc d = None then None
      else Some (drop_repeats (map (canonical_witness cwd sc) (sort_by (compareTypeScriptDiagnostic cwd sc) ds))))"
proof (cases "map_all (canonicalizeTypeScriptDiagnostic cwd sc) ds")
  case None
  then show ?thesis by (auto simp: canonicalizeTypeScriptDiagnostics_def map_all_None)
next
  case (Some ws)
  then have m: "map (canonicalizeTypeScriptDiagnostic cwd sc) ds = map Some ws" by (simp add: map_all_Some)
  then have "map (canonical_witness cwd sc) ds = ws"
    by (metis (no_types, lifting) canonical_witness_def list.map_comp list.map_id0 map_eq_conv comp_def id_apply option.sel)
  then have "zip ds ws = map (\<lambda>d. (d, canonical_witness cwd sc d)) ds"
    by (auto simp: zip_map2 zip_same_conv_map)
  then have "map snd (sort_by (\<lambda>l r. compareTypeScriptDiagnostic cwd sc (fst l) (fst r)) (zip ds ws)) =
      map (canonical_witness cwd sc) (sort_by (compareTypeScriptDiagnostic cwd sc) ds)"
    by (simp add: map_sort_by[of _ "\<lambda>d. (d, canonical_witness cwd sc d)" "compareTypeScriptDiagnostic cwd sc"])
  moreover have "\<not> (\<exists>d \<in> set ds. canonicalizeTypeScriptDiagnostic cwd sc d = None)"
    using Some map_all_None[of "canonicalizeTypeScriptDiagnostic cwd sc" ds] by auto
  ultimately show ?thesis using Some by (simp add: canonicalizeTypeScriptDiagnostics_def)
qed

text \<open>The canonical list of diagnostics does not depend on the order in which the compiler's
  phases deliver them: any rearrangement gives the same list, or is rejected alike.\<close>

theorem canonical_order_independent:
  assumes "mset ds = mset ds'" and "\<forall>d \<in> set ds. named d"
  shows "canonicalizeTypeScriptDiagnostics cwd ds sc = canonicalizeTypeScriptDiagnostics cwd ds' sc"
proof (cases "\<exists>d \<in> set ds. canonicalizeTypeScriptDiagnostic cwd sc d = None")
  case True
  then show ?thesis using mset_eq_setD[OF assms(1)] by (simp add: canonical_list)
next
  case False
  have "map (canonical_witness cwd sc) (sort_by (compareTypeScriptDiagnostic cwd sc) ds) =
      map (canonical_witness cwd sc) (sort_by (compareTypeScriptDiagnostic cwd sc) ds')"
  proof (rule ts_order.sort_perm_map[OF assms(1)])
    fix x y
    assume xy: "x \<in> set ds" "y \<in> set ds" "compareTypeScriptDiagnostic cwd sc x y = 0"
    obtain a b where "canonicalizeTypeScriptDiagnostic cwd sc x = Some a"
      "canonicalizeTypeScriptDiagnostic cwd sc y = Some b" using False xy(1,2) by (metis not_None_eq)
    then show "canonical_witness cwd sc x = canonical_witness cwd sc y"
      using diagnostic_equal[OF xy(3)] assms(2) xy(1,2) by (simp add: canonical_witness_def)
  qed
  then show ?thesis using False mset_eq_setD[OF assms(1)] by (simp add: canonical_list)
qed

lemma canonical_order_independent_witness:
  "canonicalizeTypeScriptDiagnostics ''/w''
      [TsDiag (Some ''/w/b.ts'') 0 1 5 1 ''y'' [] [], TsDiag (Some ''/w/a.ts'') 3 4 7 1 ''x'' [] []]
      \<lparr>invocationDirectory = ''/w'', scopeDirectory = ''/w'', forbiddenFile = None\<rparr> =
   canonicalizeTypeScriptDiagnostics ''/w''
      [TsDiag (Some ''/w/a.ts'') 3 4 7 1 ''x'' [] [], TsDiag (Some ''/w/b.ts'') 0 1 5 1 ''y'' [] []]
      \<lparr>invocationDirectory = ''/w'', scopeDirectory = ''/w'', forbiddenFile = None\<rparr>"
  by (rule canonical_order_independent) simp_all

section \<open>Witnesses as JSON\<close>

lemma category_text_inject: "category_text a = category_text b \<longleftrightarrow> a = b"
  by (cases a; cases b) (simp_all add: category_text_def)

lemma null_or_inject:
  "(\<And>v. f v \<noteq> JNull) \<Longrightarrow> (\<And>v w. f v = f w \<Longrightarrow> v = w) \<Longrightarrow> null_or f x = null_or f y \<longleftrightarrow> x = y"
  by (cases x; cases y) (auto simp: null_or_def dest: sym[of JNull])

lemma null_or_inject_at:
  "null_or JStr p = null_or JStr p' \<longleftrightarrow> p = p'" "null_or JInt s = null_or JInt s' \<longleftrightarrow> s = s'"
  by (rule null_or_inject; simp)+

lemma message_value_inject: "message_value m = message_value n \<Longrightarrow> m = n"
proof (induction m arbitrary: n)
  case (Msg t cat c ns)
  obtain t' cat' c' ns' where n: "n = Msg t' cat' c' ns'" by (cases n)
  have "map message_value ns = map message_value ns'" using Msg.prems by (simp add: n)
  then have "ns = ns'" by (rule list.inj_map_strong[rotated]) (use Msg.IH in blast)
  then show ?case using Msg.prems by (simp add: n category_text_inject)
qed

lemma witness_value_inject: "witness_value v = witness_value w \<Longrightarrow> v = w"
proof (induction v arbitrary: w)
  case (Wit p s l cat c t chain related)
  obtain p' s' l' cat' c' t' chain' related' where w: "w = Wit p' s' l' cat' c' t' chain' related'" by (cases w)
  have "map message_value chain = map message_value chain'" "map witness_value related = map witness_value related'"
    using Wit.prems by (simp_all add: w)
  then have "chain = chain'" "related = related'"
    using list.inj_map_strong[of chain chain' message_value message_value]
      list.inj_map_strong[of related related' witness_value witness_value] message_value_inject Wit.IH
    by blast+
  then show ?case using Wit.prems by (simp add: w category_text_inject null_or_inject_at)
qed

lemma null_or_value: "(\<And>v. json_value (f v) \<and> plain_value (f v)) \<Longrightarrow> json_value (null_or f x) \<and> plain_value (null_or f x)"
  by (cases x) (simp_all add: null_or_def)

lemma message_value_json: "json_value (message_value m) \<and> plain_value (message_value m)"
  by (induction m) (auto simp: list_all_iff nul_def)

lemma witness_value_json: "json_value (witness_value w) \<and> plain_value (witness_value w)"
  by (induction w)
    (auto simp: list_all_iff nul_def message_value_json null_or_value[of JStr] null_or_value[of JInt])

text \<open>Two witnesses have the same JSON exactly when they are the same.\<close>

lemma witness_json_inject: "witness_json v = witness_json w \<longleftrightarrow> v = w"
  unfolding witness_json_def
  using plain_json.render_inject[of "witness_value v" "witness_value w"] witness_value_json witness_value_inject
  by blast

lemma remdups_adj_snoc:
  "remdups_adj (xs @ [x]) = (if xs = [] \<or> last xs \<noteq> x then remdups_adj xs @ [x] else remdups_adj xs)"
  by (induction xs rule: remdups_adj.induct) auto

definition kept :: "witness list \<Rightarrow> nat \<Rightarrow> bool" where
  "kept ws i \<longleftrightarrow> i = 0 \<or> ws ! i \<noteq> ws ! (i - 1)"

lemma drop_repeats_kept: "drop_repeats ws = map ((!) ws) (filter (kept ws) [0..<length ws])"
  by (simp add: drop_repeats_def kept_def[abs_def] witness_json_inject)

lemma kept_append: "i < length ws \<Longrightarrow> kept (ws @ [w]) i = kept ws i"
  by (simp add: kept_def nth_append less_imp_diff_less)

lemma kept_last: "kept (ws @ [w]) (length ws) \<longleftrightarrow> ws = [] \<or> last ws \<noteq> w"
  by (cases ws rule: rev_cases) (auto simp: kept_def nth_append)

lemma drop_repeats_adj: "drop_repeats ws = remdups_adj ws"
proof (induction ws rule: rev_induct)
  case Nil
  then show ?case by (simp add: drop_repeats_def)
next
  case (snoc w ws)
  have f: "filter (kept (ws @ [w])) [0..<length ws] = filter (kept ws) [0..<length ws]"
    by (rule filter_cong) (simp_all add: kept_append)
  have m: "map ((!) (ws @ [w])) (filter (kept ws) [0..<length ws]) = drop_repeats ws"
    unfolding drop_repeats_kept by (rule map_cong) (auto simp: nth_append)
  have "drop_repeats (ws @ [w]) = drop_repeats ws @ (if kept (ws @ [w]) (length ws) then [w] else [])"
    unfolding drop_repeats_kept[of "ws @ [w]"] by (simp add: f m)
  then show ?case using snoc by (simp add: remdups_adj_snoc kept_last)
qed

text \<open>The canonical list keeps the first of every run of equal witnesses and nothing else is
  lost: it is the sorted list of the witnesses without adjacent repeats.\<close>

theorem canonical_list_exact:
  assumes "\<forall>d \<in> set ds. canonicalizeTypeScriptDiagnostic cwd sc d \<noteq> None"
  shows "canonicalizeTypeScriptDiagnostics cwd ds sc =
    Some (remdups_adj (map (canonical_witness cwd sc) (sort_by (compareTypeScriptDiagnostic cwd sc) ds))) \<and>
    sorted_wrt (\<lambda>x y. compareTypeScriptDiagnostic cwd sc x y \<le> 0) (sort_by (compareTypeScriptDiagnostic cwd sc) ds)"
  using assms by (auto simp: canonical_list drop_repeats_adj intro: ts_order.sorted_sort_by)

lemma canonical_list_exact_witness:
  "canonicalizeTypeScriptDiagnostics ''/w'' [TsDiag None 0 0 5 1 ''y'' [] [], TsDiag None 0 0 5 1 ''y'' [] []]
      \<lparr>invocationDirectory = ''/w'', scopeDirectory = ''/w'', forbiddenFile = None\<rparr> =
   Some [Wit None None None Cat_error ''TS5'' ''y'' [] []]"
proof -
  let ?d = "TsDiag None 0 0 5 1 ''y'' [] []"
  let ?sc = "\<lparr>invocationDirectory = ''/w'', scopeDirectory = ''/w'', forbiddenFile = None\<rparr>"
  have c: "canonicalizeTypeScriptDiagnostic ''/w'' ?sc ?d = Some (Wit None None None Cat_error ''TS5'' ''y'' [] [])"
    by code_simp
  have "sort_by (compareTypeScriptDiagnostic ''/w'' ?sc) [?d, ?d] = [?d, ?d]" by code_simp
  then show ?thesis
    using canonical_list_exact[of "[?d, ?d]" "''/w''" ?sc] c by (simp add: canonical_witness_def)
qed

section \<open>Comparing two runs\<close>

lemma obj_get_simp: "obj_get ((k, v) # ob) j = (if j = k then v else obj_get ob j)"
  by (simp add: obj_get_def)

lemma sort_keys_fields:
  assumes "map fst a = map fst b" and "distinct (map fst a)"
  shows "sort_keys (JObj a) = sort_keys (JObj b) \<longleftrightarrow>
    list_all2 (\<lambda>p q. sort_keys (snd p) = sort_keys (snd q)) a b"
proof -
  have l: "length a = length b" using assms(1) by (metis length_map)
  have f: "fst (a ! i) = fst (b ! i)" if "i < length a" for i
    using assms(1) l that by (metis nth_map)
  have g: "obj_get ob (fst (ob ! i)) = snd (ob ! i)" if "i < length ob" "distinct (map fst ob)" for ob i
    using that by (simp add: obj_get_def map_of_eq_Some_iff[THEN iffD2, of ob "fst (ob ! i)" "snd (ob ! i)"])
  have "sort_keys (JObj a) = sort_keys (JObj b) \<longleftrightarrow>
      (\<forall>k \<in> fst ` set a. sort_keys (obj_get a k) = sort_keys (obj_get b k))"
    using assms by (intro sort_keys_obj_iff) (auto simp flip: set_map)
  also have "\<dots> \<longleftrightarrow> (\<forall>i < length a. sort_keys (obj_get a (fst (a ! i))) = sort_keys (obj_get b (fst (a ! i))))"
    unfolding ball_simps(9) by (subst all_set_conv_all_nth) (rule refl)
  also have "\<dots> \<longleftrightarrow> (\<forall>i < length a. sort_keys (snd (a ! i)) = sort_keys (snd (b ! i)))"
    using g[of _ a] g[of _ b] f l assms by auto
  finally show ?thesis using l by (simp add: list_all2_conv_all_nth)
qed

lemma map_sort_keys_inject:
  "(\<And>x y. x \<in> set xs \<Longrightarrow> sort_keys (f x) = sort_keys (f y) \<Longrightarrow> x = y) \<Longrightarrow>
   map (sort_keys \<circ> f) xs = map (sort_keys \<circ> f) ys \<Longrightarrow> xs = ys"
  by (rule list.inj_map_strong[of xs ys "sort_keys \<circ> f" "sort_keys \<circ> f"]) auto

lemma message_sort_inject: "sort_keys (message_value m) = sort_keys (message_value n) \<Longrightarrow> m = n"
proof (induction m arbitrary: n)
  case (Msg t cat c ns)
  obtain t' cat' c' ns' where n: "n = Msg t' cat' c' ns'" by (cases n)
  have e: "t = t'" "category_text cat = category_text cat'" "c = c'"
    "map (sort_keys \<circ> message_value) ns = map (sort_keys \<circ> message_value) ns'"
    using Msg.prems unfolding n message_value.simps by (subst (asm) sort_keys_fields; simp)+
  have "ns = ns'" using Msg.IH e(4) by (rule map_sort_keys_inject) blast
  then show ?case using e by (simp add: n category_text_inject)
qed

lemma sort_null_or: "sort_keys (null_or JStr x) = null_or JStr x" "sort_keys (null_or JInt y) = null_or JInt y"
  by (cases x; simp add: null_or_def) (cases y; simp add: null_or_def)

lemma witness_sort_inject: "sort_keys (witness_value v) = sort_keys (witness_value w) \<Longrightarrow> v = w"
proof (induction v arbitrary: w)
  case (Wit p s l cat c t chain related)
  obtain p' s' l' cat' c' t' chain' related' where w: "w = Wit p' s' l' cat' c' t' chain' related'" by (cases w)
  have e: "null_or JStr p = null_or JStr p'" "null_or JInt s = null_or JInt s'" "null_or JInt l = null_or JInt l'"
    "category_text cat = category_text cat'" "c = c'" "t = t'"
    "map (sort_keys \<circ> message_value) chain = map (sort_keys \<circ> message_value) chain'"
    "map (sort_keys \<circ> witness_value) related = map (sort_keys \<circ> witness_value) related'"
    using Wit.prems unfolding w witness_value.simps by (subst (asm) sort_keys_fields; simp add: sort_null_or)+
  have "chain = chain'" using message_sort_inject e(7) by (rule map_sort_keys_inject) blast
  moreover have "related = related'" using Wit.IH e(8) by (rule map_sort_keys_inject) blast
  ultimately show ?case using e by (simp add: w category_text_inject null_or_inject_at)
qed

text \<open>C7: two runs with an ordinary diagnostic exit compare equal exactly when their exit codes,
  their code lists and their structured diagnostics are equal, order included.\<close>

theorem runs_equal_iff_witnesses:
  assumes "co_exit o1 \<in> {1, 2}" and "co_witnesses o1 = Some (map witness_value ws)"
    and "co_witnesses o2 = Some (map witness_value ws')"
  shows "oc_match (compareCompilerOutcomes o1 o2) \<longleftrightarrow>
    co_exit o1 = co_exit o2 \<and> co_codes o1 = co_codes o2 \<and> ws = ws'"
proof -
  have "diagnosticWitnessDifference (JArr (map witness_value ws)) (JArr (map witness_value ws')) ''diagnostics'' = None \<longleftrightarrow>
      map (sort_keys \<circ> witness_value) ws = map (sort_keys \<circ> witness_value) ws'"
    by (subst difference_None) (simp_all add: list_all_iff witness_value_json)
  also have "\<dots> \<longleftrightarrow> ws = ws'" using map_sort_keys_inject[of ws witness_value ws'] witness_sort_inject by blast
  finally show ?thesis using assms by (auto simp: outcomes_match)
qed

lemma runs_equal_iff_witnesses_witness:
  "\<not> oc_match (compareCompilerOutcomes
     \<lparr>co_exit = 2, co_codes = [''TS5''], co_witnesses = Some (map witness_value [Wit None None None Cat_error ''TS5'' ''y'' [] []])\<rparr>
     \<lparr>co_exit = 2, co_codes = [''TS5''], co_witnesses = Some (map witness_value [Wit None None None Cat_error ''TS5'' ''z'' [] []])\<rparr>)"
  by (subst runs_equal_iff_witnesses[OF _ refl[THEN trans[OF compiler_outcome.select_convs(3)]]
        refl[THEN trans[OF compiler_outcome.select_convs(3)]]]) simp_all

end
