(* ===== verification/BaselineBlob.thy ===== *)
theory BaselineBlob
  imports CanonicalProducts NodePath
begin

text \<open>
  The baseline blob: \<open>scripts/emit/src/build-baseline-blob.ts\<close> concatenates all baselines into
  one file with an index and a manifest, \<open>baseline-blob-reader.ts\<close> slices them out again, and
  \<open>runner.ts\<close> reads a baseline through the blob when there is one. A directory is the list of its
  files in the order of \<open>readdir\<close>, with their bytes; a file of the cache is absent or has a
  text. The hash, \<open>JSON.parse\<close>, the UTF-8 decoder and the clock are arguments. The index is
  taken to be of its declared type, and a name that every object inherits has no entry in it.
\<close>

record blob_files =
  bf_bin :: "string option"
  bf_idx :: "string option"
  bf_meta :: "string option"

type_synonym directory = "(string \<times> string) list"

definition BLOB_FORMAT_VERSION :: int where "BLOB_FORMAT_VERSION = 1"

section \<open>Building\<close>

text \<open>The hash of all names, each followed by a NUL: the updates of one hash object are the hash of
  their concatenation.\<close>

definition hash_input :: "string list \<Rightarrow> string" where
  "hash_input entries = concat (map (\<lambda>name. name @ [nul]) entries)"

definition directoryHash :: "(string \<Rightarrow> string) \<Rightarrow> string list \<Rightarrow> string" where
  "directoryHash sha entries = sha (hash_input entries)"

definition is_baseline :: "string \<Rightarrow> bool" where
  "is_baseline name \<longleftrightarrow> ends_with name ''.js'' \<or> ends_with name ''.d.ts''"

definition listBaselineEntries :: "directory \<Rightarrow> string list" where
  "listBaselineEntries dir = sort_strings (filter is_baseline (map fst dir))"

record build_state =
  bs_index :: "(string \<times> jsval) list"
  bs_chunks :: "string list"
  bs_offset :: nat

definition build_step :: "directory \<Rightarrow> string \<Rightarrow> build_state \<Rightarrow> build_state" where
  "build_step dir name st =
     (let data = the (map_of dir name) in
      \<lparr>bs_index = obj_set name
         (JObj [(''offset'', JInt (int (bs_offset st))), (''length'', JInt (int (length data)))]) (bs_index st),
       bs_chunks = bs_chunks st @ [data],
       bs_offset = bs_offset st + length data\<rparr>)"

text \<open>\<open>JSON.stringify(value, null, 2)\<close> of an object of plain values.\<close>

definition pretty_flat :: "(string \<times> jsval) list \<Rightarrow> string" where
  "pretty_flat ob =
     ''{'' @ [CHR 10] @
     join ('','' @ [CHR 10])
       (map (\<lambda>p. ''  '' @ quote_with json_char (fst p) @ '': '' @ render json_char (snd p)) ob) @
     [CHR 10] @ ''}''"

definition index_value :: "build_state \<Rightarrow> jsval" where
  "index_value st = JObj [(''version'', JInt BLOB_FORMAT_VERSION), (''entries'', JObj (bs_index st))]"

definition meta_value :: "(string \<Rightarrow> string) \<Rightarrow> string \<Rightarrow> string list \<Rightarrow> build_state \<Rightarrow> (string \<times> jsval) list" where
  "meta_value sha now entries st =
     [(''version'', JInt BLOB_FORMAT_VERSION), (''fileCount'', JInt (int (length entries))),
      (''bytes'', JInt (int (bs_offset st))), (''directoryHash'', JStr (directoryHash sha entries)),
      (''builtAt'', JStr now)]"

definition build_run :: "directory \<Rightarrow> build_state" where
  "build_run dir = fold (build_step dir) (listBaselineEntries dir)
     \<lparr>bs_index = [], bs_chunks = [], bs_offset = 0\<rparr>"

definition buildBlob :: "(string \<Rightarrow> string) \<Rightarrow> string \<Rightarrow> directory \<Rightarrow> blob_files" where
  "buildBlob sha now dir =
     (let entries = listBaselineEntries dir; st = build_run dir in
      \<lparr>bf_bin = Some (concat (bs_chunks st)),
       bf_idx = Some (render json_char (index_value st)),
       bf_meta = Some (pretty_flat (meta_value sha now entries st))\<rparr>)"

text \<open>Every failure - no file, no JSON, \<open>null\<close> - ends in the handler.\<close>

definition readBlobMeta :: "(string \<Rightarrow> jsval option) \<Rightarrow> blob_files \<Rightarrow> (string \<times> jsval) list option" where
  "readBlobMeta parse files =
     (case bf_meta files of
        None \<Rightarrow> None
      | Some raw \<Rightarrow>
          (case parse raw of
             Some (JObj ob) \<Rightarrow> if obj_get ob ''version'' = JInt BLOB_FORMAT_VERSION then Some ob else None
           | _ \<Rightarrow> None))"

definition isBlobFresh ::
  "(string \<Rightarrow> string) \<Rightarrow> (string \<Rightarrow> jsval option) \<Rightarrow> directory \<Rightarrow> blob_files \<Rightarrow> bool" where
  "isBlobFresh sha parse dir files =
     (case readBlobMeta parse files of
        None \<Rightarrow> False
      | Some meta \<Rightarrow> obj_get meta ''directoryHash'' = JStr (directoryHash sha (listBaselineEntries dir)))"

datatype blob_exit = Directory_missing | Already_fresh | Built

definition build_main ::
  "(string \<Rightarrow> string) \<Rightarrow> (string \<Rightarrow> jsval option) \<Rightarrow> string \<Rightarrow> directory option \<Rightarrow> blob_files \<Rightarrow>
   blob_exit \<times> blob_files" where
  "build_main sha parse now dir files =
     (case dir of
        None \<Rightarrow> (Directory_missing, files)
      | Some d \<Rightarrow> if isBlobFresh sha parse d files then (Already_fresh, files) else (Built, buildBlob sha now d))"

section \<open>Reading\<close>

record blob_reader =
  br_bin :: string
  br_index :: "(string \<times> jsval) list"

definition tryLoad ::
  "(string \<Rightarrow> string) \<Rightarrow> (string \<Rightarrow> jsval option) \<Rightarrow> directory \<Rightarrow> blob_files \<Rightarrow> blob_reader option" where
  "tryLoad sha parse dir files =
     (if \<not> isBlobFresh sha parse dir files then None
      else
        case (bf_idx files, bf_bin files) of
          (Some raw, Some bin) \<Rightarrow>
            (case parse raw of
               Some (JObj ob) \<Rightarrow>
                 Some \<lparr>br_bin = bin, br_index = (case obj_get ob ''entries'' of JObj es \<Rightarrow> es | _ \<Rightarrow> [])\<rparr>
             | _ \<Rightarrow> None)
        | _ \<Rightarrow> None)"

text \<open>The names that \<open>in\<close> finds on every object.\<close>

definition object_prototype_names :: "string list" where
  "object_prototype_names =
     [''constructor'', ''__defineGetter__'', ''__defineSetter__'', ''hasOwnProperty'',
      ''__lookupGetter__'', ''__lookupSetter__'', ''isPrototypeOf'', ''propertyIsEnumerable'',
      ''toString'', ''valueOf'', ''__proto__'', ''toLocaleString'']"

definition blob_has :: "blob_reader \<Rightarrow> string \<Rightarrow> bool" where
  "blob_has r name \<longleftrightarrow> name \<in> fst ` set (br_index r) \<or> name \<in> set object_prototype_names"

definition entry_field :: "jsval \<Rightarrow> string \<Rightarrow> nat" where
  "entry_field v k = (case v of JObj e \<Rightarrow> (case obj_get e k of JInt n \<Rightarrow> nat n | _ \<Rightarrow> 0) | _ \<Rightarrow> 0)"

definition readBaseline :: "blob_reader \<Rightarrow> string \<Rightarrow> string option" where
  "readBaseline r name =
     (case map_of (br_index r) name of
        None \<Rightarrow> None
      | Some e \<Rightarrow>
          let buf = take (entry_field e ''length'') (drop (entry_field e ''offset'') (br_bin r))
          in if length buf \<noteq> entry_field e ''length'' then None else Some buf)"

definition blob_stats ::
  "(string \<Rightarrow> jsval option) \<Rightarrow> blob_files \<Rightarrow> blob_reader \<Rightarrow> nat \<times> (string \<times> jsval) list option" where
  "blob_stats parse files r = (length (br_index r), readBlobMeta parse files)"

section \<open>The runner's use of the blob\<close>

record blob_env =
  be_blob :: "string option"
  be_no_build :: "string option"

definition openBaselineSource ::
  "(string \<Rightarrow> string) \<Rightarrow> (string \<Rightarrow> jsval option) \<Rightarrow> string \<Rightarrow> blob_env \<Rightarrow> directory \<Rightarrow> blob_files \<Rightarrow>
   blob_reader option \<times> blob_files" where
  "openBaselineSource sha parse now env dir files =
     (if be_blob env \<noteq> Some ''1'' then (None, files)
      else if \<not> isBlobFresh sha parse dir files
      then
        if be_no_build env = Some ''1'' then (None, files)
        else let files' = buildBlob sha now dir in (tryLoad sha parse dir files', files')
      else (tryLoad sha parse dir files, files))"

text \<open>\<open>None\<close> is the rejection of \<open>readFile\<close> for a name that is not in the directory. An empty
  buffer is an object and so counts as found.\<close>

definition readBaselineFile ::
  "(string \<Rightarrow> string) \<Rightarrow> blob_reader option \<Rightarrow> directory \<Rightarrow> string \<Rightarrow> string option" where
  "readBaselineFile utf8 blob dir name =
     (case blob of
        Some r \<Rightarrow>
          (case (if blob_has r name then readBaseline r name else None) of
             Some buf \<Rightarrow> Some (utf8 buf)
           | None \<Rightarrow> map_option utf8 (map_of dir name))
      | None \<Rightarrow> map_option utf8 (map_of dir name))"

section \<open>What was built is what is read\<close>

lemma entries_baseline: "name \<in> set (listBaselineEntries dir) \<longleftrightarrow> name \<in> fst ` set dir \<and> is_baseline name"
  by (auto simp: listBaselineEntries_def)

lemma entries_distinct: "distinct (map fst dir) \<Longrightarrow> distinct (listBaselineEntries dir)"
  by (simp add: listBaselineEntries_def sort_strings_def)

lemma entries_eq_iff:
  assumes "distinct (map fst dir)" and "distinct (map fst dir')"
  shows "listBaselineEntries dir = listBaselineEntries dir' \<longleftrightarrow>
    {n \<in> fst ` set dir. is_baseline n} = {n \<in> fst ` set dir'. is_baseline n}"
proof
  have s: "{n \<in> fst ` set d. is_baseline n} = set (filter is_baseline (map fst d))" for d :: directory by auto
  assume "{n \<in> fst ` set dir. is_baseline n} = {n \<in> fst ` set dir'. is_baseline n}"
  then have "mset (filter is_baseline (map fst dir)) = mset (filter is_baseline (map fst dir'))"
    unfolding s using assms by (subst set_eq_iff_mset_eq_distinct[symmetric]) simp_all
  then show "listBaselineEntries dir = listBaselineEntries dir'"
    unfolding listBaselineEntries_def by (rule sort_strings_perm)
next
  have s: "{n \<in> fst ` set d. is_baseline n} = set (listBaselineEntries d)" for d :: directory
    by (auto simp: listBaselineEntries_def)
  show "listBaselineEntries dir = listBaselineEntries dir' \<Longrightarrow>
    {n \<in> fst ` set dir. is_baseline n} = {n \<in> fst ` set dir'. is_baseline n}" by (simp only: s)
qed

lemma baseline_not_inherited: "is_baseline name \<Longrightarrow> name \<notin> set object_prototype_names"
  by (auto simp: object_prototype_names_def is_baseline_def ends_with_def)

definition entry_at :: "nat \<Rightarrow> string \<Rightarrow> jsval" where
  "entry_at offset data = JObj [(''offset'', JInt (int offset)), (''length'', JInt (int (length data)))]"

text \<open>The state after the names \<open>ns\<close>: every one of them has an entry that points at its bytes.\<close>

definition stored :: "directory \<Rightarrow> build_state \<Rightarrow> string \<Rightarrow> bool" where
  "stored dir st n \<longleftrightarrow>
     (\<exists>k. map_of (bs_index st) n = Some (entry_at k (the (map_of dir n))) \<and>
        k + length (the (map_of dir n)) \<le> length (concat (bs_chunks st)) \<and>
        take (length (the (map_of dir n))) (drop k (concat (bs_chunks st))) = the (map_of dir n))"

definition build_inv :: "directory \<Rightarrow> string list \<Rightarrow> build_state \<Rightarrow> bool" where
  "build_inv dir ns st \<longleftrightarrow>
     bs_offset st = length (concat (bs_chunks st)) \<and> fst ` set (bs_index st) = set ns \<and>
     distinct (map fst (bs_index st)) \<and>
     (\<forall>n \<in> set ns. stored dir st n)"

lemma build_inv_step:
  assumes inv: "build_inv dir ns st" and new: "n \<notin> set ns" and ok: "n \<noteq> ''__proto__''"
  shows "build_inv dir (ns @ [n]) (build_step dir n st)"
proof -
  let ?d = "the (map_of dir n)" and ?c = "concat (bs_chunks st)" and ?st' = "build_step dir n st"
  have i: "bs_index ?st' = obj_set n (entry_at (bs_offset st) ?d) (bs_index st)"
    "concat (bs_chunks ?st') = ?c @ ?d" "bs_offset ?st' = bs_offset st + length ?d"
    by (simp_all add: build_step_def Let_def entry_at_def)
  have g: "map_of (bs_index ?st') = (map_of (bs_index st))(n \<mapsto> entry_at (bs_offset st) ?d)"
    unfolding i by (rule obj_set_get[OF ok])
  have "stored dir ?st' m" if m: "m \<in> set (ns @ [n])" for m
  proof (cases "m = n")
    case True
    then show ?thesis using inv
      unfolding stored_def g i(2)
      by (intro exI[of _ "bs_offset st"]) (simp add: build_inv_def del: map_of_eq_Some_iff)
  next
    case False
    then obtain k where "map_of (bs_index st) m = Some (entry_at k (the (map_of dir m)))"
      "k + length (the (map_of dir m)) \<le> length ?c" "take (length (the (map_of dir m))) (drop k ?c) = the (map_of dir m)"
      using inv m by (auto simp: build_inv_def stored_def simp del: map_of_eq_Some_iff)
    then show ?thesis using False
      unfolding stored_def g i(2) by (intro exI[of _ k]) (simp del: map_of_eq_Some_iff)
  qed
  then have all: "\<forall>m \<in> set (ns @ [n]). stored dir ?st' m" by blast
  have "bs_offset ?st' = length (concat (bs_chunks ?st'))" using inv by (simp only: i) (simp add: build_inv_def)
  moreover have "fst ` set (bs_index ?st') = set (ns @ [n])" using inv unfolding i(1) by (subst obj_set_keys[OF ok]) (simp add: build_inv_def)
  moreover have "distinct (map fst (bs_index ?st'))" using inv unfolding i(1) build_inv_def by (intro distinct_obj_set) simp
  ultimately show ?thesis using all unfolding build_inv_def by blast
qed

lemma build_inv_fold:
  "build_inv dir ns st \<Longrightarrow> distinct (ns @ ms) \<Longrightarrow> ''__proto__'' \<notin> set ms \<Longrightarrow>
   build_inv dir (ns @ ms) (fold (build_step dir) ms st)"
proof (induction ms arbitrary: ns st)
  case (Cons m ms)
  have "build_inv dir (ns @ [m]) (build_step dir m st)" using Cons.prems by (intro build_inv_step) auto
  then show ?case using Cons.IH[of "ns @ [m]"] Cons.prems by simp
qed simp

lemma build_run_inv:
  assumes "distinct (map fst dir)"
  shows "build_inv dir (listBaselineEntries dir) (build_run dir)"
proof -
  have "''__proto__'' \<notin> set (listBaselineEntries dir)"
    by (simp add: entries_baseline) (simp add: is_baseline_def ends_with_def)
  then show ?thesis unfolding build_run_def
    using build_inv_fold[of dir "[]" _ "listBaselineEntries dir"] entries_distinct[OF assms] by (simp add: build_inv_def)
qed

text \<open>What was written parses back, as \<open>JSON.parse\<close> promises for the output of
  \<open>JSON.stringify\<close>.\<close>

definition reads_back ::
  "(string \<Rightarrow> string) \<Rightarrow> (string \<Rightarrow> jsval option) \<Rightarrow> string \<Rightarrow> directory \<Rightarrow> bool" where
  "reads_back sha parse now dir \<longleftrightarrow>
     parse (render json_char (index_value (build_run dir))) = Some (index_value (build_run dir)) \<and>
     parse (pretty_flat (meta_value sha now (listBaselineEntries dir) (build_run dir))) =
       Some (JObj (meta_value sha now (listBaselineEntries dir) (build_run dir)))"

lemma built_fresh:
  assumes "reads_back sha parse now dir"
  shows "isBlobFresh sha parse dir' (buildBlob sha now dir) \<longleftrightarrow>
    directoryHash sha (listBaselineEntries dir) = directoryHash sha (listBaselineEntries dir')"
  using assms by (simp add: isBlobFresh_def readBlobMeta_def buildBlob_def Let_def reads_back_def
      meta_value_def obj_get_def)

lemma built_load:
  assumes "reads_back sha parse now dir"
  shows "tryLoad sha parse dir (buildBlob sha now dir) =
    Some \<lparr>br_bin = concat (bs_chunks (build_run dir)), br_index = bs_index (build_run dir)\<rparr>"
  using assms built_fresh[OF assms, of dir]
  by (simp add: tryLoad_def) (simp add: buildBlob_def Let_def reads_back_def index_value_def obj_get_def)

lemma entry_at_field [simp]:
  "entry_field (entry_at k data) ''length'' = length data" "entry_field (entry_at k data) ''offset'' = k"
  by (simp_all add: entry_field_def entry_at_def obj_get_def)

lemma built_read:
  assumes "distinct (map fst dir)" and "name \<in> set (listBaselineEntries dir)"
  shows "readBaseline \<lparr>br_bin = concat (bs_chunks (build_run dir)), br_index = bs_index (build_run dir)\<rparr> name =
    map_of dir name"
proof -
  obtain k where k: "map_of (bs_index (build_run dir)) name = Some (entry_at k (the (map_of dir name)))"
    "take (length (the (map_of dir name))) (drop k (concat (bs_chunks (build_run dir)))) = the (map_of dir name)"
    using build_run_inv[OF assms(1)] assms(2) by (auto simp: build_inv_def stored_def simp del: map_of_eq_Some_iff)
  obtain data where "map_of dir name = Some data"
    using assms(2) by (auto simp: entries_baseline dest!: weak_map_of_SomeI)
  then show ?thesis using k by (simp add: readBaseline_def Let_def)
qed

lemma built_transparent:
  assumes "distinct (map fst dir)" and "reads_back sha parse now dir"
  shows "readBaselineFile utf8 (tryLoad sha parse dir (buildBlob sha now dir)) dir name =
    map_option utf8 (map_of dir name)"
proof (cases "name \<in> set (listBaselineEntries dir)")
  case True
  then have "blob_has \<lparr>br_bin = concat (bs_chunks (build_run dir)), br_index = bs_index (build_run dir)\<rparr> name"
    using build_run_inv[OF assms(1)] by (simp add: blob_has_def build_inv_def)
  then show ?thesis using built_read[OF assms(1) True]
    by (simp add: readBaselineFile_def built_load[OF assms(2)] split: option.splits)
next
  case False
  then have "map_of (bs_index (build_run dir)) name = None"
    using build_run_inv[OF assms(1)] by (simp add: map_of_eq_None_iff build_inv_def)
  then show ?thesis by (simp add: readBaselineFile_def built_load[OF assms(2)] readBaseline_def)
qed


lemma hash_input_inject:
  "list_all nul_free ns \<Longrightarrow> list_all nul_free ms \<Longrightarrow> hash_input ns = hash_input ms \<longleftrightarrow> ns = ms"
proof (induction ns arbitrary: ms)
  case Nil
  then show ?case by (cases ms) (simp_all add: hash_input_def)
next
  case (Cons n ns)
  show ?case
  proof (cases ms)
    case Nil
    then show ?thesis by (simp add: hash_input_def)
  next
    case (Cons m ms')
    have "n @ nul # hash_input ns = m @ nul # hash_input ms' \<longleftrightarrow> n = m \<and> hash_input ns = hash_input ms'"
      using Cons.prems Cons by (intro nul_split_first) simp_all
    then show ?thesis using Cons.prems Cons Cons.IH[of ms'] by (simp add: hash_input_def)
  qed
qed

text \<open>A blob counts as fresh exactly when the directory still has the same baseline names:
  a name added, removed or renamed makes it stale, a change of the bytes alone does not.\<close>

theorem blob_fresh_iff_same_names:
  assumes "distinct (map fst dir)" and "distinct (map fst dir')" and "reads_back sha parse now dir"
    and "list_all nul_free (map fst (dir @ dir'))"
    and "inj_on sha {hash_input (listBaselineEntries dir), hash_input (listBaselineEntries dir')}"
  shows "isBlobFresh sha parse dir' (buildBlob sha now dir) \<longleftrightarrow>
    {n \<in> fst ` set dir. is_baseline n} = {n \<in> fst ` set dir'. is_baseline n}"
proof -
  have nf: "list_all nul_free (listBaselineEntries d)" if "list_all nul_free (map fst d)" for d
    using that by (auto simp: list_all_iff entries_baseline)
  have "isBlobFresh sha parse dir' (buildBlob sha now dir) \<longleftrightarrow>
      hash_input (listBaselineEntries dir) = hash_input (listBaselineEntries dir')"
    unfolding built_fresh[OF assms(3)] directoryHash_def by (rule inj_on_eq_iff[OF assms(5)]) simp_all
  also have "\<dots> \<longleftrightarrow> listBaselineEntries dir = listBaselineEntries dir'"
    by (rule hash_input_inject) (use nf assms(4) in simp_all)
  also have "\<dots> \<longleftrightarrow> {n \<in> fst ` set dir. is_baseline n} = {n \<in> fst ` set dir'. is_baseline n}"
    by (rule entries_eq_iff[OF assms(1,2)])
  finally show ?thesis .
qed

text \<open>A concrete \<open>JSON.parse\<close> for the two texts of a directory with one baseline.\<close>

definition one_file :: directory where "one_file = [(''a.js'', ''x'')]"

definition one_file_parse :: "string \<Rightarrow> jsval option" where
  "one_file_parse t =
     (let st = build_run one_file; meta = meta_value id ''now'' (listBaselineEntries one_file) st in
      if t = render json_char (index_value st) then Some (index_value st)
      else if t = pretty_flat meta then Some (JObj meta) else None)"

lemma one_file_reads: "reads_back id one_file_parse ''now'' one_file"
  by code_simp


theorem blob_fresh_iff_same_names_witness:
  "isBlobFresh id one_file_parse [(''a.js'', ''y''), (''b.txt'', [])] (buildBlob id ''now'' one_file) \<and>
   \<not> isBlobFresh id one_file_parse [(''a.js'', ''x''), (''b.js'', [])] (buildBlob id ''now'' one_file)"
proof -
  have b: "is_baseline ''a.js''" "is_baseline ''b.js''" "\<not> is_baseline ''b.txt''"
    by (simp_all add: is_baseline_def ends_with_def)
  have f: "distinct (map fst one_file)" "list_all nul_free (map fst one_file)"
    by (simp_all add: one_file_def nul_free_def nul_def)
  have n: "nul_free ''a.js''" "nul_free ''b.js''" "nul_free ''b.txt''" by (simp_all add: nul_free_def nul_def)
  have "isBlobFresh id one_file_parse dir (buildBlob id ''now'' one_file) \<longleftrightarrow>
      {n \<in> fst ` set one_file. is_baseline n} = {n \<in> fst ` set dir. is_baseline n}"
    if "distinct (map fst dir)" "list_all nul_free (map fst dir)" for dir
    using that f by (intro blob_fresh_iff_same_names[OF _ _ one_file_reads]) simp_all
  note iff = this
  have s: "{n \<in> fst ` set d. is_baseline n} = set (filter is_baseline (map fst d))" for d :: directory
    by auto
  have 1: "isBlobFresh id one_file_parse [(''a.js'', ''y''), (''b.txt'', [])] (buildBlob id ''now'' one_file)"
    using n b by (subst iff[unfolded s]) (simp_all add: one_file_def)
  have "''b.js'' \<notin> set (filter is_baseline (map fst one_file))" by (simp add: one_file_def)
  moreover have "''b.js'' \<in> set (filter is_baseline (map fst [(''a.js'', ''x''), (''b.js'', [])]))"
    using b by simp
  ultimately have ne: "set (filter is_baseline (map fst one_file)) \<noteq>
      set (filter is_baseline (map fst [(''a.js'', ''x''), (''b.js'', [])]))" by metis
  have "\<not> isBlobFresh id one_file_parse [(''a.js'', ''x''), (''b.js'', [])] (buildBlob id ''now'' one_file)"
    using n ne by (subst iff[unfolded s]) simp_all
  then show ?thesis using 1 by blast
qed

end
