(* ===== verification/ResultEvidence.thy ===== *)
theory ResultEvidence
  imports CanonicalProducts
begin

text \<open>
  The evidence that is kept of every compiler run, \<open>scripts/emit/src/result-evidence.ts\<close>: the
  canonical JSON text, the hashes of the emitted products and the fingerprint of all detail
  rows. The hash function of \<open>node:crypto\<close> is the argument \<open>sha\<close>. The results of a
  transpiler run (\<open>TranspileResult\<close> of \<open>cli-transpiler.ts\<close>) are declared here because this
  module only reads them.
\<close>

record transpile_result =
  jsProducts :: "emit_product list"
  dtsProducts :: "emit_product list"
  tr_outcome :: compiler_outcome

text \<open>What a rejected promise carries: an \<open>Error\<close> with its message, or another value with the
  text that \<open>String\<close> gives for it.\<close>

datatype thrown = Error_thrown string | Other_thrown string

datatype settled = Rejected thrown | Fulfilled transpile_result

definition thrown_text :: "thrown \<Rightarrow> string" where
  "thrown_text t = (case t of Error_thrown m \<Rightarrow> m | Other_thrown s \<Rightarrow> s)"

section \<open>Canonical JSON\<close>

text \<open>\<open>Object.keys(record).sort().map(key => [key, record[key]])\<close>\<close>

definition sorted_entries :: "(string \<times> jsval) list \<Rightarrow> (string \<times> jsval) list" where
  "sorted_entries ob = map (\<lambda>k. (k, obj_get ob k)) (sort_strings (map fst ob))"

text \<open>What \<open>JSON.stringify\<close> reads with the replacer: sorted keys, then \<open>Object.fromEntries\<close>, which
  moves the array indices to the front; an undefined property is left out and an undefined
  element of an array is \<open>null\<close>.\<close>

fun canonical_form :: "jsval \<Rightarrow> jsval" where
  "canonical_form (JArr vs) = JArr (map (\<lambda>v. if v = JUndef then JNull else canonical_form v) vs)"
| "canonical_form (JObj ob) =
     JObj (filter (\<lambda>p. snd p \<noteq> JUndef)
       (from_entries (sorted_entries (map (\<lambda>p. (fst p, canonical_form (snd p))) ob))))"
| "canonical_form v = v"

text \<open>\<open>replace(/[\u007f-\uffff]/g, ...)\<close>\<close>

definition ascii_escape :: "string \<Rightarrow> string" where
  "ascii_escape s = concat (map (\<lambda>c. if 127 \<le> (of_char c :: nat) then unicode_escape c else [c]) s)"

text \<open>\<open>None\<close>: \<open>JSON.stringify(undefined)\<close> is not a string and the call of \<open>replace\<close> throws.\<close>

definition canonicalJson :: "jsval \<Rightarrow> string option" where
  "canonicalJson v =
     (if v = JUndef then None else Some (ascii_escape (render json_char (canonical_form v))))"

section \<open>Products\<close>

record product_evidence =
  pe_path :: string
  pe_byteLength :: nat
  pe_sha256 :: string

definition sha256 :: "(string \<Rightarrow> string) \<Rightarrow> string \<Rightarrow> string" where
  "sha256 sha v = ''sha256:'' @ sha v"

text \<open>The content is a container of bytes, one per character.\<close>

definition evidence_of :: "(string \<Rightarrow> string) \<Rightarrow> emit_product \<Rightarrow> product_evidence" where
  "evidence_of sha p =
     \<lparr>pe_path = p_path p, pe_byteLength = length (p_content p), pe_sha256 = sha256 sha (p_content p)\<rparr>"

definition evidence_key :: "product_evidence \<Rightarrow> string" where
  "evidence_key e = pe_path e @ nul # pe_sha256 e @ nul # show_nat (pe_byteLength e)"

definition productEvidence :: "(string \<Rightarrow> string) \<Rightarrow> emit_product list \<Rightarrow> product_evidence list" where
  "productEvidence sha products =
     sort_by (\<lambda>l r. str_cmp (evidence_key l) (evidence_key r)) (map (evidence_of sha) products)"

section \<open>Invocations\<close>

datatype unavailable_reason = Timeout_reason | Crash_reason

datatype not_run_reason = Unsupported_reason | Not_started

datatype evidence =
    Observed (ev_exit: int) (ev_codes: "string list") (ev_witnesses: "jsval list option")
      (ev_js: "product_evidence list") (ev_dts: "product_evidence list")
  | Unavailable (ev_reason: unavailable_reason) (ev_error: string)
  | Not_run (ev_why: not_run_reason)

definition invocationEvidence :: "(string \<Rightarrow> string) \<Rightarrow> settled \<Rightarrow> evidence" where
  "invocationEvidence sha r =
     (case r of
        Rejected t \<Rightarrow>
          let error = thrown_text t
          in Unavailable (if starts_with error ''TIMEOUT:'' then Timeout_reason else Crash_reason) error
      | Fulfilled res \<Rightarrow>
          Observed (co_exit (tr_outcome res)) (co_codes (tr_outcome res)) (co_witnesses (tr_outcome res))
            (productEvidence sha (jsProducts res)) (productEvidence sha (dtsProducts res)))"

section \<open>The fingerprint of the detail rows\<close>

definition or_null :: "jsval \<Rightarrow> jsval" where
  "or_null v = (if v = JUndef then JNull else v)"

definition row_fields :: "string list" where
  "row_fields =
     [''artifactState'', ''baselineFile'', ''dtsError'', ''dtsMatch'', ''dtsProductError'',
      ''dtsProductMatch'', ''dtsSelected'', ''dtsStatus'', ''jsError'', ''jsMatch'', ''jsProductError'',
      ''jsProductMatch'', ''jsSelected'', ''jsStatus'', ''name'', ''oracleEvidence'', ''outcomeError'',
      ''outcomeMatch'', ''testPath'', ''tszEvidence'']"

definition detail_row :: "(string \<times> jsval) list \<Rightarrow> (string \<times> jsval) list" where
  "detail_row result = map (\<lambda>k. (k, or_null (obj_get result k))) row_fields"

text \<open>The text of a value in a template literal.\<close>

fun template_text :: "jsval \<Rightarrow> string" where
  "template_text JUndef = ''undefined''"
| "template_text JNull = ''null''"
| "template_text (JBool b) = bool_text b"
| "template_text (JInt i) = show_int i"
| "template_text (JFrac s) = s"
| "template_text (JStr s) = s"
| "template_text (JArr vs) =
     join '','' (map (\<lambda>v. if v = JUndef \<or> v = JNull then [] else template_text v) vs)"
| "template_text (JObj ob) = ''[object Object]''"

definition key_part :: "(string \<times> jsval) list \<Rightarrow> string \<Rightarrow> string" where
  "key_part r k = (let v = obj_get r k in if v = JUndef \<or> v = JNull then [] else template_text v)"

definition row_key :: "(string \<times> jsval) list \<Rightarrow> string" where
  "row_key r = key_part r ''name'' @ nul # key_part r ''baselineFile'' @ nul # key_part r ''testPath''"

definition row_cmp :: "(string \<times> jsval) list \<Rightarrow> (string \<times> jsval) list \<Rightarrow> int" where
  "row_cmp l r = str_cmp (row_key l) (row_key r)"

definition detail_rows :: "(string \<times> jsval) list list \<Rightarrow> (string \<times> jsval) list list" where
  "detail_rows results = sort_by row_cmp (map detail_row results)"

definition detailRowsFingerprint :: "(string \<Rightarrow> string) \<Rightarrow> (string \<times> jsval) list list \<Rightarrow> string option" where
  "detailRowsFingerprint sha results =
     map_option (sha256 sha) (canonicalJson (JArr (map JObj (detail_rows results))))"

section \<open>Canonical JSON forgets the order of keys and nothing else\<close>

lemma distinct_keys_mset: "mset a = mset b \<Longrightarrow> distinct (map fst a) \<longleftrightarrow> distinct (map fst b)"
  by (rule mset_eq_imp_distinct_iff) simp

lemma distinct_sorted_keys: "distinct (map fst ob) \<Longrightarrow> distinct (map fst (sort_by key_cmp ob))"
  using distinct_keys_mset[of "sort_by key_cmp ob" ob] by simp

lemma sorted_entries_eq:
  assumes "distinct (map fst ob)"
  shows "sorted_entries ob = sort_by key_cmp ob"
proof -
  have "sort_strings (map fst ob) = map fst (sort_by key_cmp ob)"
    unfolding sort_strings_def by (rule map_sort_by) (simp add: key_cmp_def)
  moreover have "map (\<lambda>p. (fst p, obj_get ob (fst p))) (sort_by key_cmp ob) = sort_by key_cmp ob"
    by (rule map_idI) (use assms in \<open>auto simp: obj_get_def\<close>)
  ultimately show ?thesis by (simp add: sorted_entries_def o_def)
qed

lemma mset_obj_insert [simp]: "mset (obj_insert k v ob) = add_mset (k, v) (mset ob)"
  by (induction k v ob rule: obj_insert.induct) auto

lemma mset_from_entries:
  assumes "distinct (map fst es)"
  shows "mset (from_entries es) = mset es"
proof -
  have "distinct (map fst es) \<Longrightarrow> fst ` set ob \<inter> fst ` set es = {} \<Longrightarrow>
      mset (fold (\<lambda>(k, v). obj_define k v) es ob) = mset ob + mset es" for ob
    by (induction es arbitrary: ob) (auto simp: obj_define_def set_obj_insert)
  from this[of "[]"] show ?thesis using assms by (simp add: from_entries_def)
qed

text \<open>On a JSON value the replacer only moves keys.\<close>

lemma canonical_not_undef: "json_value v \<Longrightarrow> canonical_form v \<noteq> JUndef"
  by (cases v) auto

lemma canonical_obj:
  assumes "json_value (JObj ob)"
  shows "canonical_form (JObj ob) =
    JObj (from_entries (sort_by key_cmp (map (\<lambda>p. (fst p, canonical_form (snd p))) ob)))"
proof -
  let ?m = "map (\<lambda>p. (fst p, canonical_form (snd p))) ob"
  have d: "distinct (map fst ?m)" using assms by (simp add: o_def)
  have ds: "distinct (map fst (sort_by key_cmp ?m))"
    using d by (rule distinct_sorted_keys)
  have "set (from_entries (sort_by key_cmp ?m)) = set ?m"
    using mset_eq_setD[OF mset_from_entries[OF ds]] by simp
  then have "filter (\<lambda>p. snd p \<noteq> JUndef) (from_entries (sort_by key_cmp ?m)) = from_entries (sort_by key_cmp ?m)"
    using assms canonical_not_undef by (auto simp: filter_id_conv list_all_iff)
  then show ?thesis using sorted_entries_eq[OF d] by simp
qed

lemma canonical_arr: "json_value (JArr vs) \<Longrightarrow> canonical_form (JArr vs) = JArr (map canonical_form vs)"
  by (auto simp: list_all_iff)

lemma sort_keys_obj_mset:
  assumes "distinct (map fst a)" and "mset (map (\<lambda>p. (fst p, sort_keys (snd p))) a) =
    mset (map (\<lambda>p. (fst p, sort_keys (snd p))) b)"
  shows "sort_keys (JObj a) = sort_keys (JObj b)"
proof -
  let ?f = "\<lambda>p. (fst p, sort_keys (snd p))"
  have "sort_by key_cmp (map ?f a) = sort_by key_cmp (map ?f b)"
  proof (rule key_order.sort_perm[OF assms(2)])
    show "x \<in> set (map ?f a) \<Longrightarrow> y \<in> set (map ?f a) \<Longrightarrow> key_cmp x y = 0 \<Longrightarrow> x = y" for x y
      using assms(1) by (auto simp: key_cmp_def dest: eq_key_imp_eq_value)
  qed
  then show ?thesis by simp
qed

lemma distinct_mapped: "distinct (map fst ob) \<Longrightarrow> distinct (map fst (map (\<lambda>p. (fst p, f (snd p))) ob))"
  by (simp add: o_def)


lemma canonical_value: "json_value v \<Longrightarrow> json_value (canonical_form v)"
proof (induction v)
  case (JArr vs)
  then show ?case using canonical_arr[OF JArr.prems] by (auto simp: list_all_iff)
next
  case (JObj ob)
  let ?es = "sort_by key_cmp (map (\<lambda>p. (fst p, canonical_form (snd p))) ob)"
  have d: "distinct (map fst ?es)" using JObj.prems by (intro distinct_sorted_keys distinct_mapped) simp
  have m: "mset (from_entries ?es) = mset ?es" by (rule mset_from_entries[OF d])
  have "distinct (map fst (from_entries ?es))" using d distinct_keys_mset[OF m] by simp
  moreover have "\<forall>p \<in> set (from_entries ?es). json_value (snd p)"
    using mset_eq_setD[OF m] JObj by (auto simp: list_all_iff)
  ultimately show ?case unfolding canonical_obj[OF JObj.prems] json_value.simps list_all_iff by blast
qed simp_all

lemma sort_canonical: "json_value v \<Longrightarrow> sort_keys (canonical_form v) = sort_keys v"
proof (induction v)
  case (JArr vs)
  then show ?case using canonical_arr[OF JArr.prems] by (auto simp: list_all_iff)
next
  case (JObj ob)
  let ?f = "\<lambda>p. (fst p, sort_keys (snd p))"
  let ?g = "\<lambda>p. (fst p, canonical_form (snd p))"
  let ?es = "sort_by key_cmp (map ?g ob)"
  have d: "distinct (map fst ?es)" using JObj.prems by (intro distinct_sorted_keys distinct_mapped) simp
  have m: "mset (from_entries ?es) = mset (map ?g ob)" using mset_from_entries[OF d] by simp
  have "mset (map ?f (from_entries ?es)) = mset (map ?f (map ?g ob))" using m by (simp only: mset_map)
  also have "map ?f (map ?g ob) = map ?f ob" using JObj by (auto simp: list_all_iff)
  finally have "mset (map ?f (from_entries ?es)) = mset (map ?f ob)" .
  moreover have "distinct (map fst (from_entries ?es))"
    using d distinct_keys_mset[OF mset_from_entries[OF d]] by simp
  ultimately show ?case unfolding canonical_obj[OF JObj.prems] by (intro sort_keys_obj_mset)
qed simp_all

lemma canonical_sort: "json_value v \<Longrightarrow> canonical_form (sort_keys v) = canonical_form v"
proof (induction v)
  case (JArr vs)
  then have "json_value (JArr (map sort_keys vs))" by (auto simp: list_all_iff sort_keys_value)
  then have "canonical_form (sort_keys (JArr vs)) = JArr (map canonical_form (map sort_keys vs))"
    using canonical_arr by simp
  then show ?case using JArr canonical_arr[OF JArr.prems] by (auto simp: list_all_iff)
next
  case (JObj ob)
  let ?f = "\<lambda>p. (fst p, sort_keys (snd p))"
  let ?g = "\<lambda>p. (fst p, canonical_form (snd p))"
  have "map ?g (sort_by key_cmp (map ?f ob)) = sort_by key_cmp (map ?g (map ?f ob))"
    by (rule map_sort_by[symmetric]) (simp add: key_cmp_def)
  also have "map ?g (map ?f ob) = map ?g ob" using JObj by (auto simp: list_all_iff)
  finally have e: "map ?g (sort_by key_cmp (map ?f ob)) = sort_by key_cmp (map ?g ob)" .
  have "sort_by key_cmp (sort_by key_cmp (map ?g ob)) = sort_by key_cmp (map ?g ob)"
    by (rule key_order.sort_unique[symmetric]) (simp_all add: key_order.sorted_sort_by)
  moreover have v: "json_value (JObj (sort_by key_cmp (map ?f ob)))"
    using sort_keys_value[OF JObj.prems] by simp
  ultimately show ?case unfolding sort_keys.simps canonical_obj[OF v] canonical_obj[OF JObj.prems] e by simp
qed simp_all

lemma canonical_form_iff:
  "json_value v \<Longrightarrow> json_value w \<Longrightarrow> canonical_form v = canonical_form w \<longleftrightarrow> sort_keys v = sort_keys w"
  by (metis canonical_sort sort_canonical)

section \<open>The text is printable ASCII\<close>

lemma ascii_escape_simps [simp]:
  "ascii_escape [] = []" "ascii_escape (s @ t) = ascii_escape s @ ascii_escape t"
  "ascii_escape (c # s) = (if 127 \<le> (of_char c :: nat) then unicode_escape c else [c]) @ ascii_escape s"
  by (simp_all add: ascii_escape_def)

definition printable :: "char \<Rightarrow> bool" where
  "printable c \<longleftrightarrow> 32 \<le> (of_char c :: nat) \<and> (of_char c :: nat) < 127"

lemma ascii_escape_printable: "\<forall>c \<in> set s. printable c \<Longrightarrow> ascii_escape s = s"
  by (induction s) (auto simp: printable_def)

lemma hex_digit_printable: "n < 16 \<Longrightarrow> printable (hex_digit n)"
  by (simp add: hex_digit_def printable_def)

lemma unicode_printable: "\<forall>d \<in> set (unicode_escape c). printable d"
proof -
  have "(of_char c :: nat) div 16 < 16" using of_char_less[of c] by linarith
  then show ?thesis
    by (auto simp: unicode_escape_def Let_def intro!: hex_digit_printable) (simp_all add: printable_def)
qed

lemma json_char_printable:
  assumes "(of_char c :: nat) < 127"
  shows "\<forall>d \<in> set (json_char c). printable d"
  using assms unicode_printable[of c] by (auto simp: json_char_def Let_def printable_def)

lemma ascii_escape_char: "ascii_escape (json_char c) = ascii_char c"
proof (cases "127 \<le> (of_char c :: nat)")
  case True
  then show ?thesis by (simp add: json_char_def ascii_char_def)
next
  case False
  then show ?thesis using ascii_escape_printable[OF json_char_printable[of c]] by (simp add: ascii_char_def)
qed

lemma ascii_char_printable: "\<forall>d \<in> set (ascii_char c). printable d"
  using unicode_printable[of c] json_char_printable[of c] by (simp add: ascii_char_def)

lemma ascii_quote: "ascii_escape (quote_with json_char s) = quote_with ascii_char s"
  by (induction s) (auto simp: quote_with_def ascii_escape_char)

lemma ascii_join: "ascii_escape (join '','' xs) = join '','' (map ascii_escape xs)"
  by (induction "'',''::string" xs rule: join.induct) simp_all

lemma digit_printable: "is_digit c \<Longrightarrow> printable c"
  by (simp add: is_digit_def printable_def Let_def)

lemma num_printable: "num_char c \<Longrightarrow> printable c"
  by (auto simp: num_char_def digit_printable) (simp_all add: printable_def)

lemma ascii_render: "json_value v \<Longrightarrow> ascii_escape (render json_char v) = render ascii_char v"
proof (induction v)
  case (JInt i)
  then show ?case using show_int_num[of i] num_printable by (simp add: ascii_escape_printable)
next
  case (JFrac s)
  then have "\<forall>c \<in> set s. printable c" using num_printable by (auto simp: frac_text_def list_all_iff)
  then show ?case by (simp add: ascii_escape_printable)
next
  case (JArr vs)
  then show ?case by (simp add: ascii_join list_all_iff o_def cong: map_cong)
next
  case (JObj ob)
  have "\<forall>p \<in> set ob. ascii_escape (render json_char (snd p)) = render ascii_char (snd p)"
    using JObj by (auto simp: list_all_iff)
  then show ?case by (simp add: ascii_join o_def ascii_quote cong: map_cong)
qed (simp_all add: bool_text_def ascii_quote)

lemma set_join: "set (join sep xs) \<subseteq> set sep \<union> \<Union> (set ` set xs)"
  by (induction sep xs rule: join.induct) auto

lemma comma_printable: "printable (CHR '','')"
  by (simp add: printable_def)

lemma join_printable: "\<forall>x \<in> set xs. \<forall>c \<in> set x. printable c \<Longrightarrow> \<forall>c \<in> set (join '','' xs). printable c"
  using set_join[of "'',''" xs] comma_printable by auto

lemma quote_printable: "\<forall>c \<in> set (quote_with ascii_char s). printable c"
  using ascii_char_printable by (auto simp: quote_with_def) (simp_all add: printable_def)

lemma punctuation_printable:
  "printable (CHR '':'')" "printable (CHR ''['')" "printable (CHR '']'')" "printable (CHR ''{'')" "printable (CHR ''}'')"
  by (simp_all add: printable_def)

lemma render_printable: "json_value v \<Longrightarrow> \<forall>c \<in> set (render ascii_char v). printable c"
proof (induction v)
  case (JInt i)
  then show ?case using show_int_num[of i] num_printable by simp
next
  case (JFrac s)
  then show ?case using num_printable by (auto simp: frac_text_def list_all_iff)
next
  case (JArr vs)
  then have "\<forall>c \<in> set (join '','' (map (render ascii_char) vs)). printable c"
    by (intro join_printable) (auto simp: list_all_iff)
  then show ?case by (simp add: punctuation_printable)
next
  case (JObj ob)
  then have "\<forall>c \<in> set (join '','' (map (\<lambda>p. quote_with ascii_char (fst p) @ '':'' @ render ascii_char (snd p)) ob)).
      printable c"
    by (intro join_printable) (auto simp: list_all_iff punctuation_printable dest: bspec[OF quote_printable])
  then show ?case by (simp add: punctuation_printable)
qed (simp_all add: bool_text_def quote_printable, simp_all add: printable_def)

lemma canonicalJson_value:
  "json_value v \<Longrightarrow> canonicalJson v = Some (render ascii_char (canonical_form v))"
  using ascii_render[OF canonical_value, of v] by (cases "v = JUndef") (simp_all add: canonicalJson_def)

lemma canonicalJson_eq:
  "json_value v \<Longrightarrow> json_value w \<Longrightarrow> canonicalJson v = canonicalJson w \<longleftrightarrow> sort_keys v = sort_keys w"
  by (simp add: canonicalJson_value ascii_json.render_inject canonical_value canonical_form_iff)

text \<open>C37: the canonical text tells two JSON values apart exactly when they differ in more than the
  order of the keys of objects, and it is printable ASCII.\<close>

theorem canonicalJson_exact:
  assumes "json_value v" and "json_value w"
  shows "(canonicalJson v = canonicalJson w \<longleftrightarrow> sort_keys v = sort_keys w) \<and>
    list_all printable (the (canonicalJson v))"
  using assms render_printable[OF canonical_value, of v]
  by (intro conjI canonicalJson_eq) (simp_all add: canonicalJson_value list_all_iff)

theorem canonicalJson_exact_witness:
  "canonicalJson (JObj [(''b'', JInt 1), (''10'', JStr [CHR 0xE9]), (''9'', JNull)]) =
     canonicalJson (JObj [(''9'', JNull), (''b'', JInt 1), (''10'', JStr [CHR 0xE9])]) \<and>
   canonicalJson (JObj [(''b'', JInt 1)]) \<noteq> canonicalJson (JObj [(''b'', JInt 2)])"
proof -
  have "sort_keys (JObj [(''b'', JInt 1), (''10'', JStr [CHR 0xE9]), (''9'', JNull)]) =
      sort_keys (JObj [(''9'', JNull), (''b'', JInt 1), (''10'', JStr [CHR 0xE9])])"
    by (rule sort_keys_perm) simp_all
  then show ?thesis by (simp add: canonicalJson_exact del: sort_keys.simps) (simp add: canonicalJson_exact)
qed

section \<open>Product evidence\<close>

lemma show_nat_nul_free: "nul_free (show_nat n)"
proof -
  have "\<not> is_digit nul" "nul \<noteq> CHR ''-''" by (simp_all add: is_digit_def nul_def)
  then show ?thesis using show_int_chars[of "int n"] by (auto simp: nul_free_def show_nat_def)
qed

lemma show_nat_inject: "show_nat m = show_nat n \<longleftrightarrow> m = n"
  by (simp add: show_nat_def)

lemma nul_split_last:
  "p @ nul # s = q @ nul # t \<Longrightarrow> nul_free s \<Longrightarrow> nul_free t \<Longrightarrow> p = q \<and> s = t"
  by (auto simp: nul_free_def append_eq_append_conv2 append_eq_Cons_conv Cons_eq_append_conv)

lemma evidence_key_inject:
  assumes "\<And>c. nul_free (sha c)" and "evidence_key (evidence_of sha p) = evidence_key (evidence_of sha q)"
  shows "evidence_of sha p = evidence_of sha q"
proof -
  let ?a = "sha256 sha (p_content p)" and ?b = "sha256 sha (p_content q)"
  let ?m = "show_nat (length (p_content p))" and ?n = "show_nat (length (p_content q))"
  have f: "nul_free ?a" "nul_free ?b" using assms(1) by (simp_all add: sha256_def nul_free_def nul_def)
  have "(p_path p @ nul # ?a) @ nul # ?m = (p_path q @ nul # ?b) @ nul # ?n"
    using assms(2) by (simp add: evidence_key_def evidence_of_def)
  then have 1: "p_path p @ nul # ?a = p_path q @ nul # ?b \<and> ?m = ?n"
    by (rule nul_split_last) (rule show_nat_nul_free)+
  then have "p_path p = p_path q \<and> ?a = ?b" using nul_split_last[OF _ f] by blast
  then show ?thesis using 1 by (simp add: evidence_of_def show_nat_inject)
qed

interpretation evidence_order: comparator "\<lambda>l r. str_cmp (evidence_key l) (evidence_key r)"
  by (simp add: comparator_iff cmp_at_key[OF cmp_at_str])

text \<open>The evidence of a run's products tells two lists of products apart exactly when they
  are not rearrangements of each other: the order in which the compiler wrote its files does not
  matter, every path and every byte does.\<close>

theorem productEvidence_exact:
  assumes "\<forall>c. nul_free (sha c)" and "inj_on sha (p_content ` (set ps \<union> set qs))"
  shows "productEvidence sha ps = productEvidence sha qs \<longleftrightarrow> mset ps = mset qs"
proof
  assume "productEvidence sha ps = productEvidence sha qs"
  then have "mset (map (evidence_of sha) ps) = mset (map (evidence_of sha) qs)"
    unfolding productEvidence_def by (metis mset_sort_by)
  then have e: "image_mset (evidence_of sha) (mset ps) = image_mset (evidence_of sha) (mset qs)"
    by (simp only: mset_map)
  have "x = y" if "x \<in># mset ps" "y \<in># mset qs" "evidence_of sha x = evidence_of sha y" for x y
  proof -
    have "p_content x = p_content y" using that assms(2) by (auto simp: inj_on_def evidence_of_def sha256_def)
    then show ?thesis using that(3) by (simp add: evidence_of_def)
  qed
  then show "mset ps = mset qs" using e by (rule multiset.inj_map_strong)
next
  assume "mset ps = mset qs"
  then show "productEvidence sha ps = productEvidence sha qs" unfolding productEvidence_def
    using evidence_key_inject[of sha] assms(1) by (intro evidence_order.sort_perm) (auto simp: str_cmp_zero)
qed

theorem productEvidence_exact_witness:
  "productEvidence (\<lambda>c. ''h'') [\<lparr>p_path = ''b'', p_content = ''x''\<rparr>, \<lparr>p_path = ''a'', p_content = ''x''\<rparr>] =
     productEvidence (\<lambda>c. ''h'') [\<lparr>p_path = ''a'', p_content = ''x''\<rparr>, \<lparr>p_path = ''b'', p_content = ''x''\<rparr>] \<and>
   productEvidence (\<lambda>c. ''h'') [\<lparr>p_path = ''a'', p_content = ''x''\<rparr>] \<noteq>
     productEvidence (\<lambda>c. ''h'') [\<lparr>p_path = ''a'', p_content = ''x''\<rparr>, \<lparr>p_path = ''a'', p_content = ''x''\<rparr>]"
proof -
  have n: "\<forall>c. nul_free ((\<lambda>c. ''h'') c)" by (simp add: nul_free_def nul_def)
  show ?thesis by (simp add: productEvidence_exact[OF n])
qed

section \<open>The fingerprint\<close>

lemma map_of_sort_keys: "distinct (map fst ob) \<Longrightarrow> map_of (sort_by key_cmp ob) = map_of ob"
  by (rule map_of_inject_set[THEN iffD2]) (simp_all add: distinct_sorted_keys)

lemma obj_get_sort:
  assumes "distinct (map fst ob)"
  shows "obj_get (sort_by key_cmp (map (\<lambda>p. (fst p, sort_keys (snd p))) ob)) k = sort_keys (obj_get ob k)"
proof -
  let ?m = "map (\<lambda>p. (fst p, sort_keys (snd p))) ob"
  have "map_of (sort_by key_cmp ?m) = map_of ?m"
    using map_of_sort_keys[of ?m] assms by (simp add: o_def)
  then show ?thesis by (simp add: obj_get_def map_of_map_snd split: option.splits)
qed

lemma template_sort: "template_text (sort_keys v) = template_text v"
proof (induction v)
  case (JArr vs)
  have u: "sort_keys v = JUndef \<longleftrightarrow> v = JUndef" "sort_keys v = JNull \<longleftrightarrow> v = JNull" for v by (cases v; simp)+
  have "map (\<lambda>v. if v = JUndef \<or> v = JNull then [] else template_text v) (map sort_keys vs) =
      map (\<lambda>v. if v = JUndef \<or> v = JNull then [] else template_text v) vs"
    using JArr by (simp add: u)
  then show ?case by (simp only: sort_keys.simps template_text.simps)
qed simp_all

definition json_row :: "(string \<times> jsval) list \<Rightarrow> bool" where
  "json_row r \<longleftrightarrow> list_all (\<lambda>k. json_value (or_null (obj_get r k))) row_fields"

definition row_identity :: "(string \<times> jsval) list \<Rightarrow> string" where
  "row_identity r = row_key (detail_row r)"

definition row_content :: "(string \<times> jsval) list \<Rightarrow> jsval" where
  "row_content r = sort_keys (JObj (detail_row r))"

lemma detail_row_keys: "map fst (detail_row r) = row_fields"
  by (simp add: detail_row_def o_def)

lemma row_fields_distinct: "distinct row_fields"
  by (simp add: row_fields_def)

lemma detail_row_json: "json_row r \<Longrightarrow> json_value (JObj (detail_row r))"
  using row_fields_distinct by (simp add: detail_row_keys) (simp add: json_row_def detail_row_def list_all_iff)

definition content_key :: "jsval \<Rightarrow> string" where
  "content_key v = (case v of JObj ob \<Rightarrow> row_key ob | _ \<Rightarrow> [])"

lemma row_key_content: "content_key (row_content r) = row_identity r"
proof -
  let ?s = "sort_by key_cmp (map (\<lambda>p. (fst p, sort_keys (snd p))) (detail_row r))"
  have u: "sort_keys v = JUndef \<longleftrightarrow> v = JUndef" "sort_keys v = JNull \<longleftrightarrow> v = JNull" for v by (cases v; simp)+
  have "key_part ?s k = key_part (detail_row r) k" for k
    using obj_get_sort[of "detail_row r" k] row_fields_distinct
    by (simp add: key_part_def detail_row_keys u template_sort Let_def)
  then have "row_key ?s = row_key (detail_row r)" by (simp only: row_key_def)
  then show ?thesis by (simp add: content_key_def row_content_def row_identity_def)
qed

interpretation content_order: comparator "\<lambda>v w. str_cmp (content_key v) (content_key w)"
  by (simp add: comparator_iff cmp_at_key[OF cmp_at_str])

lemma contents_sorted:
  "map (\<lambda>d. sort_keys (JObj d)) (detail_rows rs) =
     sort_by (\<lambda>v w. str_cmp (content_key v) (content_key w)) (map row_content rs)"
proof -
  have "detail_rows rs = map detail_row (sort_by (\<lambda>l r. row_cmp (detail_row l) (detail_row r)) rs)"
    unfolding detail_rows_def by (rule map_sort_by) simp
  moreover have "sort_by (\<lambda>v w. str_cmp (content_key v) (content_key w)) (map row_content rs) =
      map row_content (sort_by (\<lambda>l r. row_cmp (detail_row l) (detail_row r)) rs)"
    by (rule map_sort_by) (simp add: row_key_content row_cmp_def row_identity_def)
  ultimately show ?thesis by (simp add: row_content_def)
qed

definition detail_text :: "(string \<times> jsval) list list \<Rightarrow> string option" where
  "detail_text rs = canonicalJson (JArr (map JObj (detail_rows rs)))"

lemma detail_rows_json:
  assumes "\<forall>r \<in> set rs. json_row r"
  shows "json_value (JArr (map JObj (detail_rows rs)))"
  using assms detail_row_json by (auto simp: detail_rows_def list_all_iff simp del: json_value.simps(4))

lemma detail_text_iff:
  assumes "\<forall>r \<in> set rs. json_row r" and "\<forall>r \<in> set rs'. json_row r" and "distinct (map row_identity rs)"
  shows "detail_text rs = detail_text rs' \<longleftrightarrow> mset (map row_content rs) = mset (map row_content rs')"
proof -
  let ?c = "\<lambda>v w. str_cmp (content_key v) (content_key w)"
  have "detail_text rs = detail_text rs' \<longleftrightarrow>
      sort_keys (JArr (map JObj (detail_rows rs))) = sort_keys (JArr (map JObj (detail_rows rs')))"
    unfolding detail_text_def using canonicalJson_eq[OF detail_rows_json detail_rows_json] assms(1,2) by blast
  also have "\<dots> \<longleftrightarrow> sort_by ?c (map row_content rs) = sort_by ?c (map row_content rs')"
    using contents_sorted[of rs] contents_sorted[of rs'] by (simp add: o_def)
  also have "\<dots> \<longleftrightarrow> mset (map row_content rs) = mset (map row_content rs')"
  proof
    assume "mset (map row_content rs) = mset (map row_content rs')"
    then show "sort_by ?c (map row_content rs) = sort_by ?c (map row_content rs')"
    proof (rule content_order.sort_perm)
      fix x y
      assume "x \<in> set (map row_content rs)" "y \<in> set (map row_content rs)" "?c x y = 0"
      then obtain a b where "a \<in> set rs" "b \<in> set rs" "x = row_content a" "y = row_content b"
        "row_identity a = row_identity b" by (auto simp: row_key_content str_cmp_zero)
      then show "x = y" using assms(3) by (auto simp: distinct_map inj_on_def)
    qed
  qed (metis mset_sort_by)
  finally show ?thesis .
qed

text \<open>The fingerprint of the detail rows does not depend on the order in which the tests
  finished, and it changes whenever any field of any row changes. Rows have distinct identities
  (name, baseline and test path) and the hash tells the two texts apart if they differ.\<close>

theorem detailRowsFingerprint_exact:
  assumes "\<forall>r \<in> set rs \<union> set rs'. json_row r" and "distinct (map row_identity rs)"
    and "inj_on sha {t. Some t \<in> {detail_text rs, detail_text rs'}}"
  shows "detailRowsFingerprint sha rs = detailRowsFingerprint sha rs' \<longleftrightarrow>
    mset (map row_content rs) = mset (map row_content rs')"
proof -
  obtain t t' where t: "detail_text rs = Some t" "detail_text rs' = Some t'"
    using detail_rows_json[of rs] detail_rows_json[of rs'] assms(1)
    by (simp add: detail_text_def canonicalJson_value)
  then have "detailRowsFingerprint sha rs = detailRowsFingerprint sha rs' \<longleftrightarrow> sha t = sha t'"
    by (simp add: detailRowsFingerprint_def flip: detail_text_def) (simp add: sha256_def)
  also have "\<dots> \<longleftrightarrow> t = t'" using assms(3) t by (auto simp: inj_on_def)
  also have "\<dots> \<longleftrightarrow> detail_text rs = detail_text rs'" using t by simp
  finally show ?thesis using detail_text_iff assms(1,2) by simp
qed

theorem detailRowsFingerprint_exact_witness:
  "detailRowsFingerprint id [[(''name'', JStr ''b'')], [(''name'', JStr ''a'')]] =
     detailRowsFingerprint id [[(''name'', JStr ''a'')], [(''name'', JStr ''b'')]]"
proof -
  let ?a = "[(''name'', JStr ''a'')]" and ?b = "[(''name'', JStr ''b'')]"
  have "json_row ?a" "json_row ?b" by (simp_all add: json_row_def row_fields_def or_null_def obj_get_def)
  moreover have "row_identity ?a \<noteq> row_identity ?b" by code_simp
  ultimately show ?thesis
    using detailRowsFingerprint_exact[of "[?b, ?a]" "[?a, ?b]" id] by simp
qed

end
