(* ===== verification/PinnedOracle.thy ===== *)
theory PinnedOracle
  imports ResultEvidence NodePath
begin

text \<open>
  The resolution of the pinned TypeScript 7 oracle, \<open>scripts/emit/src/oracle.ts\<close>: every file of
  the installed packages is checked against the manifest before the binary is used. The machine
  the program runs on is the argument \<open>env\<close>: what a path holds, what \<open>binary --version\<close> prints,
  how a package name resolves, the platform, and the hash and \<open>JSON.parse\<close> of the runtime. A
  JSON document is a dynamic value, as the casts of the program leave it.
\<close>

datatype tree = File string | Directory "(string \<times> tree) list" | Special

record oracle_env =
  oe_read :: "string \<Rightarrow> string option"
  oe_tree :: "string \<Rightarrow> tree option"
  oe_version :: "string \<Rightarrow> string + string"
  oe_resolve :: "string \<Rightarrow> string \<Rightarrow> string + string"
  oe_parse :: "string \<Rightarrow> string + jsval"
  oe_sha :: "string \<Rightarrow> string"
  oe_platform :: string
  oe_arch :: string
  oe_cwd :: string

datatype oracle_error =
    Oracle_missing string
  | Oracle_invalid_json string string
  | Oracle_mismatch string jsval jsval
  | Oracle_version_probe_failed string
  | Oracle_unsupported_platform string
  | Oracle_platform_package_missing string string
  | Oracle_os_excludes string
  | Oracle_cpu_excludes string
  | Oracle_unsupported_entry string
  | Oracle_type_error
  | Oracle_not_a_directory string

definition and_then :: "'e + 'a \<Rightarrow> ('a \<Rightarrow> 'e + 'b) \<Rightarrow> 'e + 'b" where
  "and_then r f = (case r of Inl e \<Rightarrow> Inl e | Inr a \<Rightarrow> f a)"

lemma and_then_simps [simp]: "and_then (Inl e) f = Inl e" "and_then (Inr a) f = f a"
  by (simp_all add: and_then_def)

lemma and_then_Inr: "and_then r f = Inr b \<longleftrightarrow> (\<exists>a. r = Inr a \<and> f a = Inr b)"
  by (cases r) simp_all

section \<open>Hashing\<close>

definition sha256File :: "oracle_env \<Rightarrow> string \<Rightarrow> oracle_error + string" where
  "sha256File env p =
     (case oe_read env p of None \<Rightarrow> Inl (Oracle_missing p) | Some bytes \<Rightarrow> Inr (oe_sha env bytes))"

definition entry_cmp :: "string \<times> 'v \<Rightarrow> string \<times> 'v \<Rightarrow> int" where
  "entry_cmp l r = str_cmp (fst l) (fst r)"

text \<open>What \<open>visit\<close> feeds to the hash for a directory with the relative path \<open>rel\<close>. The entries
  are visited in the order of their names; the result of every entry is computed first here and
  sorted with its name, which the order does not see.\<close>

fun seq_all :: "('e + string) list \<Rightarrow> 'e + string" where
  "seq_all [] = Inr []"
| "seq_all (r # rs) = and_then r (\<lambda>s. and_then (seq_all rs) (\<lambda>t. Inr (s @ t)))"

fun visit_tree :: "string list \<Rightarrow> tree \<Rightarrow> oracle_error + string" where
  "visit_tree rel (File bytes) = Inr (join ''/'' rel @ nul # bytes @ [nul])"
| "visit_tree rel (Directory es) =
     seq_all (map snd (sort_by entry_cmp (map (\<lambda>e. (fst e, visit_tree (rel @ [fst e]) (snd e))) es)))"
| "visit_tree rel Special = Inl (Oracle_unsupported_entry (join ''/'' rel))"

definition sha256Directory :: "oracle_env \<Rightarrow> string \<Rightarrow> oracle_error + string" where
  "sha256Directory env directory =
     (case oe_tree env directory of
        None \<Rightarrow> Inl (Oracle_missing directory)
      | Some (Directory es) \<Rightarrow> and_then (visit_tree [] (Directory es)) (\<lambda>s. Inr (oe_sha env s))
      | Some _ \<Rightarrow> Inl (Oracle_not_a_directory directory))"

section \<open>Checks\<close>

definition readJson :: "oracle_env \<Rightarrow> string \<Rightarrow> oracle_error + jsval" where
  "readJson env p =
     (case oe_read env p of
        None \<Rightarrow> Inl (Oracle_missing p)
      | Some bytes \<Rightarrow>
          (case oe_parse env bytes of Inl e \<Rightarrow> Inl (Oracle_invalid_json p e) | Inr v \<Rightarrow> Inr v))"

text \<open>\<open>===\<close> on two values that come from different documents: objects are never the same.\<close>

definition strict_equal :: "jsval \<Rightarrow> jsval \<Rightarrow> bool" where
  "strict_equal a b = (case a of JArr _ \<Rightarrow> False | JObj _ \<Rightarrow> False | _ \<Rightarrow> a = b)"

definition requireEqual :: "jsval \<Rightarrow> jsval \<Rightarrow> string \<Rightarrow> oracle_error + unit" where
  "requireEqual actual expected label =
     (if strict_equal actual expected then Inr () else Inl (Oracle_mismatch label expected actual))"

text \<open>The property of a value: reading one of \<open>null\<close> or \<open>undefined\<close> throws.\<close>

definition get_field :: "jsval \<Rightarrow> string \<Rightarrow> oracle_error + jsval" where
  "get_field v k =
     (case v of JNull \<Rightarrow> Inl Oracle_type_error | JUndef \<Rightarrow> Inl Oracle_type_error
      | JObj ob \<Rightarrow> Inr (obj_get ob k) | _ \<Rightarrow> Inr JUndef)"

definition require_field :: "jsval \<Rightarrow> string \<Rightarrow> jsval \<Rightarrow> string \<Rightarrow> oracle_error + unit" where
  "require_field v k expected label = and_then (get_field v k) (\<lambda>a. requireEqual a expected label)"

definition is_falsy :: "jsval \<Rightarrow> bool" where
  "is_falsy v \<longleftrightarrow> v = JUndef \<or> v = JNull \<or> v = JBool False \<or> v = JInt 0 \<or> v = JStr []"

text \<open>\<open>!list?.includes(x)\<close>, where a string includes its substrings.\<close>

definition require_included :: "jsval \<Rightarrow> string \<Rightarrow> oracle_error \<Rightarrow> oracle_error + unit" where
  "require_included v x err =
     (case v of
        JUndef \<Rightarrow> Inl err | JNull \<Rightarrow> Inl err
      | JArr vs \<Rightarrow> if JStr x \<in> set vs then Inr () else Inl err
      | JStr s \<Rightarrow> if str_includes s x then Inr () else Inl err
      | _ \<Rightarrow> Inl Oracle_type_error)"

definition verifyOracleExecutable ::
  "oracle_env \<Rightarrow> string \<Rightarrow> jsval \<Rightarrow> jsval \<Rightarrow> oracle_error + string" where
  "verifyOracleExecutable env binaryPath expectedVersionOutput expectedSha256 =
     (if oe_read env binaryPath = None then Inl (Oracle_missing binaryPath)
      else
        case oe_version env binaryPath of
          Inl e \<Rightarrow> Inl (Oracle_version_probe_failed e)
        | Inr out \<Rightarrow>
            and_then (requireEqual (JStr (trim out)) expectedVersionOutput ''binary --version'') (\<lambda>_.
            and_then (sha256File env binaryPath) (\<lambda>h.
            if expectedSha256 \<noteq> JUndef
            then and_then (requireEqual (JStr h) expectedSha256 ''binary sha256'') (\<lambda>_. Inr h)
            else Inr h)))"

section \<open>The pinned oracle\<close>

record pinned_oracle =
  po_binaryPath :: string
  po_provenance :: "(string \<times> jsval) list"

text \<open>The wrapper package under \<open>node_modules\<close>.\<close>

definition wrapper_dir :: "string \<Rightarrow> string" where
  "wrapper_dir root = path_join [path_join [path_join [root, ''scripts''], ''node_modules''], ''typescript'']"

definition verify_wrapper :: "oracle_env \<Rightarrow> string \<Rightarrow> jsval \<Rightarrow> oracle_error + unit" where
  "verify_wrapper env root manifest =
     (let package = path_join [wrapper_dir root, ''package.json''];
          bin = path_join [wrapper_dir root, ''bin'', if oe_platform env = ''win32'' then ''tsc.cmd'' else ''tsc'']
      in and_then (readJson env package) (\<lambda>metadata.
         and_then (require_field metadata ''name'' (JStr ''typescript'') ''wrapper package name'') (\<lambda>_.
         and_then (get_field manifest ''version'') (\<lambda>version.
         and_then (require_field metadata ''version'' version ''wrapper package version'') (\<lambda>_.
         and_then (get_field manifest ''gitHead'') (\<lambda>gitHead.
         and_then (require_field metadata ''gitHead'' gitHead ''wrapper package gitHead'') (\<lambda>_.
         and_then (sha256File env package) (\<lambda>h.
         and_then (get_field manifest ''wrapperPackageJsonSha256'') (\<lambda>pin.
         and_then (requireEqual (JStr h) pin ''wrapper package.json sha256'') (\<lambda>_.
         and_then (sha256File env bin) (\<lambda>h'.
         and_then (get_field manifest ''wrapperBinSha256'') (\<lambda>pin'.
           requireEqual (JStr h') pin' ''wrapper bin sha256'') )))))))))))"

definition verify_platform ::
  "oracle_env \<Rightarrow> string \<Rightarrow> jsval \<Rightarrow> string \<Rightarrow> jsval \<Rightarrow> oracle_error + unit" where
  "verify_platform env package manifest name trusted =
     and_then (readJson env package) (\<lambda>metadata.
     and_then (require_field metadata ''name'' (JStr name) ''platform package name'') (\<lambda>_.
     and_then (get_field manifest ''version'') (\<lambda>version.
     and_then (require_field metadata ''version'' version ''platform package version'') (\<lambda>_.
     and_then (get_field manifest ''gitHead'') (\<lambda>gitHead.
     and_then (require_field metadata ''gitHead'' gitHead ''platform package gitHead'') (\<lambda>_.
     and_then (sha256File env package) (\<lambda>h.
     and_then (get_field trusted ''packageJsonSha256'') (\<lambda>pin.
     and_then (requireEqual (JStr h) pin ''platform package.json sha256'') (\<lambda>_.
     and_then (get_field metadata ''os'') (\<lambda>os.
     and_then (require_included os (oe_platform env) (Oracle_os_excludes (oe_platform env))) (\<lambda>_.
     and_then (get_field metadata ''cpu'') (\<lambda>cpu.
     and_then (require_included cpu (oe_arch env) (Oracle_cpu_excludes (oe_arch env))) (\<lambda>_.
     and_then (sha256Directory env (path_dirname package)) (\<lambda>tree.
     and_then (get_field trusted ''packageTreeSha256'') (\<lambda>pin'.
       requireEqual (JStr tree) pin' ''platform package tree sha256'')))))))))))))))"

definition binary_path :: "oracle_env \<Rightarrow> string \<Rightarrow> string" where
  "binary_path env package =
     path_join [path_dirname package, ''lib'', if oe_platform env = ''win32'' then ''tsc.exe'' else ''tsc'']"

text \<open>The provenance before its fingerprint, in the order of the literal.\<close>

definition provenance_base ::
  "oracle_env \<Rightarrow> string \<Rightarrow> (string \<times> jsval) list \<Rightarrow> (string \<times> jsval) list \<Rightarrow> string \<Rightarrow> string \<Rightarrow> string \<Rightarrow>
   (string \<times> jsval) list" where
  "provenance_base env root manifest trusted name binaryPath h =
     [(''schemaVersion'', JInt 1), (''packageName'', obj_get manifest ''packageName''),
      (''platformPackageName'', JStr name), (''version'', obj_get manifest ''version''),
      (''gitHead'', obj_get manifest ''gitHead''),
      (''wrapperIntegrity'', obj_get manifest ''wrapperIntegrity''),
      (''platformIntegrity'', obj_get trusted ''packageIntegrity''),
      (''wrapperPackageJsonSha256'', obj_get manifest ''wrapperPackageJsonSha256''),
      (''wrapperBinSha256'', obj_get manifest ''wrapperBinSha256''),
      (''platformPackageJsonSha256'', obj_get trusted ''packageJsonSha256''),
      (''platformPackageTreeSha256'', obj_get trusted ''packageTreeSha256''),
      (''binarySha256'', JStr h),
      (''binaryPath'', JStr (path_relative (oe_cwd env) root binaryPath))]"

definition object_of :: "jsval \<Rightarrow> (string \<times> jsval) list" where
  "object_of v = (case v of JObj ob \<Rightarrow> ob | _ \<Rightarrow> [])"

text \<open>\<open>JSON.stringify\<close> of an object of plain values leaves out the undefined ones.\<close>

definition stringify_flat :: "(string \<times> jsval) list \<Rightarrow> string" where
  "stringify_flat ob = render json_char (JObj (filter (\<lambda>p. snd p \<noteq> JUndef) ob))"

definition provenance ::
  "oracle_env \<Rightarrow> string \<Rightarrow> (string \<times> jsval) list \<Rightarrow> (string \<times> jsval) list \<Rightarrow> string \<Rightarrow> string \<Rightarrow> string \<Rightarrow>
   (string \<times> jsval) list" where
  "provenance env root manifest trusted name binaryPath h =
     (let base = provenance_base env root manifest trusted name binaryPath h
      in base @ [(''fingerprint'', JStr (''sha256:'' @ oe_sha env (stringify_flat base)))])"

text \<open>From the resolved platform package to the result.\<close>

definition resolve_platform ::
  "oracle_env \<Rightarrow> string \<Rightarrow> jsval \<Rightarrow> jsval \<Rightarrow> string \<Rightarrow> oracle_error + pinned_oracle" where
  "resolve_platform env root manifest trusted name =
     (case oe_resolve env (path_join [wrapper_dir root, ''package.json'']) (name @ ''/package.json'') of
        Inl e \<Rightarrow> Inl (Oracle_platform_package_missing name e)
      | Inr package \<Rightarrow>
          and_then (verify_platform env package manifest name trusted) (\<lambda>_.
          and_then (verifyOracleExecutable env (binary_path env package)
            (obj_get (object_of manifest) ''versionOutput'') (obj_get (object_of trusted) ''binarySha256'')) (\<lambda>h.
          Inr \<lparr>po_binaryPath = binary_path env package,
               po_provenance = provenance env root (object_of manifest) (object_of trusted) name
                 (binary_path env package) h\<rparr>)))"

definition trusted_platform :: "oracle_env \<Rightarrow> jsval \<Rightarrow> oracle_error + jsval" where
  "trusted_platform env manifest =
     (let suffix = oe_platform env @ ''-'' @ oe_arch env in
      and_then (get_field manifest ''platforms'') (\<lambda>platforms.
      and_then (get_field platforms suffix) (\<lambda>trusted.
      if is_falsy trusted then Inl (Oracle_unsupported_platform suffix) else Inr trusted)))"

definition resolvePinnedOracle :: "oracle_env \<Rightarrow> string \<Rightarrow> oracle_error + pinned_oracle" where
  "resolvePinnedOracle env root =
     and_then (readJson env (path_join [root, ''scripts/emit/oracle-manifest.json''])) (\<lambda>manifest.
     and_then (require_field manifest ''schemaVersion'' (JInt 1) ''manifest schemaVersion'') (\<lambda>_.
     and_then (require_field manifest ''packageName'' (JStr ''typescript'') ''manifest packageName'') (\<lambda>_.
     and_then (verify_wrapper env root manifest) (\<lambda>_.
     and_then (trusted_platform env manifest) (\<lambda>trusted.
       resolve_platform env root manifest trusted
         (template_text (obj_get (object_of manifest) ''platformPackagePrefix'') @
          oe_platform env @ ''-'' @ oe_arch env))))))"

section \<open>What the hash of a directory stands for\<close>

text \<open>The regular files of a tree with their relative paths, in the order of the visit.\<close>

fun tree_files :: "string list \<Rightarrow> tree \<Rightarrow> (string \<times> string) list" where
  "tree_files rel (File bytes) = [(join ''/'' rel, bytes)]"
| "tree_files rel (Directory es) =
     concat (map snd (sort_by entry_cmp (map (\<lambda>e. (fst e, tree_files (rel @ [fst e]) (snd e))) es)))"
| "tree_files rel Special = []"

fun regular :: "tree \<Rightarrow> bool" where
  "regular (File bytes) = True"
| "regular (Directory es) = list_all (\<lambda>e. regular (snd e)) es"
| "regular Special = False"

definition files_text :: "(string \<times> string) list \<Rightarrow> string" where
  "files_text fs = concat (map (\<lambda>f. fst f @ nul # snd f @ [nul]) fs)"

lemma files_text_append [simp]: "files_text (a @ b) = files_text a @ files_text b"
  by (simp add: files_text_def)

lemma seq_all_map: "seq_all (map (\<lambda>p. Inr (f p)) ps) = Inr (concat (map f ps))"
  by (induction ps) simp_all

lemma files_text_concat: "files_text (concat xss) = concat (map files_text xss)"
  by (induction xss) (simp_all add: files_text_def)

lemma visit_regular: "regular t \<Longrightarrow> visit_tree rel t = Inr (files_text (tree_files rel t))"
proof (induction t arbitrary: rel)
  case (Directory es)
  let ?f = "\<lambda>e. (fst e, tree_files (rel @ [fst e]) (snd e))"
  have "map (\<lambda>e. (fst e, visit_tree (rel @ [fst e]) (snd e))) es =
      map (\<lambda>p. (fst p, Inr (files_text (snd p)))) (map ?f es)"
    using Directory by (auto simp: list_all_iff)
  then have "sort_by entry_cmp (map (\<lambda>e. (fst e, visit_tree (rel @ [fst e]) (snd e))) es) =
      map (\<lambda>p. (fst p, Inr (files_text (snd p)))) (sort_by entry_cmp (map ?f es))"
    by (simp only:) (rule map_sort_by, simp add: entry_cmp_def)
  then have "visit_tree rel (Directory es) =
      seq_all (map (\<lambda>p. Inr (files_text (snd p))) (sort_by entry_cmp (map ?f es)))"
    by (simp add: o_def)
  then show ?case by (simp add: seq_all_map files_text_concat o_def)
qed (simp_all add: files_text_def)

lemma files_text_inject:
  "\<forall>f \<in> set fs. nul_free (fst f) \<and> nul_free (snd f) \<Longrightarrow> \<forall>g \<in> set gs. nul_free (fst g) \<and> nul_free (snd g) \<Longrightarrow>
   files_text fs = files_text gs \<longleftrightarrow> fs = gs"
proof (induction fs gs rule: list_induct2')
  case (4 f fs g gs)
  have "files_text (f # fs) = files_text (g # gs) \<longleftrightarrow>
      fst f @ nul # (snd f @ nul # files_text fs) = fst g @ nul # (snd g @ nul # files_text gs)"
    by (simp add: files_text_def)
  also have "\<dots> \<longleftrightarrow> fst f = fst g \<and> snd f @ nul # files_text fs = snd g @ nul # files_text gs"
    using "4.prems" by (intro nul_split_first) simp_all
  also have "\<dots> \<longleftrightarrow> fst f = fst g \<and> snd f = snd g \<and> files_text fs = files_text gs"
    using nul_split_first[of "snd f" "snd g"] "4.prems" by auto
  finally show ?case using 4 by (auto simp: prod_eq_iff)
qed (simp_all add: files_text_def)

text \<open>The hash of a package tree without special entries stands for its regular files, sorted
  by name: on text files it tells two trees apart exactly when a relative path or a byte differs,
  whatever the order of \<open>readdir\<close>.\<close>

theorem sha256Directory_exact:
  assumes "oe_tree env d = Some (Directory es)" and "oe_tree env d' = Some (Directory es')"
    and "regular (Directory es)" and "regular (Directory es')"
    and "\<forall>f \<in> set (tree_files [] (Directory es) @ tree_files [] (Directory es')). nul_free (fst f) \<and> nul_free (snd f)"
    and "inj_on (oe_sha env) {files_text (tree_files [] (Directory es)), files_text (tree_files [] (Directory es'))}"
  shows "sha256Directory env d = sha256Directory env d' \<longleftrightarrow>
    tree_files [] (Directory es) = tree_files [] (Directory es')"
proof -
  have "sha256Directory env d = sha256Directory env d' \<longleftrightarrow>
      oe_sha env (files_text (tree_files [] (Directory es))) = oe_sha env (files_text (tree_files [] (Directory es')))"
    using assms(1,2) visit_regular[OF assms(3)] visit_regular[OF assms(4)]
    by (simp add: sha256Directory_def del: visit_tree.simps tree_files.simps regular.simps)
  also have "\<dots> \<longleftrightarrow> files_text (tree_files [] (Directory es)) = files_text (tree_files [] (Directory es'))"
    by (rule inj_on_eq_iff[OF assms(6)]) simp_all
  also have "\<dots> \<longleftrightarrow> tree_files [] (Directory es) = tree_files [] (Directory es')"
    using assms(5) by (intro files_text_inject) auto
  finally show ?thesis .
qed

text \<open>A small installation, for the witnesses.\<close>

definition demo_manifest :: jsval where
  "demo_manifest = JObj
     [(''schemaVersion'', JInt 1), (''packageName'', JStr ''typescript''),
      (''platformPackagePrefix'', JStr ''@ts/''), (''version'', JStr ''7''), (''versionOutput'', JStr ''Version 7''),
      (''gitHead'', JStr ''abc''), (''wrapperPackageJsonSha256'', JStr ''W''), (''wrapperBinSha256'', JStr ''B''),
      (''platforms'', JObj [(''linux-x64'', JObj [(''packageJsonSha256'', JStr ''P''),
         (''packageTreeSha256'', JStr (''package.json'' @ nul # ''P'' @ [nul])), (''binarySha256'', JStr ''T'')])])]"

definition demo_metadata :: "string \<Rightarrow> jsval" where
  "demo_metadata name = JObj [(''name'', JStr name), (''version'', JStr ''7''), (''gitHead'', JStr ''abc''),
     (''os'', JArr [JStr ''linux'']), (''cpu'', JArr [JStr ''x64''])]"

definition demo_env :: oracle_env where
  "demo_env =
     \<lparr>oe_read = (\<lambda>p. map_of
        [(''/r/scripts/emit/oracle-manifest.json'', ''M''),
         (''/r/scripts/node_modules/typescript/package.json'', ''W''),
         (''/r/scripts/node_modules/typescript/bin/tsc'', ''B''),
         (''/p/package.json'', ''P''), (''/p/lib/tsc'', ''T'')] p),
      oe_tree = (\<lambda>p. map_of
        [(''/p'', Directory [(''package.json'', File ''P'')]),
         (''/x'', Directory [(''b'', File ''2''), (''a'', Directory [(''c'', File ''1'')])]),
         (''/y'', Directory [(''a'', Directory [(''c'', File ''1'')]), (''b'', File ''2'')])] p),
      oe_version = (\<lambda>p. Inr (''Version 7'' @ [CHR 10])),
      oe_resolve = (\<lambda>from_file name. Inr ''/p/package.json''),
      oe_parse = (\<lambda>t. if t = ''M'' then Inr demo_manifest
        else if t = ''W'' then Inr (demo_metadata ''typescript'')
        else if t = ''P'' then Inr (demo_metadata ''@ts/linux-x64'') else Inl ''no JSON''),
      oe_sha = id, oe_platform = ''linux'', oe_arch = ''x64'', oe_cwd = ''/''\<rparr>"

theorem sha256Directory_exact_witness:
  "sha256Directory demo_env ''/x'' = sha256Directory demo_env ''/y''"
proof -
  let ?x = "[(''b'', File ''2''), (''a'', Directory [(''c'', File ''1'')])]"
  let ?y = "[(''a'', Directory [(''c'', File ''1'')]), (''b'', File ''2'')]"
  have t: "oe_tree demo_env ''/x'' = Some (Directory ?x)" "oe_tree demo_env ''/y'' = Some (Directory ?y)"
    by (simp_all add: demo_env_def)
  have "tree_files [] (Directory ?x) = [(''a/c'', ''1''), (''b'', ''2'')]"
    "tree_files [] (Directory ?y) = [(''a/c'', ''1''), (''b'', ''2'')]" by code_simp+
  then show ?thesis
    by (subst sha256Directory_exact[OF t])
      (simp_all add: nul_free_def nul_def demo_env_def del: tree_files.simps)
qed

text \<open>With bytes that contain NUL the text of the files is ambiguous: a file whose bytes go on with
  the name and the bytes of a second file has the hash of the two files, for every hash.\<close>

theorem sha256Directory_collision:
  "visit_tree [] (Directory [(''a'', File (''x'' @ nul # ''b'' @ nul # ''y''))]) =
     visit_tree [] (Directory [(''a'', File ''x''), (''b'', File ''y'')])"
  by (simp add: entry_cmp_def str_cmp_def)

section \<open>A resolved oracle is the pinned one\<close>

lemma requireEqual_text [simp]: "requireEqual (JStr a) b l = Inr u \<longleftrightarrow> b = JStr a"
  by (auto simp: requireEqual_def strict_equal_def)

lemma requireEqual_expected: "requireEqual a (JStr b) l = Inr u \<longleftrightarrow> a = JStr b"
  by (auto simp: requireEqual_def strict_equal_def split: jsval.splits)

lemma requireEqual_int: "requireEqual a (JInt b) l = Inr u \<longleftrightarrow> a = JInt b"
  by (auto simp: requireEqual_def strict_equal_def split: jsval.splits)

lemma get_field_text: "get_field v k = Inr (JStr a) \<longleftrightarrow> (\<exists>ob. v = JObj ob \<and> obj_get ob k = JStr a)"
  by (auto simp: get_field_def split: jsval.splits)

lemma get_field_int: "get_field v k = Inr (JInt a) \<longleftrightarrow> (\<exists>ob. v = JObj ob \<and> obj_get ob k = JInt a)"
  by (auto simp: get_field_def split: jsval.splits)

lemma get_field_obj [simp]: "get_field (JObj ob) k = Inr (obj_get ob k)"
  by (simp add: get_field_def)

text \<open>The pin of a hash holds: the path has bytes and the document names their hash.\<close>

definition pin_holds :: "oracle_env \<Rightarrow> string \<Rightarrow> jsval \<Rightarrow> bool" where
  "pin_holds env p pin \<longleftrightarrow> (\<exists>bytes. oe_read env p = Some bytes \<and> pin = JStr (oe_sha env bytes))"

lemma sha256File_pin: "sha256File env p = Inr h \<Longrightarrow> pin_holds env p (JStr h)"
  by (auto simp: sha256File_def pin_holds_def split: option.splits)

lemma wrapper_verified:
  assumes "verify_wrapper env root (JObj manifest) = Inr u"
  shows "pin_holds env (path_join [wrapper_dir root, ''package.json'']) (obj_get manifest ''wrapperPackageJsonSha256'') \<and>
    pin_holds env (path_join [wrapper_dir root, ''bin'', if oe_platform env = ''win32'' then ''tsc.cmd'' else ''tsc''])
      (obj_get manifest ''wrapperBinSha256'')"
  using assms unfolding verify_wrapper_def Let_def and_then_Inr get_field_obj sum.inject(2)
  by (auto simp del: get_field_obj dest!: sha256File_pin)

lemma platform_verified:
  assumes "verify_platform env package (JObj manifest) name trusted = Inr u"
  shows "\<exists>ob tree. trusted = JObj ob \<and> pin_holds env package (obj_get ob ''packageJsonSha256'') \<and>
    sha256Directory env (path_dirname package) = Inr tree \<and> obj_get ob ''packageTreeSha256'' = JStr tree"
proof -
  obtain h tree where "sha256File env package = Inr h" "get_field trusted ''packageJsonSha256'' = Inr (JStr h)"
    "sha256Directory env (path_dirname package) = Inr tree" "get_field trusted ''packageTreeSha256'' = Inr (JStr tree)"
    using assms unfolding verify_platform_def and_then_Inr requireEqual_text by blast
  then show ?thesis using sha256File_pin[of env package h] by (auto simp: get_field_text)
qed

lemma executable_verified:
  assumes "verifyOracleExecutable env p version pin = Inr h"
  shows "(\<exists>bytes. oe_read env p = Some bytes \<and> h = oe_sha env bytes) \<and> (pin = JUndef \<or> pin = JStr h) \<and>
    (\<exists>out. oe_version env p = Inr out \<and> version = JStr (trim out))"
  using assms unfolding verifyOracleExecutable_def
  by (auto simp: and_then_Inr sha256File_def split: if_splits sum.splits option.splits)

lemma platform_resolved:
  assumes "resolve_platform env root (JObj manifest) trusted name = Inr r"
  shows "\<exists>ob package tree bytes out. trusted = JObj ob \<and> pin_holds env package (obj_get ob ''packageJsonSha256'') \<and>
    sha256Directory env (path_dirname package) = Inr tree \<and> obj_get ob ''packageTreeSha256'' = JStr tree \<and>
    po_binaryPath r = binary_path env package \<and> oe_read env (po_binaryPath r) = Some bytes \<and>
    oe_version env (po_binaryPath r) = Inr out \<and> obj_get manifest ''versionOutput'' = JStr (trim out) \<and>
    obj_get ob ''binarySha256'' \<in> {JUndef, JStr (oe_sha env bytes)} \<and>
    obj_get (po_provenance r) ''binarySha256'' = JStr (oe_sha env bytes)"
proof -
  obtain package h where p: "verify_platform env package (JObj manifest) name trusted = Inr ()"
    "verifyOracleExecutable env (binary_path env package) (obj_get manifest ''versionOutput'')
       (obj_get (object_of trusted) ''binarySha256'') = Inr h"
    "r = \<lparr>po_binaryPath = binary_path env package, po_provenance =
       provenance env root manifest (object_of trusted) name (binary_path env package) h\<rparr>"
    using assms unfolding resolve_platform_def by (auto simp: and_then_Inr object_of_def split: sum.splits)
  obtain ob tree where t: "trusted = JObj ob" "pin_holds env package (obj_get ob ''packageJsonSha256'')"
    "sha256Directory env (path_dirname package) = Inr tree" "obj_get ob ''packageTreeSha256'' = JStr tree"
    using platform_verified[OF p(1)] by blast
  obtain bytes out where e: "oe_read env (binary_path env package) = Some bytes" "h = oe_sha env bytes"
    "obj_get ob ''binarySha256'' = JUndef \<or> obj_get ob ''binarySha256'' = JStr h"
    "oe_version env (binary_path env package) = Inr out" "obj_get manifest ''versionOutput'' = JStr (trim out)"
    using executable_verified[OF p(2)] t(1) by (auto simp: object_of_def)
  have "obj_get (po_provenance r) ''binarySha256'' = JStr h"
    unfolding p(3) pinned_oracle.select_convs provenance_def provenance_base_def Let_def by (simp add: obj_get_def)
  then show ?thesis using t e p(3)
    by (intro exI[of _ ob] exI[of _ package] exI[of _ tree] exI[of _ bytes] exI[of _ out]) auto
qed

lemma trusted_entry:
  assumes "trusted_platform env manifest = Inr (JObj ob)"
  shows "\<exists>m platforms. manifest = JObj m \<and> obj_get m ''platforms'' = JObj platforms \<and>
    obj_get platforms (oe_platform env @ ''-'' @ oe_arch env) = JObj ob"
proof -
  have g: "\<exists>c. v = JObj c \<and> obj_get c k = JObj b" if "get_field v k = Inr (JObj b)" for v k b
    using that by (auto simp: get_field_def split: jsval.splits)
  obtain pl where "get_field manifest ''platforms'' = Inr pl" "get_field pl (oe_platform env @ ''-'' @ oe_arch env) = Inr (JObj ob)"
    using assms unfolding trusted_platform_def Let_def by (auto simp: and_then_Inr split: if_splits)
  then show ?thesis using g by metis
qed



end
