(* ===== verification/BaselineScan.thy ===== *)
theory BaselineScan
  imports JsData
begin

text \<open>
  The first half of \<open>parseBaseline\<close> in \<open>scripts/emit/src/baseline-parser.ts\<close>: the global
  multi-line expressions that find the file markers and the annotations of the compiler, and the
  segments between the markers. Positions are offsets into the text, as in the program.
\<close>

section \<open>Matching at the start of lines\<close>

definition is_terminator :: "char \<Rightarrow> bool" where
  "is_terminator c \<longleftrightarrow> c = CHR 10 \<or> c = CHR 13"

text \<open>All matches of an expression with the flags \<open>gm\<close> that begins with \<open>^\<close>: the search goes on
  behind a match. The matcher gives the length of the match and what it captures.\<close>

function scan_go :: "(string \<Rightarrow> (nat \<times> 'a) option) \<Rightarrow> bool \<Rightarrow> nat \<Rightarrow> string \<Rightarrow> (nat \<times> nat \<times> 'a) list" where
  "scan_go m bol i [] = []"
| "scan_go m bol i (c # s) =
     (case (if bol then m (c # s) else None) of
        Some (len, v) \<Rightarrow>
          if 0 < len
          then (i, len, v) # scan_go m (is_terminator (last (take len (c # s)))) (i + len) (drop len (c # s))
          else scan_go m (is_terminator c) (i + 1) s
      | None \<Rightarrow> scan_go m (is_terminator c) (i + 1) s)"
  by pat_completeness auto

termination by (relation "measure (\<lambda>(m, bol, i, s). length s)") auto

definition scan :: "(string \<Rightarrow> (nat \<times> 'a) option) \<Rightarrow> string \<Rightarrow> (nat \<times> nat \<times> 'a) list" where
  "scan m s = scan_go m True 0 s"

definition slashes :: string where "slashes = ''////''"

definition is_blank :: "char \<Rightarrow> bool" where
  "is_blank c \<longleftrightarrow> is_ws c \<and> \<not> is_terminator c"

text \<open>\<open>/^\/\/\/\/ \[([^\]]+)\](?:[^\S\n\r]*[\/]{4})?/gm\<close>\<close>

definition file_marker :: "string \<Rightarrow> (nat \<times> string) option" where
  "file_marker s =
     (if starts_with s ''//// [''
      then
        let r = drop 6 s; name = takeWhile (\<lambda>c. c \<noteq> CHR '']'') r; r' = drop (length name) r in
        if name = [] \<or> r' = [] then None
        else
          let tail = drop 1 r'; blanks = takeWhile is_blank tail in
          if starts_with (drop (length blanks) tail) slashes
          then Some (7 + length name + length blanks + 4, name)
          else Some (7 + length name, name)
      else None)"

text \<open>\<open>/^!!!! File (\S+) <rest>/gm\<close>: the run of characters that are not white space ends where the
  rest begins with a space.\<close>

definition file_note :: "string \<Rightarrow> string \<Rightarrow> (nat \<times> string) option" where
  "file_note rest s =
     (if starts_with s ''!!!! File ''
      then
        let r = drop 10 s; file = takeWhile (\<lambda>c. \<not> is_ws c) r in
        if file \<noteq> [] \<and> starts_with (drop (length file) r) rest
        then Some (10 + length file + length rest, file)
        else None
      else None)"

definition missing_rest :: string where "missing_rest = '' missing from original emit''"

definition differs_rest :: string where "differs_rest = '' differs from original emit in noCheck emit''"

section \<open>Segments\<close>

record segment =
  sg_name :: string
  sg_markerStart :: nat
  sg_start :: nat
  sg_end :: nat
  sg_missing :: bool
  sg_missingStart :: "nat option"
  sg_differs :: bool
  sg_differsStart :: "nat option"

definition slice :: "string \<Rightarrow> nat \<Rightarrow> nat \<Rightarrow> string" where
  "slice s a b = take (b - a) (drop a s)"

text \<open>\<open>markerFile.split(/[\\/]/).pop()\<close>\<close>

definition base_name :: "string \<Rightarrow> string" where
  "base_name f = rev (takeWhile (\<lambda>c. c \<noteq> CHR ''/'' \<and> c \<noteq> CHR 92) (rev f))"

definition markerFileMatchesSegment :: "string \<Rightarrow> string \<Rightarrow> bool" where
  "markerFileMatchesSegment markerFile segmentName \<longleftrightarrow>
     markerFile = segmentName \<or> base_name markerFile = segmentName"

definition note_before :: "string \<Rightarrow> string \<Rightarrow> string \<Rightarrow> nat \<Rightarrow> nat \<times> string \<Rightarrow> bool" where
  "note_before text wording name markerStart note \<longleftrightarrow>
     (case note of (index, file) \<Rightarrow>
        markerFileMatchesSegment file name \<and> index < markerStart \<and>
        trim (slice text index markerStart) = ''!!!! File '' @ file @ wording)"

definition missing_wording :: string where
  "missing_wording = '' missing from original emit, but present in noCheck emit''"

definition marker_notes :: "string \<Rightarrow> string \<Rightarrow> (nat \<times> string) list" where
  "marker_notes rest text = map (\<lambda>(i, len, f). (i, f)) (scan (file_note rest) text)"

definition make_segment :: "string \<Rightarrow> nat \<times> nat \<times> string \<Rightarrow> segment" where
  "make_segment text mt =
     (case mt of (markerStart, len, name) \<Rightarrow>
        let missing = find (note_before text missing_wording name markerStart) (marker_notes missing_rest text);
            differs = find (note_before text differs_rest name markerStart) (marker_notes differs_rest text)
        in \<lparr>sg_name = name, sg_markerStart = markerStart, sg_start = markerStart + len, sg_end = length text,
            sg_missing = (missing \<noteq> None), sg_missingStart = map_option fst missing,
            sg_differs = (differs \<noteq> None), sg_differsStart = map_option fst differs\<rparr>)"

definition boundary :: "segment \<Rightarrow> nat" where
  "boundary seg =
     (case sg_missingStart seg of Some i \<Rightarrow> i | None \<Rightarrow>
       (case sg_differsStart seg of Some i \<Rightarrow> i | None \<Rightarrow> sg_markerStart seg))"

fun set_ends :: "segment list \<Rightarrow> segment list" where
  "set_ends [] = []"
| "set_ends [x] = [x]"
| "set_ends (x # y # xs) = x\<lparr>sg_end := boundary y\<rparr> # set_ends (y # xs)"

definition find_segments :: "string \<Rightarrow> segment list" where
  "find_segments text = set_ends (map (make_segment text) (scan file_marker text))"

section \<open>The content of a segment\<close>

fun drop_newlines :: "string \<Rightarrow> string" where
  "drop_newlines [] = []"
| "drop_newlines (c # s) =
     (if c = CHR 10 then drop_newlines s
      else if c = CHR 13 then (case s of d # t \<Rightarrow> if d = CHR 10 then drop_newlines t else c # s | [] \<Rightarrow> [c])
      else c # s)"

text \<open>The same at the end, on the reversed text: a line feed and a carriage return before it.\<close>

fun drop_newlines_rev :: "string \<Rightarrow> string" where
  "drop_newlines_rev [] = []"
| "drop_newlines_rev (c # s) =
     (if c = CHR 10
      then (case s of d # t \<Rightarrow> if d = CHR 13 then drop_newlines_rev t else drop_newlines_rev s | [] \<Rightarrow> [])
      else c # s)"

definition trimSegmentBoundaryNewlines :: "string \<Rightarrow> string" where
  "trimSegmentBoundaryNewlines s = rev (drop_newlines_rev (rev (drop_newlines s)))"

definition segmentContent :: "string \<Rightarrow> segment \<Rightarrow> string" where
  "segmentContent text seg = trimSegmentBoundaryNewlines (slice text (sg_start seg) (sg_end seg))"

definition emittedContent :: "string \<Rightarrow> string" where
  "emittedContent c = (if length c = 0 then [] else c @ [CHR 10])"

section \<open>Written segments are found again\<close>

text \<open>A baseline as the compiler's test harness writes it: header lines, the first of them with
  \<open>////\<close> behind it, and lines of text.\<close>

record block =
  bl_name :: string
  bl_final :: bool
  bl_lines :: "string list"

definition lines_text :: "string list \<Rightarrow> string" where
  "lines_text ls = concat (map (\<lambda>l. l @ [CHR 10]) ls)"

definition header_text :: "block \<Rightarrow> string" where
  "header_text b = ''//// ['' @ bl_name b @ '']'' @ (if bl_final b then '' ////'' else [])"

definition block_text :: "block \<Rightarrow> string" where
  "block_text b = header_text b @ [CHR 10] @ lines_text (bl_lines b)"

definition baseline_text :: "block list \<Rightarrow> string" where
  "baseline_text bs = concat (map block_text bs)"

definition plain_line :: "string \<Rightarrow> bool" where
  "plain_line l \<longleftrightarrow> list_all (\<lambda>c. \<not> is_terminator c) l \<and> \<not> starts_with l ''//// ['' \<and> \<not> starts_with l ''!!!! File ''"

definition good_name :: "string \<Rightarrow> bool" where
  "good_name n \<longleftrightarrow> n \<noteq> [] \<and> list_all (\<lambda>c. \<not> is_terminator c \<and> c \<noteq> CHR '']'') n"

definition good_block :: "block \<Rightarrow> bool" where
  "good_block b \<longleftrightarrow> good_name (bl_name b) \<and> list_all plain_line (bl_lines b) \<and>
     (bl_lines b \<noteq> [] \<longrightarrow> hd (bl_lines b) \<noteq> [] \<and> last (bl_lines b) \<noteq> [])"

lemma scan_rest_of_line:
  "list_all (\<lambda>c. \<not> is_terminator c) l \<Longrightarrow>
   scan_go m False i (l @ CHR 10 # r) = scan_go m True (i + length l + 1) r"
  by (induction l arbitrary: i) (simp_all add: is_terminator_def)

lemma scan_line:
  assumes "list_all (\<lambda>c. \<not> is_terminator c) l" and "m (l @ CHR 10 # r) = None"
  shows "scan_go m True i (l @ CHR 10 # r) = scan_go m True (i + length l + 1) r"
proof (cases l)
  case Nil
  then show ?thesis using assms by (simp add: is_terminator_def)
next
  case (Cons c s)
  then show ?thesis using assms scan_rest_of_line[of s m "i + 1" r] by simp
qed

lemma starts_with_line:
  "list_all (\<lambda>c. \<not> is_terminator c) p \<Longrightarrow> starts_with (l @ CHR 10 # r) p \<longleftrightarrow> starts_with l p"
proof (induction p arbitrary: l)
  case (Cons c p)
  then show ?case by (cases l) (auto simp: is_terminator_def)
qed simp

lemma scan_lines:
  "list_all plain_line ls \<Longrightarrow> (\<And>l r. plain_line l \<Longrightarrow> m (l @ CHR 10 # r) = None) \<Longrightarrow>
   scan_go m True i (lines_text ls @ r) = scan_go m True (i + length (lines_text ls)) r"
proof (induction ls arbitrary: i)
  case (Cons l ls)
  have "scan_go m True i (lines_text (l # ls) @ r) = scan_go m True (i + length l + 1) (lines_text ls @ r)"
    using Cons.prems scan_line[of l m "lines_text ls @ r" i] by (simp add: lines_text_def plain_line_def)
  then show ?case using Cons by (simp add: lines_text_def ac_simps)
qed (simp add: lines_text_def)

lemma scan_match:
  "m s = Some (len, v) \<Longrightarrow> 0 < len \<Longrightarrow> s \<noteq> [] \<Longrightarrow>
   scan_go m True i s = (i, len, v) # scan_go m (is_terminator (last (take len s))) (i + len) (drop len s)"
  by (cases s) simp_all

lemma marker_plain: "plain_line l \<Longrightarrow> file_marker (l @ CHR 10 # r) = None"
  by (simp add: plain_line_def file_marker_def starts_with_line is_terminator_def)

lemma note_plain: "plain_line l \<Longrightarrow> file_note rest (l @ CHR 10 # r) = None"
  by (simp add: plain_line_def file_note_def starts_with_line is_terminator_def)

lemma header_plain: "good_name (bl_name b) \<Longrightarrow> list_all (\<lambda>c. \<not> is_terminator c) (header_text b)"
  by (auto simp: header_text_def good_name_def list_all_iff is_terminator_def)

lemma note_header: "good_name (bl_name b) \<Longrightarrow> file_note rest (header_text b @ CHR 10 # r) = None"
  by (simp add: file_note_def header_text_def)

lemma scan_notes:
  "list_all good_block bs \<Longrightarrow> scan_go (file_note rest) True i (baseline_text bs) = []"
proof (induction bs arbitrary: i)
  case (Cons b bs)
  have g: "good_name (bl_name b)" "list_all plain_line (bl_lines b)" using Cons.prems by (simp_all add: good_block_def)
  have "scan_go (file_note rest) True i (baseline_text (b # bs)) =
      scan_go (file_note rest) True (i + length (header_text b) + 1) (lines_text (bl_lines b) @ baseline_text bs)"
    using scan_line[of "header_text b" "file_note rest", OF header_plain[OF g(1)] note_header[OF g(1)]]
    by (simp add: baseline_text_def block_text_def)
  also have "\<dots> = scan_go (file_note rest) True (i + length (header_text b) + 1 + length (lines_text (bl_lines b)))
      (baseline_text bs)"
    using g(2) note_plain by (rule scan_lines)
  finally show ?case using Cons by simp
qed (simp add: baseline_text_def)

lemma no_notes: "list_all good_block bs \<Longrightarrow> marker_notes rest (baseline_text bs) = []"
  by (simp add: marker_notes_def scan_def scan_notes)

lemma marker_header:
  assumes "good_name (bl_name b)"
  shows "file_marker (header_text b @ CHR 10 # r) = Some (length (header_text b), bl_name b)"
proof -
  let ?t = "(if bl_final b then '' ////'' else []) @ CHR 10 # r"
  have n: "takeWhile (\<lambda>c. c \<noteq> CHR '']'') (bl_name b @ CHR '']'' # ?t) = bl_name b"
    using assms by (subst takeWhile_append2) (auto simp: good_name_def list_all_iff)
  have d: "drop 6 (header_text b @ CHR 10 # r) = bl_name b @ CHR '']'' # ?t"
    by (simp add: header_text_def)
  have "takeWhile is_blank ?t = (if bl_final b then '' '' else [])"
    by (simp add: is_blank_def is_ws_def is_terminator_def Let_def)
  then show ?thesis using assms n unfolding file_marker_def d Let_def
    by (simp add: header_text_def slashes_def good_name_def)
qed

text \<open>Where the blocks begin.\<close>

fun block_marks :: "nat \<Rightarrow> block list \<Rightarrow> (nat \<times> nat \<times> string) list" where
  "block_marks i [] = []"
| "block_marks i (b # bs) = (i, length (header_text b), bl_name b) # block_marks (i + length (block_text b)) bs"

lemma scan_markers: "list_all good_block bs \<Longrightarrow> scan_go file_marker True i (baseline_text bs) = block_marks i bs"
proof (induction bs arbitrary: i)
  case (Cons b bs)
  have g: "good_name (bl_name b)" "list_all plain_line (bl_lines b)" using Cons.prems by (simp_all add: good_block_def)
  let ?r = "lines_text (bl_lines b) @ baseline_text bs"
  have e: "baseline_text (b # bs) = header_text b @ CHR 10 # ?r" by (simp add: baseline_text_def block_text_def)
  have ne: "header_text b \<noteq> []" "\<not> is_terminator (last (header_text b))"
    by (simp_all add: header_text_def is_terminator_def)
  have "scan_go file_marker True i (header_text b @ CHR 10 # ?r) =
      (i, length (header_text b), bl_name b) # scan_go file_marker False (i + length (header_text b)) (CHR 10 # ?r)"
    using scan_match[of file_marker, OF marker_header[OF g(1), of ?r], of i] ne by simp
  also have "scan_go file_marker False (i + length (header_text b)) (CHR 10 # ?r) =
      scan_go file_marker True (i + length (header_text b) + 1) ?r"
    by (simp add: is_terminator_def)
  also have "\<dots> = scan_go file_marker True (i + length (header_text b) + 1 + length (lines_text (bl_lines b))) (baseline_text bs)"
    using g(2) marker_plain by (rule scan_lines)
  finally show ?case using Cons by (simp add: e block_text_def ac_simps)
qed (simp add: baseline_text_def)

text \<open>The segments of the blocks: every one ends where the next begins.\<close>

fun block_segments :: "nat \<Rightarrow> block list \<Rightarrow> segment list" where
  "block_segments i [] = []"
| "block_segments i (b # bs) =
     \<lparr>sg_name = bl_name b, sg_markerStart = i, sg_start = i + length (header_text b),
      sg_end = i + length (block_text b), sg_missing = False, sg_missingStart = None,
      sg_differs = False, sg_differsStart = None\<rparr> # block_segments (i + length (block_text b)) bs"

lemma set_ends_marks:
  assumes "marker_notes missing_rest text = []" and "marker_notes differs_rest text = []"
  shows "length text = i + length (baseline_text bs) \<Longrightarrow>
    set_ends (map (make_segment text) (block_marks i bs)) = block_segments i bs"
proof (induction bs arbitrary: i)
  case (Cons b bs)
  have mk: "make_segment text (j, len, n) =
      \<lparr>sg_name = n, sg_markerStart = j, sg_start = j + len, sg_end = length text, sg_missing = False,
       sg_missingStart = None, sg_differs = False, sg_differsStart = None\<rparr>" for j len n
    using assms by (simp add: make_segment_def)
  show ?case
  proof (cases bs)
    case Nil
    then show ?thesis using Cons.prems by (simp add: mk baseline_text_def)
  next
    case (Cons b' bs')
    then show ?thesis using Cons.IH[of "i + length (block_text b)"] Cons.prems
      by (simp add: mk boundary_def baseline_text_def)
  qed
qed simp

lemma block_segments_found:
  assumes "list_all good_block bs"
  shows "find_segments (baseline_text bs) = block_segments 0 bs"
proof -
  have "set_ends (map (make_segment (baseline_text bs)) (block_marks 0 bs)) = block_segments 0 bs"
    by (rule set_ends_marks) (simp_all add: no_notes assms)
  then show ?thesis using scan_markers[OF assms, of 0] by (simp add: find_segments_def scan_def)
qed

lemma drop_newlines_line: "l \<noteq> [] \<Longrightarrow> list_all (\<lambda>c. \<not> is_terminator c) l \<Longrightarrow> drop_newlines (l @ r) = l @ r"
  by (cases l) (auto simp: is_terminator_def)

lemma drop_newlines_rev_line:
  "l \<noteq> [] \<Longrightarrow> list_all (\<lambda>c. \<not> is_terminator c) l \<Longrightarrow> drop_newlines_rev (rev l @ r) = rev l @ r"
  by (cases l rule: rev_cases) (auto simp: is_terminator_def)

lemma lines_join: "ls \<noteq> [] \<Longrightarrow> lines_text ls = join [CHR 10] ls @ [CHR 10]"
  by (induction "[CHR 10]" ls rule: join.induct) (simp_all add: lines_text_def)

lemma block_content:
  assumes "good_block b"
  shows "trimSegmentBoundaryNewlines ([CHR 10] @ lines_text (bl_lines b)) = join [CHR 10] (bl_lines b)"
proof (cases "bl_lines b = []")
  case True
  then show ?thesis by (simp add: trimSegmentBoundaryNewlines_def lines_text_def)
next
  case False
  have plain: "list_all (\<lambda>c. \<not> is_terminator c) l" if "l \<in> set (bl_lines b)" for l
    using assms that by (auto simp: good_block_def list_all_iff plain_line_def)
  obtain l ls where ls: "bl_lines b = l # ls" using False by (cases "bl_lines b") auto
  have l: "l \<noteq> []" "list_all (\<lambda>c. \<not> is_terminator c) l" using assms plain ls by (simp_all add: good_block_def)
  have "drop_newlines ([CHR 10] @ lines_text (bl_lines b)) = lines_text (bl_lines b)"
    using drop_newlines_line[OF l] by (simp add: ls lines_text_def)
  moreover obtain ks k where ks: "bl_lines b = ks @ [k]" using False by (cases "bl_lines b" rule: rev_cases) auto
  have k: "k \<noteq> []" "list_all (\<lambda>c. \<not> is_terminator c) k" using assms plain ks by (simp_all add: good_block_def)
  have "\<exists>p. join [CHR 10] (bl_lines b) = p @ k"
    using lines_join[of "bl_lines b"] False by (simp add: ks lines_text_def) (metis append.assoc)
  then obtain p where p: "join [CHR 10] (bl_lines b) = p @ k" by blast
  have "drop_newlines_rev (rev (lines_text (bl_lines b))) = rev (join [CHR 10] (bl_lines b))"
    using drop_newlines_rev_line[OF k, of "rev p"] k
    by (cases k rule: rev_cases) (auto simp: lines_join[OF False] p is_terminator_def)
  ultimately show ?thesis by (simp add: trimSegmentBoundaryNewlines_def)
qed

lemma segments_content:
  "list_all good_block bs \<Longrightarrow> text = pre @ baseline_text bs \<Longrightarrow> i = length pre \<Longrightarrow>
   map (\<lambda>s. (sg_name s, segmentContent text s)) (block_segments i bs) =
   map (\<lambda>b. (bl_name b, join [CHR 10] (bl_lines b))) bs"
proof (induction bs arbitrary: pre i)
  case (Cons b bs)
  have t: "text = (pre @ block_text b) @ baseline_text bs" using Cons.prems by (simp add: baseline_text_def)
  have "slice text (i + length (header_text b)) (i + length (block_text b)) = [CHR 10] @ lines_text (bl_lines b)"
    using Cons.prems(3) by (simp add: t slice_def block_text_def)
  then have "segmentContent text (hd (block_segments i (b # bs))) = join [CHR 10] (bl_lines b)"
    using block_content Cons.prems(1) by (simp add: segmentContent_def)
  moreover have "map (\<lambda>s. (sg_name s, segmentContent text s)) (block_segments (i + length (block_text b)) bs) =
      map (\<lambda>b. (bl_name b, join [CHR 10] (bl_lines b))) bs"
    using Cons.prems(1,3) by (intro Cons.IH[OF _ t]) simp_all
  ultimately show ?case by simp
qed simp



end
