(* ===== verification/BaselineParser.thy ===== *)
theory BaselineParser
  imports BaselineScan
begin

text \<open>
  The classification of \<open>parseBaseline\<close> in \<open>scripts/emit/src/baseline-parser.ts\<close>: where the
  output section begins, which segments are sources and which are products, and which product is
  preferred. The variables that the loops of the function assign are the fields of a state.
\<close>

section \<open>Names\<close>

definition isDtsLikeOutput :: "string \<Rightarrow> bool" where
  "isDtsLikeOutput n = has_ext [''d.ts'', ''d.mts'', ''d.cts''] n"

definition isTsSourceLike :: "string \<Rightarrow> bool" where
  "isTsSourceLike n \<longleftrightarrow> has_ext [''ts'', ''tsx'', ''mts'', ''cts''] n \<and> \<not> isDtsLikeOutput n"

definition isInputCodeFile :: "string \<Rightarrow> bool" where
  "isInputCodeFile n = has_ext [''ts'', ''tsx'', ''mts'', ''cts'', ''js'', ''jsx'', ''mjs'', ''cjs'', ''d.ts''] n"

definition isAuxiliaryFile :: "string \<Rightarrow> bool" where
  "isAuxiliaryFile n \<longleftrightarrow> ends_with n ''package.json'' \<or> ends_with n ''tsconfig.json''"

definition js_exts :: "string list" where "js_exts = [''js'', ''jsx'', ''mjs'', ''cjs'']"

definition isJsLikeOutput :: "string \<Rightarrow> bool" where
  "isJsLikeOutput n = has_ext js_exts n"

definition toSourceDtsOutputName :: "string \<Rightarrow> string" where
  "toSourceDtsOutputName n =
     (if has_ext [''mts''] n then replace_ext [''mts''] ''.d.mts'' n
      else if has_ext [''cts''] n then replace_ext [''cts''] ''.d.cts'' n
      else replace_ext [''ts'', ''tsx''] ''.d.ts'' n)"

definition toJsOutputBase :: "string \<Rightarrow> string" where
  "toJsOutputBase n = replace_ext js_exts [] n"

definition jsLikeOutputToDts :: "string \<Rightarrow> string" where
  "jsLikeOutputToDts n =
     (let stem = toJsOutputBase n in
      if ends_with n ''.mjs'' then stem @ ''.d.mts''
      else if ends_with n ''.cjs'' then stem @ ''.d.cts'' else stem @ ''.d.ts'')"

definition ts_base :: "string \<Rightarrow> string" where
  "ts_base n = replace_ext [''ts'', ''tsx'', ''mts'', ''cts''] [] n"

definition is_test_path :: "string \<Rightarrow> bool" where
  "is_test_path n = starts_with n ''tests/cases/''"

definition seg_name :: "segment \<Rightarrow> string" where
  "seg_name seg = trim (sg_name seg)"

section \<open>Where the output section begins\<close>

definition last_aux :: "string list \<Rightarrow> int" where
  "last_aux names =
     foldl (\<lambda>lastAux i. let n = names ! i in
       if \<not> is_test_path n \<and> isAuxiliaryFile n then int i else lastAux) (-1) [0..<length names]"

text \<open>A script that an earlier source compiles to.\<close>

definition is_ts_output :: "string list \<Rightarrow> string \<Rightarrow> bool" where
  "is_ts_output seenTs name =
     list_ex (\<lambda>src. \<not> isDtsLikeOutput src \<and>
       name \<in> set (map (\<lambda>e. ts_base src @ CHR ''.'' # e) js_exts)) seenTs"

definition is_js_source_output :: "string list \<Rightarrow> string \<Rightarrow> bool" where
  "is_js_source_output seen name =
     list_ex (\<lambda>s. isJsLikeOutput s \<and> toJsOutputBase s = toJsOutputBase name \<and> s \<noteq> name \<and>
       ext_match js_exts s = Some ''jsx'' \<and> ext_match js_exts name = Some ''js'') seen"

definition is_dts_output :: "string list \<Rightarrow> string \<Rightarrow> bool" where
  "is_dts_output seenTs name =
     list_ex (\<lambda>src. \<not> isDtsLikeOutput src \<and> name = ts_base src @ ''.d.ts'') seenTs"

definition later_ts_source :: "string list \<Rightarrow> bool" where
  "later_ts_source later = list_ex (\<lambda>n. \<not> is_test_path n \<and> isTsSourceLike n) later"

definition later_js_output :: "string list \<Rightarrow> string list \<Rightarrow> string list \<Rightarrow> bool" where
  "later_js_output seen seenTs later =
     list_ex (\<lambda>n. \<not> is_test_path n \<and> isJsLikeOutput n \<and>
       (list_ex (\<lambda>src. \<not> isDtsLikeOutput src \<and> ts_base src = toJsOutputBase n) seenTs \<or>
        is_js_source_output seen n)) later"

text \<open>One turn of the loop: stop at this segment, or go on with or without noting the name.\<close>

datatype verdict = Stop | Pass_over | Note_only | Note_source

definition judge :: "int \<Rightarrow> nat \<Rightarrow> string list \<Rightarrow> string list \<Rightarrow> string \<Rightarrow> string list \<Rightarrow> verdict" where
  "judge lastAux i seen seenTs name later =
     (let stop = (if lastAux \<ge> int i then Pass_over else Stop) in
      if is_test_path name then Pass_over
      else if name = ''out.js'' \<or> name = ''out.d.ts'' then Stop
      else if isAuxiliaryFile name then Pass_over
      else if name \<in> set seen
      then (if lastAux \<ge> int i then Pass_over
            else if isTsSourceLike name \<or> isDtsLikeOutput name then Pass_over else Stop)
      else if isJsLikeOutput name
      then (if is_ts_output seenTs name \<or> is_js_source_output seen name then stop
            else if isTsSourceLike name then Note_source else Note_only)
      else if isDtsLikeOutput name
      then (if is_dts_output seenTs name
            then (if later_ts_source later \<or> later_js_output seen seenTs later then Note_only else stop)
            else if isTsSourceLike name then Note_source else Note_only)
      else if isTsSourceLike name then Note_source else Note_only)"

fun output_start :: "int \<Rightarrow> nat \<Rightarrow> string list \<Rightarrow> string list \<Rightarrow> string list \<Rightarrow> nat" where
  "output_start lastAux i seen seenTs [] = i"
| "output_start lastAux i seen seenTs (name # later) =
     (case judge lastAux i seen seenTs name later of
        Stop \<Rightarrow> i
      | Pass_over \<Rightarrow> output_start lastAux (Suc i) seen seenTs later
      | Note_only \<Rightarrow> output_start lastAux (Suc i) (seen @ [name]) seenTs later
      | Note_source \<Rightarrow> output_start lastAux (Suc i) (seen @ [name]) (seenTs @ [name]) later)"

definition outputStart :: "segment list \<Rightarrow> nat" where
  "outputStart segs = (let names = map seg_name segs in output_start (last_aux names) 0 [] [] names)"

section \<open>The names of the products\<close>

text \<open>Replace the file of that name, or append it: the two loops keep the first file of a name, and
  the last one if it is auxiliary.\<close>

definition put_source :: "string \<Rightarrow> string \<Rightarrow> (string \<times> string) list \<Rightarrow> (string \<times> string) list" where
  "put_source name content fs =
     (if name \<in> fst ` set fs
      then (if isAuxiliaryFile name then AList.update name content fs else fs)
      else fs @ [(name, content)])"

definition is_source_segment :: "nat \<Rightarrow> nat \<Rightarrow> string \<Rightarrow> bool" where
  "is_source_segment start i name \<longleftrightarrow> i < start \<and> (isInputCodeFile name \<or> isAuxiliaryFile name)"

record naming =
  nm_sources :: "(string \<times> string) list"
  nm_outputs :: "segment list"

definition naming_step :: "string \<Rightarrow> nat \<Rightarrow> nat \<times> segment \<Rightarrow> naming \<Rightarrow> naming" where
  "naming_step text start iseg st =
     (case iseg of (i, seg) \<Rightarrow>
        let name = seg_name seg in
        if is_test_path name then st
        else if is_source_segment start i name
        then st\<lparr>nm_sources := put_source name (segmentContent text seg) (nm_sources st)\<rparr>
        else if start \<le> i \<and> \<not> sg_differs seg then st\<lparr>nm_outputs := nm_outputs st @ [seg]\<rparr>
        else st)"

definition indexed :: "'a list \<Rightarrow> (nat \<times> 'a) list" where
  "indexed xs = enumerate 0 xs"

definition naming_run :: "string \<Rightarrow> segment list \<Rightarrow> naming" where
  "naming_run text segs =
     fold (naming_step text (outputStart segs)) (indexed segs) \<lparr>nm_sources = [], nm_outputs = []\<rparr>"

definition dtsOutputCandidates :: "naming \<Rightarrow> string list" where
  "dtsOutputCandidates st =
     map toSourceDtsOutputName (filter (\<lambda>n. \<not> isDtsLikeOutput n) (map fst (nm_sources st))) @
     map jsLikeOutputToDts (filter isJsLikeOutput (map seg_name (nm_outputs st))) @ [''out.d.ts'']"

section \<open>The result\<close>

record baseline =
  b_testPath :: "string option"
  b_source :: "string option"
  b_sourceFileName :: "string option"
  b_sourceFiles :: "(string \<times> string) list"
  b_js :: "string option"
  b_jsFileName :: "string option"
  b_jsOutputs :: "string list"
  b_dts :: "string option"
  b_dtsFileName :: "string option"
  b_dtsOutputs :: "string list"
  b_files :: "(string \<times> string) list"
  b_noEmitExpected :: bool
  b_noJsEmitExpected :: bool
  b_noDtsEmitExpected :: bool
  b_dtsSourceFiles :: "(string \<times> string) list"
  b_missingDts :: "(segment \<times> string) option"
  b_selectedDts :: "segment option"

text \<open>A string that is \<open>null\<close> or empty is false.\<close>

definition has_text :: "string option \<Rightarrow> bool" where
  "has_text s \<longleftrightarrow> s \<noteq> None \<and> s \<noteq> Some []"

definition initial_baseline :: "string \<Rightarrow> baseline" where
  "initial_baseline text =
     (let missing = map snd (marker_notes missing_rest text) in
      \<lparr>b_testPath = None, b_source = None, b_sourceFileName = None, b_sourceFiles = [],
       b_js = None, b_jsFileName = None, b_jsOutputs = [], b_dts = None, b_dtsFileName = None,
       b_dtsOutputs = [], b_files = [],
       b_noEmitExpected = (missing \<noteq> []),
       b_noJsEmitExpected = list_ex isJsLikeOutput missing,
       b_noDtsEmitExpected = list_ex isDtsLikeOutput missing,
       b_dtsSourceFiles = [], b_missingDts = None, b_selectedDts = None\<rparr>)"

definition selectDtsOutputSegment :: "segment \<Rightarrow> string \<Rightarrow> baseline \<Rightarrow> baseline" where
  "selectDtsOutputSegment seg content b =
     b\<lparr>b_dts := Some content, b_dtsFileName := Some (seg_name seg), b_selectedDts := Some seg\<rparr>"

definition on_source :: "string \<Rightarrow> string \<Rightarrow> baseline \<Rightarrow> baseline" where
  "on_source name content b =
     (let b = b\<lparr>b_sourceFiles := put_source name content (b_sourceFiles b)\<rparr> in
      if \<not> has_text (b_source b) \<and> 0 < length content \<and> \<not> isDtsLikeOutput name \<and> \<not> isAuxiliaryFile name
      then b\<lparr>b_source := Some content, b_sourceFileName := Some name\<rparr> else b)"

definition on_js_output :: "string \<Rightarrow> string \<Rightarrow> baseline \<Rightarrow> baseline" where
  "on_js_output name content b =
     (let out = emittedContent content;
          b = b\<lparr>b_files := map_set name out (b_files b), b_jsOutputs := b_jsOutputs b @ [name]\<rparr>
      in if \<not> has_text (b_js b) \<or> b_jsFileName b = Some name
         then b\<lparr>b_js := Some out, b_jsFileName := Some name\<rparr> else b)"

definition on_dts_output :: "string list \<Rightarrow> segment \<Rightarrow> string \<Rightarrow> string \<Rightarrow> baseline \<Rightarrow> baseline" where
  "on_dts_output candidates seg name content b =
     (if name \<in> set candidates
      then
        let out = emittedContent content;
            b = b\<lparr>b_files := map_set name out (b_files b), b_dtsOutputs := b_dtsOutputs b @ [name]\<rparr>
        in if sg_missing seg
           then b\<lparr>b_missingDts := (case b_missingDts b of None \<Rightarrow> Some (seg, out) | Some x \<Rightarrow> Some x)\<rparr>
           else if \<not> has_text (b_dts b) \<or> b_dtsFileName b = Some name
           then selectDtsOutputSegment seg out b else b
      else b\<lparr>b_dtsSourceFiles := b_dtsSourceFiles b @ [(name, content)]\<rparr>)"

definition extract_step ::
  "string \<Rightarrow> nat \<Rightarrow> string list \<Rightarrow> nat \<times> segment \<Rightarrow> baseline \<Rightarrow> baseline" where
  "extract_step text start candidates iseg b =
     (case iseg of (i, seg) \<Rightarrow>
        let name = seg_name seg; content = segmentContent text seg in
        if sg_differs seg then b
        else
          let b = b\<lparr>b_files := map_set name content (b_files b)\<rparr> in
          if is_test_path name then b\<lparr>b_testPath := Some name\<rparr>
          else if is_source_segment start i name then on_source name content b
          else if start \<le> i \<and> isJsLikeOutput name then on_js_output name content b
          else if start \<le> i \<and> isDtsLikeOutput name then on_dts_output candidates seg name content b
          else b)"

section \<open>Preferences\<close>

definition findOriginalDtsOutputSegment :: "segment list \<Rightarrow> string \<Rightarrow> segment option" where
  "findOriginalDtsOutputSegment outputs fileName =
     find (\<lambda>seg. seg_name seg = fileName \<and> isDtsLikeOutput (seg_name seg) \<and>
       \<not> sg_missing seg \<and> \<not> sg_differs seg) outputs"

definition select_segment :: "string \<Rightarrow> segment \<Rightarrow> baseline \<Rightarrow> baseline" where
  "select_segment text seg = selectDtsOutputSegment seg (emittedContent (segmentContent text seg))"

definition prefer_bundled :: "string \<Rightarrow> segment list \<Rightarrow> baseline \<Rightarrow> baseline" where
  "prefer_bundled text outputs b =
     (let b = (case map_get (b_files b) ''out.js'' of
                 Some c \<Rightarrow> b\<lparr>b_js := Some c, b_jsFileName := Some ''out.js''\<rparr> | None \<Rightarrow> b)
      in case findOriginalDtsOutputSegment outputs ''out.d.ts'' of
           Some seg \<Rightarrow> select_segment text seg b | None \<Rightarrow> b)"

definition source_exts :: "string list" where
  "source_exts = [''ts'', ''tsx'', ''mts'', ''cts'', ''js'', ''jsx'', ''mjs'', ''cjs'']"

definition preferred_js_ext :: "string \<Rightarrow> string" where
  "preferred_js_ext sourceFile =
     (let e = (case ext_match source_exts sourceFile of Some e \<Rightarrow> e | None \<Rightarrow> ''ts'') in
      if e = ''tsx'' \<or> e = ''jsx'' then ''jsx''
      else if e = ''mts'' \<or> e = ''mjs'' then ''mjs''
      else if e = ''cts'' \<or> e = ''cjs'' then ''cjs'' else ''js'')"

definition prefer_js :: "string list \<Rightarrow> string \<Rightarrow> baseline \<Rightarrow> baseline" where
  "prefer_js outputNames sourceFile b =
     (let preferred = replace_ext source_exts [] sourceFile @ CHR ''.'' # preferred_js_ext sourceFile in
      if has_text (b_js b) then b
      else if preferred \<in> set outputNames \<and> map_has (b_files b) preferred
      then b\<lparr>b_js := map_get (b_files b) preferred, b_jsFileName := Some preferred\<rparr>
      else
        case find (\<lambda>f. fst f \<in> set outputNames \<and> isJsLikeOutput (fst f)) (b_files b) of
          Some (name, content) \<Rightarrow> b\<lparr>b_js := Some content, b_jsFileName := Some name\<rparr>
        | None \<Rightarrow> b)"

definition prefer_dts :: "string \<Rightarrow> segment list \<Rightarrow> string \<Rightarrow> baseline \<Rightarrow> baseline" where
  "prefer_dts text outputs sourceFile b =
     (if has_text (b_dts b) then b
      else
        case findOriginalDtsOutputSegment outputs (replace_ext source_exts [] sourceFile @ ''.d.ts'') of
          Some seg \<Rightarrow> select_segment text seg b
        | None \<Rightarrow>
            (case find (\<lambda>seg. \<not> sg_missing seg \<and> \<not> sg_differs seg \<and> isDtsLikeOutput (seg_name seg)) outputs of
               Some seg \<Rightarrow> select_segment text seg b
             | None \<Rightarrow> b))"

definition prefer_source :: "string \<Rightarrow> segment list \<Rightarrow> baseline \<Rightarrow> baseline" where
  "prefer_source text outputs b =
     (if has_text (b_sourceFileName b)
      then
        let sourceFile = the (b_sourceFileName b) in
        prefer_dts text outputs sourceFile (prefer_js (map seg_name outputs) sourceFile b)
      else b)"

definition settle_dts :: "baseline \<Rightarrow> baseline" where
  "settle_dts b =
     (let b = (case b_missingDts b of
                 Some (seg, c) \<Rightarrow> if has_text (b_dts b) then b else selectDtsOutputSegment seg c b
               | None \<Rightarrow> b)
      in case b_selectedDts b of
           Some seg \<Rightarrow> if sg_missing seg then b else b\<lparr>b_noDtsEmitExpected := False\<rparr>
         | None \<Rightarrow> b)"

section \<open>Products that look like markers\<close>

definition is_fake_at :: "segment list \<Rightarrow> string \<Rightarrow> string \<Rightarrow> nat \<Rightarrow> bool" where
  "is_fake_at segs sourceName jsName i \<longleftrightarrow>
     seg_name (segs ! i) = jsName \<and> isJsLikeOutput (seg_name (segs ! i)) \<and>
     seg_name (segs ! (i + 1)) = sourceName \<and> isTsSourceLike (seg_name (segs ! (i + 1)))"

definition fake_end :: "string \<Rightarrow> segment list \<Rightarrow> string \<Rightarrow> string \<Rightarrow> nat \<Rightarrow> nat" where
  "fake_end text segs sourceName jsName i =
     (case find (\<lambda>seg. seg_name seg \<noteq> sourceName \<and> seg_name seg \<noteq> jsName) (drop (i + 1) segs) of
        Some seg \<Rightarrow> sg_markerStart seg
      | None \<Rightarrow> length text)"

definition rejoin :: "string \<Rightarrow> segment list \<Rightarrow> baseline \<Rightarrow> baseline" where
  "rejoin text segs b =
     (if has_text (b_sourceFileName b) \<and> has_text (b_jsFileName b)
      then
        let sourceName = the (b_sourceFileName b); jsName = the (b_jsFileName b) in
        case find (is_fake_at segs sourceName jsName) [outputStart segs..<length segs - 1] of
          Some i \<Rightarrow>
            let c = emittedContent (trim (slice text (sg_start (segs ! i)) (fake_end text segs sourceName jsName i)))
            in if 0 < length c
               then b\<lparr>b_js := Some c, b_jsFileName := Some jsName, b_files := map_set jsName c (b_files b)\<rparr>
               else b
        | None \<Rightarrow> b
      else b)"

definition parseBaseline :: "string \<Rightarrow> baseline" where
  "parseBaseline text =
     (let segs = find_segments text; start = outputStart segs; naming = naming_run text segs;
          b = fold (extract_step text start (dtsOutputCandidates naming)) (indexed segs) (initial_baseline text);
          b = b\<lparr>b_sourceFiles := b_sourceFiles b @ b_dtsSourceFiles b\<rparr>;
          b = prefer_bundled text (nm_outputs naming) b;
          b = prefer_source text (nm_outputs naming) b
      in rejoin text segs (settle_dts b))"

section \<open>Differences\<close>

definition compareEmit :: "string \<Rightarrow> string \<Rightarrow> bool" where
  "compareEmit expected actual \<longleftrightarrow> expected = actual"

text \<open>The patch of the package \<open>diff\<close> and the styles of \<open>picocolors\<close> are arguments.\<close>

record styles =
  st_dim :: "string \<Rightarrow> string"
  st_bold :: "string \<Rightarrow> string"
  st_green :: "string \<Rightarrow> string"
  st_red :: "string \<Rightarrow> string"
  st_cyan :: "string \<Rightarrow> string"

definition is_change :: "string \<Rightarrow> bool" where
  "is_change l \<longleftrightarrow> \<not> starts_with l ''+++'' \<and> \<not> starts_with l ''---'' \<and>
     (starts_with l ''+'' \<or> starts_with l ''-'')"

definition color_line :: "styles \<Rightarrow> string \<Rightarrow> string" where
  "color_line st l =
     (if starts_with l ''+++'' \<or> starts_with l ''---'' then st_bold st l
      else if starts_with l ''+'' then st_green st l
      else if starts_with l ''-'' then st_red st l
      else if starts_with l ''@@'' then st_cyan st l
      else l)"

fun color_lines :: "styles \<Rightarrow> nat \<Rightarrow> nat \<Rightarrow> string list \<Rightarrow> string list" where
  "color_lines st maxLines lineCount [] = []"
| "color_lines st maxLines lineCount (l # ls) =
     (if maxLines \<le> lineCount then [st_dim st ''... (truncated)'']
      else color_line st l # color_lines st maxLines (if is_change l then lineCount + 1 else lineCount) ls)"

definition getEmitDiff ::
  "styles \<Rightarrow> (string \<Rightarrow> string \<Rightarrow> string) \<Rightarrow> nat \<Rightarrow> string \<Rightarrow> string \<Rightarrow> string" where
  "getEmitDiff st createPatch maxLines expected actual =
     (if expected = actual then []
      else join [CHR 10] (color_lines st maxLines 0 (split_on [CHR 10] (createPatch expected actual))))"

record change =
  ch_added :: bool
  ch_removed :: bool
  ch_count :: "nat option"

definition count_of :: "change \<Rightarrow> nat" where
  "count_of c = (case ch_count c of Some n \<Rightarrow> n | None \<Rightarrow> 0)"

definition getEmitDiffSummary :: "(string \<Rightarrow> string \<Rightarrow> change list) \<Rightarrow> string \<Rightarrow> string \<Rightarrow> string" where
  "getEmitDiffSummary diffLines expected actual =
     (if expected = actual then []
      else
        let changes = diffLines expected actual;
            added = sum_list (map count_of (filter ch_added changes));
            removed = sum_list (map count_of (filter ch_removed changes))
        in ''+'' @ show_int (int added) @ ''/-'' @ show_int (int removed) @ '' lines'')"

section \<open>Which names are products\<close>

lemma has_ext_iff: "has_ext exts n \<longleftrightarrow> (\<exists>e \<in> set exts. ends_with n (CHR ''.'' # e))"
  by (auto simp: has_ext_def ext_match_def find_None_iff2 find_None_iff)

lemma ends_with_same_length: "ends_with s p \<Longrightarrow> ends_with s q \<Longrightarrow> length p = length q \<Longrightarrow> p = q"
  by (auto simp: ends_with_iff)

lemma ends_with_last: "ends_with n p \<Longrightarrow> p \<noteq> [] \<Longrightarrow> last n = last p"
  by (auto simp: ends_with_iff)

lemma js_not_dts: "isJsLikeOutput n \<Longrightarrow> \<not> isDtsLikeOutput n"
proof
  assume j: "isJsLikeOutput n" and d: "isDtsLikeOutput n"
  have "ends_with n ''ts''" using d by (auto simp: isDtsLikeOutput_def has_ext_iff ends_with_iff)
  moreover have "ends_with n ''js'' \<or> ends_with n ''sx''"
    using j by (auto simp: isJsLikeOutput_def has_ext_iff ends_with_iff js_exts_def)
  ultimately show False 
    using ends_with_same_length[of n "''ts''" "''js''"] ends_with_same_length[of n "''ts''" "''sx''"] by auto
qed

text \<open>The segments that are neither annotations nor the path of the test.\<close>

definition is_file_segment :: "segment \<Rightarrow> bool" where
  "is_file_segment seg \<longleftrightarrow> \<not> sg_differs seg \<and> \<not> is_test_path (seg_name seg)"

definition is_entry_point :: "string \<Rightarrow> segment \<Rightarrow> bool" where
  "is_entry_point text seg \<longleftrightarrow> is_file_segment seg \<and> isInputCodeFile (seg_name seg) \<and>
     \<not> isDtsLikeOutput (seg_name seg) \<and> \<not> isAuxiliaryFile (seg_name seg) \<and> segmentContent text seg \<noteq> []"

lemma on_source_outputs [simp]:
  "b_jsOutputs (on_source n c b) = b_jsOutputs b" "b_dtsOutputs (on_source n c b) = b_dtsOutputs b"
  by (simp_all add: on_source_def Let_def)

lemma on_js_outputs [simp]:
  "b_jsOutputs (on_js_output n c b) = b_jsOutputs b @ [n]" "b_dtsOutputs (on_js_output n c b) = b_dtsOutputs b"
  "b_source (on_js_output n c b) = b_source b" "b_sourceFileName (on_js_output n c b) = b_sourceFileName b"
  by (simp_all add: on_js_output_def Let_def)

lemma select_outputs [simp]:
  "b_jsOutputs (selectDtsOutputSegment seg c b) = b_jsOutputs b"
  "b_dtsOutputs (selectDtsOutputSegment seg c b) = b_dtsOutputs b"
  "b_source (selectDtsOutputSegment seg c b) = b_source b"
  "b_sourceFileName (selectDtsOutputSegment seg c b) = b_sourceFileName b"
  by (simp_all add: selectDtsOutputSegment_def)

lemma on_dts_outputs [simp]:
  "b_jsOutputs (on_dts_output cs seg n c b) = b_jsOutputs b"
  "b_dtsOutputs (on_dts_output cs seg n c b) = (if n \<in> set cs then b_dtsOutputs b @ [n] else b_dtsOutputs b)"
  "b_source (on_dts_output cs seg n c b) = b_source b"
  "b_sourceFileName (on_dts_output cs seg n c b) = b_sourceFileName b"
  by (simp_all add: on_dts_output_def Let_def)

definition js_here :: "nat \<Rightarrow> nat \<times> segment \<Rightarrow> bool" where
  "js_here start p \<longleftrightarrow> start \<le> fst p \<and> is_file_segment (snd p) \<and> isJsLikeOutput (seg_name (snd p))"

definition dts_here :: "nat \<Rightarrow> string list \<Rightarrow> nat \<times> segment \<Rightarrow> bool" where
  "dts_here start cs p \<longleftrightarrow> start \<le> fst p \<and> is_file_segment (snd p) \<and> isDtsLikeOutput (seg_name (snd p)) \<and>
     seg_name (snd p) \<in> set cs"

definition entry_here :: "string \<Rightarrow> nat \<Rightarrow> nat \<times> segment \<Rightarrow> bool" where
  "entry_here text start p \<longleftrightarrow> fst p < start \<and> is_entry_point text (snd p)"

lemma extract_outputs:
  "b_jsOutputs (extract_step text start cs p b) = b_jsOutputs b @ (if js_here start p then [seg_name (snd p)] else [])"
  "b_dtsOutputs (extract_step text start cs p b) = b_dtsOutputs b @ (if dts_here start cs p then [seg_name (snd p)] else [])"
  using js_not_dts[of "seg_name (snd p)"]
  by (auto simp: extract_step_def Let_def js_here_def dts_here_def is_file_segment_def is_source_segment_def split: prod.splits)

lemma extract_source:
  "b_source (extract_step text start cs p b) =
     (if \<not> has_text (b_source b) \<and> entry_here text start p then Some (segmentContent text (snd p)) else b_source b)"
  "b_sourceFileName (extract_step text start cs p b) =
     (if \<not> has_text (b_source b) \<and> entry_here text start p then Some (seg_name (snd p)) else b_sourceFileName b)"
  by (auto simp: extract_step_def Let_def entry_here_def is_entry_point_def is_file_segment_def is_source_segment_def
      on_source_def split: prod.splits)

lemma extract_fold_outputs:
  "b_jsOutputs (fold (extract_step text start cs) ps b) = b_jsOutputs b @ map (seg_name \<circ> snd) (filter (js_here start) ps)"
  "b_dtsOutputs (fold (extract_step text start cs) ps b) =
     b_dtsOutputs b @ map (seg_name \<circ> snd) (filter (dts_here start cs) ps)"
  by (induction ps arbitrary: b) (simp_all add: extract_outputs)

lemma extract_fold_source:
  "(b_source b = None \<longleftrightarrow> b_sourceFileName b = None) \<Longrightarrow> b_source b \<noteq> Some [] \<Longrightarrow>
   (let b' = fold (extract_step text start cs) ps b; e = find (entry_here text start) ps in
    b_source b' = (if b_source b = None then map_option (segmentContent text \<circ> snd) e else b_source b) \<and>
    b_sourceFileName b' = (if b_source b = None then map_option (seg_name \<circ> snd) e else b_sourceFileName b))"
proof (induction ps arbitrary: b)
  case (Cons p ps)
  have ne: "entry_here text start p \<Longrightarrow> segmentContent text (snd p) \<noteq> []" by (simp add: entry_here_def is_entry_point_def)
  show ?case
    using Cons.IH[of "extract_step text start cs p b"] Cons.prems ne
    by (auto simp: Let_def extract_source has_text_def split: if_splits)
qed simp

lemma indexed_from: "map snd (filter (\<lambda>p. start \<le> fst p \<and> P (snd p)) (indexed xs)) = filter P (drop start xs)"
proof -
  have "map snd (filter (\<lambda>p. start \<le> fst p \<and> P (snd p)) (enumerate k xs)) = filter P (drop (start - k) xs)" for k
  proof (induction xs arbitrary: k)
    case (Cons x xs)
    have "start - Suc k = start - k - 1" by simp
    then show ?case using Cons[of "Suc k"] by (cases "start - k") auto
  qed simp
  from this[of 0] show ?thesis by (simp add: indexed_def)
qed

lemma indexed_until: "map_option snd (find (\<lambda>p. fst p < n \<and> P (snd p)) (indexed xs)) = find P (take n xs)"
proof -
  have "map_option snd (find (\<lambda>p. fst p < n \<and> P (snd p)) (enumerate k xs)) = find P (take (n - k) xs)" for k
  proof (induction xs arbitrary: k)
    case (Cons x xs)
    have "n - Suc k = n - k - 1" by simp
    then show ?case using Cons[of "Suc k"] by (cases "n - k") auto
  qed simp
  from this[of 0] show ?thesis by (simp add: indexed_def)
qed

lemma later_phases [simp]:
  "b_jsOutputs (prefer_bundled text os b) = b_jsOutputs b" "b_dtsOutputs (prefer_bundled text os b) = b_dtsOutputs b"
  "b_source (prefer_bundled text os b) = b_source b" "b_sourceFileName (prefer_bundled text os b) = b_sourceFileName b"
  "b_jsOutputs (prefer_js ns f b) = b_jsOutputs b" "b_dtsOutputs (prefer_js ns f b) = b_dtsOutputs b"
  "b_source (prefer_js ns f b) = b_source b" "b_sourceFileName (prefer_js ns f b) = b_sourceFileName b"
  "b_jsOutputs (prefer_dts text os f b) = b_jsOutputs b" "b_dtsOutputs (prefer_dts text os f b) = b_dtsOutputs b"
  "b_source (prefer_dts text os f b) = b_source b" "b_sourceFileName (prefer_dts text os f b) = b_sourceFileName b"
  "b_jsOutputs (settle_dts b) = b_jsOutputs b" "b_dtsOutputs (settle_dts b) = b_dtsOutputs b"
  "b_source (settle_dts b) = b_source b" "b_sourceFileName (settle_dts b) = b_sourceFileName b"
  "b_jsOutputs (rejoin text segs b) = b_jsOutputs b" "b_dtsOutputs (rejoin text segs b) = b_dtsOutputs b"
  "b_source (rejoin text segs b) = b_source b" "b_sourceFileName (rejoin text segs b) = b_sourceFileName b"
  by (simp_all add: prefer_bundled_def prefer_js_def prefer_dts_def settle_dts_def rejoin_def select_segment_def Let_def
      split: option.splits)

lemma prefer_source_outputs [simp]:
  "b_jsOutputs (prefer_source text os b) = b_jsOutputs b" "b_dtsOutputs (prefer_source text os b) = b_dtsOutputs b"
  "b_source (prefer_source text os b) = b_source b" "b_sourceFileName (prefer_source text os b) = b_sourceFileName b"
  by (simp_all add: prefer_source_def Let_def)

text \<open>The product domain of a baseline is exactly the names in its output section: the scripts
  there, and the declarations there that a source or a script of the baseline can produce; and
  the entry point is the first code file before the output section that has text.\<close>

theorem parseBaseline_domain:
  "let segs = find_segments text; outputs = filter is_file_segment (drop (outputStart segs) segs);
       entry = find (is_entry_point text) (take (outputStart segs) segs); b = parseBaseline text in
   b_jsOutputs b = filter isJsLikeOutput (map seg_name outputs) \<and>
   b_dtsOutputs b = filter (\<lambda>n. isDtsLikeOutput n \<and> n \<in> set (dtsOutputCandidates (naming_run text segs)))
     (map seg_name outputs) \<and>
   b_source b = map_option (segmentContent text) entry \<and> b_sourceFileName b = map_option seg_name entry"
proof -
  let ?segs = "find_segments text"
  let ?start = "outputStart ?segs" and ?cs = "dtsOutputCandidates (naming_run text ?segs)"
  let ?b = "fold (extract_step text ?start ?cs) (indexed ?segs) (initial_baseline text)"
  have i: "b_jsOutputs (initial_baseline text) = []" "b_dtsOutputs (initial_baseline text) = []"
    "b_source (initial_baseline text) = None" "b_sourceFileName (initial_baseline text) = None"
    by (simp_all add: initial_baseline_def Let_def)
  have p: "b_jsOutputs (parseBaseline text) = b_jsOutputs ?b" "b_dtsOutputs (parseBaseline text) = b_dtsOutputs ?b"
    "b_source (parseBaseline text) = b_source ?b" "b_sourceFileName (parseBaseline text) = b_sourceFileName ?b"
    by (simp_all add: parseBaseline_def Let_def)
  have js: "map snd (filter (js_here ?start) (indexed ?segs)) =
      filter (\<lambda>s. is_file_segment s \<and> isJsLikeOutput (seg_name s)) (drop ?start ?segs)"
    unfolding js_here_def[abs_def] by (rule indexed_from)
  have dts: "map snd (filter (dts_here ?start ?cs) (indexed ?segs)) =
      filter (\<lambda>s. is_file_segment s \<and> isDtsLikeOutput (seg_name s) \<and> seg_name s \<in> set ?cs) (drop ?start ?segs)"
    unfolding dts_here_def[abs_def] by (rule indexed_from)
  have e: "map_option snd (find (entry_here text ?start) (indexed ?segs)) = find (is_entry_point text) (take ?start ?segs)"
    unfolding entry_here_def[abs_def] by (rule indexed_until)
  have "b_source ?b = map_option (segmentContent text) (map_option snd (find (entry_here text ?start) (indexed ?segs)))"
    "b_sourceFileName ?b = map_option seg_name (map_option snd (find (entry_here text ?start) (indexed ?segs)))"
    using extract_fold_source[of "initial_baseline text" "text" ?start ?cs "indexed ?segs"]
    by (simp_all add: i Let_def option.map_comp)
  then show ?thesis
    using arg_cong[OF js, of "map seg_name"] arg_cong[OF dts, of "map seg_name"]
    by (simp add: Let_def p extract_fold_outputs i e filter_map o_def conj_commute)
qed

section \<open>The difference is short\<close>

definition shown :: "styles \<Rightarrow> string list \<Rightarrow> nat \<Rightarrow> string list" where
  "shown st ls n = map (color_line st) (take n ls) @ (if n < length ls then [st_dim st ''... (truncated)''] else [])"

lemma color_lines_shown:
  "k \<le> m \<Longrightarrow> \<exists>n. color_lines st m k ls = shown st ls n \<and> n \<le> length ls \<and>
     k + length (filter is_change (take n ls)) \<le> m \<and>
     (n = length ls \<or> k + length (filter is_change (take n ls)) = m)"
proof (induction st m k ls rule: color_lines.induct)
  case (1 st m k)
  then show ?case by (simp add: shown_def)
next
  case (2 st m k l ls)
  show ?case
  proof (cases "m \<le> k")
    case True
    then show ?thesis using 2 by (intro exI[of _ 0]) (simp add: shown_def)
  next
    case False
    then have "(if is_change l then k + 1 else k) \<le> m" using 2(2) by simp
    then obtain n where "color_lines st m (if is_change l then k + 1 else k) ls = shown st ls n" "n \<le> length ls"
      "(if is_change l then k + 1 else k) + length (filter is_change (take n ls)) \<le> m"
      "n = length ls \<or> (if is_change l then k + 1 else k) + length (filter is_change (take n ls)) = m"
      using 2(1)[OF False] by blast
    then show ?thesis using False by (intro exI[of _ "Suc n"]) (auto simp: shown_def split: if_splits)
  qed
qed

text \<open>A difference shows a prefix of the patch with at most \<open>maxLines\<close> changed lines, and it
  is cut off only after exactly that many, with a note that it was.\<close>

theorem getEmitDiff_bounded:
  "\<exists>n. getEmitDiff st createPatch maxLines expected actual =
      (if compareEmit expected actual then []
       else join [CHR 10] (shown st (split_on [CHR 10] (createPatch expected actual)) n)) \<and>
    length (filter is_change (take n (split_on [CHR 10] (createPatch expected actual)))) \<le> maxLines \<and>
    (length (split_on [CHR 10] (createPatch expected actual)) = n \<or>
     length (filter is_change (take n (split_on [CHR 10] (createPatch expected actual)))) = maxLines)"
  using color_lines_shown[of 0 maxLines st "split_on [CHR 10] (createPatch expected actual)"]
  by (auto simp: getEmitDiff_def compareEmit_def)

end
