(* ===== verification/CliFlags.thy ===== *)
theory CliFlags
  imports HarnessConfig TsEnums ResultEvidence
begin

text \<open>
  The compiler options of one invocation, \<open>CompilerFlagOptions\<close> of
  \<open>scripts/emit/src/cli-transpiler.ts\<close>, as command line arguments and as the configuration that
  the API of the pinned compiler reads. The options are an object all of whose properties are
  optional and are read by name: a map from names to values.
\<close>

datatype flag_value = Flag bool | Setting string

type_synonym flag_options = "(string \<times> flag_value) list"

definition bool_option :: "flag_options \<Rightarrow> string \<Rightarrow> bool option" where
  "bool_option opts k = (case map_of opts k of Some (Flag b) \<Rightarrow> Some b | _ \<Rightarrow> None)"

definition text_option :: "flag_options \<Rightarrow> string \<Rightarrow> string option" where
  "text_option opts k = (case map_of opts k of Some (Setting s) \<Rightarrow> Some s | _ \<Rightarrow> None)"

section \<open>Command line arguments\<close>

datatype flag_kind = Boolean_flag | Text_flag | Stripped_flag

text \<open>The calls of \<open>appendCompilerOptionFlags\<close> in their order.\<close>

definition flag_order :: "(flag_kind \<times> string) list" where
  "flag_order =
     map (Pair Boolean_flag)
       [''noCheck'', ''declaration'', ''noLib'', ''noEmit'', ''alwaysStrict'', ''sourceMap'', ''inlineSourceMap'',
        ''declarationMap'', ''downlevelIteration'', ''noEmitHelpers'', ''noEmitOnError'', ''strict'', ''allowJs'',
        ''allowUnreachableCode'', ''checkJs'', ''noImplicitAny'', ''noUnusedLocals'', ''noUnusedParameters'',
        ''skipLibCheck'', ''strictPropertyInitialization'', ''importHelpers'', ''esModuleInterop'',
        ''useDefineForClassFields'', ''experimentalDecorators'', ''emitDecoratorMetadata'',
        ''strictNullChecks'', ''exactOptionalPropertyTypes''] @
     map (Pair Text_flag)
       [''jsx'', ''jsxFactory'', ''jsxFragmentFactory'', ''jsxImportSource'', ''moduleResolution'',
        ''moduleDetection''] @
     map (Pair Boolean_flag)
       [''preserveConstEnums'', ''verbatimModuleSyntax'', ''rewriteRelativeImportExtensions'', ''isolatedModules''] @
     [(Text_flag, ''importsNotUsedAsValues'')] @
     map (Pair Boolean_flag) [''preserveValueImports'', ''removeComments'', ''stripInternal''] @
     [(Text_flag, ''baseUrl''), (Stripped_flag, ''outFile''), (Text_flag, ''outDir''),
      (Text_flag, ''declarationDir''), (Text_flag, ''rootDir''), (Boolean_flag, ''emitDeclarationOnly'')]"

text \<open>\<open>replace(/^[/\\]+/, '')\<close>\<close>

definition strip_slashes :: "string \<Rightarrow> string" where
  "strip_slashes s = dropWhile (\<lambda>c. c = CHR ''/'' \<or> c = CHR 92) s"

text \<open>The argument a flag is given, if it is pushed at all: an empty text is false.\<close>

definition flag_text :: "flag_options \<Rightarrow> flag_kind \<times> string \<Rightarrow> string option" where
  "flag_text opts f =
     (case f of
        (Boolean_flag, k) \<Rightarrow> map_option bool_text (bool_option opts k)
      | (Text_flag, k) \<Rightarrow> (case text_option opts k of Some s \<Rightarrow> if s = [] then None else Some s | None \<Rightarrow> None)
      | (Stripped_flag, k) \<Rightarrow>
          (case text_option opts k of Some s \<Rightarrow> if s = [] then None else Some (strip_slashes s) | None \<Rightarrow> None))"

definition push_flag :: "flag_options \<Rightarrow> flag_kind \<times> string \<Rightarrow> string list" where
  "push_flag opts f = (case flag_text opts f of Some t \<Rightarrow> [''--'' @ snd f, t] | None \<Rightarrow> [])"

definition appendCompilerOptionFlags :: "string list \<Rightarrow> flag_options \<Rightarrow> string list" where
  "appendCompilerOptionFlags args opts = args @ concat (map (push_flag opts) flag_order)"

section \<open>The configuration for the API\<close>

definition api_names :: "string list" where
  "api_names =
     [''declaration'', ''noCheck'', ''noLib'', ''noEmit'', ''alwaysStrict'', ''sourceMap'', ''inlineSourceMap'',
      ''declarationMap'', ''downlevelIteration'', ''noEmitHelpers'', ''noEmitOnError'', ''strict'', ''allowJs'',
      ''allowUnreachableCode'', ''checkJs'', ''noImplicitAny'', ''noUnusedLocals'', ''noUnusedParameters'',
      ''skipLibCheck'', ''strictPropertyInitialization'', ''importHelpers'', ''esModuleInterop'',
      ''useDefineForClassFields'', ''experimentalDecorators'', ''emitDecoratorMetadata'',
      ''strictNullChecks'', ''exactOptionalPropertyTypes'', ''jsx'', ''jsxFactory'', ''jsxFragmentFactory'',
      ''jsxImportSource'', ''moduleResolution'', ''moduleDetection'', ''preserveConstEnums'',
      ''verbatimModuleSyntax'', ''rewriteRelativeImportExtensions'', ''isolatedModules'',
      ''importsNotUsedAsValues'', ''preserveValueImports'', ''removeComments'', ''stripInternal'']"

definition flag_json :: "flag_value \<Rightarrow> jsval" where
  "flag_json v = (case v of Flag b \<Rightarrow> JBool b | Setting s \<Rightarrow> JStr s)"

definition json_option :: "flag_options \<Rightarrow> string \<Rightarrow> jsval" where
  "json_option opts k = undefined_or (map_of opts k) flag_json"

definition definedCompilerOptions :: "(string \<times> jsval) list \<Rightarrow> (string \<times> jsval) list" where
  "definedCompilerOptions values = from_entries (filter (\<lambda>p. snd p \<noteq> JUndef) values)"

definition api_values ::
  "string \<Rightarrow> string \<Rightarrow> int option \<Rightarrow> int option \<Rightarrow> string list option \<Rightarrow> flag_options \<Rightarrow> (string \<times> jsval) list" where
  "api_values cwd testDir target m lib opts =
     map (\<lambda>k. (k, json_option opts k)) api_names @
     [(''baseUrl'', undefined_or (text_option opts ''baseUrl'') (\<lambda>p. JStr (corpusPhysicalPath cwd testDir p))),
      (''outFile'', undefined_or (text_option opts ''outFile'')
         (\<lambda>p. JStr (corpusPhysicalPath cwd testDir (strip_slashes p)))),
      (''outDir'', json_option opts ''outDir''),
      (''declarationDir'', json_option opts ''declarationDir''),
      (''rootDir'', json_option opts ''rootDir''),
      (''emitDeclarationOnly'', json_option opts ''emitDeclarationOnly''),
      (''target'', undefined_or target (\<lambda>t. JStr (targetToCliArg t))),
      (''module'', undefined_or m (\<lambda>n. JStr (moduleToCliArg n))),
      (''lib'', undefined_or lib (\<lambda>l. JArr (map JStr l)))]"

definition diagnosticApiCompilerOptions ::
  "string \<Rightarrow> string \<Rightarrow> int option \<Rightarrow> int option \<Rightarrow> string list option \<Rightarrow> flag_options \<Rightarrow> (string \<times> jsval) list" where
  "diagnosticApiCompilerOptions cwd testDir target m lib opts =
     definedCompilerOptions (api_values cwd testDir target m lib opts)"

section \<open>Every option is forwarded once and unchanged\<close>

text \<open>A command line of names and their arguments.\<close>

fun pairs :: "string list \<Rightarrow> (string \<times> string) list" where
  "pairs (a # b # r) = (a, b) # pairs r"
| "pairs r = []"

lemma pairs_flags:
  "pairs (concat (map (push_flag opts) fs)) =
     map (\<lambda>f. (''--'' @ snd f, the (flag_text opts f))) (filter (\<lambda>f. flag_text opts f \<noteq> None) fs)"
  by (induction fs) (auto simp: push_flag_def)

lemma flag_names_distinct: "distinct (map snd flag_order)"
  by code_simp

lemma map_of_filter_names:
  "distinct (map snd fs) \<Longrightarrow> (kd, k) \<in> set fs \<Longrightarrow>
   map_of (map (\<lambda>f. (''--'' @ snd f, g f)) (filter P fs)) (''--'' @ k) = (if P (kd, k) then Some (g (kd, k)) else None)"
proof (induction fs)
  case (Cons f fs)
  show ?case
  proof (cases "f = (kd, k)")
    case True
    then have "k \<notin> snd ` set fs" using Cons.prems by auto
    then have "\<forall>f' \<in> set fs. snd f' \<noteq> k" by force
    then have "map_of (map (\<lambda>f. (''--'' @ snd f, g f)) (filter P fs)) (''--'' @ k) = None"
      by (auto simp: map_of_eq_None_iff)
    then show ?thesis using True by simp
  next
    case False
    then have m: "(kd, k) \<in> set fs" using Cons.prems by simp
    then have "k \<in> snd ` set fs" by (rule rev_image_eqI) simp
    then have "snd f \<noteq> k" using Cons.prems(1) by auto
    then show ?thesis using Cons m by simp
  qed
qed simp

lemma flags_pairs:
  "pairs (appendCompilerOptionFlags [] opts) =
     map (\<lambda>f. (''--'' @ snd f, the (flag_text opts f))) (filter (\<lambda>f. flag_text opts f \<noteq> None) flag_order)"
  by (simp add: appendCompilerOptionFlags_def pairs_flags)

lemma flag_pairs:
  "(kd, k) \<in> set flag_order \<Longrightarrow> map_of (pairs (appendCompilerOptionFlags [] opts)) (''--'' @ k) = flag_text opts (kd, k)"
  using map_of_filter_names[OF flag_names_distinct, of kd k "\<lambda>f. the (flag_text opts f)" "\<lambda>f. flag_text opts f \<noteq> None"]
  by (cases "flag_text opts (kd, k)") (simp_all add: flags_pairs)

text \<open>Read as names with their arguments, the command line gives every option exactly the text
  of its value, and no argument to an option that was not authored; no name is given twice.\<close>

theorem flags_exact:
  assumes "(kd, k) \<in> set flag_order"
  shows "map_of (pairs (appendCompilerOptionFlags [] opts)) (''--'' @ k) = flag_text opts (kd, k) \<and>
    distinct (map fst (pairs (appendCompilerOptionFlags [] opts)))"
proof -
  have "distinct (map snd (filter (\<lambda>f. flag_text opts f \<noteq> None) flag_order))"
    using flag_names_distinct by (rule distinct_map_filter)
  then have "distinct (map (\<lambda>n. ''--'' @ n) (map snd (filter (\<lambda>f. flag_text opts f \<noteq> None) flag_order)))"
    by (simp add: distinct_map inj_on_def)
  then show ?thesis using flag_pairs[OF assms, of opts] by (simp add: flags_pairs o_def)
qed

theorem flags_exact_witness:
  "map_of (pairs (appendCompilerOptionFlags [] [(''outFile'', Setting ''/out.js''), (''strict'', Flag False)])) ''--outFile'' =
     Some ''out.js''"
proof -
  have m: "(Stripped_flag, ''outFile'') \<in> set flag_order" by code_simp
  have "flag_text [(''outFile'', Setting ''/out.js''), (''strict'', Flag False)] (Stripped_flag, ''outFile'') = Some ''out.js''"
    by code_simp
  then show ?thesis
    using flags_exact[OF m, of "[(''outFile'', Setting ''/out.js''), (''strict'', Flag False)]"] by simp
qed

section \<open>The API reads the same options\<close>

definition well_typed :: "flag_options \<Rightarrow> flag_kind \<times> string \<Rightarrow> bool" where
  "well_typed opts f =
     (case map_of opts (snd f) of
        None \<Rightarrow> True | Some (Flag b) \<Rightarrow> fst f = Boolean_flag | Some (Setting s) \<Rightarrow> fst f \<noteq> Boolean_flag \<and> s \<noteq> [])"

definition json_text :: "jsval \<Rightarrow> string" where
  "json_text v = (case v of JBool b \<Rightarrow> bool_text b | JStr s \<Rightarrow> s | _ \<Rightarrow> [])"

lemma map_of_from_entries: "distinct (map fst es) \<Longrightarrow> map_of (from_entries es) = map_of es"
  by (rule map_of_inject_set[THEN iffD2])
    (simp_all add: distinct_keys_mset[OF mset_from_entries] mset_eq_setD[OF mset_from_entries])

lemma map_of_defined:
  "distinct (map fst vs) \<Longrightarrow> map_of (definedCompilerOptions vs) k =
     (case map_of vs k of Some v \<Rightarrow> if v = JUndef then None else Some v | None \<Rightarrow> None)"
proof -
  assume d: "distinct (map fst vs)"
  have "map_of (filter (\<lambda>p. snd p \<noteq> JUndef) vs) k =
      (case map_of vs k of Some v \<Rightarrow> if v = JUndef then None else Some v | None \<Rightarrow> None)"
    using d by (induction vs) (auto simp: map_of_eq_None_iff split: option.splits)
  then show ?thesis
    using d by (simp add: definedCompilerOptions_def map_of_from_entries distinct_map_filter)
qed

definition plain_names :: "string list" where
  "plain_names = api_names @ [''outDir'', ''declarationDir'', ''rootDir'', ''emitDeclarationOnly'']"

lemma api_keys: "map fst (api_values cwd testDir target m lib opts) =
    api_names @ [''baseUrl'', ''outFile'', ''outDir'', ''declarationDir'', ''rootDir'', ''emitDeclarationOnly'',
      ''target'', ''module'', ''lib'']"
  by (simp add: api_values_def o_def)

lemma api_keys_distinct:
  "distinct (api_names @ [''baseUrl'', ''outFile'', ''outDir'', ''declarationDir'', ''rootDir'', ''emitDeclarationOnly'',
      ''target'', ''module'', ''lib''])"
  by code_simp

lemma api_value:
  assumes "k \<in> set plain_names"
  shows "map_of (api_values cwd testDir target m lib opts) k = Some (json_option opts k)"
proof -
  have "(k, json_option opts k) \<in> set (api_values cwd testDir target m lib opts)"
    using assms by (auto simp: plain_names_def api_values_def)
  moreover have "distinct (map fst (api_values cwd testDir target m lib opts))"
    unfolding api_keys by (rule api_keys_distinct)
  ultimately show ?thesis by simp
qed

lemma plain_names_flags: "k \<in> set plain_names \<Longrightarrow> \<exists>kd. kd \<noteq> Stripped_flag \<and> (kd, k) \<in> set flag_order"
proof -
  have "list_all (\<lambda>k. list_ex (\<lambda>f. fst f \<noteq> Stripped_flag \<and> snd f = k) flag_order) plain_names" by code_simp
  then show "k \<in> set plain_names \<Longrightarrow> ?thesis" by (force simp: list_all_iff list_ex_iff)
qed

lemma flag_text_json:
  assumes "well_typed opts (kd, k)" and "kd \<noteq> Stripped_flag"
  shows "flag_text opts (kd, k) = map_option (json_text \<circ> flag_json) (map_of opts k)"
  using assms by (cases kd)
    (auto simp: well_typed_def flag_text_def bool_option_def text_option_def json_text_def flag_json_def
      split: option.splits flag_value.splits)

lemma json_option_None: "json_option opts k = JUndef \<longleftrightarrow> map_of opts k = None"
  by (auto simp: json_option_def undefined_or_def flag_json_def split: option.splits flag_value.splits)

text \<open>The API that collects the pinned compiler's diagnostics is configured with the options of
  the command line: for every option whose value is passed on as it is, the configuration has the
  option exactly when the command line has it, with the same value.\<close>

theorem api_matches_command_line:
  assumes "list_all (well_typed opts) flag_order" and "k \<in> set plain_names"
  shows "map_option json_text (map_of (diagnosticApiCompilerOptions cwd testDir target m lib opts) k) =
    map_of (pairs (appendCompilerOptionFlags [] opts)) (''--'' @ k)"
proof -
  obtain kd where kd: "kd \<noteq> Stripped_flag" "(kd, k) \<in> set flag_order" using plain_names_flags[OF assms(2)] by blast
  have "map_of (pairs (appendCompilerOptionFlags [] opts)) (''--'' @ k) = flag_text opts (kd, k)"
    using kd(2) by (rule flag_pairs)
  also have "\<dots> = map_option (json_text \<circ> flag_json) (map_of opts k)"
    using assms(1) kd by (intro flag_text_json) (auto simp: list_all_iff)
  finally have c: "map_of (pairs (appendCompilerOptionFlags [] opts)) (''--'' @ k) =
      map_option (json_text \<circ> flag_json) (map_of opts k)" .
  have "map_of (diagnosticApiCompilerOptions cwd testDir target m lib opts) k =
      (if json_option opts k = JUndef then None else Some (json_option opts k))"
    using api_keys_distinct unfolding diagnosticApiCompilerOptions_def
    by (subst map_of_defined) (simp_all add: api_keys api_value[OF assms(2)] del: map_of_eq_Some_iff)
  then show ?thesis unfolding c
    by (cases "map_of opts k") (simp_all add: json_option_None, simp add: json_option_def undefined_or_def)
qed

theorem api_matches_command_line_witness:
  "map_option json_text (map_of (diagnosticApiCompilerOptions ''/'' ''/t'' None None None [(''strict'', Flag True)]) ''strict'') =
     map_of (pairs (appendCompilerOptionFlags [] [(''strict'', Flag True)])) ''--strict''"
proof -
  have "list_all (well_typed [(''strict'', Flag True)]) flag_order" "''strict'' \<in> set plain_names" by code_simp+
  from api_matches_command_line[OF this] show ?thesis by simp
qed

end
