(* ===== verification/RunnerCases.thy ===== *)
theory RunnerCases
  imports SourceTest AuthoredOptions BaselineParser CliFlags
begin

text \<open>
  The first half of \<open>scripts/emit/src/runner.ts\<close>: the command line of the harness, the candidates
  and the window of them that is run, and the construction of a test case from its baseline, its
  test source and its authored options. The directory listing, the file contents and the JSONC
  parser are arguments; the cache of parsed sources is the explicit state of the discovery.
\<close>

section \<open>The command line of the harness\<close>

text \<open>The numbers the configuration holds; \<open>parseInt\<close> yields \<open>NaN\<close> when there is no digit.\<close>

datatype js_number = NaN | Infinite | Num int

definition js_max :: "int \<Rightarrow> js_number \<Rightarrow> js_number" where
  "js_max k x = (case x of NaN \<Rightarrow> NaN | Infinite \<Rightarrow> Infinite | Num n \<Rightarrow> Num (max k n))"

definition parseInt :: "string \<Rightarrow> js_number" where
  "parseInt s =
     (let t = trim_start s;
          (neg, u) = (case t of c # r \<Rightarrow> if c = CHR ''-'' then (True, r) else if c = CHR ''+'' then (False, r) else (False, t)
                      | [] \<Rightarrow> (False, t));
          d = takeWhile is_digit u
      in if d = [] then NaN else Num (if neg then - int (decimal d) else int (decimal d)))"

record run_config =
  cg_maxTests :: js_number
  cg_offset :: js_number
  cg_filter :: string
  cg_verbose :: bool
  cg_jsOnly :: bool
  cg_dtsOnly :: bool
  cg_concurrency :: js_number
  cg_timeoutMs :: js_number
  cg_jsonOut :: "string option"

datatype args_stop = Args_error string | Help_printed

definition default_config :: "int \<Rightarrow> run_config" where
  "default_config cpus =
     \<lparr>cg_maxTests = Infinite, cg_offset = Num 0, cg_filter = [], cg_verbose = False, cg_jsOnly = False,
      cg_dtsOnly = False, cg_concurrency = Num (max 1 cpus), cg_timeoutMs = Num 5000, cg_jsonOut = None\<rparr>"

definition parse_max :: "string \<Rightarrow> run_config \<Rightarrow> args_stop + run_config" where
  "parse_max rawMax c =
     (if rawMax = ''all'' \<or> rawMax = ''All'' \<or> rawMax = ''ALL'' \<or> rawMax = [] then Inr (c\<lparr>cg_maxTests := Infinite\<rparr>)
      else
        case parseInt rawMax of
          Num n \<Rightarrow>
            if n \<le> 0 then Inl (Args_error (''Invalid --max value: '' @ rawMax @ ''. Use a positive integer or all.''))
            else Inr (c\<lparr>cg_maxTests := Num n\<rparr>)
        | _ \<Rightarrow> Inl (Args_error (''Invalid --max value: '' @ rawMax @ ''. Use a positive integer or all.'')))"

definition parse_arg :: "string \<Rightarrow> string \<Rightarrow> run_config \<Rightarrow> args_stop + run_config" where
  "parse_arg defaultJson arg c =
     (if starts_with arg ''--max='' then parse_max (drop 6 arg) c
      else if starts_with arg ''--offset='' then Inr (c\<lparr>cg_offset := js_max 0 (parseInt (drop 9 arg))\<rparr>)
      else if starts_with arg ''--filter='' then Inr (c\<lparr>cg_filter := drop 9 arg\<rparr>)
      else if starts_with arg ''--concurrency='' \<or> starts_with arg ''-j'' then
        Inr (c\<lparr>cg_concurrency := js_max 1 (parseInt (if starts_with arg ''-j'' then drop 2 arg else drop 14 arg))\<rparr>)
      else if starts_with arg ''--timeout='' then Inr (c\<lparr>cg_timeoutMs := js_max 500 (parseInt (drop 10 arg))\<rparr>)
      else if arg = ''--verbose'' \<or> arg = ''-v'' then Inr (c\<lparr>cg_verbose := True\<rparr>)
      else if arg = ''--js-only'' then Inr (c\<lparr>cg_jsOnly := True\<rparr>)
      else if arg = ''--dts-only'' then Inr (c\<lparr>cg_dtsOnly := True\<rparr>)
      else if starts_with arg ''--json-out='' then Inr (c\<lparr>cg_jsonOut := Some (drop 11 arg)\<rparr>)
      else if arg = ''--json-out'' then Inr (c\<lparr>cg_jsonOut := Some defaultJson\<rparr>)
      else if arg = ''--help'' \<or> arg = ''-h'' then Inl Help_printed
      else Inr c)"

fun parse_arg_list :: "string \<Rightarrow> string list \<Rightarrow> run_config \<Rightarrow> args_stop + run_config" where
  "parse_arg_list defaultJson [] c = Inr c"
| "parse_arg_list defaultJson (a # as) c =
     (case parse_arg defaultJson a c of Inl e \<Rightarrow> Inl e | Inr c' \<Rightarrow> parse_arg_list defaultJson as c')"

definition parseArgs :: "int \<Rightarrow> string \<Rightarrow> string list \<Rightarrow> args_stop + run_config" where
  "parseArgs cpus defaultJson args =
     (case parse_arg_list defaultJson args (default_config cpus) of
        Inl e \<Rightarrow> Inl e
      | Inr c \<Rightarrow>
          if cg_jsOnly c \<and> cg_dtsOnly c then Inl (Args_error ''--js-only and --dts-only are mutually exclusive'')
          else Inr c)"

section \<open>The candidates and the window\<close>

definition candidate_files :: "string list \<Rightarrow> string \<Rightarrow> string list" where
  "candidate_files entries flt =
     (let jsFiles = sort_strings (filter (\<lambda>e. ends_with e ''.js'') entries) in
      if flt \<noteq> [] then filter (\<lambda>f. str_includes (to_lower f) (to_lower flt)) jsFiles else jsFiles)"

definition limit_of :: "js_number \<Rightarrow> int option" where
  "limit_of m = (case m of Num n \<Rightarrow> Some n | _ \<Rightarrow> None)"

definition js_plus :: "js_number \<Rightarrow> js_number \<Rightarrow> js_number" where
  "js_plus a b =
     (case (a, b) of
        (NaN, _) \<Rightarrow> NaN | (_, NaN) \<Rightarrow> NaN
      | (Infinite, _) \<Rightarrow> Infinite | (_, Infinite) \<Rightarrow> Infinite
      | (Num x, Num y) \<Rightarrow> Num (x + y))"

definition positive :: "js_number \<Rightarrow> bool" where
  "positive x = (case x of NaN \<Rightarrow> False | Infinite \<Rightarrow> True | Num n \<Rightarrow> 0 < n)"

definition discoveredLimit :: "run_config \<Rightarrow> js_number" where
  "discoveredLimit c = (if positive (cg_offset c) then js_plus (cg_maxTests c) (cg_offset c) else cg_maxTests c)"

text \<open>\<open>slice\<close> with a start and an end that are not negative.\<close>

definition js_slice :: "js_number \<Rightarrow> js_number \<Rightarrow> 'a list \<Rightarrow> 'a list" where
  "js_slice a b xs =
     (let s = (case a of Num n \<Rightarrow> nat n | Infinite \<Rightarrow> length xs | NaN \<Rightarrow> 0);
          e = (case b of Num n \<Rightarrow> nat n | Infinite \<Rightarrow> length xs | NaN \<Rightarrow> 0)
      in drop s (take e xs))"

definition window :: "run_config \<Rightarrow> 'a list \<Rightarrow> 'a list" where
  "window c discovered =
     (if positive (cg_offset c) then js_slice (cg_offset c) (js_plus (cg_offset c) (cg_maxTests c)) discovered
      else discovered)"

section \<open>The source of a test\<close>

record resolved_source =
  rs_directives :: "(string \<times> jsval) list"
  rs_files :: "source_unit list"
  rs_source :: "string option"
  rs_fileName :: "string option"
  rs_links :: "link_input list"
  rs_failed :: bool

record source_cache =
  sc_parsed :: "(string \<times> parsed_source_test) list"
  sc_failures :: "string list"

definition baseline_units :: "baseline \<Rightarrow> source_unit list" where
  "baseline_units b = map (\<lambda>f. \<lparr>u_name = fst f, u_content = snd f\<rparr>) (b_sourceFiles b)"

definition no_source :: parsed_source_test where
  "no_source = \<lparr>p_options = [], p_source = None, sourceFileName = None, sourceFiles = [], p_links = []\<rparr>"

definition baseline_source :: "baseline \<Rightarrow> resolved_source" where
  "baseline_source b =
     \<lparr>rs_directives = [], rs_files = baseline_units b, rs_source = b_source b, rs_fileName = b_sourceFileName b,
      rs_links = [], rs_failed = False\<rparr>"

text \<open>What a parsed test source replaces.\<close>

definition with_parsed :: "parsed_source_test \<Rightarrow> bool \<Rightarrow> resolved_source \<Rightarrow> resolved_source" where
  "with_parsed p failed rs =
     (let rs1 = rs\<lparr>rs_directives := p_options p, rs_links := p_links p, rs_failed := failed\<rparr> in
      if sourceFiles p \<noteq> []
      then rs1\<lparr>rs_files := sourceFiles p, rs_source := or_option (p_source p) (rs_source rs),
               rs_fileName := or_option (sourceFileName p) (rs_fileName rs)\<rparr>
      else rs1)"

text \<open>\<open>parse path\<close> reads and parses a test source; \<open>None\<close> when either throws.\<close>

definition resolve_source ::
  "(string \<Rightarrow> parsed_source_test option) \<Rightarrow> baseline \<Rightarrow> source_cache \<Rightarrow> resolved_source \<times> source_cache" where
  "resolve_source parse b cache =
     (if \<not> truthy (b_testPath b) then (baseline_source b, cache)
      else
        let p = the (b_testPath b) in
        case map_get (sc_parsed cache) p of
          Some cached \<Rightarrow> (with_parsed cached (p \<in> set (sc_failures cache)) (baseline_source b), cache)
        | None \<Rightarrow>
            (case parse p of
               Some parsed \<Rightarrow>
                 (with_parsed parsed False (baseline_source b), cache\<lparr>sc_parsed := map_set p parsed (sc_parsed cache)\<rparr>)
             | None \<Rightarrow>
                 ((baseline_source b)\<lparr>rs_failed := True\<rparr>,
                  cache\<lparr>sc_failures := (if p \<in> set (sc_failures cache) then sc_failures cache else sc_failures cache @ [p]),
                        sc_parsed := map_set p no_source (sc_parsed cache)\<rparr>)))"

text \<open>\<open>readTypeScriptTestFile\<close> and \<open>parseSourceTest\<close> with the base name of the path.\<close>

definition parse_test :: "(string \<Rightarrow> unit16 list option) \<Rightarrow> string \<Rightarrow> parsed_source_test option" where
  "parse_test read p = (case read p of None \<Rightarrow> None | Some us \<Rightarrow> parseSourceTest us (Some (path_basename p)))"

section \<open>The test case\<close>

record test_case =
  tc_baselineFile :: string
  tc_testPath :: "string option"
  tc_sourceFileName :: "string option"
  tc_sourceFiles :: "source_unit list"
  tc_rootFileNames :: "string list"
  tc_links :: "link_input list"
  tc_source :: string
  tc_jsProductDomain :: "string list"
  tc_dtsProductDomain :: "string list"
  tc_target :: "int option"
  tc_module :: "int option"
  tc_lib :: "string list option"
  tc_flags :: flag_options
  tc_unsupported :: "string option"

definition boolean_reads :: "string list" where
  "boolean_reads =
     [''alwaysStrict'', ''sourceMap'', ''inlineSourceMap'', ''declarationMap'', ''downlevelIteration'', ''noEmitHelpers'',
      ''noEmitOnError'', ''noCheck'', ''noLib'', ''noEmit'', ''declaration'', ''emitDeclarationOnly'', ''importHelpers'',
      ''esModuleInterop'', ''useDefineForClassFields'', ''experimentalDecorators'', ''emitDecoratorMetadata'', ''strict'',
      ''strictNullChecks'', ''exactOptionalPropertyTypes'', ''preserveConstEnums'', ''verbatimModuleSyntax'',
      ''rewriteRelativeImportExtensions'', ''isolatedModules'', ''preserveValueImports'', ''removeComments'',
      ''stripInternal'', ''allowJs'', ''allowUnreachableCode'', ''checkJs'', ''noImplicitAny'', ''noUnusedLocals'',
      ''noUnusedParameters'', ''skipLibCheck'', ''strictPropertyInitialization'']"

definition string_reads :: "string list" where
  "string_reads =
     [''moduleResolution'', ''jsx'', ''jsxFactory'', ''jsxFragmentFactory'', ''jsxImportSource'', ''moduleDetection'',
      ''importsNotUsedAsValues'', ''baseUrl'', ''outFile'', ''outDir'', ''declarationDir'', ''rootDir'']"

definition read_flags :: "resolved_options \<Rightarrow> flag_options" where
  "read_flags a =
     concat (map (\<lambda>k. case optionBoolean a k of Some v \<Rightarrow> [(k, Flag v)] | None \<Rightarrow> []) boolean_reads) @
     concat (map (\<lambda>k. case optionString a k of Some v \<Rightarrow> [(k, Setting v)] | None \<Rightarrow> []) string_reads)"

definition map_options :: "string list" where
  "map_options = [''sourcemap'', ''inlinesourcemap'', ''declarationmap'', ''maproot'', ''sourceroot'', ''inlinesources'']"

definition support_of ::
  "string list \<Rightarrow> bool \<Rightarrow> string \<Rightarrow> baseline \<Rightarrow> resolved_source \<Rightarrow> resolved_options \<Rightarrow> support_input" where
  "support_of submoduleNames dtsOnly baselineFile b rs a =
     (let target = map_option parseTarget (optionString a ''target'');
          effectiveTarget = (case target of Some t \<Rightarrow> t | None \<Rightarrow> 12);
          effectiveModule = (case map_option parseModule (optionString a ''module'') of
              Some m \<Rightarrow> m | None \<Rightarrow> inferDefaultModule effectiveTarget);
          noEmit = (optionBoolean a ''noEmit'' = Some True)
      in \<lparr>parserHasSource = (rs_files rs \<noteq> []),
          parserHasJs = (b_jsOutputs b \<noteq> [] \<or> optionBoolean a ''emitDeclarationOnly'' = Some True \<or> noEmit),
          parserHasDts = (b_dtsOutputs b \<noteq> [] \<or> noEmit),
          si_dtsOnly = dtsOnly,
          sourceReadFailed = rs_failed rs,
          si_target = effectiveTarget,
          si_module = effectiveModule,
          si_moduleResolution = (case optionString a ''moduleResolution'' of Some r \<Rightarrow> to_lower r | None \<Rightarrow> []),
          si_alwaysStrict = optionBoolean a ''alwaysStrict'',
          hasDownlevelIterationOption = map_has a ''downleveliteration'',
          esModuleInteropDisabled = (optionBoolean a ''esModuleInterop'' = Some False),
          hasOutFile = (optionString a ''outFile'' \<noteq> None),
          hasBaseUrl = (optionString a ''baseUrl'' \<noteq> None),
          hasMapOption = list_ex (map_has a) map_options,
          hasBaselineSidecar = hasEmitSidecar baselineFile submoduleNames\<rparr>)"

definition unsupported_reasons ::
  "string list \<Rightarrow> bool \<Rightarrow> string \<Rightarrow> baseline \<Rightarrow> resolved_source \<Rightarrow> embedded_result \<Rightarrow> resolved_options \<Rightarrow> string list" where
  "unsupported_reasons submoduleNames dtsOnly baselineFile b rs embedded a =
     canonicalUnsupportedReasons (support_of submoduleNames dtsOnly baselineFile b rs a) @
     (if b_dtsOutputs b \<noteq> [] \<and> optionBoolean a ''declaration'' \<noteq> Some True \<and>
         optionBoolean a ''emitDeclarationOnly'' \<noteq> Some True \<and> optionBoolean a ''noEmit'' \<noteq> Some True
      then [''declaration-product-domain-without-authored-declaration''] else []) @
     er_reasons embedded @
     (let r = unsupportedReason (selectHarnessRootFiles (rs_files rs) (optionBoolean a ''noImplicitReferences''))
      in if truthy r then [the r] else []) @
     authoredOptionFailureReasons a"

definition authored_sources_of ::
  "(string \<Rightarrow> jsval \<times> nat) \<Rightarrow> string \<Rightarrow> resolved_source \<Rightarrow> authored_sources" where
  "authored_sources_of parseJsonc baselineFile rs =
     \<lparr>s_variant = extractAuthoredVariantFromFilename baselineFile, s_directives = rs_directives rs,
      s_embedded = er_options (parseEmbeddedCompilerOptions parseJsonc (rs_files rs))\<rparr>"

definition build_case ::
  "(string \<Rightarrow> jsval \<times> nat) \<Rightarrow> string list \<Rightarrow> bool \<Rightarrow> string \<Rightarrow> baseline \<Rightarrow> resolved_source \<Rightarrow> test_case" where
  "build_case parseJsonc submoduleNames dtsOnly baselineFile b rs =
     (let embedded = parseEmbeddedCompilerOptions parseJsonc (rs_files rs);
          a = resolveAuthoredOptions (authored_sources_of parseJsonc baselineFile rs);
          reasons = unsupported_reasons submoduleNames dtsOnly baselineFile b rs embedded a
      in \<lparr>tc_baselineFile = baselineFile,
          tc_testPath = b_testPath b,
          tc_sourceFileName = rs_fileName rs,
          tc_sourceFiles = rs_files rs,
          tc_rootFileNames = rootFileNames (selectHarnessRootFiles (rs_files rs) (optionBoolean a ''noImplicitReferences'')),
          tc_links = rs_links rs,
          tc_source = (case or_option (rs_source rs) (b_source b) of Some s \<Rightarrow> s | None \<Rightarrow> []),
          tc_jsProductDomain = b_jsOutputs b,
          tc_dtsProductDomain = b_dtsOutputs b,
          tc_target = map_option parseTarget (optionString a ''target''),
          tc_module = map_option parseModule (optionString a ''module''),
          tc_lib = optionLibList a,
          tc_flags = read_flags a,
          tc_unsupported = (if reasons \<noteq> [] then Some (join '', '' reasons) else None)\<rparr>)"

text \<open>One baseline after the other, with the cache of parsed sources.\<close>

definition discover_one ::
  "(string \<Rightarrow> jsval \<times> nat) \<Rightarrow> (string \<Rightarrow> string) \<Rightarrow> (string \<Rightarrow> parsed_source_test option) \<Rightarrow> string list \<Rightarrow> bool \<Rightarrow>
   string \<Rightarrow> source_cache \<Rightarrow> test_case \<times> source_cache" where
  "discover_one parseJsonc readBaseline parse submoduleNames dtsOnly baselineFile cache =
     (let b = parseBaseline (readBaseline baselineFile) in
      case resolve_source parse b cache of
        (rs, cache') \<Rightarrow> (build_case parseJsonc submoduleNames dtsOnly baselineFile b rs, cache'))"

fun discover ::
  "(string \<Rightarrow> jsval \<times> nat) \<Rightarrow> (string \<Rightarrow> string) \<Rightarrow> (string \<Rightarrow> parsed_source_test option) \<Rightarrow> string list \<Rightarrow> bool \<Rightarrow>
   string list \<Rightarrow> source_cache \<Rightarrow> test_case list \<times> source_cache" where
  "discover parseJsonc readBaseline parse submoduleNames dtsOnly [] cache = ([], cache)"
| "discover parseJsonc readBaseline parse submoduleNames dtsOnly (f # fs) cache =
     (case discover_one parseJsonc readBaseline parse submoduleNames dtsOnly f cache of
        (tc, cache1) \<Rightarrow>
          (case discover parseJsonc readBaseline parse submoduleNames dtsOnly fs cache1 of
             (tcs, cache2) \<Rightarrow> (tc # tcs, cache2)))"

definition empty_cache :: source_cache where
  "empty_cache = \<lparr>sc_parsed = [], sc_failures = []\<rparr>"

text \<open>\<open>dtsFilter\<close> is the filter of declaration mode.\<close>

definition findTestCases ::
  "(string \<Rightarrow> jsval \<times> nat) \<Rightarrow> (string \<Rightarrow> string) \<Rightarrow> (string \<Rightarrow> parsed_source_test option) \<Rightarrow>
   (string list \<Rightarrow> string list) \<Rightarrow> string list \<Rightarrow> string \<Rightarrow> js_number \<Rightarrow> bool \<Rightarrow> test_case list" where
  "findTestCases parseJsonc readBaseline parse dtsFilter entries flt maxTests dtsOnly =
     (let jsFiles = candidate_files entries flt;
          jsFiles = (if dtsOnly then dtsFilter jsFiles else jsFiles);
          jsFiles = retainCanonicalInventory jsFiles (limit_of maxTests)
      in fst (discover parseJsonc readBaseline parse entries dtsOnly jsFiles empty_cache))"

definition selected_cases ::
  "(string \<Rightarrow> jsval \<times> nat) \<Rightarrow> (string \<Rightarrow> string) \<Rightarrow> (string \<Rightarrow> parsed_source_test option) \<Rightarrow>
   (string list \<Rightarrow> string list) \<Rightarrow> string list \<Rightarrow> run_config \<Rightarrow> test_case list" where
  "selected_cases parseJsonc readBaseline parse dtsFilter entries c =
     window c (findTestCases parseJsonc readBaseline parse dtsFilter entries (cg_filter c) (discoveredLimit c) (cg_dtsOnly c))"

section \<open>The cache of declaration baselines\<close>

record 'm dts_entry =
  de_version :: int
  de_mtimeMs :: 'm
  de_size :: int
  de_hasDts :: bool

definition DTS_DISCOVERY_CACHE_VERSION :: int where
  "DTS_DISCOVERY_CACHE_VERSION = 4"

definition usable_entry :: "('m \<times> int) \<Rightarrow> 'm dts_entry \<Rightarrow> bool" where
  "usable_entry st e \<longleftrightarrow>
     de_version e = DTS_DISCOVERY_CACHE_VERSION \<and> de_mtimeMs e = fst st \<and> de_size e = snd st"

definition has_dts :: "(string \<Rightarrow> string) \<Rightarrow> string \<Rightarrow> bool" where
  "has_dts readBaseline file \<longleftrightarrow> b_dtsOutputs (parseBaseline (readBaseline file)) \<noteq> []"

text \<open>What one check finds, and the entry it writes when it had to read the file.\<close>

definition dts_check ::
  "(string \<Rightarrow> 'm \<times> int) \<Rightarrow> (string \<Rightarrow> string) \<Rightarrow> (string \<times> 'm dts_entry) list \<Rightarrow> string \<Rightarrow> bool \<times> 'm dts_entry option" where
  "dts_check stat readBaseline cached file =
     (let fresh = has_dts readBaseline file;
          written = \<lparr>de_version = DTS_DISCOVERY_CACHE_VERSION, de_mtimeMs = fst (stat file), de_size = snd (stat file),
                     de_hasDts = fresh\<rparr>
      in case map_get cached file of
           Some e \<Rightarrow> if usable_entry (stat file) e then (de_hasDts e, None) else (fresh, Some written)
         | None \<Rightarrow> (fresh, Some written))"

definition write_entry ::
  "(string \<Rightarrow> 'm \<times> int) \<Rightarrow> (string \<Rightarrow> string) \<Rightarrow> (string \<times> 'm dts_entry) list \<Rightarrow> string \<Rightarrow>
   (string \<times> 'm dts_entry) list \<Rightarrow> (string \<times> 'm dts_entry) list" where
  "write_entry stat readBaseline cached file updated =
     (case snd (dts_check stat readBaseline cached file) of
        Some e \<Rightarrow> obj_set file e updated
      | None \<Rightarrow> updated)"

definition filterToDtsBaselines ::
  "(string \<Rightarrow> 'm \<times> int) \<Rightarrow> (string \<Rightarrow> string) \<Rightarrow> (string \<times> 'm dts_entry) list \<Rightarrow> string list \<Rightarrow>
   string list \<times> (string \<times> 'm dts_entry) list" where
  "filterToDtsBaselines stat readBaseline cached jsFiles =
     (filter (\<lambda>f. fst (dts_check stat readBaseline cached f)) jsFiles,
      fold (write_entry stat readBaseline cached) jsFiles cached)"

section \<open>The configuration\<close>

definition at_least :: "int \<Rightarrow> js_number \<Rightarrow> bool" where
  "at_least k x = (case x of NaN \<Rightarrow> True | Infinite \<Rightarrow> True | Num n \<Rightarrow> k \<le> n)"

definition config_ok :: "run_config \<Rightarrow> bool" where
  "config_ok c \<longleftrightarrow>
     cg_maxTests c \<noteq> NaN \<and> at_least 1 (cg_maxTests c) \<and> cg_offset c \<noteq> Infinite \<and> at_least 0 (cg_offset c) \<and>
     at_least 1 (cg_concurrency c) \<and> at_least 500 (cg_timeoutMs c)"

lemma at_least_js_max [simp]: "at_least k (js_max k x)"
  by (cases x) (simp_all add: at_least_def js_max_def)

lemma parseInt_finite: "js_max k (parseInt s) \<noteq> Infinite"
  by (auto simp: js_max_def parseInt_def Let_def split: prod.split list.splits if_splits)

definition stays_ok :: "args_stop + run_config \<Rightarrow> bool" where
  "stays_ok r = (case r of Inl _ \<Rightarrow> True | Inr c \<Rightarrow> config_ok c)"

lemma stays_ok_simps [simp]: "stays_ok (Inl e)" "stays_ok (Inr c) = config_ok c"
  by (simp_all add: stays_ok_def)

lemma stays_ok_if: "stays_ok x \<Longrightarrow> stays_ok y \<Longrightarrow> stays_ok (if b then x else y)"
  by simp

lemma config_ok_update:
  assumes "config_ok c"
  shows "config_ok (c\<lparr>cg_maxTests := Infinite\<rparr>)" "config_ok (c\<lparr>cg_offset := js_max 0 (parseInt s)\<rparr>)"
    "config_ok (c\<lparr>cg_filter := s\<rparr>)" "config_ok (c\<lparr>cg_concurrency := js_max 1 x\<rparr>)"
    "config_ok (c\<lparr>cg_timeoutMs := js_max 500 x\<rparr>)" "config_ok (c\<lparr>cg_verbose := b\<rparr>)"
    "config_ok (c\<lparr>cg_jsOnly := b\<rparr>)" "config_ok (c\<lparr>cg_dtsOnly := b\<rparr>)" "config_ok (c\<lparr>cg_jsonOut := j\<rparr>)"
    "\<not> n \<le> 0 \<Longrightarrow> config_ok (c\<lparr>cg_maxTests := Num n\<rparr>)"
  using assms parseInt_finite[of 0 s] by (simp_all add: config_ok_def) (simp_all add: at_least_def)

lemma parse_max_ok: "config_ok c \<Longrightarrow> stays_ok (parse_max r c)"
  unfolding parse_max_def
  by (rule stays_ok_if) (auto simp: config_ok_update split: js_number.split)

lemma parse_arg_ok: "config_ok c \<Longrightarrow> stays_ok (parse_arg d a c)"
  unfolding parse_arg_def
  by (intro stays_ok_if) (simp_all only: stays_ok_simps config_ok_update parse_max_ok)

lemma parse_arg_list_ok: "parse_arg_list d as c = Inr c' \<Longrightarrow> config_ok c \<Longrightarrow> config_ok c'"
proof (induction as arbitrary: c)
  case (Cons a as)
  then obtain c1 where "parse_arg d a c = Inr c1" "parse_arg_list d as c1 = Inr c'"
    by (auto split: sum.splits)
  then show ?case using Cons parse_arg_ok[OF Cons.prems(2), of d a] by simp
qed simp

lemma config_of_args:
  assumes "parseArgs cpus defaultJson args = Inr c"
  shows "config_ok c \<and> \<not> (cg_jsOnly c \<and> cg_dtsOnly c)"
proof -
  have "config_ok (default_config cpus)" by (simp add: config_ok_def default_config_def at_least_def)
  then show ?thesis using assms parse_arg_list_ok
    by (auto simp: parseArgs_def split: sum.splits if_splits)
qed


lemma concurrency_not_a_number:
  "parseArgs 8 d [''--concurrency=abc'', ''--timeout=x'', ''--offset=y''] =
     Inr ((default_config 8)\<lparr>cg_concurrency := NaN, cg_timeoutMs := NaN, cg_offset := NaN\<rparr>)"
  by code_simp

section \<open>The caches are transparent\<close>

definition cache_ok :: "(string \<Rightarrow> parsed_source_test option) \<Rightarrow> source_cache \<Rightarrow> bool" where
  "cache_ok parse cache \<longleftrightarrow>
     (\<forall>p \<in> set (sc_failures cache). parse p = None) \<and>
     (\<forall>p q. map_get (sc_parsed cache) p = Some q \<longrightarrow>
        parse p = Some q \<or> (parse p = None \<and> q = no_source \<and> p \<in> set (sc_failures cache)))"

text \<open>Resolving a source without a cache.\<close>

definition fresh_source :: "(string \<Rightarrow> parsed_source_test option) \<Rightarrow> baseline \<Rightarrow> resolved_source" where
  "fresh_source parse b = fst (resolve_source parse b empty_cache)"

lemma map_get_set: "map_get (map_set k v m) p = (if p = k then Some v else map_get m p)"
  by (simp add: map_get_def map_set_def update_conv')

lemma with_no_source: "with_parsed no_source True (baseline_source b) = (baseline_source b)\<lparr>rs_failed := True\<rparr>"
  by (simp add: with_parsed_def no_source_def baseline_source_def Let_def)

lemma cache_ok_empty: "cache_ok parse empty_cache"
  by (simp add: cache_ok_def empty_cache_def map_get_def)

lemma cache_ok_parsed:
  "cache_ok parse c \<Longrightarrow> parse p = Some q \<Longrightarrow> cache_ok parse (c\<lparr>sc_parsed := map_set p q (sc_parsed c)\<rparr>)"
  by (auto simp: cache_ok_def map_get_set)

lemma cache_ok_failed:
  "cache_ok parse c \<Longrightarrow> parse p = None \<Longrightarrow> p \<in> set fs \<Longrightarrow> set fs \<subseteq> insert p (set (sc_failures c)) \<Longrightarrow>
   set (sc_failures c) \<subseteq> set fs \<Longrightarrow>
   cache_ok parse (c\<lparr>sc_failures := fs, sc_parsed := map_set p no_source (sc_parsed c)\<rparr>)"
  unfolding cache_ok_def by (auto simp: map_get_set) blast

lemma cache_ok_hit:
  "cache_ok parse c \<Longrightarrow> map_get (sc_parsed c) p = Some q \<Longrightarrow>
   parse p = Some q \<or> (parse p = None \<and> q = no_source \<and> p \<in> set (sc_failures c))"
  unfolding cache_ok_def by blast

lemma cache_ok_failure: "cache_ok parse c \<Longrightarrow> parse p = Some q \<Longrightarrow> p \<notin> set (sc_failures c)"
  unfolding cache_ok_def by (metis option.distinct(1))

lemma fresh_source_eq:
  "fresh_source parse b =
     (if \<not> truthy (b_testPath b) then baseline_source b
      else case parse (the (b_testPath b)) of
        Some q \<Rightarrow> with_parsed q False (baseline_source b)
      | None \<Rightarrow> (baseline_source b)\<lparr>rs_failed := True\<rparr>)"
  by (simp add: fresh_source_def resolve_source_def empty_cache_def Let_def map_get_def split: option.split)

lemma resolve_cached:
  assumes "cache_ok parse cache"
  shows "fst (resolve_source parse b cache) = fresh_source parse b \<and> cache_ok parse (snd (resolve_source parse b cache))"
proof (cases "truthy (b_testPath b)")
  case False
  then show ?thesis using assms by (simp add: resolve_source_def fresh_source_eq)
next
  case True
  let ?p = "the (b_testPath b)"
  show ?thesis
  proof (cases "map_get (sc_parsed cache) ?p")
    case (Some q)
    then have r: "resolve_source parse b cache =
        (with_parsed q (?p \<in> set (sc_failures cache)) (baseline_source b), cache)"
      using True by (simp add: resolve_source_def Let_def)
    consider "parse ?p = Some q" | "parse ?p = None" "q = no_source" "?p \<in> set (sc_failures cache)"
      using cache_ok_hit[OF assms Some] by metis
    then show ?thesis
    proof cases
      case 1
      then have "?p \<notin> set (sc_failures cache)" by (rule cache_ok_failure[OF assms])
      then show ?thesis using 1 r assms True by (simp add: fresh_source_eq)
    next
      case 2
      then show ?thesis using r assms True by (simp add: fresh_source_eq with_no_source)
    qed
  next
    case None
    show ?thesis
    proof (cases "parse ?p")
      case (Some q)
      then show ?thesis using True None cache_ok_parsed[OF assms Some]
        by (simp add: resolve_source_def fresh_source_eq Let_def)
    next
      case none: None
      let ?fs = "if ?p \<in> set (sc_failures cache) then sc_failures cache else sc_failures cache @ [?p]"
      have "cache_ok parse (cache\<lparr>sc_failures := ?fs, sc_parsed := map_set ?p no_source (sc_parsed cache)\<rparr>)"
        by (rule cache_ok_failed[OF assms none]) auto
      moreover have "resolve_source parse b cache = ((baseline_source b)\<lparr>rs_failed := True\<rparr>,
          cache\<lparr>sc_failures := ?fs, sc_parsed := map_set ?p no_source (sc_parsed cache)\<rparr>)"
        using True None none by (simp only: resolve_source_def Let_def simp_thms if_False option.case)
      moreover have "fresh_source parse b = (baseline_source b)\<lparr>rs_failed := True\<rparr>"
        using True none by (simp only: fresh_source_eq simp_thms if_False option.case)
      ultimately show ?thesis by simp
    qed
  qed
qed

definition fresh_case ::
  "(string \<Rightarrow> jsval \<times> nat) \<Rightarrow> (string \<Rightarrow> string) \<Rightarrow> (string \<Rightarrow> parsed_source_test option) \<Rightarrow> string list \<Rightarrow> bool \<Rightarrow>
   string \<Rightarrow> test_case" where
  "fresh_case parseJsonc readBaseline parse submoduleNames dtsOnly f =
     build_case parseJsonc submoduleNames dtsOnly f (parseBaseline (readBaseline f))
       (fresh_source parse (parseBaseline (readBaseline f)))"

lemma discover_map:
  "cache_ok parse cache \<Longrightarrow>
   fst (discover parseJsonc readBaseline parse submoduleNames dtsOnly fs cache) =
     map (fresh_case parseJsonc readBaseline parse submoduleNames dtsOnly) fs"
proof (induction fs arbitrary: cache)
  case (Cons f fs)
  obtain rs c1 where r: "resolve_source parse (parseBaseline (readBaseline f)) cache = (rs, c1)" by fastforce
  then have c: "rs = fresh_source parse (parseBaseline (readBaseline f))" "cache_ok parse c1"
    using resolve_cached[OF Cons.prems, of "parseBaseline (readBaseline f)"] by simp_all
  obtain tcs c2 where d: "discover parseJsonc readBaseline parse submoduleNames dtsOnly fs c1 = (tcs, c2)" by fastforce
  then have "tcs = map (fresh_case parseJsonc readBaseline parse submoduleNames dtsOnly) fs"
    using Cons.IH[OF c(2)] by simp
  then show ?case using c(1) r d by (simp add: discover_one_def fresh_case_def Let_def)
qed simp

text \<open>The candidates of a run in their order.\<close>

definition run_candidates :: "(string list \<Rightarrow> string list) \<Rightarrow> string list \<Rightarrow> run_config \<Rightarrow> string list" where
  "run_candidates dtsFilter entries c =
     (if cg_dtsOnly c then dtsFilter (candidate_files entries (cg_filter c)) else candidate_files entries (cg_filter c))"

definition count_offset :: "run_config \<Rightarrow> nat" where
  "count_offset c = (case cg_offset c of Num n \<Rightarrow> nat n | _ \<Rightarrow> 0)"

definition take_limit :: "js_number \<Rightarrow> 'a list \<Rightarrow> 'a list" where
  "take_limit m xs = (case m of Num n \<Rightarrow> take (nat n) xs | _ \<Rightarrow> xs)"

lemma window_take:
  assumes "config_ok c"
  shows "window c (map f (retainCanonicalInventory xs (limit_of (discoveredLimit c)))) =
    map f (take_limit (cg_maxTests c) (drop (count_offset c) xs))"
proof (cases "positive (cg_offset c)")
  case True
  then obtain k where k: "cg_offset c = Num k" "0 < k"
    using assms by (cases "cg_offset c") (auto simp: positive_def config_ok_def)
  show ?thesis
  proof (cases "cg_maxTests c")
    case (Num n)
    then have "1 \<le> n" using assms by (simp add: config_ok_def at_least_def)
    then have "nat (n + k) = nat n + nat k" "nat (k + n) = nat n + nat k" "0 \<le> n + k" using k by simp_all
    then show ?thesis using k Num
      by (simp add: window_def positive_def discoveredLimit_def js_plus_def limit_of_def retainCanonicalInventory_def
          js_slice_def count_offset_def take_limit_def take_map drop_map drop_take)
  next
    case Infinite
    then show ?thesis using k
      by (simp add: window_def positive_def discoveredLimit_def js_plus_def limit_of_def retainCanonicalInventory_def
          js_slice_def count_offset_def take_limit_def drop_map)
  qed (use assms in \<open>simp add: config_ok_def\<close>)
next
  case False
  then have z: "count_offset c = 0"
    using assms by (cases "cg_offset c") (simp_all add: positive_def count_offset_def config_ok_def)
  show ?thesis
  proof (cases "cg_maxTests c")
    case (Num n)
    then have "1 \<le> n" using assms by (simp add: config_ok_def at_least_def)
    then show ?thesis using False z Num
      by (simp add: window_def discoveredLimit_def limit_of_def retainCanonicalInventory_def take_limit_def take_map)
  next
    case Infinite
    then show ?thesis using False z
      by (simp add: window_def discoveredLimit_def limit_of_def retainCanonicalInventory_def take_limit_def)
  qed (use assms in \<open>simp add: config_ok_def\<close>)
qed

text \<open>C6: the cases of a run are, in the order of the sorted candidates, those of the window that
  starts at the offset and is as long as the requested number of tests; each is the case its
  baseline and its test source give by themselves, so neither the limit applied before reading
  nor the cache of parsed sources, which keeps failures too, shows in the result.\<close>

theorem selected_cases_exact:
  assumes "parseArgs cpus defaultJson args = Inr c"
  shows "selected_cases parseJsonc readBaseline parse dtsFilter entries c =
    map (fresh_case parseJsonc readBaseline parse entries (cg_dtsOnly c))
      (take_limit (cg_maxTests c) (drop (count_offset c) (run_candidates dtsFilter entries c)))"
proof -
  have "config_ok c" using config_of_args assms by blast
  then show ?thesis
    by (simp add: window_take selected_cases_def findTestCases_def Let_def discover_map[OF cache_ok_empty] run_candidates_def)
qed

theorem selected_cases_exact_witness:
  "selected_cases (\<lambda>t. (JNull, 1)) (\<lambda>f. []) (\<lambda>p. None) (\<lambda>fs. fs) [''b.js'', ''a.js'', ''c.js'', ''a.types'']
      ((default_config 4)\<lparr>cg_offset := Num 1, cg_maxTests := Num 1\<rparr>) =
    map (fresh_case (\<lambda>t. (JNull, 1)) (\<lambda>f. []) (\<lambda>p. None) [''b.js'', ''a.js'', ''c.js'', ''a.types''] False) [''b.js'']"
proof -
  let ?c = "(default_config 4)\<lparr>cg_offset := Num 1, cg_maxTests := Num 1\<rparr>"
  have a: "parseArgs 4 [] [''--offset=1'', ''--max=1''] = Inr ?c" by code_simp
  have "take_limit (cg_maxTests ?c) (drop (count_offset ?c)
      (run_candidates (\<lambda>fs. fs) [''b.js'', ''a.js'', ''c.js'', ''a.types''] ?c)) = [''b.js'']" by code_simp
  moreover have "cg_dtsOnly ?c = False" by (simp add: default_config_def)
  ultimately show ?thesis using selected_cases_exact[OF a] by metis
qed

section \<open>The declaration cache is transparent\<close>

text \<open>Entries whose key is current tell the truth.\<close>

definition truthful ::
  "(string \<Rightarrow> 'm \<times> int) \<Rightarrow> (string \<Rightarrow> string) \<Rightarrow> (string \<times> 'm dts_entry) list \<Rightarrow> bool" where
  "truthful stat readBaseline cached \<longleftrightarrow>
     (\<forall>f e. map_get cached f = Some e \<and> usable_entry (stat f) e \<longrightarrow> de_hasDts e = has_dts readBaseline f)"

lemma dts_check_fresh:
  "truthful stat readBaseline cached \<Longrightarrow> fst (dts_check stat readBaseline cached f) = has_dts readBaseline f"
  by (auto simp: dts_check_def Let_def truthful_def split: option.splits)

lemma written_truth:
  "snd (dts_check stat readBaseline cached f) = Some e \<Longrightarrow> de_hasDts e = has_dts readBaseline f"
  by (auto simp: dts_check_def Let_def split: option.splits if_splits)

lemma write_truthful:
  "truthful stat readBaseline m \<Longrightarrow> truthful stat readBaseline (write_entry stat readBaseline cached f m)"
proof (cases "snd (dts_check stat readBaseline cached f)")
  case (Some e)
  assume m: "truthful stat readBaseline m"
  have "map_get (obj_set f e m) g = Some e' \<Longrightarrow> (g = f \<and> e' = e) \<or> map_get m g = Some e'" for g e'
    by (cases "f = ''__proto__''")
      (auto simp: obj_set_def map_get_def update_conv' obj_insert_map_of split: if_splits)
  then show ?thesis using m written_truth[OF Some] Some unfolding truthful_def write_entry_def by fastforce
qed (simp add: write_entry_def)

text \<open>With a cache whose current entries are truthful the declaration filter keeps exactly the
  baselines that have declaration products, whatever the cache holds, and the cache it saves is
  truthful again.\<close>

theorem filterToDtsBaselines_transparent:
  assumes "truthful stat readBaseline cached"
  shows "fst (filterToDtsBaselines stat readBaseline cached jsFiles) = filter (has_dts readBaseline) jsFiles \<and>
    truthful stat readBaseline (snd (filterToDtsBaselines stat readBaseline cached jsFiles))"
proof
  show "fst (filterToDtsBaselines stat readBaseline cached jsFiles) = filter (has_dts readBaseline) jsFiles"
    by (simp add: filterToDtsBaselines_def dts_check_fresh[OF assms])
  have "truthful stat readBaseline m \<Longrightarrow> truthful stat readBaseline (fold (write_entry stat readBaseline cached) fs m)" for fs m
    by (induction fs arbitrary: m) (simp_all add: write_truthful)
  then show "truthful stat readBaseline (snd (filterToDtsBaselines stat readBaseline cached jsFiles))"
    using assms by (simp add: filterToDtsBaselines_def)
qed

theorem filterToDtsBaselines_transparent_witness:
  "fst (filterToDtsBaselines (\<lambda>f. (7 :: int, 0)) (\<lambda>f. [])
      [(''a.js'', \<lparr>de_version = 3, de_mtimeMs = 7, de_size = 0, de_hasDts = True\<rparr>)] [''a.js'']) =
    filter (has_dts (\<lambda>f. [])) [''a.js'']"
proof -
  have "truthful (\<lambda>f. (7 :: int, 0)) (\<lambda>f. [])
      [(''a.js'', \<lparr>de_version = 3, de_mtimeMs = 7, de_size = 0, de_hasDts = True\<rparr>)]"
    by (auto simp: truthful_def usable_entry_def DTS_DISCOVERY_CACHE_VERSION_def map_get_def split: if_splits)
  from filterToDtsBaselines_transparent[OF this] show ?thesis by blast
qed

section \<open>Reading the flags\<close>

lemma map_of_reads:
  "map_of (concat (map (\<lambda>k. case g k of Some v \<Rightarrow> [(k, h v)] | None \<Rightarrow> []) ks)) k =
     (if k \<in> set ks then map_option h (g k) else None)"
  by (induction ks) (auto simp: map_add_def split: option.splits)

lemma reads_disjoint: "list_all (\<lambda>k. k \<notin> set string_reads) boolean_reads"
  by code_simp

lemma read_flags_get:
  "map_of (read_flags a) k =
     (if k \<in> set boolean_reads then map_option Flag (optionBoolean a k)
      else if k \<in> set string_reads then map_option Setting (optionString a k) else None)"
  using reads_disjoint
  by (auto simp: read_flags_def map_add_def map_of_reads list_all_iff split: option.splits)

end
