(* ===== verification/ArtifactState.thy ===== *)
theory ArtifactState
  imports CanonicalProducts
begin

text \<open>
  The classification of a row, \<open>scripts/emit/src/artifact-state.ts\<close>: the state of the two
  invocations, the status of one emit surface, the repair of a row without a measured surface,
  and the counters the exit code of a run depends on.
\<close>

datatype artifact_state = A_complete | A_unsupported | A_timeout | A_crash | A_incomplete

datatype artifact_status =
    S_pass | S_fail | S_skip | S_unsupported | S_timeout | S_crash | S_incomplete

record status_counts =
  n_pass :: int
  n_fail :: int
  n_skip :: int
  n_unsupported :: int
  n_timeout :: int
  n_crash :: int
  n_incomplete :: int

record surface_selection =
  sel_js :: bool
  sel_dts :: bool

record surface_observation =
  ob_selected :: bool
  ob_match :: "bool option"
  ob_productMatch :: "bool option"
  ob_status :: artifact_status

record product_counts =
  pc_match :: int
  pc_mismatch :: int
  pc_unmeasured :: int

definition TSZ_SEMANTIC_INCOMPLETE_EXIT_CODE :: int where
  "TSZ_SEMANTIC_INCOMPLETE_EXIT_CODE = 3"

definition isCrashOutcome :: "compiler_outcome \<Rightarrow> bool" where
  "isCrashOutcome oc \<longleftrightarrow>
     co_exit oc < 0 \<or> co_exit oc > 2 \<or> (co_exit oc \<noteq> 0 \<and> length (co_codes oc) = 0)"

definition isProductCrashOutcome :: "compiler_outcome \<Rightarrow> bool" where
  "isProductCrashOutcome oc =
     (if co_exit oc = TSZ_SEMANTIC_INCOMPLETE_EXIT_CODE then False else isCrashOutcome oc)"

definition compareArtifactOutcomes :: "compiler_outcome \<Rightarrow> compiler_outcome \<Rightarrow> outcome_comparison" where
  "compareArtifactOutcomes oracle tsz = compareCompilerOutcomes oracle tsz"

definition compilerArtifactState :: "compiler_outcome \<Rightarrow> compiler_outcome \<Rightarrow> artifact_state" where
  "compilerArtifactState oracle tsz =
     (if isCrashOutcome oracle then A_crash
      else if co_exit tsz = TSZ_SEMANTIC_INCOMPLETE_EXIT_CODE then A_incomplete
      else if isProductCrashOutcome tsz then A_crash
      else A_complete)"

definition selectArtifactSurfaces :: "bool \<Rightarrow> bool \<Rightarrow> bool \<Rightarrow> surface_selection" where
  "selectArtifactSurfaces jsOnly dtsOnly emitsDeclarations =
     \<lparr>sel_js = (\<not> dtsOnly), sel_dts = (\<not> jsOnly \<and> (dtsOnly \<or> emitsDeclarations))\<rparr>"

definition state_status :: "artifact_state \<Rightarrow> artifact_status" where
  "state_status st = (case st of A_complete \<Rightarrow> S_pass | A_unsupported \<Rightarrow> S_unsupported
     | A_timeout \<Rightarrow> S_timeout | A_crash \<Rightarrow> S_crash | A_incomplete \<Rightarrow> S_incomplete)"

definition artifactStatus :: "artifact_state \<Rightarrow> bool option \<Rightarrow> artifact_status" where
  "artifactStatus st m =
     (case m of
        None \<Rightarrow> S_skip
      | Some b \<Rightarrow> if st \<noteq> A_complete then state_status st else if b then S_pass else S_fail)"

definition artifactSurfaceObservation ::
  "artifact_state \<Rightarrow> bool \<Rightarrow> bool option \<Rightarrow> bool option \<Rightarrow> surface_observation" where
  "artifactSurfaceObservation st selected outcomeMatch productMatch =
     (if \<not> selected then
        \<lparr>ob_selected = False, ob_match = None, ob_productMatch = None, ob_status = S_skip\<rparr>
      else
        let m = (outcomeMatch = Some True \<and> productMatch = Some True) in
        \<lparr>ob_selected = True, ob_match = Some m, ob_productMatch = productMatch,
         ob_status = artifactStatus st (Some m)\<rparr>)"

record measured_result =
  mr_state :: artifact_state
  mr_jsMatch :: "bool option"
  mr_dtsMatch :: "bool option"
  mr_jsError :: "string option"
  mr_dtsError :: "string option"

definition no_surface_error :: string where
  "no_surface_error = ''INCOMPLETE_CANONICAL_EMIT: selected row produced no measured surface''"

definition ensureMeasuredArtifact ::
  "'a measured_result_scheme \<Rightarrow> surface_selection \<Rightarrow> 'a measured_result_scheme" where
  "ensureMeasuredArtifact r selected =
     (let noJs = sel_js selected \<and> mr_jsMatch r = None;
          r1 = (if noJs then r\<lparr>mr_jsMatch := Some False, mr_jsError := Some no_surface_error\<rparr> else r);
          noDts = sel_dts selected \<and> mr_dtsMatch r1 = None;
          r2 = (if noDts then r1\<lparr>mr_dtsMatch := Some False, mr_dtsError := Some no_surface_error\<rparr> else r1)
      in if (noJs \<or> noDts) \<and> mr_state r2 = A_complete then r2\<lparr>mr_state := A_incomplete\<rparr> else r2)"

definition emptyArtifactStatusCounts :: status_counts where
  "emptyArtifactStatusCounts =
     \<lparr>n_pass = 0, n_fail = 0, n_skip = 0, n_unsupported = 0, n_timeout = 0, n_crash = 0, n_incomplete = 0\<rparr>"

definition emptyArtifactProductCounts :: product_counts where
  "emptyArtifactProductCounts = \<lparr>pc_match = 0, pc_mismatch = 0, pc_unmeasured = 0\<rparr>"

fun recordArtifactStatus :: "artifact_status \<Rightarrow> status_counts \<Rightarrow> status_counts" where
  "recordArtifactStatus S_pass c = c\<lparr>n_pass := n_pass c + 1\<rparr>"
| "recordArtifactStatus S_fail c = c\<lparr>n_fail := n_fail c + 1\<rparr>"
| "recordArtifactStatus S_skip c = c\<lparr>n_skip := n_skip c + 1\<rparr>"
| "recordArtifactStatus S_unsupported c = c\<lparr>n_unsupported := n_unsupported c + 1\<rparr>"
| "recordArtifactStatus S_timeout c = c\<lparr>n_timeout := n_timeout c + 1\<rparr>"
| "recordArtifactStatus S_crash c = c\<lparr>n_crash := n_crash c + 1\<rparr>"
| "recordArtifactStatus S_incomplete c = c\<lparr>n_incomplete := n_incomplete c + 1\<rparr>"

definition recordArtifactProduct :: "bool \<Rightarrow> bool option \<Rightarrow> product_counts \<Rightarrow> product_counts" where
  "recordArtifactProduct selected m c =
     (if \<not> selected then c
      else case m of
        Some True \<Rightarrow> c\<lparr>pc_match := pc_match c + 1\<rparr>
      | Some False \<Rightarrow> c\<lparr>pc_mismatch := pc_mismatch c + 1\<rparr>
      | None \<Rightarrow> c\<lparr>pc_unmeasured := pc_unmeasured c + 1\<rparr>)"

definition status_values :: "status_counts \<Rightarrow> int list" where
  "status_values c = [n_pass c, n_fail c, n_skip c, n_unsupported c, n_timeout c, n_crash c, n_incomplete c]"

definition artifactCandidateTotal :: "status_counts \<Rightarrow> int" where
  "artifactCandidateTotal c = foldl (+) 0 (status_values c) - n_skip c"

definition artifactHasNonPass :: "status_counts \<Rightarrow> bool" where
  "artifactHasNonPass c \<longleftrightarrow> artifactCandidateTotal c \<noteq> n_pass c"

section \<open>A pass is earned\<close>

lemma artifactStatus_pass: "artifactStatus st m = S_pass \<longleftrightarrow> st = A_complete \<and> m = Some True"
  by (auto simp: artifactStatus_def state_status_def split: option.splits artifact_state.splits)

lemma artifactStatus_skip: "artifactStatus st m = S_skip \<longleftrightarrow> m = None"
  by (auto simp: artifactStatus_def state_status_def split: option.splits artifact_state.splits)

lemma observation_pass:
  "ob_status (artifactSurfaceObservation st selected om pm) = S_pass \<longleftrightarrow>
     selected \<and> st = A_complete \<and> om = Some True \<and> pm = Some True"
  by (auto simp: artifactSurfaceObservation_def artifactStatus_pass Let_def)

lemma observation_skip:
  "ob_status (artifactSurfaceObservation st selected om pm) = S_skip \<longleftrightarrow> \<not> selected"
  by (auto simp: artifactSurfaceObservation_def artifactStatus_skip Let_def)

lemma state_complete:
  "compilerArtifactState o1 o2 = A_complete \<longleftrightarrow>
     (\<forall>oc \<in> {o1, o2}. co_exit oc \<in> {0, 1, 2} \<and> (co_exit oc = 0 \<or> co_codes oc \<noteq> []))"
  by (auto simp: compilerArtifactState_def isCrashOutcome_def isProductCrashOutcome_def
      TSZ_SEMANTIC_INCOMPLETE_EXIT_CODE_def)

text \<open>A surface is reported as passed exactly when it was selected, both processes ended in
  an ordinary way (exit 0, or exit 1 or 2 with a diagnostic code), the outcomes compare equal
  and the product sets are the same map from paths to bytes without duplicate paths. It is
  reported as skipped exactly when it was not selected.\<close>

theorem surface_pass_exact:
  "(ob_status (artifactSurfaceObservation (compilerArtifactState o1 o2) selected
       (Some (oc_match (compareArtifactOutcomes o1 o2)))
       (Some (sc_match (compareCanonicalProductSets p1 p2)))) = S_pass) =
   (selected \<and>
    (\<forall>oc \<in> {o1, o2}. co_exit oc \<in> {0, 1, 2} \<and> (co_exit oc = 0 \<or> co_codes oc \<noteq> [])) \<and>
    oc_match (compareCompilerOutcomes o1 o2) \<and>
    distinct (map p_path p1) \<and> distinct (map p_path p2) \<and> map_of (by_path p1) = map_of (by_path p2)) \<and>
   (ob_status (artifactSurfaceObservation (compilerArtifactState o1 o2) selected om pm) = S_skip) =
   (\<not> selected)"
  by (simp add: observation_pass observation_skip state_complete compareArtifactOutcomes_def sets_match_iff
      del: insert_iff ball_simps)

theorem surface_pass_exact_witness:
  "ob_status (artifactSurfaceObservation
      (compilerArtifactState \<lparr>co_exit = 0, co_codes = [], co_witnesses = None\<rparr>
         \<lparr>co_exit = 0, co_codes = [], co_witnesses = None\<rparr>) True
      (Some (oc_match (compareArtifactOutcomes \<lparr>co_exit = 0, co_codes = [], co_witnesses = None\<rparr>
         \<lparr>co_exit = 0, co_codes = [], co_witnesses = None\<rparr>)))
      (Some (sc_match (compareCanonicalProductSets [] [])))) = S_pass"
  using surface_pass_exact[of "\<lparr>co_exit = 0, co_codes = [], co_witnesses = None\<rparr>"
      "\<lparr>co_exit = 0, co_codes = [], co_witnesses = None\<rparr>" True "[]" "[]" None None]
  by (simp add: outcomes_match)

section \<open>No selected surface stays unmeasured\<close>

text \<open>After the repair no selected surface is without a match, a surface that had none is
  recorded as a mismatch with its error, such a row is no longer complete, and a row with every
  selected surface measured is unchanged.\<close>

theorem ensureMeasuredArtifact_measured:
  "let r' = ensureMeasuredArtifact r selected in
    (sel_js selected \<longrightarrow> mr_jsMatch r' \<noteq> None) \<and> (sel_dts selected \<longrightarrow> mr_dtsMatch r' \<noteq> None) \<and>
    (if (sel_js selected \<and> mr_jsMatch r = None) \<or> (sel_dts selected \<and> mr_dtsMatch r = None)
     then mr_state r' \<noteq> A_complete \<and>
       (sel_js selected \<and> mr_jsMatch r = None \<longrightarrow>
          mr_jsMatch r' = Some False \<and> mr_jsError r' = Some no_surface_error) \<and>
       (sel_dts selected \<and> mr_dtsMatch r = None \<longrightarrow>
          mr_dtsMatch r' = Some False \<and> mr_dtsError r' = Some no_surface_error)
     else r' = r)"
  by (auto simp: ensureMeasuredArtifact_def Let_def)

theorem ensureMeasuredArtifact_measured_witness:
  "mr_jsMatch (ensureMeasuredArtifact
     \<lparr>mr_state = A_complete, mr_jsMatch = None, mr_dtsMatch = None, mr_jsError = None, mr_dtsError = None\<rparr>
     \<lparr>sel_js = True, sel_dts = False\<rparr>) = Some False"
  using ensureMeasuredArtifact_measured[of "\<lparr>mr_state = A_complete, mr_jsMatch = None, mr_dtsMatch = None, mr_jsError = None, mr_dtsError = None\<rparr>"
      "\<lparr>sel_js = True, sel_dts = False\<rparr>"]
  by (simp add: Let_def)

section \<open>Counters\<close>

definition status_of :: "artifact_status \<Rightarrow> status_counts \<Rightarrow> int" where
  "status_of s c = (case s of S_pass \<Rightarrow> n_pass c | S_fail \<Rightarrow> n_fail c | S_skip \<Rightarrow> n_skip c
     | S_unsupported \<Rightarrow> n_unsupported c | S_timeout \<Rightarrow> n_timeout c | S_crash \<Rightarrow> n_crash c
     | S_incomplete \<Rightarrow> n_incomplete c)"

lemma status_of_record:
  "status_of s (recordArtifactStatus t c) = status_of s c + (if s = t then 1 else 0)"
  by (cases t; cases s) (simp_all add: status_of_def)

lemma status_of_fold:
  "status_of s (fold recordArtifactStatus ss c) = status_of s c + int (length (filter (\<lambda>t. t = s) ss))"
  by (induction ss arbitrary: c) (auto simp: status_of_record)

lemma candidate_total:
  "artifactCandidateTotal c = status_of S_pass c + status_of S_fail c + status_of S_unsupported c +
     status_of S_timeout c + status_of S_crash c + status_of S_incomplete c"
  by (simp add: artifactCandidateTotal_def status_values_def status_of_def)

lemma filter_length_zero: "length (filter P xs) = 0 \<longleftrightarrow> (\<forall>x \<in> set xs. \<not> P x)"
  by (auto simp: filter_empty_conv)

lemma non_pass_fold:
  "artifactHasNonPass (fold recordArtifactStatus ss emptyArtifactStatusCounts) \<longleftrightarrow>
     (\<exists>s \<in> set ss. s \<noteq> S_pass \<and> s \<noteq> S_skip)"
proof -
  let ?n = "\<lambda>s. length (filter (\<lambda>t. t = s) ss)"
  have e: "status_of s emptyArtifactStatusCounts = 0" for s
    by (cases s) (simp_all add: status_of_def emptyArtifactStatusCounts_def)
  have p: "n_pass c = status_of S_pass c" for c by (simp add: status_of_def)
  have "artifactHasNonPass (fold recordArtifactStatus ss emptyArtifactStatusCounts) \<longleftrightarrow>
      int (?n S_fail) + int (?n S_unsupported) + int (?n S_timeout) + int (?n S_crash) + int (?n S_incomplete) \<noteq> 0"
    by (auto simp: artifactHasNonPass_def candidate_total p status_of_fold e)
  also have "\<dots> \<longleftrightarrow> \<not> (?n S_fail = 0 \<and> ?n S_unsupported = 0 \<and> ?n S_timeout = 0 \<and> ?n S_crash = 0 \<and> ?n S_incomplete = 0)"
    by linarith
  also have "\<dots> \<longleftrightarrow> (\<exists>s \<in> set ss. s \<noteq> S_pass \<and> s \<noteq> S_skip)"
    unfolding filter_length_zero by (auto, metis artifact_status.exhaust)
  finally show ?thesis .
qed

text \<open>C27: the counters of a run have a non-pass exactly when a recorded surface was neither
  passed nor skipped, and the candidate total counts every surface that was not skipped.\<close>

theorem counters_fail_closed:
  "artifactHasNonPass (fold recordArtifactStatus ss emptyArtifactStatusCounts) =
     (\<exists>s \<in> set ss. s \<noteq> S_pass \<and> s \<noteq> S_skip) \<and>
   artifactCandidateTotal (fold recordArtifactStatus ss emptyArtifactStatusCounts) =
     int (length (filter (\<lambda>s. s \<noteq> S_skip) ss))"
proof
  have e: "status_of s emptyArtifactStatusCounts = 0" for s
    by (cases s) (simp_all add: status_of_def emptyArtifactStatusCounts_def)
  have "int (length (filter (\<lambda>s. s \<noteq> S_skip) ss)) =
      int (length (filter (\<lambda>t. t = S_pass) ss)) + int (length (filter (\<lambda>t. t = S_fail) ss)) +
      int (length (filter (\<lambda>t. t = S_unsupported) ss)) + int (length (filter (\<lambda>t. t = S_timeout) ss)) +
      int (length (filter (\<lambda>t. t = S_crash) ss)) + int (length (filter (\<lambda>t. t = S_incomplete) ss))"
    by (induction ss) (auto, metis artifact_status.exhaust)
  then show "artifactCandidateTotal (fold recordArtifactStatus ss emptyArtifactStatusCounts) =
     int (length (filter (\<lambda>s. s \<noteq> S_skip) ss))"
    by (simp add: candidate_total status_of_fold e)
qed (rule non_pass_fold)

end
