(* ===== verification/CliPaths.thy ===== *)
theory CliPaths
  imports CliFlags
begin

text \<open>
  Where an invocation of \<open>scripts/emit/src/cli-transpiler.ts\<close> stages its inputs and where it
  expects the products: the scope directory, the working directory below it that is deep enough
  for the parent steps of every path of the test, the common source directory, and the derived
  output paths. The working directory of the harness and \<open>realpath\<close> are arguments.
\<close>

section \<open>The common source directory\<close>

definition dir_components :: "string \<Rightarrow> string list" where
  "dir_components p = butlast (split_on ''/'' p)"

text \<open>The inner loop counts the equal components; the outer one stops when nothing is left.\<close>

fun narrow :: "string list \<Rightarrow> string list list \<Rightarrow> string list" where
  "narrow common [] = common"
| "narrow common (comps # rest) =
     (let common' = take (common_prefix common comps) common in
      if common' = [] then common' else narrow common' rest)"

definition longestCommonSourceDir :: "string list \<Rightarrow> string" where
  "longestCommonSourceDir relPaths =
     (case map dir_components relPaths of [] \<Rightarrow> [] | d # ds \<Rightarrow> join ''/'' (narrow d ds))"

section \<open>The scope of an invocation\<close>

definition parent_depth :: "string \<Rightarrow> nat" where
  "parent_depth p = length (takeWhile (\<lambda>s. s = ''..'') (split_on ''/'' (corpusRelativePath p)))"

definition maxParentDepth :: "string list \<Rightarrow> nat" where
  "maxParentDepth corpusPaths = foldl (\<lambda>mx p. max mx (parent_depth p)) 0 corpusPaths"

definition test_name :: "nat \<Rightarrow> string" where
  "test_name counter = ''test_'' @ show_nat counter"

definition test_scope_dir :: "string \<Rightarrow> nat \<Rightarrow> string" where
  "test_scope_dir tempDir counter = path_join [tempDir, test_name counter]"

definition requested_test_dir :: "string \<Rightarrow> nat \<Rightarrow> string list \<Rightarrow> string" where
  "requested_test_dir tempDir counter corpusPaths =
     path_join (test_scope_dir tempDir counter # replicate (maxParentDepth corpusPaths + 1) ''cwd'')"

definition given :: "string option \<Rightarrow> string list" where
  "given x = (case x of None \<Rightarrow> [] | Some s \<Rightarrow> [s])"

definition corpus_paths :: "source_unit list \<Rightarrow> link_input list \<Rightarrow> flag_options \<Rightarrow> string list" where
  "corpus_paths files links opts =
     map u_name files @ concat (map (\<lambda>l. [l_target l, l_link l]) links) @
     given (text_option opts ''outFile'') @ given (text_option opts ''outDir'') @
     given (text_option opts ''declarationDir'') @ given (text_option opts ''rootDir'')"

section \<open>Expected products\<close>

record derived_output =
  do_js :: string
  do_dts :: string

definition dts_exts :: "string list" where "dts_exts = [''d.ts'', ''d.mts'', ''d.cts'']"

definition code_exts :: "string list" where
  "code_exts = [''ts'', ''tsx'', ''mts'', ''cts'', ''js'', ''jsx'', ''mjs'', ''cjs'']"

definition is_auxiliary :: "string \<Rightarrow> bool" where
  "is_auxiliary rel \<longleftrightarrow> ends_with rel ''package.json'' \<or> ends_with rel ''tsconfig.json''"

definition emittable :: "string \<Rightarrow> bool" where
  "emittable rel \<longleftrightarrow> \<not> is_auxiliary rel \<and> \<not> has_ext dts_exts rel \<and> ''node_modules'' \<notin> set (split_on ''/'' rel)"

definition common_source_dir :: "source_unit list \<Rightarrow> flag_options \<Rightarrow> string" where
  "common_source_dir files opts =
     (if truthy (text_option opts ''rootDir'') then []
      else longestCommonSourceDir (filter emittable (map (corpusRelativePath \<circ> u_name) files)))"

definition stripCommonSourceDir :: "string \<Rightarrow> string \<Rightarrow> string" where
  "stripCommonSourceDir common stem =
     (if common \<noteq> [] \<and> (stem = common \<or> starts_with stem (common @ ''/''))
      then dropWhile (\<lambda>c. c = CHR ''/'') (drop (length common) stem)
      else stem)"

definition js_extension :: "bool \<Rightarrow> string \<Rightarrow> string" where
  "js_extension preservesJsx ext =
     (if ext = ''mts'' \<or> ext = ''mjs'' then ''.mjs''
      else if ext = ''cts'' \<or> ext = ''cjs'' then ''.cjs''
      else if ext = ''tsx'' \<or> ext = ''jsx'' then (if preservesJsx then ''.jsx'' else ''.js'')
      else ''.js'')"

definition dts_extension :: "string \<Rightarrow> string" where
  "dts_extension ext =
     (if ext = ''mts'' \<or> ext = ''mjs'' then ''.d.mts''
      else if ext = ''cts'' \<or> ext = ''cjs'' then ''.d.cts'' else ''.d.ts'')"

definition output_stem :: "string \<Rightarrow> string \<Rightarrow> string option \<Rightarrow> string \<Rightarrow> string \<Rightarrow> string" where
  "output_stem cwd testDir dir relativeStem stem =
     (case dir of
        Some d \<Rightarrow> if d = [] then stem else path_join [corpusPhysicalPath cwd testDir d, relativeStem]
      | None \<Rightarrow> stem)"

text \<open>The path of the bundle, when one is asked for, and its declarations.\<close>

definition output_file :: "string \<Rightarrow> string \<Rightarrow> flag_options \<Rightarrow> string option" where
  "output_file cwd testDir opts =
     (case text_option opts ''outFile'' of
        Some f \<Rightarrow>
          if f = [] \<or> corpusRelativePath f = [] then None
          else Some (corpusPhysicalPath cwd testDir (corpusRelativePath f))
      | None \<Rightarrow> None)"

definition relative_stem :: "string \<Rightarrow> flag_options \<Rightarrow> string \<Rightarrow> string \<Rightarrow> string" where
  "relative_stem cwd opts common rel =
     (let s = replace_ext code_exts [] rel in
      case text_option opts ''rootDir'' of
        Some r \<Rightarrow> path_relative cwd (corpusRelativePath r) s
      | None \<Rightarrow> stripCommonSourceDir common s)"

definition derived_outputs :: "string \<Rightarrow> string \<Rightarrow> flag_options \<Rightarrow> string \<Rightarrow> string \<Rightarrow> derived_output list" where
  "derived_outputs cwd testDir opts common rel =
     (if is_auxiliary rel \<or> has_ext dts_exts rel then []
      else
        case ext_match code_exts rel of
          None \<Rightarrow> []
        | Some ext \<Rightarrow>
            let filePath = corpusPhysicalPath cwd testDir rel;
                stem = replace_ext code_exts [] filePath;
                relStem = relative_stem cwd opts common rel;
                preservesJsx = (map_option to_lower (text_option opts ''jsx'') = Some ''preserve'');
                outDir = text_option opts ''outDir'';
                declDir = or_option (text_option opts ''declarationDir'') outDir;
                jsStem = output_stem cwd testDir outDir relStem stem;
                dtsStem = output_stem cwd testDir declDir relStem stem;
                bundle = output_file cwd testDir opts
            in [\<lparr>do_js = (case bundle of Some p \<Rightarrow> p | None \<Rightarrow> jsStem @ js_extension preservesJsx ext),
                 do_dts = (case bundle of Some p \<Rightarrow> replace_suffix ''.js'' ''.d.ts'' p
                           | None \<Rightarrow> dtsStem @ dts_extension ext)\<rparr>])"

section \<open>The common source directory is the longest common prefix\<close>

definition common_of :: "string list \<Rightarrow> string list list \<Rightarrow> bool" where
  "common_of c xss \<longleftrightarrow> (\<forall>xs \<in> set xss. take (length c) xs = c)"

lemma common_prefix_maximal:
  "take (length c) xs = c \<Longrightarrow> take (length c) ys = c \<Longrightarrow> length c \<le> common_prefix xs ys"
proof (induction c arbitrary: xs ys)
  case (Cons a c)
  then show ?case by (cases xs; cases ys) auto
qed simp

lemma narrow_common: "common_of (narrow c xss) (c # xss)"
proof (induction xss arbitrary: c)
  case Nil
  then show ?case by (simp add: common_of_def)
next
  case (Cons xs xss)
  let ?d = "take (common_prefix c xs) c"
  have d: "take (length ?d) c = ?d" "take (length ?d) xs = ?d"
    using common_prefix_take[of c xs] by (simp_all add: min_def)
  show ?case
  proof (cases "?d = []")
    case True
    then have "narrow c (xs # xss) = []" by (simp only: narrow.simps Let_def if_True True simp_thms)
    then show ?thesis by (simp add: common_of_def)
  next
    case False
    let ?r = "narrow ?d xss"
    have r: "take (length ?r) ?d = ?r" "\<forall>ys \<in> set xss. take (length ?r) ys = ?r"
      using Cons[of ?d] by (simp_all add: common_of_def)
    have "length ?r \<le> length ?d" using r(1) by (metis length_take min.cobounded1 nat_le_linear take_all)
    then have "take (length ?r) c = ?r" "take (length ?r) xs = ?r"
      using d r(1) by (metis min.absorb1 take_take)+
    then show ?thesis using r(2) False by (simp add: common_of_def Let_def)
  qed
qed

lemma narrow_longest: "common_of p (c # xss) \<Longrightarrow> length p \<le> length (narrow c xss)"
proof (induction xss arbitrary: c)
  case Nil
  then show ?case by (metis common_of_def length_take list.set_intros(1) min.cobounded1 narrow.simps(1))
next
  case (Cons xs xss)
  let ?d = "take (common_prefix c xs) c"
  have p: "take (length p) c = p" "take (length p) xs = p" "\<forall>ys \<in> set xss. take (length p) ys = p"
    using Cons.prems by (simp_all add: common_of_def)
  have "length p \<le> common_prefix c xs" using p(1,2) by (rule common_prefix_maximal)
  then have pd: "take (length p) ?d = p" using p(1) by (simp add: min_def)
  show ?case
  proof (cases "?d = []")
    case True
    then have "p = []" using pd by (metis take_Nil)
    then show ?thesis by simp
  next
    case False
    have "common_of p (?d # xss)" using pd p(3) by (simp add: common_of_def)
    then show ?thesis using Cons.IH False by (simp add: Let_def)
  qed
qed

section \<open>Everything is staged inside the scope\<close>

definition up_form :: "string list \<Rightarrow> bool" where
  "up_form xs \<longleftrightarrow> (\<exists>k ns. xs = replicate k ''..'' @ ns \<and> (\<forall>a \<in> set ns. is_name a))"

lemma up_formI: "\<forall>a \<in> set ns. is_name a \<Longrightarrow> up_form (replicate k ''..'' @ ns)"
  unfolding up_form_def by blast

lemma norm_up_form:
  "up_form (rev acc) \<Longrightarrow> \<forall>s \<in> set ss. CHR ''/'' \<notin> set s \<Longrightarrow> up_form (norm_go True acc ss)"
proof (induction ss arbitrary: acc)
  case Nil
  then show ?case by simp
next
  case (Cons s ss)
  obtain k ns where ra: "rev acc = replicate k ''..'' @ ns" and ns: "\<forall>a \<in> set ns. is_name a"
    using Cons.prems(1) unfolding up_form_def by blast
  have a: "acc = rev ns @ replicate k ''..''" using arg_cong[OF ra, of rev] by simp
  have step: "up_form (rev acc') \<Longrightarrow> up_form (norm_go True acc' ss)" for acc'
    using Cons.IH Cons.prems(2) by simp
  show ?case
  proof (cases "s = [] \<or> s = ''.''")
    case True
    then have "norm_go True acc (s # ss) = norm_go True acc ss" by (simp only: norm_go.simps if_True)
    then show ?thesis using step[OF Cons.prems(1)] by simp
  next
    case s1: False
    show ?thesis
    proof (cases "s = ''..''")
      case up: True
      show ?thesis
      proof (cases ns rule: rev_cases)
        case Nil
        have "norm_go True acc (s # ss) = norm_go True (''..'' # acc) ss"
          using up a Nil by (cases k) simp_all
        moreover have "rev (''..'' # acc) = replicate (Suc k) ''..'' @ []"
          using a Nil by (simp add: replicate_append_same)
        ultimately show ?thesis using step[of "''..'' # acc"] up_formI[of "[]" "Suc k"] by simp
      next
        case (snoc ns' n)
        have n: "n \<noteq> ''..''" "\<forall>a \<in> set ns'. is_name a" using ns snoc by (simp_all add: is_name_def)
        have "norm_go True acc (s # ss) = norm_go True (rev ns' @ replicate k ''..'') ss"
          using up a snoc n(1) by simp
        then show ?thesis using step[of "rev ns' @ replicate k ''..''"] up_formI[OF n(2), of k] by simp
      qed
    next
      case False
      have "norm_go True acc (s # ss) = norm_go True (s # acc) ss" using s1 False by simp
      moreover have "\<forall>a \<in> set (ns @ [s]). is_name a" using ns s1 False Cons.prems(2) by (simp add: is_name_def)
      ultimately show ?thesis using step[of "s # acc"] up_formI[of "ns @ [s]" k] ra by simp
    qed
  qed
qed

lemma norm_no_up:
  "''..'' \<notin> set ss \<Longrightarrow> norm_go u acc ss = rev acc @ filter (\<lambda>s. s \<noteq> [] \<and> s \<noteq> ''.'') ss"
  by (induction ss arbitrary: acc) auto

definition climbs :: "string list \<Rightarrow> bool" where
  "climbs ss \<longleftrightarrow> (\<exists>k tail. ss = replicate k ''..'' @ tail \<and> ''..'' \<notin> set tail)"

lemma up_form_parts: "up_form xs \<Longrightarrow> \<forall>c \<in> set xs. CHR ''/'' \<notin> set c"
proof
  fix c assume f: "up_form xs" and c: "c \<in> set xs"
  obtain k ns where xs: "xs = replicate k ''..'' @ ns" "\<forall>a \<in> set ns. is_name a"
    using f unfolding up_form_def by blast
  have "c = ''..'' \<or> c \<in> set ns" using c unfolding xs(1) by (metis Un_iff in_set_replicate set_append)
  then show "CHR ''/'' \<notin> set c"
  proof
    assume "c = ''..''"
    then show ?thesis by simp
  next
    assume "c \<in> set ns"
    then show ?thesis using xs(2) by (simp add: is_name_def)
  qed
qed

lemma up_segments:
  assumes "up_form xs" and "t = [] \<or> t = ''/''"
  shows "climbs (segments (join ''/'' xs @ t))"
proof -
  obtain k ns where xs: "xs = replicate k ''..'' @ ns" "\<forall>a \<in> set ns. is_name a"
    using assms(1) unfolding up_form_def by blast
  then have no: "''..'' \<notin> set ns" by (auto simp: is_name_def)
  have s: "segments (join ''/'' xs) = (if xs = [] then [[]] else xs)"
    using segments_join[of xs] up_form_parts[OF assms(1)] by simp
  have e: "segments (join ''/'' xs @ ''/'') = segments (join ''/'' xs) @ [[]]"
    using segments_append[of "join ''/'' xs" "[]"] by simp
  have c: "climbs (segments (join ''/'' xs) @ u)" if "u = [] \<or> u = [[]]" for u
  proof (cases "xs = []")
    case True
    have "[[]] @ u = replicate 0 ''..'' @ ([[]] @ u)" by simp
    moreover have "''..'' \<notin> set ([[]] @ u)" using that by (elim disjE) simp_all
    ultimately show ?thesis unfolding s climbs_def if_P[OF True] by metis
  next
    case False
    have "xs @ u = replicate k ''..'' @ (ns @ u)" unfolding xs(1) by simp
    moreover have "''..'' \<notin> set (ns @ u)" using that no by (elim disjE) simp_all
    ultimately show ?thesis unfolding s climbs_def if_not_P[OF False] by metis
  qed
  show ?thesis using assms(2)
  proof
    assume "t = []"
    then show ?thesis using c[of "[]"] by simp
  next
    assume "t = ''/''"
    then show ?thesis using c[of "[[]]"] e by simp
  qed
qed

lemma names_up: "\<forall>a \<in> set ns. is_name a \<Longrightarrow> up_form ns"
  using up_formI[of ns 0] by simp

lemma normalize_form:
  "up_form (norm_go (\<not> isAbsolute s) [] (segments s))"
proof (cases "isAbsolute s")
  case True
  then show ?thesis using norm_go_names[of "[]" "segments s"] segments_no_slash by (intro names_up) auto
next
  case False
  then show ?thesis using norm_up_form[of "[]" "segments s"] segments_no_slash up_formI[of "[]" 0] by auto
qed

lemma climbs_short: "climbs [[]]" "climbs [''.'']" "climbs [''.'', []]"
proof -
  have z: "climbs ss" if "''..'' \<notin> set ss" for ss
    using that unfolding climbs_def by (metis append_Nil replicate_0)
  show "climbs [[]]" "climbs [''.'']" "climbs [''.'', []]" by (rule z, simp)+
qed

lemma climbs_empty: "climbs (segments [])"
  using climbs_short(1) by (simp add: segments_def split_on_def)

lemma normalized_climbs:
  assumes "s \<noteq> []"
  shows "climbs (segments (if isAbsolute s then drop 1 (path_normalize s) else path_normalize s))"
proof -
  let ?b = "join ''/'' (norm_go (\<not> isAbsolute s) [] (segments s))"
  have dot: "segments ''.'' = [''.'']" "segments ''./'' = [''.'', []]"
    by (simp_all add: segments_def split_on_def)
  have b: "climbs (segments (?b @ t))" if "t = [] \<or> t = ''/''" for t
    using normalize_form that by (rule up_segments)
  show ?thesis
  proof (cases "?b = []")
    case True
    then show ?thesis using assms dot climbs_short by (auto simp: path_normalize_def Let_def)
  next
    case False
    then have "(if isAbsolute s then drop 1 (path_normalize s) else path_normalize s) =
        ?b @ (if ends_with s ''/'' then ''/'' else [])"
      using assms by (cases "isAbsolute s") (simp_all add: path_normalize_def Let_def)
    then show ?thesis using b by simp
  qed
qed

lemma relative_climbs: "climbs (segments (corpusRelativePath v))"
proof -
  let ?s = "to_slashes v" and ?d = "''/'' @ dropWhile (\<lambda>c. c = CHR ''/'') (to_slashes v)"
  have dot: "climbs (segments (if n = ''.'' then [] else n))" if "climbs (segments n)" for n
    using that climbs_empty by (cases "n = ''.''") simp_all
  show ?thesis
  proof (cases "virtual_absolute ?s")
    case True
    have "isAbsolute ?d" by (simp add: isAbsolute_def)
    then have "climbs (segments (drop 1 (path_normalize ?d)))" using normalized_climbs[of ?d] by simp
    moreover have "corpusRelativePath v = (if drop 1 (path_normalize ?d) = ''.'' then [] else drop 1 (path_normalize ?d))"
      using True by (simp add: corpusRelativePath_def Let_def del: append.simps)
    ultimately show ?thesis using dot[of "drop 1 (path_normalize ?d)"] by (simp only:)
  next
    case False
    then have na: "\<not> isAbsolute ?s" by (simp add: virtual_absolute_def isAbsolute_def)
    have eq: "corpusRelativePath v = (if path_normalize ?s = ''.'' then [] else path_normalize ?s)"
      using False by (simp add: corpusRelativePath_def Let_def)
    show ?thesis
    proof (cases "?s = []")
      case True
      then have "corpusRelativePath v = []" using eq by (simp add: path_normalize_def)
      then show ?thesis using climbs_empty by simp
    next
      case ne: False
      then show ?thesis using eq normalized_climbs[OF ne] na dot[of "path_normalize ?s"] by simp
    qed
  qed
qed

lemma climbs_split:
  assumes "climbs ss"
  shows "\<exists>tail. ss = replicate (length (takeWhile (\<lambda>s. s = ''..'') ss)) ''..'' @ tail \<and> ''..'' \<notin> set tail"
proof -
  obtain k tail where s: "ss = replicate k ''..'' @ tail" "''..'' \<notin> set tail" using assms unfolding climbs_def by blast
  have "takeWhile (\<lambda>s. s = ''..'') tail = []" using s(2) by (cases tail) auto
  moreover have "takeWhile (\<lambda>s. s = ''..'') (replicate k ''..'' @ tail) =
      replicate k ''..'' @ takeWhile (\<lambda>s. s = ''..'') tail"
    by (rule takeWhile_append2) simp
  ultimately have "length (takeWhile (\<lambda>s. s = ''..'') ss) = k" unfolding s(1) by simp
  then show ?thesis using s by blast
qed

lemma foldl_max_start: "mx \<le> foldl (\<lambda>mx p. max mx (f p)) (mx :: nat) ps"
proof (induction ps arbitrary: mx)
  case (Cons p ps)
  show ?case using Cons[of "max mx (f p)"] by simp
qed simp

lemma foldl_max: "p \<in> set ps \<Longrightarrow> f p \<le> foldl (\<lambda>mx p. max mx (f p)) (mx :: nat) ps"
proof (induction ps arbitrary: mx)
  case (Cons q ps)
  then show ?case using foldl_max_start[of "max mx (f q)" f ps] by (cases "p = q") simp_all
qed simp

lemma cwd_is_name: "is_name ''cwd''"
  by (simp add: is_name_def)

lemma depth_le_max: "v \<in> set ps \<Longrightarrow> parent_depth v \<le> maxParentDepth ps"
  unfolding maxParentDepth_def by (rule foldl_max)

lemma take_beyond: "n \<le> m \<Longrightarrow> take (length xs + n) (xs @ replicate m y) = xs @ replicate n y"
  by (simp add: min_def)

text \<open>A path with few enough parent steps stays below the first of the working directories.\<close>

lemma physical_inside:
  assumes "isAbsolute cwd" and "\<forall>a \<in> set rt. is_name a" and "parent_depth v \<le> m"
  shows "\<exists>rest. (\<forall>a \<in> set rest. is_name a) \<and>
    corpusPhysicalPath cwd (abs_text (rt @ replicate (Suc m) ''cwd'')) v = abs_text (rt @ ''cwd'' # rest)"
proof -
  let ?t = "rt @ replicate (Suc m) ''cwd''" and ?d = "parent_depth v"
  have names: "\<forall>a \<in> set ?t. is_name a" using assms(2) cwd_is_name by (metis Un_iff in_set_replicate set_append)
  then have T: "abs_segments (path_resolve cwd [abs_text ?t]) = ?t"
    unfolding abs_segments_resolve[OF assms(1)] by (simp add: resolve_segs_def abs_segments_text)
  obtain tail where tl: "segments (corpusRelativePath v) = replicate ?d ''..'' @ tail" "''..'' \<notin> set tail"
    using climbs_split[OF relative_climbs[of v]] by (auto simp: parent_depth_def segments_def)
  let ?f = "filter (\<lambda>s. s \<noteq> [] \<and> s \<noteq> ''.'') tail"
  have "norm_go False (rev ?t) (replicate ?d ''..'' @ tail) = norm_go False (drop ?d (rev ?t)) tail"
    by (rule norm_go_ups) (use assms(3) names in \<open>simp_all only: set_rev length_rev, simp\<close>)
  also have "\<dots> = rev (drop ?d (rev ?t)) @ ?f" by (rule norm_no_up[OF tl(2)])
  also have "rev (drop ?d (rev ?t)) = take (length ?t - ?d) ?t" by (simp only: rev_drop rev_rev_ident length_rev)
  also have "length ?t - ?d = length rt + (Suc m - ?d)" using assms(3) by simp
  also have "take (length rt + (Suc m - ?d)) ?t = rt @ replicate (Suc m - ?d) ''cwd''"
    by (rule take_beyond) simp
  also have "Suc m - ?d = Suc (m - ?d)" using assms(3) by simp
  finally have n: "norm_go False (rev ?t) (segments (corpusRelativePath v)) =
      rt @ ''cwd'' # (replicate (m - ?d) ''cwd'' @ ?f)" by (simp add: tl)
  have "\<forall>a \<in> set (segments (corpusRelativePath v)). CHR ''/'' \<notin> set a" using segments_no_slash by blast
  then have "\<forall>a \<in> set ?f. is_name a" using tl by (auto simp: is_name_def)
  then have "\<forall>a \<in> set (replicate (m - ?d) ''cwd'' @ ?f). is_name a" using cwd_is_name by auto
  moreover have "corpusPhysicalPath cwd (abs_text ?t) v = abs_text (rt @ ''cwd'' # (replicate (m - ?d) ''cwd'' @ ?f))"
    unfolding physical_segments[OF assms(1)] T n ..
  ultimately show ?thesis by blast
qed

lemma abs_text_inject: "\<forall>a \<in> set xs. is_name a \<Longrightarrow> \<forall>a \<in> set ys. is_name a \<Longrightarrow> abs_text xs = abs_text ys \<longleftrightarrow> xs = ys"
  by (metis abs_segments_text)

lemma test_name_is_name: "is_name (test_name n)"
proof -
  have "CHR ''/'' \<notin> set (show_nat n)"
    using show_int_chars[of "int n"] by (auto simp: show_nat_def is_digit_def Let_def)
  then show ?thesis by (simp add: test_name_def is_name_def)
qed

text \<open>C18: whatever parent steps the paths of a test take, every input, link, bundle and output
  directory of an invocation lies strictly inside its own scope, below the first of its working
  directories; so two invocations never stage the same path. The physical working directory is
  the requested one below the real temporary directory \<open>rt\<close>.\<close>

theorem invocations_apart:
  assumes "isAbsolute cwd" and "\<forall>a \<in> set rt. is_name a"
    and "physicalPathIdentity cwd realpath (requested_test_dir tempDir i ps) =
      abs_text ((rt @ [test_name i]) @ replicate (Suc (maxParentDepth ps)) ''cwd'')"
    and "physicalPathIdentity cwd realpath (requested_test_dir tempDir j qs) =
      abs_text ((rt @ [test_name j]) @ replicate (Suc (maxParentDepth qs)) ''cwd'')"
    and "v \<in> set ps" and "w \<in> set qs" and "i \<noteq> j"
  shows "\<exists>r s.
    corpusPhysicalPath cwd (physicalPathIdentity cwd realpath (requested_test_dir tempDir i ps)) v =
      abs_text (rt @ test_name i # ''cwd'' # r) \<and>
    corpusPhysicalPath cwd (physicalPathIdentity cwd realpath (requested_test_dir tempDir j qs)) w =
      abs_text (rt @ test_name j # ''cwd'' # s) \<and>
    abs_text (rt @ test_name i # ''cwd'' # r) \<noteq> abs_text (rt @ test_name j # ''cwd'' # s)"
proof -
  have names: "\<forall>a \<in> set (rt @ [test_name k]). is_name a" for k using assms(2) test_name_is_name by simp
  obtain r where r: "\<forall>a \<in> set r. is_name a"
    "corpusPhysicalPath cwd (physicalPathIdentity cwd realpath (requested_test_dir tempDir i ps)) v =
       abs_text ((rt @ [test_name i]) @ ''cwd'' # r)"
    using physical_inside[OF assms(1) names depth_le_max[OF assms(5)]] unfolding assms(3) by blast
  obtain s where s: "\<forall>a \<in> set s. is_name a"
    "corpusPhysicalPath cwd (physicalPathIdentity cwd realpath (requested_test_dir tempDir j qs)) w =
       abs_text ((rt @ [test_name j]) @ ''cwd'' # s)"
    using physical_inside[OF assms(1) names depth_le_max[OF assms(6)]] unfolding assms(4) by blast
  have "test_name i \<noteq> test_name j" using assms(7) by (simp add: test_name_def show_nat_inject)
  moreover have "\<forall>a \<in> set (rt @ test_name k # ''cwd'' # x). is_name a" if "\<forall>a \<in> set x. is_name a" for k x
    using that assms(2) test_name_is_name cwd_is_name by auto
  ultimately have "abs_text (rt @ test_name i # ''cwd'' # r) \<noteq> abs_text (rt @ test_name j # ''cwd'' # s)"
    using r(1) s(1) by (simp add: abs_text_inject)
  then show ?thesis using r(2) s(2) by auto
qed

theorem invocations_apart_witness:
  "\<exists>r s.
    corpusPhysicalPath ''/repo'' (physicalPathIdentity ''/repo'' (\<lambda>p. None)
        (requested_test_dir ''/tmp/t'' 0 [''../x/a.ts''])) ''../x/a.ts'' =
      abs_text ([''tmp'', ''t''] @ test_name 0 # ''cwd'' # r) \<and>
    corpusPhysicalPath ''/repo'' (physicalPathIdentity ''/repo'' (\<lambda>p. None)
        (requested_test_dir ''/tmp/t'' 1 [''b.ts''])) ''b.ts'' =
      abs_text ([''tmp'', ''t''] @ test_name 1 # ''cwd'' # s) \<and>
    abs_text ([''tmp'', ''t''] @ test_name 0 # ''cwd'' # r) \<noteq> abs_text ([''tmp'', ''t''] @ test_name 1 # ''cwd'' # s)"
proof (rule invocations_apart[where ps = "[''../x/a.ts'']" and qs = "[''b.ts'']"])
  show "isAbsolute ''/repo''" by code_simp
  show "\<forall>a \<in> set [''tmp'', ''t'']. is_name a" by code_simp
  show "physicalPathIdentity ''/repo'' (\<lambda>p. None) (requested_test_dir ''/tmp/t'' 0 [''../x/a.ts'']) =
      abs_text (([''tmp'', ''t''] @ [test_name 0]) @ replicate (Suc (maxParentDepth [''../x/a.ts''])) ''cwd'')"
    by code_simp
  show "physicalPathIdentity ''/repo'' (\<lambda>p. None) (requested_test_dir ''/tmp/t'' 1 [''b.ts'']) =
      abs_text (([''tmp'', ''t''] @ [test_name 1]) @ replicate (Suc (maxParentDepth [''b.ts''])) ''cwd'')"
    by code_simp
qed simp_all

end
