(* ===== verification/CliOutcome.thy ===== *)
theory CliOutcome
  imports CliPaths DiagnosticOrder PinnedOracle
begin

text \<open>
  What an invocation of \<open>scripts/emit/src/cli-transpiler.ts\<close> makes of a finished child
  process: the diagnostic codes of its output, the session with the pinned compiler's API that
  supplies diagnostic witnesses, the outcome record, and the errors that stand for a child that
  did not finish. The API, the file system and \<open>JSON.parse\<close> are arguments.
\<close>

section \<open>Diagnostic codes\<close>

text \<open>The digits of \<open>TS(\d{4,5})\b\<close> at the front of a text, after the two letters. A fifth digit
  is taken when there is one; with four the next digit would deny the boundary.\<close>

definition code_digits :: "string \<Rightarrow> string option" where
  "code_digits s =
     (let d = takeWhile is_digit s; r = dropWhile is_digit s
      in if (length d = 4 \<or> length d = 5) \<and> (case r of [] \<Rightarrow> True | c # _ \<Rightarrow> \<not> is_word_char c)
         then Some d else None)"

text \<open>All matches of \<open>/\bTS(\d{4,5})\b/g\<close> from left to right; \<open>after\<close> says whether the character
  before the text is a word character.\<close>

function match_codes :: "bool \<Rightarrow> string \<Rightarrow> string list" where
  "match_codes after [] = []"
| "match_codes after (c # s) =
     (case (if \<not> after \<and> starts_with (c # s) ''TS'' then code_digits (drop 1 s) else None) of
        Some d \<Rightarrow> (''TS'' @ d) # match_codes True (drop (Suc (length d)) s)
      | None \<Rightarrow> match_codes (is_word_char c) s)"
  by pat_completeness auto
termination by (relation "measure (length \<circ> snd)") auto

definition text_or_empty :: "string option \<Rightarrow> string" where
  "text_or_empty x = (case x of Some s \<Rightarrow> s | None \<Rightarrow> [])"

definition diagnosticCodes :: "string option \<Rightarrow> string option \<Rightarrow> string list" where
  "diagnosticCodes stdout stderr =
     match_codes False (text_or_empty stdout @ [CHR 10] @ text_or_empty stderr)"

section \<open>The session with the pinned compiler\<close>

text \<open>A program the API has loaded: what each of its requests returns, \<open>None\<close> when it throws.\<close>

record api_program =
  ap_config :: "ts_diag list option"
  ap_syntactic :: "ts_diag list option"
  ap_program :: "ts_diag list option"
  ap_global :: "ts_diag list option"
  ap_semantic :: "ts_diag list option"
  ap_declaration :: "ts_diag list option"

text \<open>The answers of the file system and of the API to one \<open>collect\<close>.\<close>

record api_answers =
  an_write :: bool
  an_create :: bool
  an_open :: bool
  an_project :: "api_program option option"
  an_projects :: "(string \<times> api_program) list option"
  an_dispose :: bool
  an_close :: bool

datatype api_event = Api_created | Snapshot_opened | Snapshot_disposed | Project_closed | Api_closed

record pts_session =
  ps_api :: bool
  ps_log :: "api_event list"

definition log_event :: "api_event \<Rightarrow> pts_session \<Rightarrow> pts_session" where
  "log_event e s = s\<lparr>ps_log := ps_log s @ [e]\<rparr>"

definition client :: "api_answers \<Rightarrow> pts_session \<Rightarrow> pts_session option" where
  "client a s =
     (if ps_api s then Some s
      else if an_create a then Some (log_event Api_created (s\<lparr>ps_api := True\<rparr>))
      else None)"

definition is_true :: "(string \<times> jsval) list \<Rightarrow> string \<Rightarrow> bool" where
  "is_true opts k \<longleftrightarrow> obj_get opts k = JBool True"

definition declaration_can_run :: "(string \<times> jsval) list \<Rightarrow> bool \<Rightarrow> bool" where
  "declaration_can_run opts earlier \<longleftrightarrow>
     (if is_true opts ''noEmit'' then \<not> earlier else \<not> is_true opts ''noEmitOnError'' \<or> \<not> earlier)"

definition selected_diagnostics :: "api_program \<Rightarrow> (string \<times> jsval) list \<Rightarrow> ts_diag list option" where
  "selected_diagnostics p opts =
     (case ap_config p of None \<Rightarrow> None | Some config \<Rightarrow>
      case ap_syntactic p of None \<Rightarrow> None | Some syntactic \<Rightarrow>
      if syntactic \<noteq> [] then Some (config @ syntactic)
      else
        case ap_program p of None \<Rightarrow> None | Some prog \<Rightarrow>
        case ap_global p of None \<Rightarrow> None | Some global \<Rightarrow>
        case (if prog = [] \<and> global = [] then ap_semantic p else Some []) of None \<Rightarrow> None | Some semantic \<Rightarrow>
        let selected = config @ syntactic @ prog @ global @ semantic;
            declarationRequested = is_true opts ''declaration'' \<or> is_true opts ''emitDeclarationOnly''
        in if declarationRequested \<and> declaration_can_run opts (selected \<noteq> [])
           then map_option ((@) selected) (ap_declaration p)
           else Some selected)"

definition find_project :: "string \<Rightarrow> api_answers \<Rightarrow> string \<Rightarrow> api_program option option" where
  "find_project cwd a configPath =
     (case an_project a of
        None \<Rightarrow> None
      | Some (Some p) \<Rightarrow> Some (Some p)
      | Some None \<Rightarrow>
          map_option (\<lambda>ps. map_option snd
            (find (\<lambda>c. path_resolve cwd [fst c] = path_resolve cwd [configPath]) ps)) (an_projects a))"

definition api_witnesses ::
  "string \<Rightarrow> api_answers \<Rightarrow> string \<Rightarrow> (string \<times> jsval) list \<Rightarrow> scope \<Rightarrow> string list \<Rightarrow> witness list option" where
  "api_witnesses cwd a configPath opts sc renderedCodes =
     (case find_project cwd a configPath of
        Some (Some p) \<Rightarrow>
          (case selected_diagnostics p opts of
             None \<Rightarrow> None
           | Some selected \<Rightarrow>
               (case canonicalizeTypeScriptDiagnostics cwd selected sc of
                  Some ws \<Rightarrow> if witnessCodesMatch ws renderedCodes then Some ws else None
                | None \<Rightarrow> None))
      | _ \<Rightarrow> None)"

text \<open>The \<open>try\<close>: the session after it, whether a snapshot was opened, and the value; a call that
  throws ends in the \<open>catch\<close>, which returns \<open>undefined\<close>.\<close>

definition collect_try ::
  "string \<Rightarrow> api_answers \<Rightarrow> pts_session \<Rightarrow> string \<Rightarrow> (string \<times> jsval) list \<Rightarrow> scope \<Rightarrow> string list \<Rightarrow>
   pts_session \<times> bool \<times> witness list option" where
  "collect_try cwd a s configPath opts sc renderedCodes =
     (if \<not> an_write a then (s, False, None)
      else
        case client a s of
          None \<Rightarrow> (s, False, None)
        | Some s1 \<Rightarrow>
            if \<not> an_open a then (s1, False, None)
            else (log_event Snapshot_opened s1, True, api_witnesses cwd a configPath opts sc renderedCodes))"

text \<open>The \<open>finally\<close>. An error of \<open>dispose\<close> leaves \<open>collect\<close>; one of the closing request does not.\<close>

definition collect ::
  "string \<Rightarrow> api_answers \<Rightarrow> pts_session \<Rightarrow> string \<Rightarrow> (string \<times> jsval) list \<Rightarrow> scope \<Rightarrow> string list \<Rightarrow>
   pts_session \<times> (string + witness list option)" where
  "collect cwd a s configPath opts sc renderedCodes =
     (case collect_try cwd a s configPath opts sc renderedCodes of
        (s1, opened, r) \<Rightarrow>
          let s2 = (if opened then log_event Snapshot_disposed s1 else s1) in
          if opened \<and> \<not> an_dispose a then (s2, Inl ''dispose'')
          else (if ps_api s2 \<and> an_close a then log_event Project_closed s2 else s2, Inr r))"

definition session_close :: "pts_session \<Rightarrow> pts_session" where
  "session_close s = (if ps_api s then log_event Api_closed (s\<lparr>ps_api := False\<rparr>) else s)"

section \<open>The outcome of an invocation\<close>

datatype witness_provider = Tsz_json | Typescript_7_api

datatype exit_code = Exit_number int | Exit_name string

text \<open>A thrown value, as the two \<open>catch\<close> clauses look at it.\<close>

record js_error =
  er_message :: string
  er_code :: "exit_code option"
  er_killed :: "bool option"
  er_signal :: "string option"
  er_stdout :: "string option"
  er_stderr :: "string option"

definition plain_error :: "string \<Rightarrow> js_error" where
  "plain_error m = \<lparr>er_message = m, er_code = None, er_killed = None, er_signal = None,
     er_stdout = None, er_stderr = None\<rparr>"

datatype exec_result = Completed string string | Failed js_error

text \<open>\<open>json\<close> is the parsed file of the compiler, \<open>None\<close> when it cannot be read or parsed; \<open>collected\<close>
  asks the session, when there is one.\<close>

definition outcomeWithWitnesses ::
  "string \<Rightarrow> witness_provider option \<Rightarrow> jsval option \<Rightarrow>
   ('s \<Rightarrow> string list \<Rightarrow> 's \<times> (string + witness list option)) option \<Rightarrow> scope \<Rightarrow>
   's \<Rightarrow> int \<Rightarrow> string option \<Rightarrow> string option \<Rightarrow> 's \<times> (js_error + compiler_outcome)" where
  "outcomeWithWitnesses cwd provider json collected sc s exitCode stdout stderr =
     (let codes = diagnosticCodes stdout stderr;
          outcome = (\<lambda>ws. \<lparr>co_exit = exitCode, co_codes = codes, co_witnesses = map_option (map witness_value) ws\<rparr>)
      in case provider of
           Some Tsz_json \<Rightarrow>
             (s, Inr (outcome
                (case json of
                   Some v \<Rightarrow>
                     (case canonicalizeTszDiagnosticsJson cwd v sc of
                        Some ws \<Rightarrow> if witnessCodesMatch ws codes then Some ws else None
                      | None \<Rightarrow> None)
                 | None \<Rightarrow> None)))
         | Some Typescript_7_api \<Rightarrow>
             if exitCode = 0 \<and> codes = [] then (s, Inr (outcome (Some [])))
             else if codes \<noteq> [] then
               (case collected of
                  None \<Rightarrow> (s, Inr (outcome None))
                | Some ask \<Rightarrow>
                    (case ask s codes of
                       (s', Inl m) \<Rightarrow> (s', Inl (plain_error m))
                     | (s', Inr ws) \<Rightarrow> (s', Inr (outcome ws))))
             else (s, Inr (outcome None))
         | None \<Rightarrow> (s, Inr (outcome None)))"

text \<open>The inner \<open>catch\<close>: it sees the failure of the child and whatever the first \<open>collectResult\<close>
  throws.\<close>

definition on_failure ::
  "string \<Rightarrow> ('s \<Rightarrow> int \<Rightarrow> string option \<Rightarrow> string option \<Rightarrow> 's \<times> (js_error + 'r)) \<Rightarrow> 's \<Rightarrow> js_error \<Rightarrow>
   's \<times> (js_error + 'r)" where
  "on_failure label result s failure =
     (if er_killed failure = Some True then (s, Inl (plain_error (''TIMEOUT:'' @ label)))
      else if truthy (er_signal failure)
      then (s, Inl (plain_error (''CRASH:'' @ label @ '':'' @ the (er_signal failure))))
      else
        case er_code failure of
          Some (Exit_number n) \<Rightarrow> result s n (er_stdout failure) (er_stderr failure)
        | _ \<Rightarrow> (s, Inl failure))"

definition run_try ::
  "string \<Rightarrow> ('s \<Rightarrow> int \<Rightarrow> string option \<Rightarrow> string option \<Rightarrow> 's \<times> (js_error + 'r)) \<Rightarrow> 's \<Rightarrow> exec_result \<Rightarrow>
   's \<times> (js_error + 'r)" where
  "run_try label result s r =
     (case r of
        Completed stdout stderr \<Rightarrow>
          (case result s 0 (Some stdout) (Some stderr) of
             (s', Inl e) \<Rightarrow> on_failure label result s' e
           | ok \<Rightarrow> ok)
      | Failed failure \<Rightarrow> on_failure label result s failure)"

text \<open>The outer \<open>catch\<close>, for a child that was killed.\<close>

definition outer_catch :: "string \<Rightarrow> js_error \<Rightarrow> js_error" where
  "outer_catch label e =
     (if er_killed e \<noteq> None \<and> (er_signal e = Some ''SIGKILL'' \<or> er_signal e = Some ''SIGTERM'')
      then plain_error (''TIMEOUT:'' @ label) else e)"

section \<open>The codes are the words that look like one\<close>

text \<open>A reading of the output that does not scan: split it into maximal runs of word characters and
  keep those that are \<open>TS\<close> and four or five digits.\<close>

function word_runs :: "string \<Rightarrow> string list" where
  "word_runs [] = []"
| "word_runs (c # s) =
     (if is_word_char c then takeWhile is_word_char (c # s) # word_runs (dropWhile is_word_char s) else word_runs s)"
  by pat_completeness auto
termination by (relation "measure length") (auto simp: le_imp_less_Suc length_dropWhile_le)

definition is_code_word :: "string \<Rightarrow> bool" where
  "is_code_word w \<longleftrightarrow>
     starts_with w ''TS'' \<and> list_all is_digit (drop 2 w) \<and> (length (drop 2 w) = 4 \<or> length (drop 2 w) = 5)"

lemma digit_word: "is_digit c \<Longrightarrow> is_word_char c"
  by (simp add: is_word_char_def)

lemma word_letters: "is_word_char (CHR ''T'')" "is_word_char (CHR ''S'')" "\<not> is_word_char (CHR 10)"
  by (simp_all add: is_word_char_def is_letter_def is_digit_def Let_def)

lemma match_after_word: "match_codes True s = match_codes False (dropWhile is_word_char s)"
proof (induction s)
  case (Cons c s)
  show ?case
  proof (cases "is_word_char c")
    case True
    then show ?thesis using Cons.IH by simp
  next
    case False
    then have "c \<noteq> CHR ''T''" using word_letters(1) by blast
    then show ?thesis using False by simp
  qed
qed simp

lemma run_prefix:
  "\<forall>c \<in> set d. P c \<Longrightarrow> e = [] \<or> \<not> P (hd e) \<Longrightarrow> takeWhile P (d @ e) = d \<and> dropWhile P (d @ e) = e"
  by (induction d) (cases e; simp)+

lemma run_of_digits:
  assumes "dropWhile is_digit r = [] \<or> \<not> is_word_char (hd (dropWhile is_digit r))"
  shows "takeWhile is_word_char r = takeWhile is_digit r" "dropWhile is_word_char r = dropWhile is_digit r"
proof -
  have "\<forall>c \<in> set (takeWhile is_digit r). is_word_char c" using digit_word set_takeWhileD by metis
  from run_prefix[OF this assms]
  show "takeWhile is_word_char r = takeWhile is_digit r" "dropWhile is_word_char r = dropWhile is_digit r"
    unfolding takeWhile_dropWhile_id by blast+
qed

lemma digits_of_run:
  assumes "list_all is_digit (takeWhile is_word_char r)"
  shows "dropWhile is_digit r = [] \<or> \<not> is_word_char (hd (dropWhile is_digit r))"
proof -
  have e: "dropWhile is_word_char r = [] \<or> \<not> is_word_char (hd (dropWhile is_word_char r))"
    by (metis hd_dropWhile)
  then have "dropWhile is_word_char r = [] \<or> \<not> is_digit (hd (dropWhile is_word_char r))"
    using digit_word by blast
  moreover have "\<forall>c \<in> set (takeWhile is_word_char r). is_digit c" using assms unfolding list_all_iff .
  ultimately have "dropWhile is_digit r = dropWhile is_word_char r"
    using run_prefix[of "takeWhile is_word_char r" is_digit "dropWhile is_word_char r"]
    unfolding takeWhile_dropWhile_id by blast
  then show ?thesis using e by simp
qed

lemma head_case: "(case e of [] \<Rightarrow> True | c # _ \<Rightarrow> \<not> P c) \<longleftrightarrow> e = [] \<or> \<not> P (hd e)"
  by (cases e) simp_all

lemma code_digits_iff:
  "code_digits r =
     (if list_all is_digit (takeWhile is_word_char r) \<and>
         (length (takeWhile is_word_char r) = 4 \<or> length (takeWhile is_word_char r) = 5)
      then Some (takeWhile is_word_char r) else None)"
proof -
  let ?e = "dropWhile is_digit r"
  have c: "(case ?e of [] \<Rightarrow> True | c # _ \<Rightarrow> \<not> is_word_char c) \<longleftrightarrow> ?e = [] \<or> \<not> is_word_char (hd ?e)"
    by (rule head_case)
  show ?thesis
  proof (cases "?e = [] \<or> \<not> is_word_char (hd ?e)")
    case True
    have "list_all is_digit (takeWhile is_digit r)" unfolding list_all_iff using set_takeWhileD by metis
    then show ?thesis unfolding code_digits_def Let_def c run_of_digits[OF True] using True by simp
  next
    case False
    then have "\<not> list_all is_digit (takeWhile is_word_char r)" using digits_of_run by blast
    then show ?thesis unfolding code_digits_def Let_def c using False by simp
  qed
qed

lemma match_no_code:
  assumes "\<not> starts_with (c # s) ''TS''"
  shows "match_codes a (c # s) = match_codes (is_word_char c) s"
proof -
  have "(\<not> a \<and> starts_with (c # s) ''TS'') = False" using assms by blast
  then show ?thesis by (simp only: match_codes.simps if_False option.case)
qed

lemma match_word:
  assumes "is_word_char c"
  shows "match_codes False (c # s) =
    (if is_code_word (takeWhile is_word_char (c # s)) then [takeWhile is_word_char (c # s)] else []) @
    match_codes False (dropWhile is_word_char s)"
proof (cases "starts_with (c # s) ''TS''")
  case True
  then obtain r where c: "c = CHR ''T''" and s: "s = CHR ''S'' # r" by (cases s) auto
  have w: "takeWhile is_word_char (c # s) = ''TS'' @ takeWhile is_word_char r"
    using word_letters c s by simp
  have code: "is_code_word (''TS'' @ t) \<longleftrightarrow> list_all is_digit t \<and> (length t = 4 \<or> length t = 5)" for t
    by (simp add: is_code_word_def)
  show ?thesis
  proof (cases "is_code_word (takeWhile is_word_char (c # s))")
    case code_word: True
    let ?t = "takeWhile is_word_char r"
    have t: "list_all is_digit ?t" "length ?t = 4 \<or> length ?t = 5" using code_word code unfolding w by blast+
    then have "code_digits r = Some ?t" unfolding code_digits_iff by simp
    then have "match_codes False (c # s) = (''TS'' @ ?t) # match_codes True (drop (length ?t) r)"
      unfolding s unfolding c by simp
    moreover have "drop (length ?t) r = dropWhile is_word_char r" by (simp add: dropWhile_eq_drop)
    moreover have "dropWhile is_word_char (dropWhile is_word_char r) = dropWhile is_word_char r" by simp
    ultimately show ?thesis using code_word word_letters unfolding s unfolding c by (simp add: match_after_word)
  next
    case False
    then have "code_digits r = None" using code unfolding w code_digits_iff by simp
    then show ?thesis using False c s word_letters by (simp add: match_after_word)
  qed
next
  case False
  have "\<not> is_code_word (takeWhile is_word_char (c # s))"
  proof
    assume "is_code_word (takeWhile is_word_char (c # s))"
    then have "starts_with (takeWhile is_word_char (c # s)) ''TS''" by (simp add: is_code_word_def)
    then show False using False by (metis starts_with_iff append.assoc takeWhile_dropWhile_id)
  qed
  moreover have "match_codes False (c # s) = match_codes (is_word_char c) s"
    using False by (rule match_no_code)
  ultimately show ?thesis using assms by (simp add: match_after_word)
qed

lemma match_codes_words: "match_codes False s = filter is_code_word (word_runs s)"
proof (induction s rule: word_runs.induct)
  case (2 c s)
  show ?case
  proof (cases "is_word_char c")
    case True
    then show ?thesis using 2(1)[OF True] by (simp only: match_word word_runs.simps if_True filter.simps) simp
  next
    case False
    then have "c \<noteq> CHR ''T''" using word_letters(1) by blast
    then show ?thesis using 2(2)[OF False] False by simp
  qed
qed simp

lemma word_runs_append: "\<not> is_word_char c \<Longrightarrow> word_runs (a @ c # b) = word_runs a @ word_runs b"
proof (induction a rule: word_runs.induct)
  case (2 d a)
  show ?case
  proof (cases "is_word_char d")
    case True
    have "takeWhile is_word_char (a @ c # b) = takeWhile is_word_char a"
      and "dropWhile is_word_char (a @ c # b) = dropWhile is_word_char a @ c # b"
      using 2(3) by (induction a) auto
    then show ?thesis using True 2(1)[OF True 2(3)] by simp
  next
    case False
    then show ?thesis using 2(2)[OF False 2(3)] by simp
  qed
qed simp

text \<open>The codes of an invocation are, in order and with their repetitions, the words of standard
  output and then of standard error that consist of \<open>TS\<close> and four or five digits.\<close>

theorem diagnosticCodes_words:
  "diagnosticCodes stdout stderr =
     filter is_code_word (word_runs (text_or_empty stdout)) @ filter is_code_word (word_runs (text_or_empty stderr))"
  by (simp add: diagnosticCodes_def match_codes_words word_runs_append word_letters)

section \<open>A witness always carries the rendered codes\<close>

definition alive_snapshots :: "api_event list \<Rightarrow> int" where
  "alive_snapshots l = int (count_list l Snapshot_opened) - int (count_list l Snapshot_disposed)"

lemma alive_snapshots_append:
  "alive_snapshots (l @ [e]) =
     alive_snapshots l + (if e = Snapshot_opened then 1 else if e = Snapshot_disposed then -1 else 0)"
  by (simp add: alive_snapshots_def)

lemma log_event_simps [simp]:
  "ps_api (log_event e s) = ps_api s"
  "ps_log (log_event e s) = ps_log s @ [e]"
  by (simp_all add: log_event_def)

lemma witnessCodesMatch_codes: "witnessCodesMatch ws codes \<longleftrightarrow> map w_code ws = codes"
  unfolding witnessCodesMatch_def list_all_iff list_eq_iff_nth_eq[of "map w_code ws" codes] by auto

lemma client_alive: "client a s = Some s1 \<Longrightarrow> alive_snapshots (ps_log s1) = alive_snapshots (ps_log s)"
  by (auto simp: client_def alive_snapshots_append split: if_splits)

lemma collect_try_alive:
  "collect_try cwd a s configPath opts sc codes = (s1, opened, r) \<Longrightarrow>
   alive_snapshots (ps_log s1) = alive_snapshots (ps_log s) + (if opened then 1 else 0)"
  by (auto simp: collect_try_def alive_snapshots_append client_alive split: if_splits option.splits)

lemma api_witnesses_codes: "api_witnesses cwd a configPath opts sc codes = Some ws \<Longrightarrow> map w_code ws = codes"
  by (auto simp: api_witnesses_def witnessCodesMatch_codes split: option.splits if_splits)

lemma collect_try_codes:
  "collect_try cwd a s configPath opts sc codes = (s1, opened, Some ws) \<Longrightarrow> map w_code ws = codes"
  by (auto simp: collect_try_def api_witnesses_codes split: if_splits option.splits)

lemma collect_codes: "collect cwd a s configPath opts sc codes = (s', Inr (Some ws)) \<Longrightarrow> map w_code ws = codes"
  by (auto simp: collect_def Let_def collect_try_codes split: prod.splits if_splits)

text \<open>C28: whatever throws while the witnesses are collected, the snapshot that was opened is
  disposed exactly once and no other one is, and witnesses are returned only when their codes are
  the codes the command line rendered, in the same order.\<close>

theorem collect_safe:
  "alive_snapshots (ps_log (fst (collect cwd a s configPath opts sc codes))) = alive_snapshots (ps_log s) \<and>
   (case snd (collect cwd a s configPath opts sc codes) of
      Inr (Some ws) \<Rightarrow> map w_code ws = codes
    | _ \<Rightarrow> True)"
proof
  obtain s1 opened r where t: "collect_try cwd a s configPath opts sc codes = (s1, opened, r)"
    by (metis prod_cases3)
  show "alive_snapshots (ps_log (fst (collect cwd a s configPath opts sc codes))) = alive_snapshots (ps_log s)"
    using collect_try_alive[OF t] by (simp add: collect_def t Let_def alive_snapshots_append)
  obtain s' v where c: "collect cwd a s configPath opts sc codes = (s', v)" by fastforce
  show "case snd (collect cwd a s configPath opts sc codes) of Inr (Some ws) \<Rightarrow> map w_code ws = codes | _ \<Rightarrow> True"
    unfolding c using collect_codes[of cwd a s configPath opts sc codes s'] c
    by (cases v) (simp_all split: option.split)
qed

text \<open>The asking function of a session: each question meets the given answers.\<close>

definition ask_session ::
  "string \<Rightarrow> api_answers \<Rightarrow> string \<Rightarrow> (string \<times> jsval) list \<Rightarrow> scope \<Rightarrow> pts_session \<Rightarrow> string list \<Rightarrow>
   pts_session \<times> (string + witness list option)" where
  "ask_session cwd a apiConfigPath opts sc s codes =
     collect cwd a s apiConfigPath opts (sc\<lparr>forbiddenFile := Some apiConfigPath\<rparr>) codes"

definition code_field :: "jsval \<Rightarrow> jsval" where
  "code_field v = (case v of JObj ob \<Rightarrow> obj_get ob ''code'' | _ \<Rightarrow> JUndef)"

lemma code_field_witness [simp]: "code_field (witness_value w) = JStr (w_code w)"
  by (cases w) (simp add: code_field_def obj_get_def)

definition outcome_coded :: "int \<Rightarrow> string list \<Rightarrow> js_error + compiler_outcome \<Rightarrow> bool" where
  "outcome_coded n codes r =
     (case r of
        Inl _ \<Rightarrow> True
      | Inr oc \<Rightarrow> co_exit oc = n \<and> co_codes oc = codes \<and>
          (case co_witnesses oc of None \<Rightarrow> True | Some ws \<Rightarrow> map code_field ws = map JStr codes))"

lemma outcome_codedI:
  "(\<And>l. ws = Some l \<Longrightarrow> map w_code l = codes) \<Longrightarrow>
   outcome_coded n codes (Inr \<lparr>co_exit = n, co_codes = codes, co_witnesses = map_option (map witness_value) ws\<rparr>)"
  by (cases ws) (auto simp: outcome_coded_def)

lemma outcome_is_coded:
  "outcome_coded exitCode (diagnosticCodes stdout stderr)
     (snd (outcomeWithWitnesses cwd provider json
        (map_option (\<lambda>a. ask_session cwd a apiConfigPath opts sc) answers) sc s exitCode stdout stderr))"
proof -
  let ?codes = "diagnosticCodes stdout stderr"
  have m: "witnessCodesMatch ws ?codes \<Longrightarrow> map w_code ws = ?codes" for ws
    by (simp add: witnessCodesMatch_codes)
  consider "provider = None" | "provider = Some Tsz_json" | "provider = Some Typescript_7_api"
    by (metis not_None_eq witness_provider.exhaust)
  then show ?thesis
  proof cases
    case 1
    then show ?thesis by (auto simp: outcomeWithWitnesses_def Let_def intro!: outcome_codedI[where ws = None, simplified])
  next
    case 2
    let ?W = "case json of
        Some v \<Rightarrow> (case canonicalizeTszDiagnosticsJson cwd v sc of
           Some ws \<Rightarrow> if witnessCodesMatch ws ?codes then Some ws else None | None \<Rightarrow> None)
      | None \<Rightarrow> None"
    have "map w_code l = ?codes" if "?W = Some l" for l
      using that by (auto simp: m split: option.splits if_splits)
    then show ?thesis using outcome_codedI[of ?W ?codes exitCode] 2
      by (simp only: outcomeWithWitnesses_def Let_def option.case witness_provider.case snd_conv)
  next
    case 3
    have none: "outcome_coded exitCode ?codes (Inr \<lparr>co_exit = exitCode, co_codes = ?codes, co_witnesses = None\<rparr>)"
      using outcome_codedI[of None ?codes exitCode] by simp
    show ?thesis
    proof (cases answers)
      case None
      then show ?thesis using 3 none by (auto simp: outcomeWithWitnesses_def Let_def outcome_coded_def)
    next
      case (Some a)
      obtain s' r where c: "ask_session cwd a apiConfigPath opts sc s ?codes = (s', r)" by fastforce
      then have r: "r = Inr (Some ws) \<Longrightarrow> map w_code ws = ?codes" for ws
        unfolding ask_session_def using collect_codes by blast
      then have "outcome_coded exitCode ?codes
          (Inr \<lparr>co_exit = exitCode, co_codes = ?codes, co_witnesses = map_option (map witness_value) ws\<rparr>)"
        if "r = Inr ws" for ws
        using that by (intro outcome_codedI) simp
      then show ?thesis using 3 none c Some
        by (cases r) (auto simp: outcomeWithWitnesses_def Let_def outcome_coded_def)
    qed
  qed
qed

text \<open>The outcome of an invocation has the exit code of the child and the codes of its output,
  and when it carries witnesses, of either provider, they are one for each code and in order.\<close>

theorem outcome_witnessed:
  "outcome_coded exitCode (diagnosticCodes stdout stderr)
     (snd (outcomeWithWitnesses cwd provider json
        (map_option (\<lambda>a. ask_session cwd a apiConfigPath opts sc) answers) sc s exitCode stdout stderr))"
  by (rule outcome_is_coded)

end
