(* ===== verification/CliProducts.thy ===== *)
theory CliProducts
  imports CliOutcome
begin

text \<open>
  How an invocation of \<open>scripts/emit/src/cli-transpiler.ts\<close> collects what the compiler wrote:
  the recursive walk over the scope, the exact derived paths, the exclusion of staged inputs, and
  the two sorted product lists. The file system is a record of operations, each of which may throw;
  \<open>localeCompare\<close> is an argument. The walk gets the number of nested calls the JavaScript stack
  holds: one more is a \<open>RangeError\<close>.
\<close>

section \<open>The file system\<close>

datatype entry_kind = Regular_entry | Directory_entry | Link_entry | Other_entry

record 'f fs_ops =
  fo_mkdirp :: "string \<Rightarrow> 'f \<Rightarrow> 'f \<times> (js_error + unit)"
  fo_write :: "string \<Rightarrow> string \<Rightarrow> 'f \<Rightarrow> 'f \<times> (js_error + unit)"
  fo_rm :: "string \<Rightarrow> 'f \<Rightarrow> 'f \<times> (js_error + unit)"
  fo_symlink :: "string \<Rightarrow> string \<Rightarrow> string \<Rightarrow> 'f \<Rightarrow> 'f \<times> (js_error + unit)"
  fo_exists :: "'f \<Rightarrow> string \<Rightarrow> bool"
  fo_isDirectory :: "'f \<Rightarrow> string \<Rightarrow> js_error + bool"
  fo_realpath :: "'f \<Rightarrow> string \<Rightarrow> string option"
  fo_read :: "'f \<Rightarrow> string \<Rightarrow> js_error + string"
  fo_readdir :: "'f \<Rightarrow> string \<Rightarrow> js_error + (string \<times> entry_kind) list"

section \<open>Collection\<close>

record collected =
  cd_seen :: "string list"
  cd_js :: "emit_product list"
  cd_dts :: "emit_product list"

definition isCollectableOutput :: "'f fs_ops \<Rightarrow> 'f \<Rightarrow> string \<Rightarrow> string list \<Rightarrow> string \<Rightarrow> bool" where
  "isCollectableOutput ops f cwd inputPathSet candidate \<longleftrightarrow>
     fo_exists ops f candidate \<and> \<not> isStagedInputPath cwd (fo_realpath ops f) inputPathSet candidate"

definition normalizeOutputRelPath :: "'f fs_ops \<Rightarrow> 'f \<Rightarrow> string \<Rightarrow> string \<Rightarrow> string \<Rightarrow> string" where
  "normalizeOutputRelPath ops f cwd testDir filePath =
     to_slashes (path_relative cwd testDir (physicalPathIdentity cwd (fo_realpath ops f) filePath))"

definition js_exts :: "string list" where "js_exts = [''js'', ''jsx'', ''mjs'', ''cjs'']"

definition addFile ::
  "'f fs_ops \<Rightarrow> 'f \<Rightarrow> string \<Rightarrow> string \<Rightarrow> string list \<Rightarrow> string \<Rightarrow> collected \<Rightarrow> js_error + collected" where
  "addFile ops f cwd testDir inputPathSet entryPath st =
     (if \<not> isCollectableOutput ops f cwd inputPathSet entryPath then Inr st
      else
        let relativePath = normalizeOutputRelPath ops f cwd testDir entryPath in
        if relativePath \<in> set (cd_seen st) then Inr st
        else
          and_then (fo_read ops f entryPath) (\<lambda>content.
            let st1 = st\<lparr>cd_seen := cd_seen st @ [relativePath]\<rparr>;
                product = \<lparr>p_path = relativePath, p_content = content\<rparr>
            in if has_ext dts_exts relativePath then Inr (st1\<lparr>cd_dts := cd_dts st1 @ [product]\<rparr>)
               else if has_ext js_exts relativePath then Inr (st1\<lparr>cd_js := cd_js st1 @ [product]\<rparr>)
               else Inr st1))"

definition range_error :: js_error where
  "range_error = plain_error ''Maximum call stack size exceeded''"

fun visit ::
  "'f fs_ops \<Rightarrow> 'f \<Rightarrow> (string \<Rightarrow> 's \<Rightarrow> js_error + 's) \<Rightarrow> nat \<Rightarrow> string \<Rightarrow> 's \<Rightarrow> js_error + 's" and
  visit_entries ::
  "'f fs_ops \<Rightarrow> 'f \<Rightarrow> (string \<Rightarrow> 's \<Rightarrow> js_error + 's) \<Rightarrow> nat \<Rightarrow> string \<Rightarrow> (string \<times> entry_kind) list \<Rightarrow> 's \<Rightarrow>
   js_error + 's" where
  "visit ops f add 0 directory st = Inl range_error"
| "visit ops f add (Suc n) directory st =
     and_then (fo_readdir ops f directory) (\<lambda>entries. visit_entries ops f add n directory entries st)"
| "visit_entries ops f add n directory [] st = Inr st"
| "visit_entries ops f add n directory ((name, ek) # es) st =
     (let entryPath = path_join [directory, name] in
      and_then
        (case ek of
           Link_entry \<Rightarrow> Inr st
         | Directory_entry \<Rightarrow> visit ops f add n entryPath st
         | Regular_entry \<Rightarrow> add entryPath st
         | Other_entry \<Rightarrow> Inr st)
        (\<lambda>st'. visit_entries ops f add n directory es st'))"

text \<open>\<open>for (const candidate of candidates) addFile(candidate)\<close>\<close>

fun each_file :: "(string \<Rightarrow> 's \<Rightarrow> js_error + 's) \<Rightarrow> string list \<Rightarrow> 's \<Rightarrow> js_error + 's" where
  "each_file add [] st = Inr st"
| "each_file add (p # ps) st = and_then (add p st) (each_file add ps)"

text \<open>\<open>[...new Set(xs)]\<close>\<close>

definition first_occurrences :: "'a list \<Rightarrow> 'a list" where
  "first_occurrences xs = rev (remdups (rev xs))"

definition productPaths ::
  "'f fs_ops \<Rightarrow> 'f \<Rightarrow> string \<Rightarrow> derived_output list \<Rightarrow> bool \<Rightarrow> string list" where
  "productPaths ops f cwd derivedOutputs dtsMode =
     first_occurrences (map (physicalPathIdentity cwd (fo_realpath ops f))
       (map (\<lambda>output. if dtsMode then do_dts output else do_js output) derivedOutputs))"

definition path_order :: "(string \<Rightarrow> string \<Rightarrow> int) \<Rightarrow> emit_product list \<Rightarrow> emit_product list" where
  "path_order localeCompare ps = sort_by (\<lambda>l r. localeCompare (p_path l) (p_path r)) ps"

definition collectActualProducts ::
  "'f fs_ops \<Rightarrow> 'f \<Rightarrow> (string \<Rightarrow> string \<Rightarrow> int) \<Rightarrow> nat \<Rightarrow> string \<Rightarrow> string \<Rightarrow> string \<Rightarrow> string list \<Rightarrow>
   derived_output list \<Rightarrow> js_error + emit_product list \<times> emit_product list" where
  "collectActualProducts ops f localeCompare stack cwd testDir testScopeDir inputPathSet derivedOutputs =
     (let add = addFile ops f cwd testDir inputPathSet in
      and_then (visit ops f add stack testScopeDir \<lparr>cd_seen = [], cd_js = [], cd_dts = []\<rparr>) (\<lambda>st.
      and_then (each_file add
          (productPaths ops f cwd derivedOutputs False @ productPaths ops f cwd derivedOutputs True) st) (\<lambda>st'.
      Inr (path_order localeCompare (cd_js st'), path_order localeCompare (cd_dts st')))))"

section \<open>The walk visits every regular file of the scope\<close>

text \<open>The regular files below a directory in the order of the walk.\<close>

fun files_below :: "'f fs_ops \<Rightarrow> 'f \<Rightarrow> nat \<Rightarrow> string \<Rightarrow> string list" where
  "files_below ops f 0 directory = []"
| "files_below ops f (Suc n) directory =
     (case fo_readdir ops f directory of
        Inl _ \<Rightarrow> []
      | Inr entries \<Rightarrow>
          concat (map (\<lambda>(name, ek).
            case ek of
              Directory_entry \<Rightarrow> files_below ops f n (path_join [directory, name])
            | Regular_entry \<Rightarrow> [path_join [directory, name]]
            | _ \<Rightarrow> []) entries))"

lemma each_file_append: "each_file add (ps @ qs) st = and_then (each_file add ps st) (each_file add qs)"
proof (induction ps arbitrary: st)
  case (Cons p ps)
  then show ?case by (cases "add p st") simp_all
qed simp

lemma visit_files:
  "visit ops f add n directory st = Inr st' \<Longrightarrow> each_file add (files_below ops f n directory) st = Inr st'"
  "visit_entries ops f add n directory entries st = Inr st' \<Longrightarrow>
     each_file add (concat (map (\<lambda>(name, ek).
            case ek of
              Directory_entry \<Rightarrow> files_below ops f n (path_join [directory, name])
            | Regular_entry \<Rightarrow> [path_join [directory, name]]
            | _ \<Rightarrow> []) entries)) st = Inr st'"
proof (induction ops f add n directory st and ops f add n directory entries st
    arbitrary: st' and st' rule: visit_visit_entries.induct)
  case (2 ops f add n directory st)
  then obtain es where r: "fo_readdir ops f directory = Inr es"
    and v: "visit_entries ops f add n directory es st = Inr st'"
    by (auto simp: and_then_Inr)
  show ?case using 2(1)[OF v] r by simp
next
  case (4 ops f add n directory name ek es st)
  show ?case
  proof (cases ek)
    case Regular_entry
    then obtain s1 where "add (path_join [directory, name]) st = Inr s1"
      "visit_entries ops f add n directory es s1 = Inr st'"
      using 4(3) by (auto simp: and_then_Inr Let_def)
    then show ?thesis using 4(2) Regular_entry by simp
  next
    case Directory_entry
    then obtain s1 where s1: "visit ops f add n (path_join [directory, name]) st = Inr s1"
      "visit_entries ops f add n directory es s1 = Inr st'"
      using 4(3) by (auto simp: and_then_Inr Let_def)
    have "each_file add (files_below ops f n (path_join [directory, name])) st = Inr s1"
      using 4(1)[OF refl Directory_entry s1(1)] .
    then show ?thesis using 4(2)[OF refl s1(2)] Directory_entry by (simp add: each_file_append)
  next
    case Link_entry
    then show ?thesis using 4(2)[of _ st] 4(3) by (simp add: Let_def)
  next
    case Other_entry
    then show ?thesis using 4(2)[of _ st] 4(3) by (simp add: Let_def)
  qed
qed simp_all

section \<open>A walk ends when the directories do\<close>

definition ranked :: "'f fs_ops \<Rightarrow> 'f \<Rightarrow> (string \<Rightarrow> nat) \<Rightarrow> bool" where
  "ranked ops f rank \<longleftrightarrow>
     (\<forall>d es name. fo_readdir ops f d = Inr es \<and> (name, Directory_entry) \<in> set es \<longrightarrow>
        rank (path_join [d, name]) < rank d)"

lemma visit_rank:
  "ranked ops f rank \<Longrightarrow> rank directory < n \<Longrightarrow> visit ops f add n directory st = visit ops f add (Suc (rank directory)) directory st"
proof (induction "rank directory" arbitrary: n directory st rule: less_induct)
  case less
  obtain m where n: "n = Suc m" using less.prems(2) by (cases n) auto
  show ?case
  proof (cases "fo_readdir ops f directory")
    case (Inl e)
    then show ?thesis by (simp add: n)
  next
    case (Inr es)
    have sub: "visit ops f add m (path_join [directory, name]) st =
        visit ops f add (rank directory) (path_join [directory, name]) st"
      if "(name, Directory_entry) \<in> set es" for name st
    proof -
      have r: "rank (path_join [directory, name]) < rank directory"
        using less.prems(1) Inr that unfolding ranked_def by blast
      then have "rank (path_join [directory, name]) < m" using less.prems(2) n by simp
      then show ?thesis using less.hyps[OF r less.prems(1)] r by metis
    qed
    have "set xs \<subseteq> set es \<Longrightarrow>
        visit_entries ops f add m directory xs st = visit_entries ops f add (rank directory) directory xs st" for xs st
    proof (induction xs arbitrary: st)
      case (Cons x xs)
      obtain name ek where x: "x = (name, ek)" by fastforce
      have tail: "visit_entries ops f add m directory xs = visit_entries ops f add (rank directory) directory xs"
        using Cons by auto
      show ?case
      proof (cases "ek = Directory_entry")
        case True
        then have "(name, Directory_entry) \<in> set es" using Cons.prems x by simp
        then show ?thesis using True sub tail by (simp add: x Let_def)
      next
        case False
        then show ?thesis using tail by (cases ek) (simp_all add: x Let_def)
      qed
    qed simp
    then show ?thesis using Inr n by simp
  qed
qed

definition readable :: "'f fs_ops \<Rightarrow> 'f \<Rightarrow> string \<Rightarrow> bool" where
  "readable ops f scope \<longleftrightarrow>
     (\<exists>es. fo_readdir ops f scope = Inr es) \<and>
     (\<forall>d es name. fo_readdir ops f d = Inr es \<and> (name, Directory_entry) \<in> set es \<longrightarrow>
        (\<exists>es'. fo_readdir ops f (path_join [d, name]) = Inr es')) \<and>
     (\<forall>p. fo_exists ops f p \<longrightarrow> (\<exists>content. fo_read ops f p = Inr content))"

lemma addFile_total: "readable ops f scope \<Longrightarrow> \<exists>st'. addFile ops f cwd testDir inputs p st = Inr st'"
proof -
  assume r: "readable ops f scope"
  show ?thesis
  proof (cases "isCollectableOutput ops f cwd inputs p")
    case True
    then obtain c where "fo_read ops f p = Inr c" using r by (auto simp: isCollectableOutput_def readable_def)
    then show ?thesis using True by (simp add: addFile_def Let_def)
  qed (simp add: addFile_def)
qed

lemma each_file_total: "(\<And>p st. \<exists>st'. add p st = Inr st') \<Longrightarrow> \<exists>st'. each_file add ps st = Inr st'"
proof (induction ps arbitrary: st)
  case (Cons p ps)
  obtain s1 where "add p st = Inr s1" using Cons.prems by blast
  then show ?case using Cons by simp
qed simp

lemma visit_total:
  assumes "readable ops f scope" and "ranked ops f rank" and "\<And>p st. \<exists>st'. add p st = Inr st'"
  shows "\<lbrakk>\<exists>es. fo_readdir ops f directory = Inr es; rank directory < n\<rbrakk> \<Longrightarrow>
    \<exists>st'. visit ops f add n directory st = Inr st'"
proof (induction n arbitrary: directory st)
  case (Suc n)
  then obtain es where es: "fo_readdir ops f directory = Inr es" by blast
  have "set xs \<subseteq> set es \<Longrightarrow> \<exists>st'. visit_entries ops f add n directory xs st = Inr st'" for xs st
  proof (induction xs arbitrary: st)
    case (Cons x xs)
    obtain name ek where x: "x = (name, ek)" by fastforce
    have "\<exists>s1. (case ek of Link_entry \<Rightarrow> Inr st | Directory_entry \<Rightarrow> visit ops f add n (path_join [directory, name]) st
        | Regular_entry \<Rightarrow> add (path_join [directory, name]) st | Other_entry \<Rightarrow> Inr st) = Inr s1"
    proof (cases "ek = Directory_entry")
      case True
      then have m: "(name, Directory_entry) \<in> set es" using Cons.prems x by simp
      then have "rank (path_join [directory, name]) < n"
        using assms(2) es Suc.prems(2) unfolding ranked_def by fastforce
      moreover have "\<exists>es. fo_readdir ops f (path_join [directory, name]) = Inr es"
        using assms(1) es m unfolding readable_def by blast
      ultimately show ?thesis using True Suc.IH by simp
    next
      case False
      then show ?thesis using assms(3) by (cases ek) simp_all
    qed
    then show ?case using Cons by (auto simp: x Let_def)
  qed simp
  then show ?case using es by simp
qed simp

section \<open>What is reported\<close>

definition collected_inv ::
  "'f fs_ops \<Rightarrow> 'f \<Rightarrow> string \<Rightarrow> string \<Rightarrow> string list \<Rightarrow> string list \<Rightarrow> collected \<Rightarrow> bool" where
  "collected_inv ops f cwd testDir inputs ps st \<longleftrightarrow>
     distinct (cd_seen st) \<and>
     set (cd_seen st) = normalizeOutputRelPath ops f cwd testDir ` set (filter (isCollectableOutput ops f cwd inputs) ps) \<and>
     map p_path (cd_dts st) = filter (has_ext dts_exts) (cd_seen st) \<and>
     map p_path (cd_js st) = filter (\<lambda>r. \<not> has_ext dts_exts r \<and> has_ext js_exts r) (cd_seen st) \<and>
     (\<forall>q \<in> set (cd_js st @ cd_dts st). \<exists>p \<in> set ps. isCollectableOutput ops f cwd inputs p \<and>
        normalizeOutputRelPath ops f cwd testDir p = p_path q \<and> fo_read ops f p = Inr (p_content q))"

lemma collected_invD:
  assumes "collected_inv ops f cwd testDir inputs ps st"
  shows "distinct (cd_seen st)"
    "set (cd_seen st) = normalizeOutputRelPath ops f cwd testDir ` set (filter (isCollectableOutput ops f cwd inputs) ps)"
    "map p_path (cd_dts st) = filter (has_ext dts_exts) (cd_seen st)"
    "map p_path (cd_js st) = filter (\<lambda>r. \<not> has_ext dts_exts r \<and> has_ext js_exts r) (cd_seen st)"
    "\<forall>q \<in> set (cd_js st @ cd_dts st). \<exists>p \<in> set ps. isCollectableOutput ops f cwd inputs p \<and>
        normalizeOutputRelPath ops f cwd testDir p = p_path q \<and> fo_read ops f p = Inr (p_content q)"
  using assms unfolding collected_inv_def by blast+

lemma collected_init: "collected_inv ops f cwd testDir inputs [] \<lparr>cd_seen = [], cd_js = [], cd_dts = []\<rparr>"
  by (simp add: collected_inv_def)

lemma collected_step:
  assumes "collected_inv ops f cwd testDir inputs ps st" and "addFile ops f cwd testDir inputs p st = Inr st'"
  shows "collected_inv ops f cwd testDir inputs (ps @ [p]) st'"
proof (cases "isCollectableOutput ops f cwd inputs p")
  case False
  then have "st' = st" using assms(2) by (simp add: addFile_def)
  then show ?thesis using assms(1) False by (fastforce simp: collected_inv_def)
next
  case coll: True
  let ?r = "normalizeOutputRelPath ops f cwd testDir p"
  note inv = collected_invD[OF assms(1)]
  show ?thesis
  proof (cases "?r \<in> set (cd_seen st)")
    case True
    then have "st' = st" using assms(2) coll by (simp add: addFile_def Let_def)
    moreover have "set (cd_seen st) = normalizeOutputRelPath ops f cwd testDir `
        set (filter (isCollectableOutput ops f cwd inputs) (ps @ [p]))"
      using True inv(2) coll by auto
    moreover have "\<forall>q \<in> set (cd_js st @ cd_dts st). \<exists>p \<in> set (ps @ [p]). isCollectableOutput ops f cwd inputs p \<and>
        normalizeOutputRelPath ops f cwd testDir p = p_path q \<and> fo_read ops f p = Inr (p_content q)"
      using inv(5) by fastforce
    ultimately show ?thesis using inv(1,3,4) unfolding collected_inv_def by blast
  next
    case new: False
    obtain c where c: "fo_read ops f p = Inr c"
      using assms(2) coll new by (cases "fo_read ops f p") (simp_all add: addFile_def Let_def)
    let ?q = "\<lparr>p_path = ?r, p_content = c\<rparr>"
    have st': "cd_seen st' = cd_seen st @ [?r]"
      "cd_dts st' = cd_dts st @ (if has_ext dts_exts ?r then [?q] else [])"
      "cd_js st' = cd_js st @ (if \<not> has_ext dts_exts ?r \<and> has_ext js_exts ?r then [?q] else [])"
      using assms(2) coll new c by (auto simp: addFile_def Let_def split: if_splits)
    have q: "\<exists>x \<in> set (ps @ [p]). isCollectableOutput ops f cwd inputs x \<and>
        normalizeOutputRelPath ops f cwd testDir x = p_path ?q \<and> fo_read ops f x = Inr (p_content ?q)"
      using coll c by auto
    have old: "\<exists>x \<in> set (ps @ [p]). isCollectableOutput ops f cwd inputs x \<and>
        normalizeOutputRelPath ops f cwd testDir x = p_path y \<and> fo_read ops f x = Inr (p_content y)"
      if "y \<in> set (cd_js st @ cd_dts st)" for y
      using inv(5) that by fastforce
    have mem: "y \<in> set (cd_js st @ cd_dts st) \<or> y = ?q" if "y \<in> set (cd_js st' @ cd_dts st')" for y
      using that by (auto simp: st' split: if_splits)
    have "\<forall>y \<in> set (cd_js st' @ cd_dts st'). \<exists>x \<in> set (ps @ [p]). isCollectableOutput ops f cwd inputs x \<and>
        normalizeOutputRelPath ops f cwd testDir x = p_path y \<and> fo_read ops f x = Inr (p_content y)"
      using mem old q by blast
    moreover have "distinct (cd_seen st')" using inv(1) new by (simp add: st')
    moreover have "set (cd_seen st') = normalizeOutputRelPath ops f cwd testDir `
        set (filter (isCollectableOutput ops f cwd inputs) (ps @ [p]))"
      using inv(2) coll by (simp add: st')
    moreover have "map p_path (cd_dts st') = filter (has_ext dts_exts) (cd_seen st')"
      using inv(3) by (simp add: st')
    moreover have "map p_path (cd_js st') = filter (\<lambda>r. \<not> has_ext dts_exts r \<and> has_ext js_exts r) (cd_seen st')"
      using inv(4) by (simp add: st')
    ultimately show ?thesis unfolding collected_inv_def by blast
  qed
qed

lemma collected_files:
  "collected_inv ops f cwd testDir inputs ps st \<Longrightarrow>
   each_file (addFile ops f cwd testDir inputs) qs st = Inr st' \<Longrightarrow>
   collected_inv ops f cwd testDir inputs (ps @ qs) st'"
proof (induction qs arbitrary: ps st)
  case (Cons q qs)
  obtain s1 where "addFile ops f cwd testDir inputs q st = Inr s1"
    "each_file (addFile ops f cwd testDir inputs) qs s1 = Inr st'"
    using Cons.prems(2) by (auto simp: and_then_Inr)
  then show ?case using Cons.IH[of "ps @ [q]" s1] collected_step[OF Cons.prems(1)] by simp
qed simp

text \<open>Every path the collection looks at.\<close>

definition candidates ::
  "'f fs_ops \<Rightarrow> 'f \<Rightarrow> nat \<Rightarrow> string \<Rightarrow> string \<Rightarrow> derived_output list \<Rightarrow> string list" where
  "candidates ops f stack cwd testScopeDir derivedOutputs =
     files_below ops f stack testScopeDir @
     productPaths ops f cwd derivedOutputs False @ productPaths ops f cwd derivedOutputs True"

text \<open>The relative paths of those that exist and are no staged input.\<close>

definition reported ::
  "'f fs_ops \<Rightarrow> 'f \<Rightarrow> string \<Rightarrow> string \<Rightarrow> string list \<Rightarrow> string list \<Rightarrow> string set" where
  "reported ops f cwd testDir inputs ps =
     normalizeOutputRelPath ops f cwd testDir ` set (filter (isCollectableOutput ops f cwd inputs) ps)"

lemma products_spec:
  assumes "collectActualProducts ops f localeCompare stack cwd testDir testScopeDir inputs derived = Inr (js, dts)"
  shows "distinct (map p_path js) \<and> distinct (map p_path dts) \<and>
    set (map p_path dts) =
      {r \<in> reported ops f cwd testDir inputs (candidates ops f stack cwd testScopeDir derived). has_ext dts_exts r} \<and>
    set (map p_path js) =
      {r \<in> reported ops f cwd testDir inputs (candidates ops f stack cwd testScopeDir derived).
         \<not> has_ext dts_exts r \<and> has_ext js_exts r} \<and>
    (\<forall>q \<in> set (js @ dts). \<exists>p \<in> set (candidates ops f stack cwd testScopeDir derived).
       isCollectableOutput ops f cwd inputs p \<and>
       normalizeOutputRelPath ops f cwd testDir p = p_path q \<and> fo_read ops f p = Inr (p_content q))"
proof -
  let ?add = "addFile ops f cwd testDir inputs"
  obtain st st' where v: "visit ops f ?add stack testScopeDir \<lparr>cd_seen = [], cd_js = [], cd_dts = []\<rparr> = Inr st"
    and e: "each_file ?add (productPaths ops f cwd derived False @ productPaths ops f cwd derived True) st = Inr st'"
    and js: "js = path_order localeCompare (cd_js st')" and dts: "dts = path_order localeCompare (cd_dts st')"
    using assms by (auto simp: collectActualProducts_def Let_def and_then_Inr)
  have "collected_inv ops f cwd testDir inputs ([] @ files_below ops f stack testScopeDir) st"
    using collected_files[OF collected_init visit_files(1)[OF v]] .
  then have i: "collected_inv ops f cwd testDir inputs (candidates ops f stack cwd testScopeDir derived) st'"
    using collected_files[OF _ e] unfolding candidates_def by (metis append_Nil)
  note inv = collected_invD[OF i]
  have p: "mset (map p_path (path_order localeCompare ps)) = mset (map p_path ps)" for ps
    by (simp add: path_order_def)
  have "distinct (map p_path (cd_js st'))" "distinct (map p_path (cd_dts st'))"
    using inv(1) unfolding inv(3) inv(4) by simp_all
  then have "distinct (map p_path js)" "distinct (map p_path dts)"
    using p js dts mset_eq_imp_distinct_iff by blast+
  moreover have "set (map p_path dts) = set (filter (has_ext dts_exts) (cd_seen st'))"
    using p[of "cd_dts st'"] dts inv(3) by (metis set_mset_mset)
  moreover have "set (map p_path js) = set (filter (\<lambda>r. \<not> has_ext dts_exts r \<and> has_ext js_exts r) (cd_seen st'))"
    using p[of "cd_js st'"] js inv(4) by (metis set_mset_mset)
  moreover have "set (js @ dts) = set (cd_js st' @ cd_dts st')" by (simp add: js dts path_order_def)
  ultimately show ?thesis using inv(2,5) unfolding reported_def by simp
qed

text \<open>C5: the collection reports exactly the files of the scope and of the expected places that exist
  and were not staged: the declaration products are those with a declaration extension, the
  JavaScript products those with a JavaScript one, no path is reported twice, and every content
  is that of a file with the reported path.\<close>

theorem products_exact:
  assumes "collectActualProducts ops f localeCompare stack cwd testDir testScopeDir inputs derived = Inr (js, dts)"
  shows "distinct (map p_path js) \<and> distinct (map p_path dts) \<and>
    set (map p_path dts) =
      {r \<in> reported ops f cwd testDir inputs (candidates ops f stack cwd testScopeDir derived). has_ext dts_exts r} \<and>
    set (map p_path js) =
      {r \<in> reported ops f cwd testDir inputs (candidates ops f stack cwd testScopeDir derived).
         \<not> has_ext dts_exts r \<and> has_ext js_exts r} \<and>
    (\<forall>q \<in> set (js @ dts). \<exists>p \<in> set (candidates ops f stack cwd testScopeDir derived).
       isCollectableOutput ops f cwd inputs p \<and>
       normalizeOutputRelPath ops f cwd testDir p = p_path q \<and> fo_read ops f p = Inr (p_content q))"
  using assms by (rule products_spec)


section \<open>A scope with a staged source and an emitted file\<close>

definition demo_dirs :: "string \<Rightarrow> (string \<times> entry_kind) list option" where
  "demo_dirs d =
     (if d = ''/s'' then Some [(''cwd'', Directory_entry)]
      else if d = ''/s/cwd'' then Some [(''a.ts'', Regular_entry), (''a.js'', Regular_entry), (''a.d.ts'', Regular_entry)]
      else None)"

definition demo_fs :: "unit fs_ops" where
  "demo_fs =
     \<lparr>fo_mkdirp = (\<lambda>p f. (f, Inr ())), fo_write = (\<lambda>p c f. (f, Inr ())), fo_rm = (\<lambda>p f. (f, Inr ())),
      fo_symlink = (\<lambda>t l k f. (f, Inr ())),
      fo_exists = (\<lambda>f p. p = ''/s/cwd/a.ts'' \<or> p = ''/s/cwd/a.js'' \<or> p = ''/s/cwd/a.d.ts''),
      fo_isDirectory = (\<lambda>f p. Inr (demo_dirs p \<noteq> None)), fo_realpath = (\<lambda>f p. None),
      fo_read = (\<lambda>f p. Inr ''x''),
      fo_readdir = (\<lambda>f d. case demo_dirs d of Some es \<Rightarrow> Inr es | None \<Rightarrow> Inl (plain_error ''ENOENT''))\<rparr>"

definition demo_derived :: "derived_output list" where
  "demo_derived = [\<lparr>do_js = ''/s/cwd/a.js'', do_dts = ''/s/cwd/a.d.ts''\<rparr>]"

definition demo_rank :: "string \<Rightarrow> nat" where
  "demo_rank d = (if d = ''/s'' then 1 else 0)"

lemma demo_ranked: "ranked demo_fs () demo_rank"
proof -
  have "path_join [''/s'', ''cwd''] = ''/s/cwd''" by code_simp
  then have "demo_rank (path_join [''/s'', ''cwd'']) < demo_rank ''/s''" by (simp add: demo_rank_def)
  then show ?thesis by (auto simp: ranked_def demo_fs_def demo_dirs_def split: if_splits)
qed

lemma demo_readable: "readable demo_fs () ''/s''"
proof -
  have "path_join [''/s'', ''cwd''] = ''/s/cwd''" by code_simp
  then show ?thesis by (auto simp: readable_def demo_fs_def demo_dirs_def split: if_splits)
qed

theorem products_exact_witness:
  "set (map p_path [\<lparr>p_path = ''a.js'', p_content = ''x''\<rparr>]) =
     {r \<in> reported demo_fs () ''/'' ''/s/cwd'' [''/s/cwd/a.ts''] (candidates demo_fs () 5 ''/'' ''/s'' demo_derived).
        \<not> has_ext dts_exts r \<and> has_ext js_exts r}"
proof -
  have "collectActualProducts demo_fs () str_cmp 5 ''/'' ''/s/cwd'' ''/s'' [''/s/cwd/a.ts''] demo_derived =
      Inr ([\<lparr>p_path = ''a.js'', p_content = ''x''\<rparr>], [\<lparr>p_path = ''a.d.ts'', p_content = ''x''\<rparr>])"
    by code_simp
  from products_exact[OF this] show ?thesis by blast
qed


end
