(* ===== verification/CliRun.thy ===== *)
theory CliRun
  imports CliProducts
begin

text \<open>
  The transpiler of \<open>scripts/emit/src/cli-transpiler.ts\<close>: finding the compiler, staging the
  inputs of an invocation, building its command line, running it, and cleaning up. Invocations
  overlap: \<open>transpile\<close> runs without interruption up to the call of the child process
  (\<open>start\<close>) and again from its end (\<open>settle\<close>), and any other event may come between. The
  file system, the child processes, the API and \<open>JSON.parse\<close> are arguments.
\<close>

section \<open>The compiler\<close>

definition tszInPath :: "string option \<Rightarrow> string option" where
  "tszInPath whichOutput =
     (case whichOutput of
        None \<Rightarrow> None
      | Some out \<Rightarrow> if trim out = [] then None else Some (trim out))"

definition findTszBinary :: "string \<Rightarrow> (string \<Rightarrow> bool) \<Rightarrow> string option \<Rightarrow> string option \<Rightarrow> js_error + string" where
  "findTszBinary rootDir existsSync envBin whichOutput =
     (if truthy envBin \<and> existsSync (the envBin) then Inr (the envBin)
      else
        let possiblePaths =
          [path_join [rootDir, ''.target/dist-fast/tsz''], path_join [rootDir, ''.target/release/tsz''],
           path_join [rootDir, ''target/release/tsz'']] @
          (case tszInPath whichOutput of Some p \<Rightarrow> [p] | None \<Rightarrow> [])
        in case find existsSync possiblePaths of
             Some p \<Rightarrow> Inr p
           | None \<Rightarrow> Inl (plain_error (''tsz binary not found. Build it with: '' @
               ''CARGO_TARGET_DIR=.target cargo build --release -p tsz-cli --bin tsz'')))"

record compiler_executable =
  ce_binaryPath :: string
  ce_label :: string
  ce_provider :: "witness_provider option"

definition default_compiler :: "compiler_executable option \<Rightarrow> js_error + string \<Rightarrow> js_error + compiler_executable" where
  "default_compiler compiler found =
     (case compiler of
        Some c \<Rightarrow> Inr c
      | None \<Rightarrow> and_then found (\<lambda>b. Inr \<lparr>ce_binaryPath = b, ce_label = ''tsz'', ce_provider = Some Tsz_json\<rparr>))"

section \<open>Sequences of calls that may throw\<close>

type_synonym ('f, 'a) io = "'f \<Rightarrow> 'f \<times> (js_error + 'a)"

definition io_then :: "('f, 'a) io \<Rightarrow> ('a \<Rightarrow> ('f, 'b) io) \<Rightarrow> ('f, 'b) io" where
  "io_then m k f = (case m f of (f', Inl e) \<Rightarrow> (f', Inl e) | (f', Inr a) \<Rightarrow> k a f')"

definition io_ignore :: "('f, 'a) io \<Rightarrow> ('f, unit) io" where
  "io_ignore m f = (fst (m f), Inr ())"

fun io_fold :: "('a \<Rightarrow> 's \<Rightarrow> ('f, 's) io) \<Rightarrow> 'a list \<Rightarrow> 's \<Rightarrow> ('f, 's) io" where
  "io_fold step [] s f = (f, Inr s)"
| "io_fold step (x # xs) s f = io_then (step x s) (io_fold step xs) f"

section \<open>Staging\<close>

record transpile_options =
  to_source :: string
  to_target :: "int option"
  to_module :: "int option"
  to_flags :: flag_options
  to_sourceFileName :: "string option"
  to_sourceFiles :: "source_unit list option"
  to_rootFileNames :: "string list option"
  to_links :: "link_input list"
  to_lib :: "string list option"

definition input_files :: "transpile_options \<Rightarrow> nat \<Rightarrow> source_unit list" where
  "input_files opts counter =
     (case to_sourceFiles opts of
        Some (f # fs) \<Rightarrow> f # fs
      | _ \<Rightarrow> [\<lparr>u_name = (case to_sourceFileName opts of Some n \<Rightarrow> n | None \<Rightarrow> test_name counter @ ''.ts''),
              u_content = to_source opts\<rparr>])"

record staged =
  sg_inputs :: "string list"
  sg_byName :: "(string \<times> string) list"
  sg_derived :: "derived_output list"

definition stage_file ::
  "'f fs_ops \<Rightarrow> string \<Rightarrow> string \<Rightarrow> flag_options \<Rightarrow> string \<Rightarrow> source_unit \<Rightarrow> staged \<Rightarrow> ('f, staged) io" where
  "stage_file ops cwd testDir opts common file sg =
     (let relName = corpusRelativePath (u_name file); filePath = corpusPhysicalPath cwd testDir relName in
      io_then (fo_mkdirp ops (path_dirname filePath)) (\<lambda>_.
      io_then (fo_write ops filePath (u_content file)) (\<lambda>_ f.
        (f, Inr
          (if is_auxiliary relName then sg
           else sg\<lparr>sg_inputs := add_new (physicalPathIdentity cwd (fo_realpath ops f) filePath) (sg_inputs sg),
                   sg_byName := map_set relName filePath (sg_byName sg),
                   sg_derived := sg_derived sg @ derived_outputs cwd testDir opts common relName\<rparr>)))))"

definition stage_link :: "'f fs_ops \<Rightarrow> string \<Rightarrow> string \<Rightarrow> link_input \<Rightarrow> unit \<Rightarrow> ('f, unit) io" where
  "stage_link ops cwd testDir link u f =
     (let targetPath = corpusPhysicalPath cwd testDir (l_target link);
          linkPath = corpusPhysicalPath cwd testDir (l_link link)
      in if \<not> fo_exists ops f targetPath then (f, Inr ())
         else
           io_then (fo_mkdirp ops (path_dirname linkPath)) (\<lambda>_.
           io_then (io_ignore (fo_rm ops linkPath)) (\<lambda>_ f1.
             case fo_isDirectory ops f1 targetPath of
               Inl e \<Rightarrow> (f1, Inl e)
             | Inr d \<Rightarrow> fo_symlink ops targetPath linkPath (if d then ''dir'' else ''file'') f1)) f)"

record root_inputs =
  ro_inputs :: "string list"
  ro_missing :: "string option"

definition add_root :: "(string \<times> string) list \<Rightarrow> string \<Rightarrow> root_inputs \<Rightarrow> root_inputs" where
  "add_root byName rootName r =
     (let inputPath = map_get byName (corpusRelativePath rootName) in
      if \<not> truthy inputPath then r\<lparr>ro_missing := or_option (ro_missing r) (Some rootName)\<rparr>
      else r\<lparr>ro_inputs := ro_inputs r @ [the inputPath]\<rparr>)"

definition requestedRootNames :: "source_unit list \<Rightarrow> string list option \<Rightarrow> string list" where
  "requestedRootNames files chosen =
     (case chosen of
        Some ns \<Rightarrow> ns
      | None \<Rightarrow> filter (\<lambda>n. \<not> ends_with n ''.json'') (map (corpusRelativePath \<circ> u_name) files))"

definition root_input_files :: "(string \<times> string) list \<Rightarrow> string list \<Rightarrow> root_inputs" where
  "root_input_files byName names = fold (add_root byName) names \<lparr>ro_inputs = [], ro_missing = None\<rparr>"

record invocation =
  iv_testDir :: string
  iv_scopeDir :: string
  iv_staged :: staged
  iv_roots :: root_inputs
  iv_options :: transpile_options

definition stage_invocation ::
  "'f fs_ops \<Rightarrow> string \<Rightarrow> string \<Rightarrow> nat \<Rightarrow> transpile_options \<Rightarrow> ('f, invocation) io" where
  "stage_invocation ops cwd tempDir counter opts =
     (let files = input_files opts counter; flags = to_flags opts;
          requested = requested_test_dir tempDir counter (corpus_paths files (to_links opts) flags)
      in io_then (fo_mkdirp ops requested) (\<lambda>_ f.
         let testDir = physicalPathIdentity cwd (fo_realpath ops f) requested;
             common = common_source_dir files flags
         in io_then (io_fold (stage_file ops cwd testDir flags common) files
                      \<lparr>sg_inputs = [], sg_byName = [], sg_derived = []\<rparr>) (\<lambda>sg.
            io_then (io_fold (stage_link ops cwd testDir) (to_links opts) ()) (\<lambda>_ f'.
              (f', Inr
                \<lparr>iv_testDir = testDir, iv_scopeDir = test_scope_dir tempDir counter, iv_staged = sg,
                 iv_roots = root_input_files (sg_byName sg) (requestedRootNames files (to_rootFileNames opts)),
                 iv_options = opts\<rparr>))) f))"

section \<open>The command line\<close>

definition override_text :: "string \<Rightarrow> string option \<Rightarrow> flag_options \<Rightarrow> flag_options" where
  "override_text k v opts =
     (let rest = filter (\<lambda>p. fst p \<noteq> k) opts in
      case v of Some s \<Rightarrow> (k, Setting s) # rest | None \<Rightarrow> rest)"

definition compiler_flags :: "string \<Rightarrow> string \<Rightarrow> flag_options \<Rightarrow> flag_options" where
  "compiler_flags cwd testDir opts =
     (let d = physicalDirectoryCompilerOptions cwd testDir
                \<lparr>d_outDir = text_option opts ''outDir'', d_declarationDir = text_option opts ''declarationDir'',
                 d_rootDir = text_option opts ''rootDir''\<rparr>
      in override_text ''outDir'' (d_outDir d)
           (override_text ''declarationDir'' (d_declarationDir d)
             (override_text ''rootDir'' (d_rootDir d) opts)))"

definition diagnostics_json_path :: "string \<Rightarrow> string" where
  "diagnostics_json_path scopeDir = path_join [scopeDir, ''.tsz-diagnostics.json'']"

definition command_line :: "string \<Rightarrow> witness_provider option \<Rightarrow> source_unit list \<Rightarrow> invocation \<Rightarrow> string list" where
  "command_line cwd provider files iv =
     (let opts = iv_options iv; roots = ro_inputs (iv_roots iv) in
      appendCompilerOptionFlags
        ([''--pretty'', ''false''] @
         (if roots \<noteq> [] then [''--ignoreConfig''] else []) @
         (if list_ex (\<lambda>f. ends_with (corpusRelativePath (u_name f)) ''tsconfig.json'') files
          then [''--ignoreConfig''] else []) @
         (case to_lib opts of Some (l # ls) \<Rightarrow> [''--lib'', join '','' (l # ls)] | _ \<Rightarrow> []))
        (compiler_flags cwd (iv_testDir iv) (to_flags opts)) @
      (case to_target opts of Some t \<Rightarrow> [''--target'', targetToCliArg t] | None \<Rightarrow> []) @
      (case to_module opts of Some m \<Rightarrow> [''--module'', moduleToCliArg m] | None \<Rightarrow> []) @
      (if provider = Some Tsz_json then [''--diagnostics-json'', diagnostics_json_path (iv_scopeDir iv)] else []) @
      roots)"

section \<open>Starting and settling an invocation\<close>

record 'f cli_env =
  en_ops :: "'f fs_ops"
  en_localeCompare :: "string \<Rightarrow> string \<Rightarrow> int"
  en_stack :: nat
  en_parse :: "string \<Rightarrow> jsval option"
  en_cwd :: string
  en_compiler :: compiler_executable
  en_tempDir :: string
  en_timeoutMs :: int

record exec_request =
  rq_binaryPath :: string
  rq_args :: "string list"
  rq_cwd :: string
  rq_timeout :: int
  rq_killSignal :: string

record 'f cli_state =
  cs_fs :: 'f
  cs_counter :: nat
  cs_pending :: "(nat \<times> invocation) list"
  cs_children :: "nat list"
  cs_session :: "pts_session option"

text \<open>The constructor, given the directory \<open>mkdtemp\<close> made.\<close>

definition new_transpiler :: "'f cli_env \<Rightarrow> 'f \<Rightarrow> 'f cli_state" where
  "new_transpiler en f =
     \<lparr>cs_fs = f, cs_counter = 0, cs_pending = [], cs_children = [],
      cs_session = (if ce_provider (en_compiler en) = Some Typescript_7_api
        then Some \<lparr>ps_api = False, ps_log = []\<rparr> else None)\<rparr>"

definition exec_request_of :: "'f cli_env \<Rightarrow> nat \<Rightarrow> invocation \<Rightarrow> exec_request" where
  "exec_request_of en i iv =
     \<lparr>rq_binaryPath = ce_binaryPath (en_compiler en),
      rq_args = command_line (en_cwd en) (ce_provider (en_compiler en)) (input_files (iv_options iv) i) iv,
      rq_cwd = iv_testDir iv, rq_timeout = en_timeoutMs en, rq_killSignal = ''SIGKILL''\<rparr>"

text \<open>The \<open>finally\<close>: an error of the removal is dropped.\<close>

definition remove_scope :: "'f fs_ops \<Rightarrow> string \<Rightarrow> 'f \<Rightarrow> 'f" where
  "remove_scope ops scopeDir f = fst (fo_rm ops scopeDir f)"

definition start ::
  "'f cli_env \<Rightarrow> transpile_options \<Rightarrow> 'f cli_state \<Rightarrow> 'f cli_state \<times> (js_error + exec_request)" where
  "start en opts st =
     (let i = cs_counter st; st0 = st\<lparr>cs_counter := Suc i\<rparr> in
      case stage_invocation (en_ops en) (en_cwd en) (en_tempDir en) i opts (cs_fs st) of
        (f, Inl e) \<Rightarrow> (st0\<lparr>cs_fs := f\<rparr>, Inl e)
      | (f, Inr iv) \<Rightarrow>
          if truthy (ro_missing (iv_roots iv))
          then (st0\<lparr>cs_fs := remove_scope (en_ops en) (iv_scopeDir iv) f\<rparr>,
                Inl (plain_error (''UNREPRESENTABLE_ROOT_INPUT:'' @ the (ro_missing (iv_roots iv)))))
          else (st0\<lparr>cs_fs := f, cs_pending := (i, iv) # cs_pending st, cs_children := add_new i (cs_children st)\<rparr>,
                Inr (exec_request_of en i iv)))"

definition child_exit :: "nat \<Rightarrow> 'f cli_state \<Rightarrow> 'f cli_state" where
  "child_exit i st = st\<lparr>cs_children := removeAll i (cs_children st)\<rparr>"

definition session_or_new :: "pts_session option \<Rightarrow> pts_session" where
  "session_or_new s = (case s of Some x \<Rightarrow> x | None \<Rightarrow> \<lparr>ps_api = False, ps_log = []\<rparr>)"

definition diagnostic_scope :: "invocation \<Rightarrow> scope" where
  "diagnostic_scope iv =
     \<lparr>invocationDirectory = iv_testDir iv, scopeDirectory = iv_scopeDir iv, forbiddenFile = None\<rparr>"

definition api_config_path :: "invocation \<Rightarrow> string" where
  "api_config_path iv = path_join [iv_scopeDir iv, ''.typescript-api'', ''tsconfig.json'']"

definition api_options :: "string \<Rightarrow> invocation \<Rightarrow> (string \<times> jsval) list" where
  "api_options cwd iv =
     (let o' = iv_options iv in
      diagnosticApiCompilerOptions cwd (iv_testDir iv) (to_target o') (to_module o') (to_lib o')
        (compiler_flags cwd (iv_testDir iv) (to_flags o')))"

definition collectResult ::
  "'f cli_env \<Rightarrow> invocation \<Rightarrow> 'f \<Rightarrow> compiler_outcome \<Rightarrow> js_error + transpile_result" where
  "collectResult en iv f oc =
     and_then
       (collectActualProducts (en_ops en) f (en_localeCompare en) (en_stack en) (en_cwd en)
          (iv_testDir iv) (iv_scopeDir iv) (sg_inputs (iv_staged iv)) (sg_derived (iv_staged iv)))
       (\<lambda>p. Inr \<lparr>jsProducts = fst p, dtsProducts = snd p, tr_outcome = oc\<rparr>)"

definition settled_outcome ::
  "'f cli_env \<Rightarrow> invocation \<Rightarrow> api_answers option \<Rightarrow> 'f \<Rightarrow> pts_session \<Rightarrow> int \<Rightarrow> string option \<Rightarrow> string option \<Rightarrow>
   pts_session \<times> (js_error + transpile_result)" where
  "settled_outcome en iv answers f s exitCode stdout stderr =
     (case outcomeWithWitnesses (en_cwd en) (ce_provider (en_compiler en))
        (case fo_read (en_ops en) f (diagnostics_json_path (iv_scopeDir iv)) of
           Inl _ \<Rightarrow> None | Inr t \<Rightarrow> en_parse en t)
        (map_option (\<lambda>a. ask_session (en_cwd en) a (api_config_path iv) (api_options (en_cwd en) iv)
           (diagnostic_scope iv)) answers)
        (diagnostic_scope iv) s exitCode stdout stderr of
      (s', oc) \<Rightarrow> (s', and_then oc (collectResult en iv f)))"

text \<open>The end of the child, with the file system it left and the answers the API gives if asked.\<close>

definition settle ::
  "'f cli_env \<Rightarrow> nat \<Rightarrow> invocation \<Rightarrow> exec_result \<Rightarrow> api_answers \<Rightarrow> 'f cli_state \<Rightarrow>
   'f cli_state \<times> (js_error + transpile_result)" where
  "settle en i iv r a st =
     (let label = ce_label (en_compiler en);
          answers = map_option (\<lambda>_. a) (cs_session st)
      in case run_try label (settled_outcome en iv answers (cs_fs st)) (session_or_new (cs_session st)) r of
           (s', v) \<Rightarrow>
             (st\<lparr>cs_fs := remove_scope (en_ops en) (iv_scopeDir iv) (cs_fs st),
                 cs_pending := filter (\<lambda>p. fst p \<noteq> i) (cs_pending st),
                 cs_children := removeAll i (cs_children st),
                 cs_session := map_option (\<lambda>_. s') (cs_session st)\<rparr>,
              map_sum (outer_catch label) id v))"

text \<open>Kill every active child, close the session, remove the temporary directory. The first part
  of the result lists the children that are sent a signal and the session as it is closed.\<close>

definition terminate ::
  "'f cli_env \<Rightarrow> 'f cli_state \<Rightarrow> (nat list \<times> pts_session option) \<times> 'f cli_state \<times> (js_error + unit)" where
  "terminate en st =
     (let stopped = (cs_children st, map_option session_close (cs_session st));
          st1 = st\<lparr>cs_children := [], cs_session := None\<rparr>
      in if fo_exists (en_ops en) (cs_fs st) (en_tempDir en)
         then (case fo_rm (en_ops en) (en_tempDir en) (cs_fs st) of (f, r) \<Rightarrow> (stopped, st1\<lparr>cs_fs := f\<rparr>, r))
         else (stopped, st1, Inr ()))"

section \<open>How a child ended\<close>

datatype child_end =
    Exited int "string option" "string option"
  | Timed_out
  | Crashed string
  | Unstarted js_error

definition child_end :: "exec_result \<Rightarrow> child_end" where
  "child_end r =
     (case r of
        Completed out err \<Rightarrow> Exited 0 (Some out) (Some err)
      | Failed e \<Rightarrow>
          if er_killed e = Some True then Timed_out
          else if truthy (er_signal e) then Crashed (the (er_signal e))
          else (case er_code e of Some (Exit_number n) \<Rightarrow> Exited n (er_stdout e) (er_stderr e) | _ \<Rightarrow> Unstarted e))"

text \<open>An error that is not the failure of a child: the errors of the file system carry a name as their code.\<close>

definition plain_failure :: "js_error \<Rightarrow> bool" where
  "plain_failure e \<longleftrightarrow> er_killed e \<noteq> Some True \<and> \<not> truthy (er_signal e) \<and>
     (case er_code e of Some (Exit_number _) \<Rightarrow> False | _ \<Rightarrow> True)"

definition fs_plain :: "'f fs_ops \<Rightarrow> 'f \<Rightarrow> bool" where
  "fs_plain ops f \<longleftrightarrow>
     (\<forall>p e. fo_read ops f p = Inl e \<longrightarrow> plain_failure e) \<and> (\<forall>d e. fo_readdir ops f d = Inl e \<longrightarrow> plain_failure e)"

lemma plain_failure_plain [simp]: "plain_failure (plain_error m)"
  by (simp add: plain_failure_def plain_error_def truthy_def)

lemma outer_catch_plain: "\<not> truthy (er_signal e) \<Longrightarrow> outer_catch label e = e"
  by (auto simp: outer_catch_def truthy_def split: option.splits)

lemma outer_catch_message [simp]: "outer_catch label (plain_error m) = plain_error m"
  by (simp add: outer_catch_def plain_error_def)

lemma on_failure_plain: "plain_failure e \<Longrightarrow> on_failure label result s e = (s, Inl e)"
  by (auto simp: on_failure_def plain_failure_def split: option.splits exit_code.splits)

lemma addFile_plain:
  "fs_plain ops f \<Longrightarrow> addFile ops f cwd testDir inputs p st = Inl e \<Longrightarrow> plain_failure e"
  by (auto simp: addFile_def fs_plain_def Let_def and_then_def split: if_splits sum.splits)

lemma each_file_plain:
  "(\<And>p st e. add p st = Inl e \<Longrightarrow> plain_failure e) \<Longrightarrow> each_file add ps st = Inl e \<Longrightarrow> plain_failure e"
proof (induction ps arbitrary: st)
  case (Cons p ps)
  show ?case
  proof (cases "add p st")
    case (Inl e')
    then show ?thesis using Cons.prems by fastforce
  next
    case (Inr s1)
    then have "each_file add ps s1 = Inl e" using Cons.prems(2) by simp
    then show ?thesis using Cons.IH Cons.prems(1) by blast
  qed
qed simp

lemma visit_plain:
  assumes "fs_plain ops f" and "\<And>p st e. add p st = Inl e \<Longrightarrow> plain_failure e"
  shows "visit ops f add n directory st = Inl e \<Longrightarrow> plain_failure e"
proof (induction n arbitrary: directory st)
  case 0
  then show ?case by (auto simp: range_error_def)
next
  case (Suc n)
  have entries: "visit_entries ops f add n directory xs st = Inl e \<Longrightarrow> plain_failure e" for xs st
  proof (induction xs arbitrary: st)
    case (Cons x xs)
    obtain name ek where x: "x = (name, ek)" by fastforce
    show ?case
    proof (cases "(case ek of Link_entry \<Rightarrow> Inr st | Directory_entry \<Rightarrow> visit ops f add n (path_join [directory, name]) st
        | Regular_entry \<Rightarrow> add (path_join [directory, name]) st | Other_entry \<Rightarrow> Inr st)")
      case (Inl e')
      then have "e' = e" using Cons.prems by (simp add: x Let_def)
      then show ?thesis using Inl Suc.IH assms(2) by (cases ek) auto
    next
      case (Inr s1)
      then show ?thesis using Cons.prems Cons.IH by (simp add: x Let_def)
    qed
  qed simp
  show ?case
  proof (cases "fo_readdir ops f directory")
    case (Inl e')
    then show ?thesis using Suc.prems assms(1) unfolding fs_plain_def by fastforce
  next
    case (Inr es)
    then show ?thesis using Suc.prems entries by simp
  qed
qed

lemma collect_plain:
  assumes "fs_plain (en_ops en) f"
  shows "collectResult en iv f oc = Inl e \<Longrightarrow> plain_failure e"
proof -
  let ?add = "addFile (en_ops en) f (en_cwd en) (iv_testDir iv) (sg_inputs (iv_staged iv))"
  have a: "?add p st = Inl e \<Longrightarrow> plain_failure e" for p st e using addFile_plain[OF assms] .
  assume "collectResult en iv f oc = Inl e"
  then show ?thesis
    using visit_plain[OF assms, where add = ?add, OF a] each_file_plain[where add = ?add, OF a]
    by (auto simp: collectResult_def collectActualProducts_def Let_def and_then_def split: sum.splits)
qed

lemma settled_outcome_plain:
  assumes "fs_plain (en_ops en) f" and "settled_outcome en iv answers f s n out err = (s', Inl e)"
  shows "plain_failure e"
proof -
  obtain s1 oc where o: "outcomeWithWitnesses (en_cwd en) (ce_provider (en_compiler en))
        (case fo_read (en_ops en) f (diagnostics_json_path (iv_scopeDir iv)) of Inl _ \<Rightarrow> None | Inr t \<Rightarrow> en_parse en t)
        (map_option (\<lambda>a. ask_session (en_cwd en) a (api_config_path iv) (api_options (en_cwd en) iv)
           (diagnostic_scope iv)) answers) (diagnostic_scope iv) s n out err = (s1, oc)"
    by fastforce
  show ?thesis
  proof (cases oc)
    case (Inl m)
    then have "\<exists>t. m = plain_error t"
      using o by (auto simp: outcomeWithWitnesses_def Let_def split: option.splits witness_provider.splits if_splits prod.splits sum.splits)
    then show ?thesis using assms(2) o Inl by (auto simp: settled_outcome_def)
  next
    case (Inr c)
    then show ?thesis using assms(2) o collect_plain[OF assms(1)] by (auto simp: settled_outcome_def)
  qed
qed

lemma settled_parts:
  assumes "snd (settled_outcome en iv answers f s n out err) = Inr res"
  shows "outcome_coded n (diagnosticCodes out err) (Inr (tr_outcome res))"
    and "collectActualProducts (en_ops en) f (en_localeCompare en) (en_stack en) (en_cwd en) (iv_testDir iv)
      (iv_scopeDir iv) (sg_inputs (iv_staged iv)) (sg_derived (iv_staged iv)) = Inr (jsProducts res, dtsProducts res)"
proof -
  let ?o = "outcomeWithWitnesses (en_cwd en) (ce_provider (en_compiler en))
        (case fo_read (en_ops en) f (diagnostics_json_path (iv_scopeDir iv)) of Inl _ \<Rightarrow> None | Inr t \<Rightarrow> en_parse en t)
        (map_option (\<lambda>a. ask_session (en_cwd en) a (api_config_path iv) (api_options (en_cwd en) iv)
           (diagnostic_scope iv)) answers) (diagnostic_scope iv) s n out err"
  have "snd (settled_outcome en iv answers f s n out err) = and_then (snd ?o) (collectResult en iv f)"
    by (simp add: settled_outcome_def split: prod.split)
  then have "and_then (snd ?o) (collectResult en iv f) = Inr res" using assms by metis
  then obtain c where c: "snd ?o = Inr c" "collectResult en iv f c = Inr res"
    unfolding and_then_Inr by blast
  then have "tr_outcome res = c" by (auto simp: collectResult_def and_then_Inr)
  moreover have "outcome_coded n (diagnosticCodes out err) (snd ?o)" by (rule outcome_is_coded)
  ultimately show "outcome_coded n (diagnosticCodes out err) (Inr (tr_outcome res))" using c(1) by simp
  show "collectActualProducts (en_ops en) f (en_localeCompare en) (en_stack en) (en_cwd en) (iv_testDir iv)
      (iv_scopeDir iv) (sg_inputs (iv_staged iv)) (sg_derived (iv_staged iv)) = Inr (jsProducts res, dtsProducts res)"
    using c(2) by (auto simp: collectResult_def and_then_Inr)
qed

definition settled_value ::
  "'f cli_env \<Rightarrow> invocation \<Rightarrow> api_answers \<Rightarrow> 'f cli_state \<Rightarrow> exec_result \<Rightarrow> js_error + transpile_result" where
  "settled_value en iv a st r =
     (case child_end r of
        Exited n out err \<Rightarrow>
          snd (settled_outcome en iv (map_option (\<lambda>_. a) (cs_session st)) (cs_fs st)
                 (session_or_new (cs_session st)) n out err)
      | Timed_out \<Rightarrow> Inl (plain_error (''TIMEOUT:'' @ ce_label (en_compiler en)))
      | Crashed sig \<Rightarrow> Inl (plain_error (''CRASH:'' @ ce_label (en_compiler en) @ '':'' @ sig))
      | Unstarted e \<Rightarrow> Inl e)"

lemma settle_value:
  assumes "fs_plain (en_ops en) (cs_fs st)"
  shows "snd (settle en i iv r a st) = settled_value en iv a st r"
proof -
  let ?res = "settled_outcome en iv (map_option (\<lambda>_. a) (cs_session st)) (cs_fs st)"
  let ?s = "session_or_new (cs_session st)" and ?l = "ce_label (en_compiler en)"
  have v: "snd (settle en i iv r a st) = map_sum (outer_catch ?l) id (snd (run_try ?l ?res ?s r))"
    by (simp add: settle_def Let_def split: prod.splits)
  have ex: "map_sum (outer_catch ?l) id (snd (?res s n out err)) = snd (?res s n out err)" for s n out err
  proof (cases "snd (?res s n out err)")
    case (Inl e)
    then have "plain_failure e" using settled_outcome_plain[OF assms] by (metis prod.collapse)
    then show ?thesis using Inl by (simp add: outer_catch_plain plain_failure_def)
  qed simp
  show ?thesis
  proof (cases r)
    case (Completed out err)
    obtain s' w where w: "?res ?s 0 (Some out) (Some err) = (s', w)" by fastforce
    have "snd (run_try ?l ?res ?s r) = w"
    proof (cases w)
      case (Inl e)
      then show ?thesis using w settled_outcome_plain[OF assms] Completed by (simp add: run_try_def on_failure_plain)
    qed (use w Completed in \<open>simp add: run_try_def\<close>)
    then show ?thesis using v ex[of ?s 0 "Some out" "Some err"] w Completed by (simp add: settled_value_def child_end_def)
  next
    case (Failed e)
    then have f: "run_try ?l ?res ?s r = on_failure ?l ?res ?s e" by (simp add: run_try_def)
    show ?thesis
    proof (cases "er_killed e = Some True \<or> truthy (er_signal e)")
      case True
      then show ?thesis using v f Failed by (auto simp: settled_value_def child_end_def on_failure_def)
    next
      case False
      then have c: "outer_catch ?l e = e" by (simp add: outer_catch_plain)
      show ?thesis
      proof (cases "er_code e")
        case None
        then show ?thesis using v f Failed False c by (simp add: settled_value_def child_end_def on_failure_def)
      next
        case (Some x)
        then show ?thesis using v f Failed False c ex
          by (cases x) (simp_all add: settled_value_def child_end_def on_failure_def)
      qed
    qed
  qed
qed

text \<open>The promise as its consumer sees it.\<close>

definition settlement :: "js_error + transpile_result \<Rightarrow> settled" where
  "settlement v = (case v of Inl e \<Rightarrow> Rejected (Error_thrown (er_message e)) | Inr r \<Rightarrow> Fulfilled r)"

definition rejected_evidence :: "string \<Rightarrow> evidence" where
  "rejected_evidence m = Unavailable (if starts_with m ''TIMEOUT:'' then Timeout_reason else Crash_reason) m"

text \<open>C4: the evidence of an invocation tells the ends of a child apart: a child killed at the time
  limit is a timeout, one ended by another signal a crash that names the signal, one that could
  not be run a crash with its error, and one that exited is observed under its own exit code
  unless collecting its products fails; no failure of the file system passes for an exit of the
  child.\<close>

theorem settle_evidence:
  assumes "fs_plain (en_ops en) (cs_fs st)"
  shows "invocationEvidence sha (settlement (snd (settle en i iv r a st))) =
    (case child_end r of
       Timed_out \<Rightarrow> Unavailable Timeout_reason (''TIMEOUT:'' @ ce_label (en_compiler en))
     | Crashed sig \<Rightarrow> Unavailable Crash_reason (''CRASH:'' @ ce_label (en_compiler en) @ '':'' @ sig)
     | Unstarted e \<Rightarrow> rejected_evidence (er_message e)
     | Exited n out err \<Rightarrow>
         (case snd (settled_outcome en iv (map_option (\<lambda>_. a) (cs_session st)) (cs_fs st)
                 (session_or_new (cs_session st)) n out err) of
            Inl e \<Rightarrow> rejected_evidence (er_message e)
          | Inr res \<Rightarrow> Observed n (diagnosticCodes out err) (co_witnesses (tr_outcome res))
              (productEvidence sha (jsProducts res)) (productEvidence sha (dtsProducts res))))"
proof (cases "child_end r")
  case (Exited n out err)
  let ?so = "settled_outcome en iv (map_option (\<lambda>_. a) (cs_session st)) (cs_fs st) (session_or_new (cs_session st)) n out err"
  have "co_exit (tr_outcome res) = n \<and> co_codes (tr_outcome res) = diagnosticCodes out err" if "snd ?so = Inr res" for res
    using settled_parts(1)[OF that] by (simp add: outcome_coded_def)
  then show ?thesis using Exited
    by (cases "snd ?so") (simp_all add: settle_value[OF assms] settled_value_def settlement_def invocationEvidence_def
      rejected_evidence_def thrown_text_def Let_def)
qed (simp_all add: settle_value[OF assms] settled_value_def settlement_def invocationEvidence_def
      rejected_evidence_def thrown_text_def Let_def plain_error_def)

section \<open>A fulfilled invocation\<close>

text \<open>C3: an invocation is fulfilled only by a child that exited; the outcome then has the child's exit
  code, the codes of its output and witnesses that agree with them, and the products are exactly
  the files with an output extension that exist at the end and were not staged as inputs.\<close>

theorem settle_fulfilled:
  assumes "fs_plain (en_ops en) (cs_fs st)" and "snd (settle en i iv r a st) = Inr res"
  shows "case child_end r of
      Exited n out err \<Rightarrow>
        outcome_coded n (diagnosticCodes out err) (Inr (tr_outcome res)) \<and>
        set (map p_path (jsProducts res) @ map p_path (dtsProducts res)) =
          {p \<in> reported (en_ops en) (cs_fs st) (en_cwd en) (iv_testDir iv) (sg_inputs (iv_staged iv))
                 (candidates (en_ops en) (cs_fs st) (en_stack en) (en_cwd en) (iv_scopeDir iv) (sg_derived (iv_staged iv))).
             has_ext dts_exts p \<or> has_ext js_exts p}
    | _ \<Rightarrow> False"
proof -
  have v: "settled_value en iv a st r = Inr res" using assms(2) unfolding settle_value[OF assms(1)] .
  then obtain n out err where e: "child_end r = Exited n out err"
    by (cases "child_end r") (simp_all add: settled_value_def)
  then have so: "snd (settled_outcome en iv (map_option (\<lambda>_. a) (cs_session st)) (cs_fs st)
      (session_or_new (cs_session st)) n out err) = Inr res"
    using v by (simp add: settled_value_def)
  have "set (map p_path (jsProducts res) @ map p_path (dtsProducts res)) =
      {p \<in> reported (en_ops en) (cs_fs st) (en_cwd en) (iv_testDir iv) (sg_inputs (iv_staged iv))
             (candidates (en_ops en) (cs_fs st) (en_stack en) (en_cwd en) (iv_scopeDir iv) (sg_derived (iv_staged iv))).
         has_ext dts_exts p \<or> has_ext js_exts p}"
    using products_spec[OF settled_parts(2)[OF so]] by auto
  then show ?thesis using settled_parts(1)[OF so] e by simp
qed

section \<open>Every requested root is passed on\<close>

lemma add_root_fold:
  assumes "truthy (ro_missing (fold (add_root byName) names r)) = False" and "[] \<notin> set names" and "ro_missing r = None"
  shows "list_all (\<lambda>n. truthy (map_get byName (corpusRelativePath n))) names \<and>
    ro_inputs (fold (add_root byName) names r) =
      ro_inputs r @ map (\<lambda>n. the (map_get byName (corpusRelativePath n))) names"
proof -
  have keep: "ro_missing q = Some m \<Longrightarrow> ro_missing (fold (add_root byName) ns q) = Some m" for ns q m
    by (induction ns arbitrary: q) (auto simp: add_root_def Let_def or_option_def)
  show ?thesis using assms
  proof (induction names arbitrary: r)
    case (Cons n ns)
    show ?case
    proof (cases "truthy (map_get byName (corpusRelativePath n))")
      case True
      then show ?thesis using Cons.IH[of "add_root byName n r"] Cons.prems by (simp add: add_root_def Let_def)
    next
      case False
      then have "ro_missing (add_root byName n r) = Some n"
        using Cons.prems(3) by (simp add: add_root_def Let_def or_option_def)
      then have "ro_missing (fold (add_root byName) (n # ns) r) = Some n" by (simp add: keep)
      then show ?thesis using Cons.prems(1,2) by (auto simp: truthy_def)
    qed
  qed simp
qed



text \<open>A root with an empty name that was not staged is dropped: it counts as missing, and the empty
  name is false. It also hides the roots that are missing after it.\<close>

lemma empty_root_hides:
  "root_input_files [(''a.ts'', ''/t/a.ts'')] [[], ''gone.ts'', ''a.ts''] =
     \<lparr>ro_inputs = [''/t/a.ts''], ro_missing = Some []\<rparr>"
  by code_simp

section \<open>Overlapping invocations\<close>

text \<open>What can happen to a transpiler: an invocation starts, a child changes the file system, exits
  or settles, the transpiler is terminated.\<close>

inductive cli_step :: "'f cli_env \<Rightarrow> 'f cli_state \<Rightarrow> 'f cli_state \<Rightarrow> bool" for en where
  Start: "cli_step en st (fst (start en opts st))"
| Child_writes: "cli_step en st (st\<lparr>cs_fs := f\<rparr>)"
| Child_exits: "cli_step en st (child_exit i st)"
| Settle: "(i, iv) \<in> set (cs_pending st) \<Longrightarrow> cli_step en st (fst (settle en i iv r a st))"
| Terminate: "cli_step en st (fst (snd (terminate en st)))"

inductive_cases cli_stepE: "cli_step en st st'"

definition cli_inv :: "'f cli_env \<Rightarrow> 'f cli_state \<Rightarrow> bool" where
  "cli_inv en st \<longleftrightarrow>
     distinct (map fst (cs_pending st)) \<and>
     (\<forall>p \<in> set (cs_pending st). fst p < cs_counter st \<and>
        iv_scopeDir (snd p) = test_scope_dir (en_tempDir en) (fst p)) \<and>
     set (cs_children st) \<subseteq> fst ` set (cs_pending st)"

lemma cli_invI:
  "\<lbrakk>distinct (map fst (cs_pending st));
    \<And>i iv. (i, iv) \<in> set (cs_pending st) \<Longrightarrow> i < cs_counter st \<and> iv_scopeDir iv = test_scope_dir (en_tempDir en) i;
    set (cs_children st) \<subseteq> fst ` set (cs_pending st)\<rbrakk> \<Longrightarrow> cli_inv en st"
  by (auto simp: cli_inv_def)

lemma io_then_Inr: "io_then m k f = (f', Inr b) \<longleftrightarrow> (\<exists>f1 a. m f = (f1, Inr a) \<and> k a f1 = (f', Inr b))"
  by (auto simp: io_then_def split: prod.splits sum.splits)

lemma stage_invocation_scope:
  "stage_invocation ops cwd tempDir i opts f = (f', Inr iv) \<Longrightarrow> iv_scopeDir iv = test_scope_dir tempDir i"
  by (auto simp: stage_invocation_def Let_def io_then_Inr)

lemma start_inv: "cli_inv en st \<Longrightarrow> cli_inv en (fst (start en opts st))"
proof -
  assume inv: "cli_inv en st"
  obtain f v where s: "stage_invocation (en_ops en) (en_cwd en) (en_tempDir en) (cs_counter st) opts (cs_fs st) = (f, v)"
    by fastforce
  show ?thesis
  proof (cases v)
    case (Inl e)
    then show ?thesis using inv s by (auto simp: start_def Let_def cli_inv_def)
  next
    case (Inr iv)
    have "iv_scopeDir iv = test_scope_dir (en_tempDir en) (cs_counter st)"
      using stage_invocation_scope s unfolding Inr .
    moreover have "cs_counter st \<notin> fst ` set (cs_pending st)" using inv by (fastforce simp: cli_inv_def)
    ultimately show ?thesis using inv s Inr by (auto simp: start_def Let_def cli_inv_def add_new_def)
  qed
qed

lemma settle_inv: "cli_inv en st \<Longrightarrow> cli_inv en (fst (settle en i iv r a st))"
  by (auto simp: settle_def Let_def cli_inv_def distinct_map_filter split: prod.splits)

lemma terminate_inv: "cli_inv en st \<Longrightarrow> cli_inv en (fst (snd (terminate en st)))"
  by (auto simp: terminate_def Let_def cli_inv_def split: prod.splits)

lemma cli_step_inv: "cli_step en st st' \<Longrightarrow> cli_inv en st \<Longrightarrow> cli_inv en st'"
proof (induction rule: cli_step.induct)
  case (Start st opts)
  then show ?case by (rule start_inv)
next
  case (Settle i iv st r a)
  then show ?case by (intro settle_inv)
next
  case (Terminate st)
  then show ?case by (rule terminate_inv)
qed (auto simp: cli_inv_def child_exit_def)

lemma new_transpiler_inv: "cli_inv en (new_transpiler en f)"
  by (simp add: cli_inv_def new_transpiler_def)


section \<open>One invocation, run\<close>

definition demo_env :: "unit cli_env" where
  "demo_env =
     \<lparr>en_ops = demo_fs, en_localeCompare = str_cmp, en_stack = 5, en_parse = (\<lambda>t. None), en_cwd = ''/'',
      en_compiler = \<lparr>ce_binaryPath = ''/bin/tsz'', ce_label = ''tsz'', ce_provider = None\<rparr>,
      en_tempDir = ''/tmp'', en_timeoutMs = 5000\<rparr>"

definition demo_options :: transpile_options where
  "demo_options =
     \<lparr>to_source = ''let x = 1'', to_target = None, to_module = None, to_flags = [], to_sourceFileName = Some ''a.ts'',
      to_sourceFiles = None, to_rootFileNames = None, to_links = [], to_lib = None\<rparr>"

definition demo_invocation :: invocation where
  "demo_invocation =
     \<lparr>iv_testDir = ''/s/cwd'', iv_scopeDir = ''/s'',
      iv_staged = \<lparr>sg_inputs = [''/s/cwd/a.ts''], sg_byName = [(''a.ts'', ''/s/cwd/a.ts'')], sg_derived = demo_derived\<rparr>,
      iv_roots = \<lparr>ro_inputs = [''/s/cwd/a.ts''], ro_missing = None\<rparr>, iv_options = demo_options\<rparr>"

definition demo_state :: "unit cli_state" where
  "demo_state =
     \<lparr>cs_fs = (), cs_counter = 1, cs_pending = [(0, demo_invocation)], cs_children = [0], cs_session = None\<rparr>"

definition demo_answers :: api_answers where
  "demo_answers =
     \<lparr>an_write = True, an_create = True, an_open = False, an_project = None, an_projects = None,
      an_dispose = True, an_close = True\<rparr>"

lemma demo_plain: "fs_plain (en_ops demo_env) (cs_fs demo_state)"
  by (auto simp: fs_plain_def demo_env_def demo_fs_def split: option.splits)

definition killed_child :: exec_result where
  "killed_child = Failed \<lparr>er_message = ''Command failed'', er_code = None, er_killed = Some True,
     er_signal = Some ''SIGKILL'', er_stdout = Some [], er_stderr = Some []\<rparr>"

theorem settle_evidence_witness:
  "invocationEvidence (\<lambda>x. x) (settlement (snd (settle demo_env 0 demo_invocation killed_child demo_answers demo_state))) =
     Unavailable Timeout_reason ''TIMEOUT:tsz''"
  using settle_evidence[OF demo_plain, of "\<lambda>x. x" 0 demo_invocation killed_child demo_answers]
  by (simp add: killed_child_def child_end_def demo_env_def)

definition demo_result :: transpile_result where
  "demo_result =
     \<lparr>jsProducts = [\<lparr>p_path = ''a.js'', p_content = ''x''\<rparr>], dtsProducts = [\<lparr>p_path = ''a.d.ts'', p_content = ''x''\<rparr>],
      tr_outcome = \<lparr>co_exit = 0, co_codes = [''TS2322''], co_witnesses = None\<rparr>\<rparr>"

theorem settle_fulfilled_witness:
  "outcome_coded 0 (diagnosticCodes (Some ''a.ts(1,5): error TS2322: no.'') (Some [])) (Inr (tr_outcome demo_result)) \<and>
   set (map p_path (jsProducts demo_result) @ map p_path (dtsProducts demo_result)) =
     {p \<in> reported demo_fs () ''/'' ''/s/cwd'' [''/s/cwd/a.ts''] (candidates demo_fs () 5 ''/'' ''/s'' demo_derived).
        has_ext dts_exts p \<or> has_ext js_exts p}"
proof -
  let ?r = "Completed ''a.ts(1,5): error TS2322: no.'' []"
  have "snd (settle demo_env 0 demo_invocation ?r demo_answers demo_state) = Inr demo_result" by code_simp
  from settle_fulfilled[OF demo_plain this] show ?thesis
    by (simp only: child_end_def exec_result.case child_end.case demo_env_def demo_invocation_def demo_state_def
        cli_env.select_convs cli_state.select_convs invocation.select_convs staged.select_convs)
qed


end
