(* ===== verification/RunnerTest.thy ===== *)
theory RunnerTest
  imports RunnerCases ArtifactState CliRun
begin

text \<open>
  The second half of \<open>scripts/emit/src/runner.ts\<close>: one test, from its case and the settled
  results of the two compilers to its result row; the counters, the order in which verbose
  results are printed, the rows of the detail file and the exit code. The difference renderer's
  packages, the hash and the elapsed times are arguments; the printed summary and the progress
  bar are not modelled.
\<close>

section \<open>Messages\<close>

text \<open>\<open>/\bTS\d{4}\b/.test(l)\<close>\<close>

definition ts4_at :: "string \<Rightarrow> nat \<Rightarrow> bool" where
  "ts4_at s i \<longleftrightarrow>
     (i = 0 \<or> \<not> is_word_char (s ! (i - 1))) \<and> starts_with (drop i s) ''TS'' \<and>
     (let r = drop (i + 2) s; d = takeWhile is_digit r; e = dropWhile is_digit r in
      length d = 4 \<and> (case e of [] \<Rightarrow> True | c # _ \<Rightarrow> \<not> is_word_char c))"

definition has_ts4 :: "string \<Rightarrow> bool" where
  "has_ts4 s \<longleftrightarrow> list_ex (ts4_at s) [0..<length s]"

definition summarizeErrorMessage :: "string \<Rightarrow> string" where
  "summarizeErrorMessage message =
     (let normalized = join [CHR 10] (split_on [CHR 13, CHR 10] message);
          lines = filter (\<lambda>l. l \<noteq> []) (map trim (split_on [CHR 10] normalized))
      in case lines of
           [] \<Rightarrow> ''Unknown error''
         | l0 # _ \<Rightarrow>
             (case find has_ts4 lines of
                Some l \<Rightarrow> l
              | None \<Rightarrow>
                  (case find (\<lambda>l. starts_with l ''Command failed:'') lines of
                     Some l \<Rightarrow> l
                   | None \<Rightarrow> l0)))"

record diff_env =
  df_styles :: styles
  df_patch :: "string \<Rightarrow> string \<Rightarrow> string"
  df_lines :: "string \<Rightarrow> string \<Rightarrow> change list"

definition formatProductComparison :: "diff_env \<Rightarrow> set_comparison \<Rightarrow> bool \<Rightarrow> string" where
  "formatProductComparison df comparison verbose =
     (case sc_mismatches comparison of
        [] \<Rightarrow> []
      | first # _ \<Rightarrow>
          let n = length (sc_mismatches comparison);
              suffix = (if 1 < n then '' ('' @ show_nat n @ '' product mismatches total)'' else [])
          in case (mm_kind first, mm_expected first, mm_actual first) of
               (Content, Some expected, Some actual) \<Rightarrow>
                 ''Content mismatch at '' @ mm_path first @ '': '' @
                 (if verbose then getEmitDiff (df_styles df) (df_patch df) 30 expected actual
                  else getEmitDiffSummary (df_lines df) expected actual) @ suffix
             | (Missing, _, _) \<Rightarrow> ''Missing emit product: '' @ mm_path first @ suffix
             | (Extra, _, _) \<Rightarrow> ''Unexpected emit product: '' @ mm_path first @ suffix
             | (Duplicate_oracle, _, _) \<Rightarrow> ''Duplicate TypeScript 7 product path: '' @ mm_path first @ suffix
             | _ \<Rightarrow> ''Duplicate TSZ product path: '' @ mm_path first @ suffix)"

section \<open>One test\<close>

definition forwarded_names :: "string list" where
  "forwarded_names =
     [''declaration'', ''emitDeclarationOnly'', ''noCheck'', ''noLib'', ''noEmit'', ''alwaysStrict'', ''sourceMap'',
      ''inlineSourceMap'', ''downlevelIteration'', ''noEmitHelpers'', ''noEmitOnError'', ''strict'', ''allowJs'',
      ''allowUnreachableCode'', ''checkJs'', ''noImplicitAny'', ''noUnusedLocals'', ''noUnusedParameters'',
      ''skipLibCheck'', ''strictPropertyInitialization'', ''importHelpers'', ''esModuleInterop'',
      ''useDefineForClassFields'', ''experimentalDecorators'', ''emitDecoratorMetadata'', ''strictNullChecks'',
      ''exactOptionalPropertyTypes'', ''jsx'', ''jsxFactory'', ''jsxFragmentFactory'', ''jsxImportSource'',
      ''moduleResolution'', ''moduleDetection'', ''preserveConstEnums'', ''verbatimModuleSyntax'',
      ''rewriteRelativeImportExtensions'', ''isolatedModules'', ''importsNotUsedAsValues'',
      ''preserveValueImports'', ''removeComments'', ''stripInternal'', ''baseUrl'', ''outFile'', ''outDir'',
      ''declarationDir'', ''rootDir'', ''declarationMap'']"

text \<open>What both compilers are called with.\<close>

definition transpile_options_of :: "test_case \<Rightarrow> transpile_options" where
  "transpile_options_of tc =
     \<lparr>to_source = tc_source tc, to_target = tc_target tc, to_module = tc_module tc,
      to_flags = filter (\<lambda>p. fst p \<in> set forwarded_names) (tc_flags tc),
      to_sourceFileName = tc_sourceFileName tc, to_sourceFiles = Some (tc_sourceFiles tc),
      to_rootFileNames = Some (tc_rootFileNames tc), to_links = tc_links tc, to_lib = tc_lib tc\<rparr>"

record test_result = measured_result +
  te_name :: string
  te_testPath :: "string option"
  te_jsSelected :: bool
  te_dtsSelected :: bool
  te_outcomeMatch :: "bool option"
  te_jsProductMatch :: "bool option"
  te_dtsProductMatch :: "bool option"
  te_oracleEvidence :: evidence
  te_tszEvidence :: evidence
  te_outcomeError :: "string option"
  te_jsProductError :: "string option"
  te_dtsProductError :: "string option"
  te_elapsed :: "int option"
  te_skipped :: "bool option"
  te_timeout :: "bool option"

text \<open>\<open>s.replace(p, '')\<close>: the first occurrence.\<close>

fun remove_first :: "string \<Rightarrow> string \<Rightarrow> string" where
  "remove_first p [] = []"
| "remove_first p (c # s) = (if starts_with (c # s) p then drop (length p) (c # s) else c # remove_first p s)"

text \<open>The first \<open>.js\<close> need not be the extension, so appending \<open>.js\<close> does not restore every name.\<close>

lemma name_not_restored: "remove_first ''.js'' ''a.json.js'' @ ''.js'' = ''aon.js.js''"
  by code_simp

definition emits_declarations :: "test_case \<Rightarrow> bool" where
  "emits_declarations tc \<longleftrightarrow>
     bool_option (tc_flags tc) ''declaration'' = Some True \<or> bool_option (tc_flags tc) ''emitDeclarationOnly'' = Some True"

definition selection_of :: "run_config \<Rightarrow> test_case \<Rightarrow> surface_selection" where
  "selection_of c tc = selectArtifactSurfaces (cg_jsOnly c) (cg_dtsOnly c) (emits_declarations tc)"

definition initial_result :: "run_config \<Rightarrow> test_case \<Rightarrow> test_result" where
  "initial_result c tc =
     \<lparr>mr_state = A_incomplete, mr_jsMatch = None, mr_dtsMatch = None, mr_jsError = None, mr_dtsError = None,
      te_name = remove_first ''.js'' (tc_baselineFile tc), te_testPath = tc_testPath tc,
      te_jsSelected = sel_js (selection_of c tc), te_dtsSelected = sel_dts (selection_of c tc),
      te_outcomeMatch = None, te_jsProductMatch = None, te_dtsProductMatch = None,
      te_oracleEvidence = evidence.Not_run Not_started, te_tszEvidence = evidence.Not_run Not_started,
      te_outcomeError = None, te_jsProductError = None, te_dtsProductError = None,
      te_elapsed = None, te_skipped = None, te_timeout = None\<rparr>"

definition only_if :: "bool \<Rightarrow> 'a \<Rightarrow> 'a option" where
  "only_if b x = (if b then Some x else None)"

text \<open>A row without products: unsupported, or one that ended in an error.\<close>

definition unmeasured_row ::
  "artifact_state \<Rightarrow> string \<Rightarrow> surface_selection \<Rightarrow> int \<Rightarrow> test_result \<Rightarrow> test_result" where
  "unmeasured_row st message selected elapsed r =
     r\<lparr>mr_state := st,
       mr_jsMatch := ob_match (artifactSurfaceObservation st (sel_js selected) None None),
       mr_dtsMatch := ob_match (artifactSurfaceObservation st (sel_dts selected) None None),
       mr_jsError := only_if (sel_js selected) message,
       mr_dtsError := only_if (sel_dts selected) message,
       te_elapsed := Some elapsed\<rparr>"

definition failed_row :: "thrown \<Rightarrow> surface_selection \<Rightarrow> int \<Rightarrow> test_result \<Rightarrow> test_result" where
  "failed_row e selected elapsed r =
     (let errorMsg = thrown_text e; timeout = starts_with errorMsg ''TIMEOUT:'' in
      unmeasured_row (if timeout then A_timeout else A_crash)
        (if timeout then ''TIMEOUT'' else summarizeErrorMessage errorMsg) selected elapsed
        (r\<lparr>te_timeout := Some timeout\<rparr>))"

definition compared_row ::
  "diff_env \<Rightarrow> bool \<Rightarrow> transpile_result \<Rightarrow> transpile_result \<Rightarrow> surface_selection \<Rightarrow> int \<Rightarrow> test_result \<Rightarrow> test_result" where
  "compared_row df verbose oracle tsz selected elapsed r =
     (let outcomeComparison = compareArtifactOutcomes (tr_outcome oracle) (tr_outcome tsz);
          st = compilerArtifactState (tr_outcome oracle) (tr_outcome tsz);
          js = compareCanonicalProductSets (jsProducts oracle) (jsProducts tsz);
          dts = compareCanonicalProductSets (dtsProducts oracle) (dtsProducts tsz);
          jsObservation = artifactSurfaceObservation st (sel_js selected) (Some (oc_match outcomeComparison)) (Some (sc_match js));
          dtsObservation = artifactSurfaceObservation st (sel_dts selected) (Some (oc_match outcomeComparison)) (Some (sc_match dts));
          jsProductError = only_if (sel_js selected \<and> \<not> sc_match js) (formatProductComparison df js verbose);
          dtsProductError = only_if (sel_dts selected \<and> \<not> sc_match dts) (formatProductComparison df dts verbose)
      in r\<lparr>mr_state := st,
           te_outcomeMatch := Some (oc_match outcomeComparison),
           te_outcomeError := oc_error outcomeComparison,
           mr_jsMatch := ob_match jsObservation,
           mr_dtsMatch := ob_match dtsObservation,
           te_jsProductMatch := ob_productMatch jsObservation,
           te_dtsProductMatch := ob_productMatch dtsObservation,
           te_jsProductError := jsProductError,
           te_dtsProductError := dtsProductError,
           mr_jsError := (if sel_js selected \<and> ob_match jsObservation \<noteq> Some True
              then or_option (oc_error outcomeComparison) jsProductError else None),
           mr_dtsError := (if sel_dts selected \<and> ob_match dtsObservation \<noteq> Some True
              then or_option (oc_error outcomeComparison) dtsProductError else None),
           te_elapsed := Some elapsed\<rparr>)"

text \<open>The two settled results are only looked at when the case is supported.\<close>

definition runTest ::
  "(string \<Rightarrow> string) \<Rightarrow> diff_env \<Rightarrow> run_config \<Rightarrow> test_case \<Rightarrow> settled \<Rightarrow> settled \<Rightarrow> int \<Rightarrow> test_result" where
  "runTest sha df c tc oracle tsz elapsed =
     (let r = initial_result c tc; selected = selection_of c tc in
      if truthy (tc_unsupported tc) then
        unmeasured_row A_unsupported (''UNSUPPORTED_CANONICAL_EMIT: '' @ the (tc_unsupported tc)) selected elapsed
          (r\<lparr>te_oracleEvidence := evidence.Not_run Unsupported_reason, te_tszEvidence := evidence.Not_run Unsupported_reason\<rparr>)
      else
        let r1 = r\<lparr>te_oracleEvidence := invocationEvidence sha oracle, te_tszEvidence := invocationEvidence sha tsz\<rparr> in
        case oracle of
          Rejected e \<Rightarrow> failed_row e selected elapsed r1
        | Fulfilled oracleResult \<Rightarrow>
            (case tsz of
               Rejected e \<Rightarrow> failed_row e selected elapsed r1
             | Fulfilled tszResult \<Rightarrow> compared_row df (cg_verbose c) oracleResult tszResult selected elapsed r1))"

text \<open>The state the icon of a result shows; \<open>None\<close> is the icon of a skipped test.\<close>

definition icon_order :: "artifact_status list" where
  "icon_order = [S_fail, S_crash, S_timeout, S_incomplete, S_unsupported, S_pass, S_skip]"

definition resultStatusIcon :: "run_config \<Rightarrow> test_result \<Rightarrow> artifact_status option" where
  "resultStatusIcon c r =
     (if te_skipped r = Some True then None
      else
        let statuses =
          (if cg_dtsOnly c then [artifactStatus (mr_state r) (mr_dtsMatch r)]
           else artifactStatus (mr_state r) (mr_jsMatch r) #
             (if \<not> cg_jsOnly c \<and> mr_dtsMatch r \<noteq> None then [artifactStatus (mr_state r) (mr_dtsMatch r)] else []))
        in Some (case find (\<lambda>s. s \<in> set statuses) icon_order of Some s \<Rightarrow> s | None \<Rightarrow> S_skip))"

section \<open>Recording the results\<close>

record run_state =
  rn_completed :: nat
  rn_results :: "test_result list"
  rn_jsCounts :: status_counts
  rn_dtsCounts :: status_counts
  rn_jsProducts :: product_counts
  rn_dtsProducts :: product_counts
  rn_failures :: "test_result list"

definition initial_run :: run_state where
  "initial_run =
     \<lparr>rn_completed = 0, rn_results = [], rn_jsCounts = emptyArtifactStatusCounts, rn_dtsCounts = emptyArtifactStatusCounts,
      rn_jsProducts = emptyArtifactProductCounts, rn_dtsProducts = emptyArtifactProductCounts, rn_failures = []\<rparr>"

definition measured :: "test_result \<Rightarrow> test_result" where
  "measured r = ensureMeasuredArtifact r \<lparr>sel_js = te_jsSelected r, sel_dts = te_dtsSelected r\<rparr>"

definition js_status :: "test_result \<Rightarrow> artifact_status" where
  "js_status r = artifactStatus (mr_state r) (mr_jsMatch r)"

definition dts_status :: "test_result \<Rightarrow> artifact_status" where
  "dts_status r = artifactStatus (mr_state r) (mr_dtsMatch r)"

definition recordResult :: "test_result \<Rightarrow> run_state \<Rightarrow> run_state" where
  "recordResult r0 st =
     (let r = measured r0 in
      st\<lparr>rn_completed := Suc (rn_completed st),
         rn_results := rn_results st @ [r],
         rn_jsCounts := recordArtifactStatus (js_status r) (rn_jsCounts st),
         rn_dtsCounts := recordArtifactStatus (dts_status r) (rn_dtsCounts st),
         rn_jsProducts := recordArtifactProduct (te_jsSelected r) (te_jsProductMatch r) (rn_jsProducts st),
         rn_dtsProducts := recordArtifactProduct (te_dtsSelected r) (te_dtsProductMatch r) (rn_dtsProducts st),
         rn_failures := (if list_all (\<lambda>s. s = S_pass \<or> s = S_skip) [js_status r, dts_status r]
            then rn_failures st else rn_failures st @ [r])\<rparr>)"

definition exit_status :: "run_state \<Rightarrow> int" where
  "exit_status st = (if artifactHasNonPass (rn_jsCounts st) \<or> artifactHasNonPass (rn_dtsCounts st) then 1 else 0)"

section \<open>Verbose printing\<close>

record flush_state =
  pr_results :: "test_result option list"
  pr_printedUpTo :: nat
  pr_printed :: "test_result list"

function flush_results :: "flush_state \<Rightarrow> flush_state" where
  "flush_results st =
     (if pr_printedUpTo st < length (pr_results st) then
        (case pr_results st ! pr_printedUpTo st of
           Some r \<Rightarrow> flush_results (st\<lparr>pr_printed := pr_printed st @ [r], pr_printedUpTo := Suc (pr_printedUpTo st)\<rparr>)
         | None \<Rightarrow> st)
      else st)"
  by pat_completeness auto
termination by (relation "measure (\<lambda>st. length (pr_results st) - pr_printedUpTo st)") auto

declare flush_results.simps [simp del]

text \<open>The test with the index \<open>i\<close> completes.\<close>

definition complete_test :: "nat \<times> test_result \<Rightarrow> flush_state \<Rightarrow> flush_state" where
  "complete_test e st = flush_results (st\<lparr>pr_results := (pr_results st)[fst e := Some (snd e)]\<rparr>)"

definition initial_print :: "nat \<Rightarrow> flush_state" where
  "initial_print n = \<lparr>pr_results = replicate n None, pr_printedUpTo = 0, pr_printed = []\<rparr>"

section \<open>The detail file\<close>

definition state_name :: "artifact_state \<Rightarrow> string" where
  "state_name s = (case s of A_complete \<Rightarrow> ''complete'' | A_unsupported \<Rightarrow> ''unsupported'' | A_timeout \<Rightarrow> ''timeout''
     | A_crash \<Rightarrow> ''crash'' | A_incomplete \<Rightarrow> ''incomplete'')"

definition status_name :: "artifact_status \<Rightarrow> string" where
  "status_name s = (case s of S_pass \<Rightarrow> ''pass'' | S_fail \<Rightarrow> ''fail'' | S_skip \<Rightarrow> ''skip'' | S_unsupported \<Rightarrow> ''unsupported''
     | S_timeout \<Rightarrow> ''timeout'' | S_crash \<Rightarrow> ''crash'' | S_incomplete \<Rightarrow> ''incomplete'')"

definition product_value :: "product_evidence \<Rightarrow> jsval" where
  "product_value p =
     JObj [(''path'', JStr (pe_path p)), (''byteLength'', JInt (int (pe_byteLength p))), (''sha256'', JStr (pe_sha256 p))]"

definition evidence_value :: "evidence \<Rightarrow> jsval" where
  "evidence_value e =
     (case e of
        Observed n codes ws js dts \<Rightarrow>
          JObj [(''state'', JStr ''observed''),
                (''outcome'', JObj [(''exitCode'', JInt n), (''diagnosticCodes'', JArr (map JStr codes)),
                                    (''diagnosticWitnesses'', null_or JArr ws)]),
                (''jsProducts'', JArr (map product_value js)), (''dtsProducts'', JArr (map product_value dts))]
      | Unavailable why error \<Rightarrow>
          JObj [(''state'', JStr ''unavailable''),
                (''reason'', JStr (case why of Timeout_reason \<Rightarrow> ''timeout'' | Crash_reason \<Rightarrow> ''crash'')), (''error'', JStr error)]
      | evidence.Not_run why \<Rightarrow>
          JObj [(''state'', JStr ''not-run''),
                (''reason'', JStr (case why of Unsupported_reason \<Rightarrow> ''unsupported'' | Not_started \<Rightarrow> ''not-started''))])"

definition field_if :: "string \<Rightarrow> string option \<Rightarrow> (string \<times> jsval) list" where
  "field_if k x = (if truthy x then [(k, JStr (the x))] else [])"

definition result_row :: "test_result \<Rightarrow> (string \<times> jsval) list" where
  "result_row r =
     [(''name'', JStr (te_name r)), (''baselineFile'', JStr (te_name r @ ''.js'')), (''testPath'', null_or JStr (te_testPath r)),
      (''artifactState'', JStr (state_name (mr_state r))),
      (''oracleEvidence'', evidence_value (te_oracleEvidence r)), (''tszEvidence'', evidence_value (te_tszEvidence r)),
      (''jsSelected'', JBool (te_jsSelected r)), (''dtsSelected'', JBool (te_dtsSelected r)),
      (''outcomeMatch'', null_or JBool (te_outcomeMatch r)), (''jsMatch'', null_or JBool (mr_jsMatch r)),
      (''dtsMatch'', null_or JBool (mr_dtsMatch r)), (''jsProductMatch'', null_or JBool (te_jsProductMatch r)),
      (''dtsProductMatch'', null_or JBool (te_dtsProductMatch r)),
      (''jsStatus'', JStr (status_name (js_status r))), (''dtsStatus'', JStr (status_name (dts_status r)))] @
     field_if ''outcomeError'' (te_outcomeError r) @ field_if ''jsError'' (mr_jsError r) @ field_if ''dtsError'' (mr_dtsError r) @
     field_if ''jsProductError'' (te_jsProductError r) @ field_if ''dtsProductError'' (te_dtsProductError r) @
     (case te_elapsed r of Some n \<Rightarrow> [(''elapsed'', JInt n)] | None \<Rightarrow> [])"

record surface_summary =
  su_total :: int
  su_pass :: int
  su_fail :: int
  su_skip :: int
  su_mismatch :: int
  su_unsupported :: int
  su_timeout :: int
  su_crash :: int
  su_incomplete :: int
  su_productMatch :: int
  su_productMismatch :: int
  su_productUnmeasured :: int

definition surface_summary_of :: "status_counts \<Rightarrow> product_counts \<Rightarrow> surface_summary" where
  "surface_summary_of c p =
     \<lparr>su_total = artifactCandidateTotal c, su_pass = n_pass c, su_fail = artifactCandidateTotal c - n_pass c,
      su_skip = n_skip c, su_mismatch = n_fail c, su_unsupported = n_unsupported c, su_timeout = n_timeout c,
      su_crash = n_crash c, su_incomplete = n_incomplete c, su_productMatch = pc_match p,
      su_productMismatch = pc_mismatch p, su_productUnmeasured = pc_unmeasured p\<rparr>"

record run_detail =
  rd_fingerprint :: "string option"
  rd_count :: nat
  rd_js :: surface_summary
  rd_dts :: surface_summary
  rd_results :: "(string \<times> jsval) list list"

definition detail_of :: "(string \<Rightarrow> string) \<Rightarrow> run_state \<Rightarrow> run_detail" where
  "detail_of sha st =
     (let rows = map result_row (rn_results st) in
      \<lparr>rd_fingerprint = detailRowsFingerprint sha rows, rd_count = length rows,
       rd_js = surface_summary_of (rn_jsCounts st) (rn_jsProducts st),
       rd_dts = surface_summary_of (rn_dtsCounts st) (rn_dtsProducts st), rd_results = rows\<rparr>)"

section \<open>Every authored option reaches both compilers\<close>

definition option_text :: "jsval \<Rightarrow> string" where
  "option_text v = (case v of JBool b \<Rightarrow> bool_text b | JStr s \<Rightarrow> s | _ \<Rightarrow> [])"

definition flag_covered :: "flag_kind \<times> string \<Rightarrow> bool" where
  "flag_covered f =
     (snd f \<in> set forwarded_names \<and>
      (case fst f of
         Boolean_flag \<Rightarrow> snd f \<in> set boolean_reads \<and> to_lower (snd f) \<in> set BOOLEAN_FORWARDED_OPTIONS
       | Text_flag \<Rightarrow> snd f \<notin> set boolean_reads \<and> snd f \<in> set string_reads \<and> to_lower (snd f) \<in> set STRING_FORWARDED_OPTIONS
       | Stripped_flag \<Rightarrow> snd f = ''outFile''))"

lemma flags_covered: "list_all flag_covered flag_order"
  by code_simp

lemma outFile_covered:
  "''outFile'' \<in> set forwarded_names" "''outFile'' \<notin> set boolean_reads" "''outFile'' \<in> set string_reads"
  "to_lower ''outFile'' \<in> set STRING_FORWARDED_OPTIONS"
  by code_simp+

lemma map_of_filter_key: "map_of (filter (\<lambda>p. fst p \<in> S) xs) k = (if k \<in> S then map_of xs k else None)"
  by (induction xs) auto

lemma outFile_reason: "canonicalUnsupportedReasons i = [] \<Longrightarrow> \<not> hasOutFile i"
  by (simp add: canonicalUnsupportedReasons_def reason_when_def split: if_split_asm)

lemma support_outFile: "hasOutFile (support_of names dtsOnly f b rs a) \<longleftrightarrow> optionString a ''outFile'' \<noteq> None"
  by (simp add: support_of_def Let_def)

lemma case_supported:
  assumes "tc_unsupported (build_case parseJsonc names dtsOnly f b rs) = None"
  shows "unsupported_reasons names dtsOnly f b rs (parseEmbeddedCompilerOptions parseJsonc (rs_files rs))
    (resolveAuthoredOptions (authored_sources_of parseJsonc f rs)) = []"
  using assms by (simp add: build_case_def Let_def split: if_split_asm)

lemma supported_case:
  assumes "tc_unsupported (build_case parseJsonc submoduleNames dtsOnly baselineFile b rs) = None"
    and "a = resolveAuthoredOptions (authored_sources_of parseJsonc baselineFile rs)"
  shows "authoredOptionFailureReasons a = []" and "optionString a ''outFile'' = None"
  using case_supported[OF assms(1)] outFile_reason support_outFile
  unfolding assms(2) unsupported_reasons_def append_is_Nil_conv by blast+

lemma boolean_read:
  assumes "map_get a (to_lower k) = Some opt" and "isExactBoolean opt"
  shows "map_option bool_text (optionBoolean a k) = Some (option_text (ao_value opt))"
proof (cases "ao_value opt")
  case (JStr s)
  then have "ao_source opt = Filename_variant" "s = ''true'' \<or> s = ''false''"
    using assms(2) by (auto simp: isExactBoolean_def)
  then show ?thesis using assms(1) JStr by (auto simp: optionBoolean_def option_text_def bool_text_def)
qed (use assms in \<open>auto simp: optionBoolean_def option_text_def isExactBoolean_def\<close>)

lemma string_read:
  assumes "map_get a (to_lower k) = Some opt" and "ao_value opt = JStr v"
  shows "optionString a k = Some v"
  using assms by (simp add: optionString_def optionValue_def undefined_or_def)

text \<open>The text an option of a supported case has on the command line.\<close>

lemma flag_reaches:
  assumes a: "a = resolveAuthoredOptions s" and none: "authoredOptionFailureReasons a = []"
    and out: "optionString a ''outFile'' = None" and f: "(kd, k) \<in> set flag_order"
  shows "flag_text (filter (\<lambda>p. fst p \<in> set forwarded_names) (read_flags a)) (kd, k) =
    map_option (option_text \<circ> ao_value) (map_get a (to_lower k))"
proof -
  let ?o = "filter (\<lambda>p. fst p \<in> set forwarded_names) (read_flags a)"
  have cov: "flag_covered (kd, k)" using flags_covered f by (auto simp: list_all_iff)
  then have m: "map_of ?o k = (if k \<in> set boolean_reads then map_option Flag (optionBoolean a k)
      else if k \<in> set string_reads then map_option Setting (optionString a k) else None)"
    by (simp add: map_of_filter_key read_flags_get flag_covered_def)
  have valid: "\<not> invalid_option opt" "authoredOptionDisposition (ao_key opt) \<noteq> Unhandled" "ao_key opt = to_lower k"
    if "map_get a (to_lower k) = Some opt" for opt
    using no_failures[of s "to_lower k" opt] resolve_key[of s "to_lower k" opt] none that unfolding a by auto
  have fwd: "authoredOptionDisposition (to_lower k) = Forwarded"
    if "to_lower k \<in> set BOOLEAN_FORWARDED_OPTIONS \<or> to_lower k \<in> set STRING_FORWARDED_OPTIONS"
    using that by (intro forwarded_disposition) (auto simp: FORWARDED_OPTIONS_def)
  show ?thesis
  proof (cases kd)
    case Boolean_flag
    then have k: "k \<in> set boolean_reads" "to_lower k \<in> set BOOLEAN_FORWARDED_OPTIONS"
      using cov by (simp_all add: flag_covered_def)
    show ?thesis
    proof (cases "map_get a (to_lower k)")
      case None
      then have "optionBoolean a k = None" by (simp add: optionBoolean_def)
      then show ?thesis using None Boolean_flag k m by (simp add: flag_text_def bool_option_def)
    next
      case (Some opt)
      then have "isExactBoolean opt" using boolean_valid[of opt] valid[OF Some] fwd k(2) by simp
      from boolean_read[OF Some this] obtain v where v: "optionBoolean a k = Some v" "bool_text v = option_text (ao_value opt)"
        by auto
      then show ?thesis using Some Boolean_flag k m by (simp add: flag_text_def bool_option_def)
    qed
  next
    case Text_flag
    then have k: "k \<notin> set boolean_reads" "k \<in> set string_reads" "to_lower k \<in> set STRING_FORWARDED_OPTIONS"
      using cov by (simp_all add: flag_covered_def)
    show ?thesis
    proof (cases "map_get a (to_lower k)")
      case None
      then have "optionString a k = None" by (simp add: optionString_def optionValue_def undefined_or_def)
      then show ?thesis using None Text_flag k m by (simp add: flag_text_def text_option_def)
    next
      case (Some opt)
      then obtain v where v: "ao_value opt = JStr v" "v \<noteq> []"
        using string_valid[of opt] valid[OF Some] fwd k(3) by auto
      then show ?thesis using Some Text_flag k m string_read[OF Some v(1)]
        by (simp add: flag_text_def text_option_def option_text_def)
    qed
  next
    case Stripped_flag
    then have k: "k = ''outFile''" using cov by (simp add: flag_covered_def)
    have "map_get a (to_lower k) = None"
    proof (rule ccontr)
      assume "map_get a (to_lower k) \<noteq> None"
      then obtain opt where o: "map_get a (to_lower k) = Some opt" by blast
      then obtain v where "ao_value opt = JStr v"
        using string_valid[of opt] valid[OF o] fwd outFile_covered(4) unfolding k by metis
      then have "optionString a k = Some v" by (rule string_read[OF o])
      then show False using out k by simp
    qed
    then show ?thesis using Stripped_flag k m out outFile_covered(2,3) by (simp add: flag_text_def text_option_def)
  qed
qed


section \<open>The exit code\<close>

text \<open>A selected surface of a row is always measured, an unselected one never is.\<close>

lemma observation_match:
  "ob_match (artifactSurfaceObservation st b om pm) = (if b then Some (om = Some True \<and> pm = Some True) else None)"
  by (simp add: artifactSurfaceObservation_def Let_def)

lemma initial_selected [simp]:
  "te_jsSelected (initial_result c tc) = sel_js (selection_of c tc)"
  "te_dtsSelected (initial_result c tc) = sel_dts (selection_of c tc)"
  by (simp_all add: initial_result_def)

lemma unmeasured_row_fields [simp]:
  "mr_state (unmeasured_row st m sel n r) = st"
  "mr_jsMatch (unmeasured_row st m sel n r) = (if sel_js sel then Some False else None)"
  "mr_dtsMatch (unmeasured_row st m sel n r) = (if sel_dts sel then Some False else None)"
  "te_jsSelected (unmeasured_row st m sel n r) = te_jsSelected r"
  "te_dtsSelected (unmeasured_row st m sel n r) = te_dtsSelected r"
  by (simp_all add: unmeasured_row_def observation_match)

lemma failed_row_fields [simp]:
  "mr_state (failed_row e sel n r) \<noteq> A_complete"
  "mr_jsMatch (failed_row e sel n r) = (if sel_js sel then Some False else None)"
  "mr_dtsMatch (failed_row e sel n r) = (if sel_dts sel then Some False else None)"
  "te_jsSelected (failed_row e sel n r) = te_jsSelected r"
  "te_dtsSelected (failed_row e sel n r) = te_dtsSelected r"
  by (simp_all add: failed_row_def Let_def)

lemma compared_row_fields [simp]:
  "mr_state (compared_row df v x y sel n r) = compilerArtifactState (tr_outcome x) (tr_outcome y)"
  "mr_jsMatch (compared_row df v x y sel n r) =
     (if sel_js sel then Some (oc_match (compareArtifactOutcomes (tr_outcome x) (tr_outcome y)) \<and>
        sc_match (compareCanonicalProductSets (jsProducts x) (jsProducts y))) else None)"
  "mr_dtsMatch (compared_row df v x y sel n r) =
     (if sel_dts sel then Some (oc_match (compareArtifactOutcomes (tr_outcome x) (tr_outcome y)) \<and>
        sc_match (compareCanonicalProductSets (dtsProducts x) (dtsProducts y))) else None)"
  "te_jsSelected (compared_row df v x y sel n r) = te_jsSelected r"
  "te_dtsSelected (compared_row df v x y sel n r) = te_dtsSelected r"
  by (simp_all add: compared_row_def Let_def observation_match)

lemma run_selected:
  "te_jsSelected (runTest sha df c tc x y n) = sel_js (selection_of c tc)"
  "te_dtsSelected (runTest sha df c tc x y n) = sel_dts (selection_of c tc)"
  by (simp_all add: runTest_def Let_def split: settled.split)

lemma run_measured:
  "mr_jsMatch (runTest sha df c tc x y n) = None \<longleftrightarrow> \<not> sel_js (selection_of c tc)"
  "mr_dtsMatch (runTest sha df c tc x y n) = None \<longleftrightarrow> \<not> sel_dts (selection_of c tc)"
  by (auto simp: runTest_def Let_def split: settled.split)

lemma measured_run: "measured (runTest sha df c tc x y n) = runTest sha df c tc x y n"
  by (simp add: measured_def ensureMeasuredArtifact_def run_selected run_measured Let_def)

text \<open>The status a surface deserves.\<close>

definition surface_agrees ::
  "(transpile_result \<Rightarrow> emit_product list) \<Rightarrow> test_case \<Rightarrow> settled \<Rightarrow> settled \<Rightarrow> bool" where
  "surface_agrees products tc oracle tsz \<longleftrightarrow>
     \<not> truthy (tc_unsupported tc) \<and>
     (case (oracle, tsz) of
        (Fulfilled x, Fulfilled y) \<Rightarrow>
          compilerArtifactState (tr_outcome x) (tr_outcome y) = A_complete \<and>
          oc_match (compareArtifactOutcomes (tr_outcome x) (tr_outcome y)) \<and>
          sc_match (compareCanonicalProductSets (products x) (products y))
      | _ \<Rightarrow> False)"

lemma run_js_status:
  "js_status (runTest sha df c tc x y n) = S_pass \<or> js_status (runTest sha df c tc x y n) = S_skip \<longleftrightarrow>
     (if sel_js (selection_of c tc) then surface_agrees jsProducts tc x y else True)"
  unfolding js_status_def artifactStatus_pass artifactStatus_skip
  by (simp add: runTest_def surface_agrees_def Let_def split: settled.split)

lemma run_dts_status:
  "dts_status (runTest sha df c tc x y n) = S_pass \<or> dts_status (runTest sha df c tc x y n) = S_skip \<longleftrightarrow>
     (if sel_dts (selection_of c tc) then surface_agrees dtsProducts tc x y else True)"
  unfolding dts_status_def artifactStatus_pass artifactStatus_skip
  by (simp add: runTest_def surface_agrees_def Let_def split: settled.split)

lemma recorded:
  "rn_completed (fold recordResult rs st) = rn_completed st + length rs"
  "rn_results (fold recordResult rs st) = rn_results st @ map measured rs"
  "rn_jsCounts (fold recordResult rs st) = fold recordArtifactStatus (map (js_status \<circ> measured) rs) (rn_jsCounts st)"
  "rn_dtsCounts (fold recordResult rs st) = fold recordArtifactStatus (map (dts_status \<circ> measured) rs) (rn_dtsCounts st)"
  by (induction rs arbitrary: st) (simp_all add: recordResult_def Let_def)

lemma non_pass_counts:
  "artifactHasNonPass (fold recordArtifactStatus ss emptyArtifactStatusCounts) \<longleftrightarrow> \<not> list_all (\<lambda>s. s = S_pass \<or> s = S_skip) ss"
  using non_pass_fold[of ss] by (auto simp: list_all_iff)

text \<open>One test of a run: its case, the two settled results and the elapsed time.\<close>

definition run_result ::
  "(string \<Rightarrow> string) \<Rightarrow> diff_env \<Rightarrow> run_config \<Rightarrow> test_case \<times> settled \<times> settled \<times> int \<Rightarrow> test_result" where
  "run_result sha df c t = (case t of (tc, oracle, tsz, n) \<Rightarrow> runTest sha df c tc oracle tsz n)"

definition test_agrees :: "run_config \<Rightarrow> test_case \<times> settled \<times> settled \<times> int \<Rightarrow> bool" where
  "test_agrees c t =
     (case t of (tc, oracle, tsz, n) \<Rightarrow>
        (if sel_js (selection_of c tc) then surface_agrees jsProducts tc oracle tsz else True) \<and>
        (if sel_dts (selection_of c tc) then surface_agrees dtsProducts tc oracle tsz else True))"


section \<open>A supported case\<close>

definition sample_name :: string where
  "sample_name = ''a(removecomments=true).js''"

definition sample_baseline :: baseline where
  "sample_baseline =
     \<lparr>b_testPath = None, b_source = Some ''x'', b_sourceFileName = Some ''a.ts'', b_sourceFiles = [(''a.ts'', ''x'')],
      b_js = Some ''x'', b_jsFileName = Some ''a.js'', b_jsOutputs = [''a.js''],
      b_dts = None, b_dtsFileName = None, b_dtsOutputs = [], b_files = [(''a.ts'', ''x''), (''a.js'', ''x'')],
      b_noEmitExpected = False, b_noJsEmitExpected = False, b_noDtsEmitExpected = False,
      b_dtsSourceFiles = [], b_missingDts = None, b_selectedDts = None\<rparr>"

definition sample_source :: resolved_source where
  "sample_source =
     \<lparr>rs_directives = [], rs_files = [\<lparr>u_name = ''a.ts'', u_content = ''x''\<rparr>], rs_source = Some ''x'',
      rs_fileName = Some ''a.ts'', rs_links = [], rs_failed = False\<rparr>"

definition sample_options :: resolved_options where
  "sample_options =
     [(''base'', \<lparr>ao_key = ''base'', ao_value = JStr ''a'', ao_source = Filename_variant\<rparr>),
      (''removecomments'', \<lparr>ao_key = ''removecomments'', ao_value = JStr ''true'', ao_source = Filename_variant\<rparr>)]"

definition sample_case :: test_case where
  "sample_case = build_case (\<lambda>t. (JNull, 1)) [] False sample_name sample_baseline sample_source"

lemma sample_resolved:
  "resolveAuthoredOptions (authored_sources_of (\<lambda>t. (JNull, 1)) sample_name sample_source) = sample_options"
  by code_simp

lemma sample_reasons:
  "er_reasons (parseEmbeddedCompilerOptions (\<lambda>t. (JNull, 1)) (rs_files sample_source)) = []"
  "authoredOptionFailureReasons sample_options = []"
  "truthy (unsupportedReason (selectHarnessRootFiles (rs_files sample_source)
     (optionBoolean sample_options ''noImplicitReferences''))) = False"
  "canonicalUnsupportedReasons (support_of [] False sample_name sample_baseline sample_source sample_options) = []"
  "b_dtsOutputs sample_baseline = []"
  by code_simp+

lemma sample_supported: "tc_unsupported sample_case = None"
proof -
  have "unsupported_reasons [] False sample_name sample_baseline sample_source
      (parseEmbeddedCompilerOptions (\<lambda>t. (JNull, 1)) (rs_files sample_source)) sample_options = []"
    unfolding unsupported_reasons_def by (simp only: Let_def sample_reasons simp_thms if_False append_Nil append_Nil2)
  then show ?thesis by (simp only: sample_case_def build_case_def Let_def sample_resolved test_case.select_convs simp_thms if_False)
qed


end
