(* ===== verification/RunnerOrder.thy ===== *)
theory RunnerOrder
  imports RunnerTest
begin

text \<open>
  Tests finish in any order. What the run of \<open>scripts/emit/src/runner.ts\<close> reports at its end (the
  counters, the exit code, the fingerprint of the detail rows and the failures as a collection)
  does not depend on it, and the verbose output appears in the order of the tests.
\<close>

section \<open>The order of completion\<close>

lemma status_commute: "recordArtifactStatus a (recordArtifactStatus b c) = recordArtifactStatus b (recordArtifactStatus a c)"
  by (cases a; cases b) simp_all

lemma product_commute:
  "recordArtifactProduct s m (recordArtifactProduct t n c) = recordArtifactProduct t n (recordArtifactProduct s m c)"
  by (auto simp: recordArtifactProduct_def split: option.split bool.split)

lemma fold_any_order:
  assumes "\<And>x y c. f x (f y c) = f y (f x c)" and "mset xs = mset ys"
  shows "fold f xs = fold f ys"
  by (rule fold_multiset_equiv) (auto simp: assms o_def)

lemma recorded_products:
  "rn_jsProducts (fold recordResult rs st) =
     fold (\<lambda>r. recordArtifactProduct (te_jsSelected r) (te_jsProductMatch r)) (map measured rs) (rn_jsProducts st)"
  "rn_dtsProducts (fold recordResult rs st) =
     fold (\<lambda>r. recordArtifactProduct (te_dtsSelected r) (te_dtsProductMatch r)) (map measured rs) (rn_dtsProducts st)"
  by (induction rs arbitrary: st) (simp_all add: recordResult_def Let_def)

definition non_passing :: "test_result \<Rightarrow> bool" where
  "non_passing r \<longleftrightarrow> \<not> list_all (\<lambda>s. s = S_pass \<or> s = S_skip) [js_status r, dts_status r]"

lemma recorded_failures:
  "rn_failures (fold recordResult rs st) = rn_failures st @ filter non_passing (map measured rs)"
  by (induction rs arbitrary: st) (simp_all add: recordResult_def non_passing_def Let_def)

lemma recorded_any_order:
  assumes "mset rs = mset rs'"
  shows "rn_completed (fold recordResult rs initial_run) = rn_completed (fold recordResult rs' initial_run)"
    and "rn_jsCounts (fold recordResult rs initial_run) = rn_jsCounts (fold recordResult rs' initial_run)"
    and "rn_dtsCounts (fold recordResult rs initial_run) = rn_dtsCounts (fold recordResult rs' initial_run)"
    and "rn_jsProducts (fold recordResult rs initial_run) = rn_jsProducts (fold recordResult rs' initial_run)"
    and "rn_dtsProducts (fold recordResult rs initial_run) = rn_dtsProducts (fold recordResult rs' initial_run)"
    and "mset (rn_failures (fold recordResult rs initial_run)) = mset (rn_failures (fold recordResult rs' initial_run))"
proof -
  have l: "length rs = length rs'" using assms by (rule mset_eq_length)
  show "rn_completed (fold recordResult rs initial_run) = rn_completed (fold recordResult rs' initial_run)"
    by (simp add: recorded l)
  show "rn_jsCounts (fold recordResult rs initial_run) = rn_jsCounts (fold recordResult rs' initial_run)"
    "rn_dtsCounts (fold recordResult rs initial_run) = rn_dtsCounts (fold recordResult rs' initial_run)"
    unfolding recorded by (rule fun_cong[OF fold_any_order]; simp add: assms status_commute)+
  show "rn_jsProducts (fold recordResult rs initial_run) = rn_jsProducts (fold recordResult rs' initial_run)"
    "rn_dtsProducts (fold recordResult rs initial_run) = rn_dtsProducts (fold recordResult rs' initial_run)"
    unfolding recorded_products
    by (rule fun_cong[OF fold_any_order]; simp add: assms product_commute)+
  show "mset (rn_failures (fold recordResult rs initial_run)) = mset (rn_failures (fold recordResult rs' initial_run))"
    using assms by (simp add: recorded_failures mset_filter)
qed

text \<open>The rows of the detail file of the raw results.\<close>

definition detail_of_results :: "test_result list \<Rightarrow> (string \<times> jsval) list list" where
  "detail_of_results rs = map (result_row \<circ> measured) rs"

text \<open>C22: the counters, the exit code, the collection of failures and the fingerprint of the detail
  file are the same in whatever order the tests finish, as long as the rows hold JSON values and
  no two of them have the same identity.\<close>

theorem completion_order_immaterial:
  assumes "mset rs = mset rs'" and "\<forall>r \<in> set (detail_of_results rs). json_row r"
    and "distinct (map row_identity (detail_of_results rs))"
  shows "exit_status (fold recordResult rs initial_run) = exit_status (fold recordResult rs' initial_run) \<and>
    mset (rn_failures (fold recordResult rs initial_run)) = mset (rn_failures (fold recordResult rs' initial_run)) \<and>
    (detail_of sha (fold recordResult rs initial_run))\<lparr>rd_results := []\<rparr> =
      (detail_of sha (fold recordResult rs' initial_run))\<lparr>rd_results := []\<rparr>"
proof -
  have m: "mset (detail_of_results rs) = mset (detail_of_results rs')"
    using assms(1) by (simp add: detail_of_results_def)
  have "detail_text (detail_of_results rs) = detail_text (detail_of_results rs')"
    using detail_text_iff[OF assms(2) _ assms(3)] m assms(2) by (metis mset_eq_setD mset_map)
  then have "detailRowsFingerprint sha (detail_of_results rs) = detailRowsFingerprint sha (detail_of_results rs')"
    by (simp add: detailRowsFingerprint_def detail_text_def)
  moreover have "map result_row (rn_results (fold recordResult rs initial_run)) = detail_of_results rs" for rs
    by (simp add: recorded initial_run_def detail_of_results_def)
  moreover have "length (detail_of_results rs) = length (detail_of_results rs')"
    using m by (rule mset_eq_length)
  ultimately show ?thesis
    using recorded_any_order[OF assms(1)] by (simp add: detail_of_def exit_status_def Let_def)
qed

section \<open>The order of printing\<close>

text \<open>What has been printed is a prefix of the slots.\<close>

definition printed_prefix :: "flush_state \<Rightarrow> bool" where
  "printed_prefix st \<longleftrightarrow>
     pr_printedUpTo st = length (pr_printed st) \<and> pr_printedUpTo st \<le> length (pr_results st) \<and>
     map Some (pr_printed st) = take (pr_printedUpTo st) (pr_results st)"

lemma takeWhile_take:
  assumes "list_all P (take k xs)" and "k < length xs \<Longrightarrow> \<not> P (xs ! k)" and "k \<le> length xs"
  shows "takeWhile P xs = take k xs"
  using assms
proof (induction xs arbitrary: k)
  case (Cons x xs)
  then show ?case by (cases k) auto
qed simp

lemma flush_results_prints:
  "printed_prefix st \<Longrightarrow>
     printed_prefix (flush_results st) \<and> pr_results (flush_results st) = pr_results st \<and>
     map Some (pr_printed (flush_results st)) = takeWhile (\<lambda>r. r \<noteq> None) (pr_results st)"
proof (induction st rule: flush_results.induct)
  case (1 st)
  let ?k = "pr_printedUpTo st"
  have stop: "takeWhile (\<lambda>r. r \<noteq> None) (pr_results st) = take ?k (pr_results st)"
    if "?k < length (pr_results st) \<Longrightarrow> pr_results st ! ?k = None"
  proof (rule takeWhile_take)
    have "take ?k (pr_results st) = map Some (pr_printed st)" using "1.prems" by (simp add: printed_prefix_def)
    then show "list_all (\<lambda>r. r \<noteq> None) (take ?k (pr_results st))" by (simp add: list_all_iff)
  qed (use that "1.prems" in \<open>auto simp: printed_prefix_def\<close>)
  show ?case
  proof (cases "?k < length (pr_results st) \<and> pr_results st ! ?k \<noteq> None")
    case True
    then obtain r where r: "pr_results st ! ?k = Some r" by blast
    let ?n = "st\<lparr>pr_printed := pr_printed st @ [r], pr_printedUpTo := Suc ?k\<rparr>"
    have p: "printed_prefix ?n" using "1.prems" True r by (simp add: printed_prefix_def take_Suc_conv_app_nth)
    have "flush_results st = flush_results ?n" using True r by (simp add: flush_results.simps[of st])
    then show ?thesis using "1.IH"[OF conjunct1[OF True] r p] by simp
  next
    case False
    have "flush_results st = st" using False by (simp add: flush_results.simps[of st])
    then show ?thesis using False stop "1.prems" by (auto simp: printed_prefix_def)
  qed
qed

lemma complete_test_prints:
  assumes "printed_prefix st" and "i < length (pr_results st)" and "pr_results st ! i = None"
  shows "printed_prefix (complete_test (i, r) st) \<and> pr_results (complete_test (i, r) st) = (pr_results st)[i := Some r] \<and>
    map Some (pr_printed (complete_test (i, r) st)) = takeWhile (\<lambda>r. r \<noteq> None) ((pr_results st)[i := Some r])"
proof -
  have "\<not> i < pr_printedUpTo st"
    using assms unfolding printed_prefix_def by (metis length_map nth_map nth_take option.distinct(1))
  then have "printed_prefix (st\<lparr>pr_results := (pr_results st)[i := Some r]\<rparr>)"
    using assms(1) by (simp add: printed_prefix_def)
  from flush_results_prints[OF this] show ?thesis by (simp add: complete_test_def)
qed

lemma initial_prints:
  "printed_prefix (initial_print n) \<and> map Some (pr_printed (initial_print n)) = takeWhile (\<lambda>r. r \<noteq> None) (pr_results (initial_print n))"
  by (cases n) (simp_all add: initial_print_def printed_prefix_def)

lemma printed_spec:
  assumes "distinct (map fst es)" and "list_all (\<lambda>e. fst e < n) es"
  shows "printed_prefix (fold complete_test es (initial_print n)) \<and>
    pr_results (fold complete_test es (initial_print n)) = map (map_of es) [0..<n] \<and>
    map Some (pr_printed (fold complete_test es (initial_print n))) =
      takeWhile (\<lambda>r. r \<noteq> None) (map (map_of es) [0..<n])"
  using assms
proof (induction es rule: rev_induct)
  case Nil
  have "map (map_of ([] :: (nat \<times> test_result) list)) [0..<n] = replicate n None" by (simp add: list_eq_iff_nth_eq)
  then show ?case using initial_prints[of n] by (simp only: fold_simps id_apply) (simp add: initial_print_def)
next
  case (snoc e es)
  obtain i r where e: "e = (i, r)" by fastforce
  let ?st = "fold complete_test es (initial_print n)"
  have IH: "printed_prefix ?st" "pr_results ?st = map (map_of es) [0..<n]" and i: "i < n" "i \<notin> fst ` set es"
    using snoc e by auto
  then have none: "map_of es i = None" by (simp add: map_of_eq_None_iff)
  have upd: "(map (map_of es) [0..<n])[i := Some r] = map (map_of (es @ [e])) [0..<n]"
    using i none by (auto intro!: nth_equalityI simp: nth_list_update e map_add_def split: option.split)
  show ?case using complete_test_prints[of ?st i r] IH i none upd by (simp add: e)
qed

text \<open>C23: at any moment of a verbose run the printed results are those of the longest prefix of the
  tests that have all completed, in the order of the tests, whatever the order of completion;
  once every test has completed all of them are printed.\<close>

theorem printed_in_order:
  assumes "distinct (map fst es)" and "list_all (\<lambda>e. fst e < n) es"
  shows "map Some (pr_printed (fold complete_test es (initial_print n))) =
      takeWhile (\<lambda>r. r \<noteq> None) (map (map_of es) [0..<n]) \<and>
    (length es = n \<longrightarrow> map Some (pr_printed (fold complete_test es (initial_print n))) = map (map_of es) [0..<n])"
proof -
  have "takeWhile (\<lambda>r. r \<noteq> None) (map (map_of es) [0..<n]) = map (map_of es) [0..<n]" if l: "length es = n"
  proof -
    have sub: "fst ` set es \<subseteq> {..<n}" using assms(2) by (auto simp: list_all_iff)
    have "card (fst ` set es) = n" using l distinct_card[OF assms(1)] by simp
    then have "fst ` set es = {..<n}" using sub by (intro card_subset_eq) auto
    then have "\<forall>i \<in> {..<n}. map_of es i \<noteq> None" by (simp add: map_of_eq_None_iff)
    then show ?thesis by (simp add: takeWhile_eq_all_conv)
  qed
  then show ?thesis using printed_spec[OF assms] by simp
qed

section \<open>Instances\<close>

definition sample_result :: "string \<Rightarrow> bool \<Rightarrow> test_result" where
  "sample_result name ok =
     \<lparr>mr_state = A_complete, mr_jsMatch = Some ok, mr_dtsMatch = None, mr_jsError = None, mr_dtsError = None,
      te_name = name, te_testPath = None, te_jsSelected = True, te_dtsSelected = False,
      te_outcomeMatch = Some ok, te_jsProductMatch = Some ok, te_dtsProductMatch = None,
      te_oracleEvidence = Observed 0 [] None [] [], te_tszEvidence = Observed 0 [] None [] [],
      te_outcomeError = None, te_jsProductError = None, te_dtsProductError = None,
      te_elapsed = Some 5, te_skipped = None, te_timeout = None\<rparr>"

theorem completion_order_immaterial_witness:
  "exit_status (fold recordResult [sample_result ''a'' True, sample_result ''b'' False] initial_run) =
     exit_status (fold recordResult [sample_result ''b'' False, sample_result ''a'' True] initial_run)"
proof -
  let ?a = "sample_result ''a'' True" and ?b = "sample_result ''b'' False"
  have "mset [?a, ?b] = mset [?b, ?a]" by simp
  moreover have "\<forall>r \<in> set (detail_of_results [?a, ?b]). json_row r"
    by (simp add: detail_of_results_def) code_simp
  moreover have "distinct (map row_identity (detail_of_results [?a, ?b]))" by code_simp
  ultimately show ?thesis using completion_order_immaterial[of "[?a, ?b]" "[?b, ?a]"] by blast
qed

theorem printed_in_order_witness:
  "map Some (pr_printed (fold complete_test [(1, sample_result ''b'' True), (0, sample_result ''a'' True)] (initial_print 2))) =
     [Some (sample_result ''a'' True), Some (sample_result ''b'' True)]"
proof -
  let ?es = "[(1 :: nat, sample_result ''b'' True), (0, sample_result ''a'' True)]"
  have "map (map_of ?es) [0..<2] = [Some (sample_result ''a'' True), Some (sample_result ''b'' True)]"
    by (simp add: numeral_2_eq_2)
  then show ?thesis using printed_in_order[of ?es 2] by simp
qed

end
