(* ===== verification/LspExtension.thy ===== *)
theory LspExtension
  imports NodePath
begin

text \<open>
  The editor extension, \<open>scripts/vscode-tsz-lsp/src/extension.ts\<close>: where the server binary is
  looked for, how it is called, and the life of the language clients as a step relation whose
  steps are the code between two awaits. The client library is not modelled: whether and when
  \<open>stop()\<close> and \<open>start()\<close> settle, and in which state a client is then, is a choice of the step.
  Paths are those of the POSIX platforms.
\<close>

section \<open>The server command\<close>

record lsp_env =
  le_windows :: bool
  le_extensionPath :: string
  le_cwd :: string
  le_workspace :: "string option"
  le_path :: string
  le_args :: "string list"
  le_exists :: "string \<Rightarrow> bool"

record resolution =
  re_command :: "string option"
  re_checkedPaths :: "string list"
  re_workingDirectory :: string

definition binaryName :: "lsp_env \<Rightarrow> string" where
  "binaryName e = (if le_windows e then ''tsz-lsp.exe'' else ''tsz-lsp'')"

definition binaryCandidates :: "lsp_env \<Rightarrow> string \<Rightarrow> string list" where
  "binaryCandidates e root =
     [path_join [root, ''.target'', ''debug'', binaryName e], path_join [root, ''.target'', ''release'', binaryName e],
      path_join [root, ''target'', ''debug'', binaryName e], path_join [root, ''target'', ''release'', binaryName e]]"

definition ensureStdioMode :: "string list \<Rightarrow> string list" where
  "ensureStdioMode args = (if ''--mode'' \<in> set args then args else [''--mode'', ''stdio''] @ args)"

definition extensionRepoRoot :: "lsp_env \<Rightarrow> string" where
  "extensionRepoRoot e = path_resolve (le_cwd e) [le_extensionPath e, ''..'', ''..'']"

text \<open>The roots are a set that is walked in insertion order.\<close>

definition search_roots :: "lsp_env \<Rightarrow> string list" where
  "search_roots e =
     (let r = extensionRepoRoot e in
      case le_workspace e of
        Some w \<Rightarrow> if w = [] then [r] else if w = r then [w] else [w, r]
      | None \<Rightarrow> [r])"

fun first_existing :: "(string \<Rightarrow> bool) \<Rightarrow> string list \<Rightarrow> string list \<Rightarrow> string option \<times> string list" where
  "first_existing ex checked [] = (None, checked)"
| "first_existing ex checked (c # cs) =
     (if ex c then (Some c, checked @ [c]) else first_existing ex (checked @ [c]) cs)"

fun search_in :: "lsp_env \<Rightarrow> string list \<Rightarrow> string list \<Rightarrow> string option \<times> string list" where
  "search_in e checked [] = (None, checked)"
| "search_in e checked (root # roots) =
     (case first_existing (le_exists e) checked (binaryCandidates e root) of
        (Some c, checked') \<Rightarrow> (Some c, checked')
      | (None, checked') \<Rightarrow> search_in e checked' roots)"

definition resolveServerCommand :: "lsp_env \<Rightarrow> resolution" where
  "resolveServerCommand e =
     (let configuredPath = trim (le_path e);
          workingDirectory = (case le_workspace e of Some w \<Rightarrow> w | None \<Rightarrow> extensionRepoRoot e)
      in if configuredPath \<noteq> [] then
           \<lparr>re_command = (if le_exists e configuredPath then Some configuredPath else None),
            re_checkedPaths = [configuredPath], re_workingDirectory = workingDirectory\<rparr>
         else
           case search_in e [] (search_roots e) of
             (c, checked) \<Rightarrow> \<lparr>re_command = c, re_checkedPaths = checked, re_workingDirectory = workingDirectory\<rparr>)"

lemma first_existing_find:
  "first_existing ex checked cs =
     (find ex cs, checked @ takeWhile (\<lambda>c. \<not> ex c) cs @ (case find ex cs of Some c \<Rightarrow> [c] | None \<Rightarrow> []))"
  by (induction cs arbitrary: checked) auto

lemma find_append: "find P (xs @ ys) = (case find P xs of Some x \<Rightarrow> Some x | None \<Rightarrow> find P ys)"
  by (induction xs) auto

lemma takeWhile_found: "find P xs = Some x \<Longrightarrow> takeWhile (\<lambda>c. \<not> P c) (xs @ ys) = takeWhile (\<lambda>c. \<not> P c) xs"
  by (induction xs) (auto split: if_splits)

lemma takeWhile_not_found: "find P xs = None \<Longrightarrow> takeWhile (\<lambda>c. \<not> P c) (xs @ ys) = xs @ takeWhile (\<lambda>c. \<not> P c) ys"
  by (induction xs) (auto split: if_splits)

lemma search_in_concat:
  "search_in e checked roots = first_existing (le_exists e) checked (concat (map (binaryCandidates e) roots))"
proof (induction roots arbitrary: checked)
  case (Cons r rs)
  show ?case
  proof (cases "find (le_exists e) (binaryCandidates e r)")
    case None
    then show ?thesis
      using takeWhile_not_found[OF None, of "[]"]
      by (simp add: Cons first_existing_find find_append takeWhile_not_found)
  next
    case (Some c)
    then show ?thesis by (simp add: first_existing_find find_append takeWhile_found)
  qed
qed simp

text \<open>What is looked at, in order: the configured path alone, or the candidates below each root.\<close>

definition lookup_order :: "lsp_env \<Rightarrow> string list" where
  "lookup_order e =
     (if trim (le_path e) \<noteq> [] then [trim (le_path e)] else concat (map (binaryCandidates e) (search_roots e)))"

lemma resolution_spec:
  "re_command (resolveServerCommand e) = find (le_exists e) (lookup_order e) \<and>
   (re_command (resolveServerCommand e) = None \<longrightarrow> re_checkedPaths (resolveServerCommand e) = lookup_order e)"
proof (cases "trim (le_path e) = []")
  case True
  have "takeWhile (\<lambda>c. \<not> le_exists e c) cs = cs" if "find (le_exists e) cs = None" for cs
    using that by (simp add: find_None_iff takeWhile_eq_all_conv)
  then show ?thesis
    by (simp add: True resolveServerCommand_def lookup_order_def search_in_concat first_existing_find Let_def)
qed (simp add: resolveServerCommand_def lookup_order_def Let_def)

section \<open>The clients\<close>

datatype client_status = Starting | Running | Stopping | Stopped | Start_failed

record lsp_client =
  cl_command :: string
  cl_args :: "string list"
  cl_directory :: string
  cl_status :: client_status

text \<open>The continuations that wait for a promise of a client.\<close>

datatype waiting = Restart_stop nat bool | Deactivate_stop nat | Start_wait nat

datatype subscription = Restart_registered | Configuration_listener | File_watcher | Client_disposable nat

record lsp_state =
  ls_client :: "nat option"
  ls_clients :: "lsp_client list"
  ls_waiting :: "waiting list"
  ls_messages :: "string list"
  ls_subscriptions :: "subscription list"
  ls_channels :: "string list"

definition not_found_message :: "resolution \<Rightarrow> string" where
  "not_found_message r =
     join '' '' [''Could not find tsz-lsp.'',
       ''Build it with: cargo build -p tsz-cli --bin tsz-lsp, or set tsz.lsp.path.'',
       ''Checked: '' @ join '', '' (re_checkedPaths r)]"

text \<open>\<open>startClient\<close> up to its await.\<close>

definition startClient :: "lsp_env \<Rightarrow> bool \<Rightarrow> lsp_state \<Rightarrow> lsp_state" where
  "startClient e userRequested st =
     (let r = resolveServerCommand e in
      case re_command r of
        None \<Rightarrow> if userRequested then st\<lparr>ls_messages := ls_messages st @ [not_found_message r]\<rparr> else st
      | Some c \<Rightarrow>
          let i = length (ls_clients st) in
          st\<lparr>ls_channels := ls_channels st @ [''TSZ LSP'', ''TSZ LSP Trace''],
             ls_subscriptions := ls_subscriptions st @ [File_watcher, Client_disposable i],
             ls_clients := ls_clients st @
               [\<lparr>cl_command = c, cl_args = ensureStdioMode (le_args e), cl_directory = re_workingDirectory r,
                 cl_status = Starting\<rparr>],
             ls_client := Some i,
             ls_waiting := ls_waiting st @ [Start_wait i]\<rparr>)"

definition set_status :: "nat \<Rightarrow> client_status \<Rightarrow> lsp_state \<Rightarrow> lsp_state" where
  "set_status i s st = st\<lparr>ls_clients := (ls_clients st)[i := (ls_clients st ! i)\<lparr>cl_status := s\<rparr>]\<rparr>"

definition status_of :: "lsp_state \<Rightarrow> nat \<Rightarrow> client_status" where
  "status_of st i = cl_status (ls_clients st ! i)"

text \<open>\<open>client.stop()\<close> is called; a client that is stopped already stays as it is.\<close>

definition call_stop :: "nat \<Rightarrow> lsp_state \<Rightarrow> lsp_state" where
  "call_stop i st = (if status_of st i = Starting \<or> status_of st i = Running then set_status i Stopping st else st)"

definition restartClient :: "lsp_env \<Rightarrow> bool \<Rightarrow> lsp_state \<Rightarrow> lsp_state" where
  "restartClient e userRequested st =
     (case ls_client st of
        Some i \<Rightarrow> (call_stop i st)\<lparr>ls_waiting := ls_waiting st @ [Restart_stop i userRequested]\<rparr>
      | None \<Rightarrow> startClient e userRequested st)"

definition deactivate :: "lsp_state \<Rightarrow> lsp_state" where
  "deactivate st =
     (case ls_client st of
        Some i \<Rightarrow> (call_stop i st)\<lparr>ls_waiting := ls_waiting st @ [Deactivate_stop i]\<rparr>
      | None \<Rightarrow> st)"

text \<open>After the await of a stop: the variable is cleared whatever it holds by then.\<close>

definition restart_stopped :: "lsp_env \<Rightarrow> nat \<Rightarrow> bool \<Rightarrow> lsp_state \<Rightarrow> lsp_state" where
  "restart_stopped e i userRequested st =
     startClient e userRequested
       ((set_status i Stopped st)\<lparr>ls_waiting := remove1 (Restart_stop i userRequested) (ls_waiting st), ls_client := None\<rparr>)"

definition deactivate_stopped :: "nat \<Rightarrow> lsp_state \<Rightarrow> lsp_state" where
  "deactivate_stopped i st =
     (set_status i Stopped st)\<lparr>ls_waiting := remove1 (Deactivate_stop i) (ls_waiting st), ls_client := None\<rparr>"

definition start_settled :: "nat \<Rightarrow> bool \<Rightarrow> lsp_state \<Rightarrow> lsp_state" where
  "start_settled i ok st =
     (let st' = st\<lparr>ls_waiting := remove1 (Start_wait i) (ls_waiting st)\<rparr> in
      if status_of st i = Starting then set_status i (if ok then Running else Start_failed) st' else st')"

definition activate :: "lsp_env \<Rightarrow> lsp_state" where
  "activate e =
     startClient e True
       \<lparr>ls_client = None, ls_clients = [], ls_waiting = [], ls_messages = [],
        ls_subscriptions = [Restart_registered, Configuration_listener], ls_channels = []\<rparr>"

text \<open>A step; with \<open>serial\<close> no restart or deactivation begins while another waits for its stop.\<close>

definition is_stop :: "waiting \<Rightarrow> bool" where
  "is_stop w = (case w of Start_wait i \<Rightarrow> False | _ \<Rightarrow> True)"

definition may_begin :: "bool \<Rightarrow> lsp_state \<Rightarrow> bool" where
  "may_begin serial st \<longleftrightarrow> (serial \<longrightarrow> filter is_stop (ls_waiting st) = [])"

inductive lsp_step :: "bool \<Rightarrow> lsp_state \<Rightarrow> lsp_state \<Rightarrow> bool" where
  Restart_command: "may_begin serial st \<Longrightarrow> lsp_step serial st (restartClient e True st)"
| Configuration_changed: "may_begin serial st \<Longrightarrow> lsp_step serial st (restartClient e False st)"
| Deactivated: "may_begin serial st \<Longrightarrow> lsp_step serial st (deactivate st)"
| Stop_resolved: "Restart_stop i u \<in> set (ls_waiting st) \<Longrightarrow> lsp_step serial st (restart_stopped e i u st)"
| Deactivate_resolved: "Deactivate_stop i \<in> set (ls_waiting st) \<Longrightarrow> lsp_step serial st (deactivate_stopped i st)"
| Stop_rejected: "w \<in> set (ls_waiting st) \<Longrightarrow> w = Restart_stop i u \<or> w = Deactivate_stop i \<Longrightarrow>
     lsp_step serial st (set_status i s (st\<lparr>ls_waiting := remove1 w (ls_waiting st)\<rparr>))"
| Start_settles: "Start_wait i \<in> set (ls_waiting st) \<Longrightarrow> lsp_step serial st (start_settled i ok st)"

inductive lsp_run :: "bool \<Rightarrow> lsp_state \<Rightarrow> bool" where
  Activated: "lsp_run serial (activate e)"
| Step: "lsp_run serial st \<Longrightarrow> lsp_step serial st st' \<Longrightarrow> lsp_run serial st'"

section \<open>At most one server lives\<close>

definition waiting_id :: "waiting \<Rightarrow> nat" where
  "waiting_id w = (case w of Restart_stop i u \<Rightarrow> i | Deactivate_stop i \<Rightarrow> i | Start_wait i \<Rightarrow> i)"

definition live :: "lsp_client \<Rightarrow> bool" where
  "live c \<longleftrightarrow> cl_status c \<noteq> Stopped \<and> cl_status c \<noteq> Start_failed"

definition live_clients :: "lsp_state \<Rightarrow> nat list" where
  "live_clients st = filter (\<lambda>i. live (ls_clients st ! i)) [0..<length (ls_clients st)]"

definition ids_known :: "lsp_state \<Rightarrow> bool" where
  "ids_known st \<longleftrightarrow>
     (\<forall>w \<in> set (ls_waiting st). waiting_id w < length (ls_clients st)) \<and>
     (\<forall>i. ls_client st = Some i \<longrightarrow> i < length (ls_clients st))"

definition only_current_lives :: "lsp_state \<Rightarrow> bool" where
  "only_current_lives st \<longleftrightarrow> (\<forall>i < length (ls_clients st). live (ls_clients st ! i) \<longrightarrow> ls_client st = Some i)"

definition one_stop :: "lsp_state \<Rightarrow> bool" where
  "one_stop st \<longleftrightarrow>
     filter is_stop (ls_waiting st) = [] \<or>
     (\<exists>w. filter is_stop (ls_waiting st) = [w] \<and> ls_client st = Some (waiting_id w))"

definition serial_inv :: "lsp_state \<Rightarrow> bool" where
  "serial_inv st \<longleftrightarrow> ids_known st \<and> only_current_lives st \<and> one_stop st"

lemma set_status_frame [simp]:
  "ls_client (set_status i s st) = ls_client st" "ls_waiting (set_status i s st) = ls_waiting st"
  "ls_subscriptions (set_status i s st) = ls_subscriptions st" "ls_channels (set_status i s st) = ls_channels st"
  "length (ls_clients (set_status i s st)) = length (ls_clients st)"
  by (simp_all add: set_status_def)

lemma call_stop_frame [simp]:
  "ls_client (call_stop i st) = ls_client st" "ls_waiting (call_stop i st) = ls_waiting st"
  "ls_subscriptions (call_stop i st) = ls_subscriptions st" "ls_channels (call_stop i st) = ls_channels st"
  "length (ls_clients (call_stop i st)) = length (ls_clients st)"
  by (simp_all add: call_stop_def)

lemma set_status_nth:
  "j < length (ls_clients st) \<Longrightarrow>
     ls_clients (set_status i s st) ! j = (if j = i then (ls_clients st ! i)\<lparr>cl_status := s\<rparr> else ls_clients st ! j)"
  by (simp add: set_status_def nth_list_update)

lemma set_status_lives:
  assumes "only_current_lives st" and "ls_client st = Some i \<or> s = Stopped \<or> s = Start_failed"
  shows "only_current_lives (set_status i s st)"
  using assms by (auto simp: only_current_lives_def set_status_nth live_def split: if_splits)

lemma call_stop_lives: "only_current_lives st \<Longrightarrow> ls_client st = Some i \<Longrightarrow> only_current_lives (call_stop i st)"
  by (simp add: call_stop_def set_status_lives)

lemma startClient_inv:
  assumes "ids_known st" and "list_all (\<lambda>c. \<not> live c) (ls_clients st)" and "ls_client st = None"
    and "filter is_stop (ls_waiting st) = []"
  shows "serial_inv (startClient e u st)"
proof -
  have dead: "\<not> live (ls_clients st ! i)" if "i < length (ls_clients st)" for i
    using assms(2) that by (simp add: list_all_length)
  show ?thesis
    using assms dead
    by (auto simp: serial_inv_def ids_known_def only_current_lives_def one_stop_def startClient_def Let_def is_stop_def
        waiting_id_def nth_append less_Suc_eq less_SucI split: option.split)
qed

lemma all_dead: "only_current_lives st \<Longrightarrow> ls_client st = None \<Longrightarrow> list_all (\<lambda>c. \<not> live c) (ls_clients st)"
  by (simp add: only_current_lives_def list_all_length)

lemma stopping_current:
  assumes "one_stop st" and "w \<in> set (ls_waiting st)" and "is_stop w"
  shows "ls_client st = Some (waiting_id w) \<and> filter is_stop (remove1 w (ls_waiting st)) = []"
proof -
  have w: "w \<in> set (filter is_stop (ls_waiting st))" using assms(2,3) by simp
  then obtain v where v: "filter is_stop (ls_waiting st) = [v]" "ls_client st = Some (waiting_id v)"
    using assms(1) unfolding one_stop_def by (metis empty_iff list.set(1))
  have "w \<in> set [v]" using w unfolding v(1) .
  then have "filter is_stop (ls_waiting st) = [w] \<and> ls_client st = Some (waiting_id w)" using v by simp
  then show ?thesis by (simp add: filter_remove1)
qed

lemma in_remove1: "w \<in> set (remove1 v ws) \<Longrightarrow> w \<in> set ws"
  using notin_set_remove1 by metis

lemma ids_drop: "ids_known st \<Longrightarrow> ids_known (st\<lparr>ls_waiting := remove1 v (ls_waiting st)\<rparr>)"
  by (auto simp: ids_known_def dest: in_remove1)

lemma ids_clear: "ids_known st \<Longrightarrow> ids_known (st\<lparr>ls_client := None\<rparr>)"
  by (simp add: ids_known_def)

lemma ids_status [simp]: "ids_known (set_status i s st) = ids_known st"
  by (simp add: ids_known_def)

lemma one_stop_status [simp]: "one_stop (set_status i s st) = one_stop st"
  by (simp add: one_stop_def)

lemma lives_waiting [simp]: "only_current_lives (st\<lparr>ls_waiting := ws\<rparr>) = only_current_lives st"
  by (simp add: only_current_lives_def)

text \<open>After a stop the stopped client is dead, and it was the only one that could live.\<close>

lemma stopped_state:
  assumes "serial_inv st" and "w \<in> set (ls_waiting st)" and "is_stop w"
  shows "ids_known ((set_status (waiting_id w) Stopped st)\<lparr>ls_waiting := remove1 w (ls_waiting st), ls_client := None\<rparr>)"
    and "list_all (\<lambda>c. \<not> live c) (ls_clients (set_status (waiting_id w) Stopped st))"
    and "filter is_stop (remove1 w (ls_waiting st)) = []"
proof -
  have c: "ls_client st = Some (waiting_id w)" "filter is_stop (remove1 w (ls_waiting st)) = []"
    using stopping_current[OF _ assms(2,3)] assms(1) unfolding serial_inv_def by simp_all
  show "filter is_stop (remove1 w (ls_waiting st)) = []" by (rule c(2))
  show "ids_known ((set_status (waiting_id w) Stopped st)\<lparr>ls_waiting := remove1 w (ls_waiting st), ls_client := None\<rparr>)"
    using ids_clear[OF ids_drop, of "set_status (waiting_id w) Stopped st" w] assms(1) by (simp add: serial_inv_def)
  show "list_all (\<lambda>c. \<not> live c) (ls_clients (set_status (waiting_id w) Stopped st))"
  proof -
    have "only_current_lives st" using assms(1) by (simp add: serial_inv_def)
    then have "\<not> live (ls_clients st ! j)" if "j < length (ls_clients st)" "j \<noteq> waiting_id w" for j
      using that c(1) unfolding only_current_lives_def by fastforce
    then show ?thesis by (simp add: list_all_length set_status_nth) (simp add: live_def)
  qed
qed

lemma restart_inv:
  assumes "serial_inv st" and "may_begin True st"
  shows "serial_inv (restartClient e u st)"
proof (cases "ls_client st")
  case None
  then show ?thesis
    using assms startClient_inv all_dead by (simp add: restartClient_def serial_inv_def may_begin_def)
next
  case (Some i)
  then show ?thesis
    using assms call_stop_lives[of st i]
    by (auto simp: restartClient_def serial_inv_def may_begin_def ids_known_def one_stop_def only_current_lives_def
        waiting_id_def is_stop_def)
qed

lemma deactivate_inv:
  assumes "serial_inv st" and "may_begin True st"
  shows "serial_inv (deactivate st)"
proof (cases "ls_client st")
  case (Some i)
  then show ?thesis
    using assms call_stop_lives[of st i]
    by (auto simp: deactivate_def serial_inv_def may_begin_def ids_known_def one_stop_def only_current_lives_def
        waiting_id_def is_stop_def)
qed (use assms in \<open>simp add: deactivate_def\<close>)

lemma rejected_inv:
  assumes "serial_inv st" and "w \<in> set (ls_waiting st)" and "is_stop w"
  shows "serial_inv (set_status (waiting_id w) s (st\<lparr>ls_waiting := remove1 w (ls_waiting st)\<rparr>))"
proof -
  let ?t = "st\<lparr>ls_waiting := remove1 w (ls_waiting st)\<rparr>"
  have c: "ls_client ?t = Some (waiting_id w)" "filter is_stop (ls_waiting ?t) = []"
    using stopping_current assms unfolding serial_inv_def by simp_all
  have "only_current_lives ?t" "ids_known ?t" using assms(1) ids_drop by (simp_all add: serial_inv_def)
  then show ?thesis using c set_status_lives[of ?t] by (simp add: serial_inv_def one_stop_def)
qed

lemma start_settled_inv:
  assumes "serial_inv st" and "Start_wait i \<in> set (ls_waiting st)"
  shows "serial_inv (start_settled i ok st)"
proof -
  let ?t = "st\<lparr>ls_waiting := remove1 (Start_wait i) (ls_waiting st)\<rparr>"
  have f: "filter is_stop (remove1 (Start_wait i) (ls_waiting st)) = filter is_stop (ls_waiting st)"
    by (simp add: filter_remove1 remove1_idem is_stop_def)
  have t: "serial_inv ?t"
    using assms(1) ids_drop by (simp add: serial_inv_def one_stop_def f)
  have "i < length (ls_clients st)" using assms by (auto simp: serial_inv_def ids_known_def waiting_id_def)
  then have "ls_client ?t = Some i" if "status_of st i = Starting"
    using that assms(1) by (simp add: serial_inv_def only_current_lives_def status_of_def live_def)
  then show ?thesis
    using t set_status_lives[of ?t i] by (simp add: start_settled_def Let_def serial_inv_def)
qed

lemma step_inv: "lsp_step True st st' \<Longrightarrow> serial_inv st \<Longrightarrow> serial_inv st'"
proof (induction "True" st st' rule: lsp_step.induct)
  case (Stop_resolved i u st e)
  then show ?case
    using stopped_state[of st "Restart_stop i u"] by (simp add: restart_stopped_def startClient_inv is_stop_def waiting_id_def)
next
  case (Deactivate_resolved i st)
  then show ?case
    using stopped_state[of st "Deactivate_stop i"]
    by (simp add: deactivate_stopped_def serial_inv_def is_stop_def waiting_id_def one_stop_def only_current_lives_def list_all_length)
next
  case (Stop_rejected w st i u s)
  then show ?case using rejected_inv[of st w s] by (auto simp: is_stop_def waiting_id_def)
qed (simp_all add: restart_inv deactivate_inv start_settled_inv)

lemma run_inv: "lsp_run True st \<Longrightarrow> serial_inv st"
proof (induction "True" st rule: lsp_run.induct)
  case (Activated e)
  show ?case unfolding activate_def by (rule startClient_inv) (simp_all add: ids_known_def)
qed (rule step_inv)

lemma live_only:
  assumes "only_current_lives st"
  shows "live_clients st = (case ls_client st of
    Some i \<Rightarrow> if i < length (ls_clients st) \<and> live (ls_clients st ! i) then [i] else [] | None \<Rightarrow> [])"
proof -
  have "live_clients st = filter (\<lambda>i. ls_client st = Some i \<and> live (ls_clients st ! i)) [0..<length (ls_clients st)]"
    unfolding live_clients_def using assms by (intro filter_cong) (auto simp: only_current_lives_def)
  also have "\<dots> = (case ls_client st of
      Some i \<Rightarrow> if i < length (ls_clients st) \<and> live (ls_clients st ! i) then [i] else [] | None \<Rightarrow> [])"
  proof (cases "ls_client st")
    case (Some k)
    have "filter (\<lambda>i. k = i \<and> P i) [0..<n] = (if k < n \<and> P k then [k] else [])" for P n
      by (induction n) (auto simp: less_Suc_eq)
    then show ?thesis by (simp add: Some)
  qed simp
  finally show ?thesis .
qed

text \<open>C30: as long as no restart begins while an earlier one still waits for its client to stop, at most
  one client is not stopped, and it is the one the variable of the module holds.\<close>

theorem one_live_server:
  assumes "lsp_run True st"
  shows "length (live_clients st) \<le> 1 \<and> list_all (\<lambda>i. ls_client st = Some i) (live_clients st)"
proof -
  have "only_current_lives st" using run_inv[OF assms] by (simp add: serial_inv_def)
  then show ?thesis using live_only by (simp split: option.split)
qed

section \<open>Overlapping restarts\<close>

definition demo_lsp_env :: lsp_env where
  "demo_lsp_env =
     \<lparr>le_windows = False, le_extensionPath = ''/r/s/v'', le_cwd = ''/'', le_workspace = Some ''/w'', le_path = [],
      le_args = [], le_exists = (\<lambda>p. p = ''/r/target/debug/tsz-lsp'')\<rparr>"

definition overlapping_restarts :: lsp_state where
  "overlapping_restarts =
     restart_stopped demo_lsp_env 0 False (restart_stopped demo_lsp_env 0 True
       (restartClient demo_lsp_env False (restartClient demo_lsp_env True (activate demo_lsp_env))))"

text \<open>
  Two restarts that overlap (the command and a change of the settings) both wait for the same
  client. The second continuation clears the variable although it holds the new client of the
  first by then: two servers run, and the first of them is in no variable any more, so neither a
  later restart nor \<open>deactivate\<close> stops it.
\<close>

lemma overlapping_restarts_leak:
  "lsp_run False overlapping_restarts"
  "live_clients overlapping_restarts = [1, 2]" "ls_client overlapping_restarts = Some 2"
proof -
  have stops: "Restart_stop 0 True \<in> set (ls_waiting (restartClient demo_lsp_env False (restartClient demo_lsp_env True (activate demo_lsp_env))))"
    "Restart_stop 0 False \<in> set (ls_waiting (restart_stopped demo_lsp_env 0 True
       (restartClient demo_lsp_env False (restartClient demo_lsp_env True (activate demo_lsp_env)))))"
    by code_simp+
  have m: "may_begin False st" for st by (simp add: may_begin_def)
  show "lsp_run False overlapping_restarts"
    unfolding overlapping_restarts_def
    by (intro Step[OF _ Stop_resolved] Step[OF _ Configuration_changed] Step[OF _ Restart_command] Activated m stops)
  show "live_clients overlapping_restarts = [1, 2]" by code_simp
  show "ls_client overlapping_restarts = Some 2" by code_simp
qed

theorem one_live_server_witness:
  "length (live_clients (activate demo_lsp_env)) \<le> 1 \<and>
   list_all (\<lambda>i. ls_client (activate demo_lsp_env) = Some i) (live_clients (activate demo_lsp_env))"
  by (rule one_live_server) (rule Activated)

section \<open>Every client is registered\<close>

definition registered :: "lsp_state \<Rightarrow> bool" where
  "registered st \<longleftrightarrow>
     list_all (\<lambda>i. Client_disposable i \<in> set (ls_subscriptions st) \<and> ''--mode'' \<in> set (cl_args (ls_clients st ! i)))
       [0..<length (ls_clients st)]"

lemma stdio_mode: "''--mode'' \<in> set (ensureStdioMode args)"
  by (simp add: ensureStdioMode_def)

lemma stdio_idempotent: "ensureStdioMode (ensureStdioMode args) = ensureStdioMode args"
  by (simp add: ensureStdioMode_def)

lemma registered_start: "registered st \<Longrightarrow> registered (startClient e u st)"
  by (simp add: registered_def startClient_def Let_def list_all_iff nth_append stdio_mode split: option.split)

lemma registered_status [simp]: "registered (set_status i s st) = registered st"
  by (auto simp: registered_def list_all_iff set_status_nth)

lemma registered_stop [simp]: "registered (call_stop i st) = registered st"
  by (simp add: call_stop_def)

lemma registered_frame [simp]:
  "registered (st\<lparr>ls_waiting := w\<rparr>) = registered st" "registered (st\<lparr>ls_client := c\<rparr>) = registered st"
  by (simp_all add: registered_def)

lemma registered_step: "lsp_step serial st st' \<Longrightarrow> registered st \<Longrightarrow> registered st'"
  by (induction rule: lsp_step.induct)
    (simp_all add: restartClient_def deactivate_def restart_stopped_def deactivate_stopped_def start_settled_def
      registered_start Let_def split: option.split)

lemma registered_run: "lsp_run serial st \<Longrightarrow> registered st"
proof (induction rule: lsp_run.induct)
  case (Activated serial e)
  show ?case unfolding activate_def by (rule registered_start) (simp add: registered_def)
qed (rule registered_step)

text \<open>In every run, overlapping restarts included, each client that was ever created is registered
  with the context of the extension, which disposes of it, and its server is called with a mode.\<close>

theorem clients_registered:
  assumes "lsp_run serial st" and "i < length (ls_clients st)"
  shows "Client_disposable i \<in> set (ls_subscriptions st) \<and> ''--mode'' \<in> set (cl_args (ls_clients st ! i))"
  using registered_run[OF assms(1)] assms(2) by (simp add: registered_def list_all_iff)

theorem clients_registered_witness:
  "Client_disposable 1 \<in> set (ls_subscriptions overlapping_restarts) \<and>
   ''--mode'' \<in> set (cl_args (ls_clients overlapping_restarts ! 1))"
  by (rule clients_registered[OF overlapping_restarts_leak(1)]) code_simp

text \<open>The server is the configured path alone when one is set, else the first existing binary, below
  the workspace before the repository and debug before release; when there is none no client is
  created, and an explicit request is answered with everything that was looked at.\<close>

theorem server_lookup_exact:
  "case find (le_exists e) (lookup_order e) of
     Some c \<Rightarrow> ls_client (startClient e u st) = Some (length (ls_clients st)) \<and>
       map cl_command (ls_clients (startClient e u st)) = map cl_command (ls_clients st) @ [c]
   | None \<Rightarrow> startClient e u st =
       (if u then st\<lparr>ls_messages := ls_messages st @
          [''Could not find tsz-lsp. Build it with: cargo build -p tsz-cli --bin tsz-lsp, or set tsz.lsp.path. Checked: '' @
           join '', '' (lookup_order e)]\<rparr>
        else st)"
proof (cases "find (le_exists e) (lookup_order e)")
  case None
  then have "re_command (resolveServerCommand e) = None" "re_checkedPaths (resolveServerCommand e) = lookup_order e"
    using resolution_spec[of e] by auto
  then show ?thesis using None by (simp add: startClient_def not_found_message_def Let_def)
next
  case (Some c)
  then show ?thesis using resolution_spec[of e] by (simp add: startClient_def Let_def)
qed

end
