(* ===== verification/JunitCases.thy ===== *)
theory JunitCases
  imports JsData Complex_Main
begin

text \<open>
  The reader of test reports and of the nextest configuration,
  \<open>scripts/ci/nextest-overrides.mjs\<close>: the regular expressions are scanners, a duration or a
  recorded time is a rational number, \<open>None\<close> where the source has \<open>NaN\<close> or an infinite number
  (no use of a time tells the two apart). The engine of the regular expressions that a filter of
  the configuration contains is an argument, \<open>None\<close> when it rejects the expression.
\<close>

section \<open>Scanning\<close>

definition dquote :: char where "dquote = CHR 0x22"

text \<open>\<open>\b\<close> after a word character.\<close>

definition word_ends :: "string \<Rightarrow> bool" where
  "word_ends r = (case r of [] \<Rightarrow> True | c # _ \<Rightarrow> \<not> is_word_char c)"

text \<open>What \<open>[^q]*q\<close> captures, when there is a \<open>q\<close>.\<close>

definition up_to :: "char \<Rightarrow> string \<Rightarrow> string option" where
  "up_to q s = (if q \<in> set s then Some (takeWhile (\<lambda>c. c \<noteq> q) s) else None)"

text \<open>The first position at which an expression matches.\<close>

fun first_at :: "(string \<Rightarrow> 'a option) \<Rightarrow> string \<Rightarrow> 'a option" where
  "first_at f [] = f []"
| "first_at f (c # s) = (case f (c # s) of Some x \<Rightarrow> Some x | None \<Rightarrow> first_at f s)"

text \<open>The value of an attribute: \<open>\bname="([^"]*)"\<close>; the flag tells whether a word character precedes.\<close>

fun attr_from :: "bool \<Rightarrow> string \<Rightarrow> string \<Rightarrow> string option" where
  "attr_from w n [] = None"
| "attr_from w n (c # s) =
     (case (if \<not> w \<and> starts_with (c # s) (n @ ''='' @ [dquote])
            then up_to dquote (drop (length n + 2) (c # s)) else None) of
        Some v \<Rightarrow> Some v
      | None \<Rightarrow> attr_from (is_word_char c) n s)"

definition attr :: "string \<Rightarrow> string \<Rightarrow> string option" where
  "attr attrs n = attr_from False n attrs"

fun until :: "string list \<Rightarrow> string \<Rightarrow> (string \<times> string) option" where
  "until closers [] = None"
| "until closers (c # s) =
     (case find (starts_with (c # s)) closers of
        Some k \<Rightarrow> Some ([], drop (length k) (c # s))
      | None \<Rightarrow> map_option (\<lambda>(i, r). (c # i, r)) (until closers s))"

text \<open>A tag with one of the names: its attributes, its content unless it is closed at once, the rest.\<close>

definition tag_body :: "string list \<Rightarrow> string \<Rightarrow> (string \<times> string option \<times> string) option" where
  "tag_body closers r =
     (let a = takeWhile (\<lambda>c. c \<noteq> CHR ''>'') r in
      case dropWhile (\<lambda>c. c \<noteq> CHR ''>'') r of
        [] \<Rightarrow> None
      | _ # b \<Rightarrow>
          if a \<noteq> [] \<and> last a = CHR ''/'' then Some (butlast a, None, b)
          else map_option (\<lambda>(i, rest). (a, Some i, rest)) (until closers b))"

definition tag_at :: "string list \<Rightarrow> string list \<Rightarrow> string \<Rightarrow> (string \<times> string option \<times> string) option" where
  "tag_at names closers s =
     (case find (\<lambda>n. starts_with s (CHR ''<'' # n) \<and> word_ends (drop (Suc (length n)) s)) names of
        None \<Rightarrow> None
      | Some n \<Rightarrow> tag_body closers (drop (Suc (length n)) s))"

lemma until_shorter: "until closers s = Some (i, r) \<Longrightarrow> length r \<le> length s"
  by (induction s arbitrary: i) (auto split: option.splits)

lemma tag_body_shorter: "tag_body closers r = Some (a, i, rest) \<Longrightarrow> length rest < length r"
proof -
  assume t: "tag_body closers r = Some (a, i, rest)"
  then obtain c b where d: "dropWhile (\<lambda>c. c \<noteq> CHR ''>'') r = c # b"
    by (auto simp: tag_body_def Let_def split: list.splits)
  then have "length rest \<le> length b"
    using t until_shorter[of closers b] by (auto simp: tag_body_def Let_def split: if_splits)
  moreover have "length (c # b) \<le> length r" using d length_dropWhile_le[of "\<lambda>c. c \<noteq> CHR ''>''" r] by metis
  ultimately show ?thesis by simp
qed

lemma tag_at_shorter: "tag_at names closers s = Some (a, i, rest) \<Longrightarrow> length rest < length s"
  by (fastforce simp: tag_at_def dest: tag_body_shorter split: option.splits)

section \<open>Test reports\<close>

record junit_failure =
  jf_type :: string
  jf_text :: string

record junit_case =
  jc_id :: string
  jc_name :: string
  jc_classname :: "string option"
  jc_timeSeconds :: "rat option"
  jc_failure :: "junit_failure option"

text \<open>\<open>Number(text)\<close>.\<close>

definition digits_value :: "string \<Rightarrow> string \<Rightarrow> rat" where
  "digits_value d f = of_nat (decimal (d @ f)) / 10 ^ length f"

definition exponent_value :: "string \<Rightarrow> rat option" where
  "exponent_value s =
     (case s of
        [] \<Rightarrow> Some 1
      | e # r \<Rightarrow>
          if e \<noteq> CHR ''e'' \<and> e \<noteq> CHR ''E'' then None
          else
            let (neg, u) = (case r of c # t \<Rightarrow> if c = CHR ''-'' then (True, t) else if c = CHR ''+'' then (False, t) else (False, r)
                            | [] \<Rightarrow> (False, r))
            in if u = [] \<or> \<not> list_all is_digit u then None
               else Some (if neg then 1 / 10 ^ decimal u else 10 ^ decimal u))"

definition decimal_number :: "string \<Rightarrow> rat option" where
  "decimal_number s =
     (let d = takeWhile is_digit s; r = dropWhile is_digit s;
          (f, r') = (case r of c # t \<Rightarrow> if c = CHR ''.'' then (takeWhile is_digit t, dropWhile is_digit t) else ([], r) | [] \<Rightarrow> ([], r))
      in if d = [] \<and> f = [] then None else map_option ((*) (digits_value d f)) (exponent_value r'))"

definition radix_digit :: "nat \<Rightarrow> char \<Rightarrow> nat option" where
  "radix_digit b c =
     (let n = of_char (lower_char c) :: nat;
          v = (if is_digit c then Some (n - 48) else if 97 \<le> n \<and> n \<le> 102 then Some (n - 87) else None)
      in case v of Some k \<Rightarrow> if k < b then Some k else None | None \<Rightarrow> None)"

definition radix_number :: "nat \<Rightarrow> string \<Rightarrow> rat option" where
  "radix_number b s =
     (if s = [] \<or> list_ex (\<lambda>c. radix_digit b c = None) s then None
      else Some (of_nat (foldl (\<lambda>n c. b * n + the (radix_digit b c)) 0 s)))"

definition js_Number :: "string \<Rightarrow> rat option" where
  "js_Number text =
     (case trim text of
        [] \<Rightarrow> Some 0
      | c # r \<Rightarrow>
          if c = CHR ''-'' then map_option uminus (decimal_number r)
          else if c = CHR ''+'' then decimal_number r
          else if c = CHR ''0'' \<and> starts_with (to_lower r) ''x'' then radix_number 16 (tl r)
          else if c = CHR ''0'' \<and> starts_with (to_lower r) ''o'' then radix_number 8 (tl r)
          else if c = CHR ''0'' \<and> starts_with (to_lower r) ''b'' then radix_number 2 (tl r)
          else decimal_number (c # r))"

text \<open>The first \<open>failure\<close> or \<open>error\<close> of a case.\<close>

definition or_empty :: "string option \<Rightarrow> string" where
  "or_empty x = (case x of Some s \<Rightarrow> s | None \<Rightarrow> [])"

definition failure_of :: "string \<Rightarrow> junit_failure option" where
  "failure_of inner =
     map_option (\<lambda>(a, body, _). \<lparr>jf_type = or_empty (attr a ''type''), jf_text = or_empty (attr a ''message'') @ '' '' @ or_empty body\<rparr>)
       (first_at (tag_at [''failure'', ''error''] [''</failure>'', ''</error>'']) inner)"

definition case_of :: "string \<Rightarrow> string option \<Rightarrow> junit_case option" where
  "case_of attrs inner =
     (case attr attrs ''name'' of
        None \<Rightarrow> None
      | Some name \<Rightarrow>
          let classname = attr attrs ''classname'' in
          Some \<lparr>jc_id = (case classname of Some c \<Rightarrow> if c \<noteq> [] then c @ ''::'' @ name else name | None \<Rightarrow> name),
                jc_name = name, jc_classname = classname,
                jc_timeSeconds = (case attr attrs ''time'' of Some t \<Rightarrow> js_Number t | None \<Rightarrow> None),
                jc_failure = (case inner of Some i \<Rightarrow> failure_of i | None \<Rightarrow> None)\<rparr>)"

function parseJunitCases :: "string \<Rightarrow> junit_case list" where
  "parseJunitCases [] = []"
| "parseJunitCases (c # s) =
     (case tag_at [''testcase''] [''</testcase>''] (c # s) of
        Some (attrs, inner, rest) \<Rightarrow>
          (case case_of attrs inner of Some k \<Rightarrow> k # parseJunitCases rest | None \<Rightarrow> parseJunitCases rest)
      | None \<Rightarrow> parseJunitCases s)"
  by pat_completeness auto
termination by (relation "measure length") (auto dest: tag_at_shorter)

datatype failure_class = Timeout_class | Failure_class

definition classifyFailure :: "junit_failure option \<Rightarrow> failure_class option" where
  "classifyFailure failure =
     (case failure of
        None \<Rightarrow> None
      | Some f \<Rightarrow>
          let ty = to_lower (jf_type f); text = to_lower (jf_text f) in
          if str_includes ty ''timeout'' \<or> str_includes ty ''timed out'' then Some Timeout_class
          else if ty = ''test failure'' \<or> ty = ''test error'' then Some Failure_class
          else if str_includes text ''timeout'' \<or> str_includes text ''timed out'' \<or> str_includes text ''time out''
          then Some Timeout_class
          else Some Failure_class)"

section \<open>The configuration\<close>

text \<open>\<open>split(/\r?\n/)\<close>.\<close>

definition lines_of :: "string \<Rightarrow> string list" where
  "lines_of t =
     (let ps = split_on [CHR 10] t in map (\<lambda>l. if ends_with l [CHR 13] then butlast l else l) (butlast ps) @ [last ps])"

definition durationToSeconds :: "string \<Rightarrow> rat option" where
  "durationToSeconds raw =
     (let t = trim raw; d = takeWhile is_digit t; r = dropWhile is_digit t;
          (f, r') = (case r of
              c # u \<Rightarrow> if c = CHR ''.'' \<and> takeWhile is_digit u \<noteq> [] then (takeWhile is_digit u, dropWhile is_digit u) else ([], r)
            | [] \<Rightarrow> ([], r));
          unit = dropWhile is_ws r'
      in if d = [] then None
         else if unit = ''ms'' then Some (digits_value d f / 1000)
         else if unit = ''m'' then Some (digits_value d f * 60)
         else if unit = ''s'' then Some (digits_value d f)
         else None)"

text \<open>\<open>key\s*=\s*\<close> at the beginning: what follows.\<close>

definition keyed :: "string \<Rightarrow> string \<Rightarrow> string option" where
  "keyed k s =
     (if starts_with s k then
        (case dropWhile is_ws (drop (length k) s) of
           c # r \<Rightarrow> if c = CHR ''='' then Some (dropWhile is_ws r) else None
         | [] \<Rightarrow> None)
      else None)"

definition braced_at :: "string \<Rightarrow> string option" where
  "braced_at s =
     (case keyed ''slow-timeout'' s of
        Some (c # r) \<Rightarrow> if c = CHR ''{'' then up_to (CHR ''}'') r else None
      | _ \<Rightarrow> None)"

definition period_at :: "string \<Rightarrow> string option" where
  "period_at s = (case keyed ''period'' s of Some (c # r) \<Rightarrow> if c = dquote then up_to dquote r else None | _ \<Rightarrow> None)"

definition terminate_at :: "string \<Rightarrow> nat option" where
  "terminate_at s =
     (case keyed ''terminate-after'' s of
        Some r \<Rightarrow> if takeWhile is_digit r = [] then None else Some (decimal (takeWhile is_digit r))
      | None \<Rightarrow> None)"

text \<open>\<open>{ periodSeconds, budgetSeconds }\<close>.\<close>

definition parseSlowTimeout :: "string \<Rightarrow> (rat option \<times> rat option) option" where
  "parseSlowTimeout line =
     (case first_at braced_at line of
        None \<Rightarrow> None
      | Some st \<Rightarrow>
          (case (case first_at period_at st of Some p \<Rightarrow> durationToSeconds p | None \<Rightarrow> None) of
             None \<Rightarrow> Some (None, None)
           | Some period \<Rightarrow>
               Some (Some period,
                 Some (period * (case first_at terminate_at st of Some k \<Rightarrow> of_nat k | None \<Rightarrow> 1)))))"

text \<open>The arguments of \<open>\btest\(([^)]*)\)\<close>, from left to right.\<close>

function test_arguments :: "bool \<Rightarrow> string \<Rightarrow> string list" where
  "test_arguments w [] = []"
| "test_arguments w (c # s) =
     (let r = drop 5 (c # s) in
      if \<not> w \<and> starts_with (c # s) ''test('' \<and> CHR '')'' \<in> set r
      then takeWhile (\<lambda>c. c \<noteq> CHR '')'') r # test_arguments False (tl (dropWhile (\<lambda>c. c \<noteq> CHR '')'') r))
      else test_arguments (is_word_char c) s)"
  by pat_completeness auto
termination
proof (relation "measure (length \<circ> snd)")
  fix w c s and r :: string
  assume "r = drop 5 (c # s)" and "\<not> w \<and> starts_with (c # s) ''test('' \<and> CHR '')'' \<in> set r"
  then have "length r < length (c # s)" by (cases s) (auto simp: starts_with_def)
  then show "((False, tl (dropWhile (\<lambda>c. c \<noteq> CHR '')'') r)), w, c # s) \<in> measure (length \<circ> snd)"
    using length_dropWhile_le[of "\<lambda>c. c \<noteq> CHR '')''" r] by simp
qed auto

definition is_regex :: "string \<Rightarrow> bool" where
  "is_regex inner \<longleftrightarrow> 2 \<le> length inner \<and> starts_with inner ''/'' \<and> ends_with inner ''/''"

definition literal_of :: "string \<Rightarrow> string" where
  "literal_of inner = (if starts_with inner ''='' then tl inner else inner)"

definition parseFilterPredicates :: "string \<Rightarrow> string list \<times> string list" where
  "parseFilterPredicates filterRaw =
     (let inner = map trim (test_arguments False filterRaw) in
      (filter (\<lambda>l. l \<noteq> []) (map literal_of (filter (\<lambda>i. \<not> is_regex i) inner)),
       map (butlast \<circ> tl) (filter is_regex inner)))"

record override =
  ov_profile :: string
  ov_filterRaw :: "string option"
  ov_literals :: "string list"
  ov_regexes :: "string list"
  ov_budgetSeconds :: "rat option"

definition profile_char :: "char \<Rightarrow> bool" where
  "profile_char c \<longleftrightarrow> is_letter c \<or> is_digit c \<or> c = CHR ''_'' \<or> c = CHR ''-''"

definition override_header :: "string \<Rightarrow> string option" where
  "override_header line =
     (let n = drop (length ''[[profile.'') line; p = take (length n - length ''.overrides]]'') n in
      if starts_with line ''[[profile.'' \<and> ends_with n ''.overrides]]'' \<and> p \<noteq> [] \<and> list_all profile_char p
      then Some p else None)"

text \<open>\<open>filter = '...'\<close> on one line, in either quote.\<close>

definition filter_line :: "string \<Rightarrow> string option" where
  "filter_line line =
     (case keyed ''filter'' line of
        Some (q # r) \<Rightarrow>
          let t = trim_end r in
          if (q = CHR 0x27 \<or> q = dquote) \<and> t \<noteq> [] \<and> last t = q then Some (butlast t) else None
      | _ \<Rightarrow> None)"

definition flush :: "override option \<Rightarrow> override list \<Rightarrow> override list" where
  "flush cur os =
     (case cur of Some o1 \<Rightarrow> if ov_filterRaw o1 \<noteq> None then os @ [o1] else os | None \<Rightarrow> os)"

definition in_block :: "string \<Rightarrow> override \<Rightarrow> override" where
  "in_block line o1 =
     (let o2 = (case filter_line line of
          Some f \<Rightarrow> o1\<lparr>ov_filterRaw := Some f, ov_literals := fst (parseFilterPredicates f),
                       ov_regexes := snd (parseFilterPredicates f)\<rparr>
        | None \<Rightarrow> o1)
      in case parseSlowTimeout line of Some (_, budget) \<Rightarrow> o2\<lparr>ov_budgetSeconds := budget\<rparr> | None \<Rightarrow> o2)"

definition override_line :: "string \<Rightarrow> override list \<times> override option \<Rightarrow> override list \<times> override option" where
  "override_line raw st =
     (let line = trim raw in
      if starts_with line ''#'' then st
      else
        case override_header line of
          Some p \<Rightarrow>
            (flush (snd st) (fst st),
             Some \<lparr>ov_profile = p, ov_filterRaw = None, ov_literals = [], ov_regexes = [], ov_budgetSeconds = None\<rparr>)
        | None \<Rightarrow>
            if starts_with line ''['' then (flush (snd st) (fst st), None)
            else (fst st, map_option (in_block line) (snd st)))"

definition parseOverrides :: "string \<Rightarrow> override list" where
  "parseOverrides tomlText =
     (case fold override_line (lines_of tomlText) ([], None) of (os, cur) \<Rightarrow> flush cur os)"

definition countOverrideHeaders :: "string \<Rightarrow> nat" where
  "countOverrideHeaders tomlText = length (filter (\<lambda>raw. override_header (trim raw) \<noteq> None) (lines_of tomlText))"

fun base_period :: "string \<Rightarrow> bool \<Rightarrow> string list \<Rightarrow> rat option" where
  "base_period header inSection [] = None"
| "base_period header inSection (raw # ls) =
     (let line = trim raw in
      if line = header then base_period header True ls
      else if inSection \<and> starts_with line ''['' then None
      else
        case (if inSection \<and> \<not> starts_with line ''#'' then parseSlowTimeout line else None) of
          Some (Some p, _) \<Rightarrow> Some p
        | _ \<Rightarrow> base_period header inSection ls)"

definition profileBaseSlowPeriodSeconds :: "string \<Rightarrow> string \<Rightarrow> rat option" where
  "profileBaseSlowPeriodSeconds tomlText profile =
     base_period (''[profile.'' @ profile @ '']'') False (lines_of tomlText)"

definition overrideMatchesTest :: "(string \<Rightarrow> string \<Rightarrow> bool option) \<Rightarrow> override \<Rightarrow> string \<Rightarrow> bool" where
  "overrideMatchesTest regex record testName \<longleftrightarrow>
     list_ex (\<lambda>sub. str_includes testName sub) (ov_literals record) \<or>
     list_ex (\<lambda>rx. regex rx testName = Some True) (ov_regexes record)"

definition budgetedOverridesForProfile :: "override list \<Rightarrow> string \<Rightarrow> override list" where
  "budgetedOverridesForProfile overrides activeProfile =
     filter (\<lambda>o1. ov_budgetSeconds o1 \<noteq> None \<and> (ov_profile o1 = activeProfile \<or> ov_profile o1 = ''default'')) overrides"

definition findBudgetOverride ::
  "(string \<Rightarrow> string \<Rightarrow> bool option) \<Rightarrow> override list \<Rightarrow> string \<Rightarrow> string \<Rightarrow> override option" where
  "findBudgetOverride regex overrides activeProfile testName =
     find (\<lambda>o1. overrideMatchesTest regex o1 testName) (budgetedOverridesForProfile overrides activeProfile)"

text \<open>Each literal of a filter with the profiles that use it.\<close>

definition literal_entry :: "string \<Rightarrow> string \<Rightarrow> (string \<times> string list) list \<Rightarrow> (string \<times> string list) list" where
  "literal_entry profile lit byLiteral =
     map_set lit (add_new profile (case map_get byLiteral lit of Some ps \<Rightarrow> ps | None \<Rightarrow> [])) byLiteral"

definition collectLiteralFilters :: "override list \<Rightarrow> (string \<times> string list) list" where
  "collectLiteralFilters overrides =
     sort_by (\<lambda>a b. str_cmp (fst a) (fst b))
       (map (\<lambda>(lit, ps). (lit, sort_strings ps))
         (fold (\<lambda>o1. fold (literal_entry (ov_profile o1)) (ov_literals o1)) overrides []))"

section \<open>No block is invented\<close>

definition open_blocks :: "override list \<times> override option \<Rightarrow> nat" where
  "open_blocks st = length (fst st) + (if snd st = None then 0 else 1)"

lemma flush_length: "length (flush cur os) \<le> length os + (if cur = None then 0 else 1)"
  by (auto simp: flush_def split: option.split)

lemma override_line_blocks:
  "open_blocks (override_line raw st) \<le> open_blocks st + (if override_header (trim raw) \<noteq> None then 1 else 0)"
  using flush_length[of "snd st" "fst st"]
  by (auto simp: override_line_def open_blocks_def Let_def override_header_def split: option.split)

lemma override_lines_blocks:
  "open_blocks (fold override_line ls st) \<le> open_blocks st + length (filter (\<lambda>raw. override_header (trim raw) \<noteq> None) ls)"
proof (induction ls arbitrary: st)
  case (Cons raw ls)
  show ?case using Cons[of "override_line raw st"] override_line_blocks[of raw st] by (auto split: if_splits)
qed simp

text \<open>The two counts differ only when the filter of a block was lost.\<close>

lemma parseOverrides_bounded: "length (parseOverrides t) \<le> countOverrideHeaders t"
proof -
  obtain os cur where f: "fold override_line (lines_of t) ([], None) = (os, cur)" by fastforce
  have "length (flush cur os) \<le> open_blocks (os, cur)" using flush_length[of cur os] by (simp add: open_blocks_def)
  also have "\<dots> \<le> countOverrideHeaders t"
    using override_lines_blocks[of "lines_of t" "([], None)"] by (simp add: f open_blocks_def countOverrideHeaders_def)
  finally show ?thesis by (simp add: parseOverrides_def f)
qed

end
