(* ===== verification/KnownFailures.thy ===== *)
theory KnownFailures
  imports JunitCases JsonText
begin

text \<open>
  The known-failures gate, \<open>scripts/ci/known-failures-check.mjs\<close>: the reports of several passes are
  united, the failing tests are compared with a committed list, and the exit code is 1 exactly for a
  failure that is not listed. A \<open>Set\<close> is the list of its elements in insertion order, used through
  the interface \<open>ordered_set\<close>. Reading files and directories, the engine of regular expressions and
  the configuration text are arguments; what is printed is kept as the lists it is made of.
\<close>

section \<open>Runs\<close>

record test_run =
  run_all :: "string list"
  run_failing :: "string list"

definition run_case :: "junit_case \<Rightarrow> test_run \<Rightarrow> test_run" where
  "run_case c r =
     \<lparr>run_all = add_new (jc_id c) (run_all r),
      run_failing = (if jc_failure c \<noteq> None then add_new (jc_id c) (run_failing r) else run_failing r)\<rparr>"

definition runFromCases :: "junit_case list \<Rightarrow> test_run" where
  "runFromCases cases = fold run_case cases \<lparr>run_all = [], run_failing = []\<rparr>"

definition parseJunitFailures :: "string \<Rightarrow> test_run" where
  "parseJunitFailures xml = runFromCases (parseJunitCases xml)"

definition union_step :: "test_run \<Rightarrow> test_run \<Rightarrow> test_run" where
  "union_step r u =
     \<lparr>run_all = fold add_new (run_all r) (run_all u), run_failing = fold add_new (run_failing r) (run_failing u)\<rparr>"

definition unionRuns :: "test_run list \<Rightarrow> test_run" where
  "unionRuns runs = fold union_step runs \<lparr>run_all = [], run_failing = []\<rparr>"

section \<open>The baseline\<close>

definition parse_line :: "string \<Rightarrow> string list \<Rightarrow> string list" where
  "parse_line raw ids =
     (let line = trim raw in if line = [] \<or> starts_with line ''#'' then ids else add_new line ids)"

definition known_ids :: "string \<Rightarrow> string list" where
  "known_ids text = fold parse_line (lines_of text) []"

definition RECONCILED_MARKER :: string where
  "RECONCILED_MARKER = ''# baseline-status: reconciled''"

text \<open>\<open>/^# baseline-status: reconciled(?: r(\d+))?$/\<close>, and the generation of a line that matches.\<close>

definition marker_generation :: "string \<Rightarrow> nat option" where
  "marker_generation line =
     (if \<not> starts_with line RECONCILED_MARKER then None
      else
        let r = drop (length RECONCILED_MARKER) line in
        if r = [] then Some 1
        else if starts_with r '' r'' \<and> drop 2 r \<noteq> [] \<and> list_all is_digit (drop 2 r) then Some (decimal (drop 2 r))
        else None)"

definition baselineGeneration :: "string \<Rightarrow> nat" where
  "baselineGeneration text =
     (case List.map_filter (\<lambda>raw. marker_generation (trim raw)) (lines_of text) of g # _ \<Rightarrow> g | [] \<Rightarrow> 0)"

definition baselineIsReconciled :: "string \<Rightarrow> bool" where
  "baselineIsReconciled text \<longleftrightarrow> 0 < baselineGeneration text"

definition BASELINE_HEADER :: "string list" where
  "BASELINE_HEADER =
     [''# Known-failures baseline for scripts/ci/known-failures-check.mjs (#15399).'',
      ''# One `binary-id::test-name` per line; blank lines and `#` comments ignored.'',
      ''#'',
      ''# Regenerate from a full signoff run (fail-fast disabled, junit on):'',
      ''#   cargo nextest run --profile signoff --workspace || true'',
      ''#   node scripts/ci/known-failures-check.mjs --update'',
      ''#'',
      ''# Until the first `--update` there is no reconciled marker and the checker'',
      ''# runs in advisory mode (never blocks). `--update` stamps the marker and'',
      ''# switches the checker to strict: any failing test not listed here is a new'',
      ''# regression, even when the list is empty (a fully green tree). In normal PRs'',
      ''# this list may only shrink; a deliberate re-reconcile must bump the marker's'',
      ''# `r<N>` generation in the same diff (`--update --bump-generation`), which is'',
      ''# what scripts/ci/check-known-failures-growth.py accepts as authorization.'']"

definition renderBaseline :: "string list \<Rightarrow> bool \<Rightarrow> nat \<Rightarrow> string" where
  "renderBaseline ids reconciled generation =
     (let sorted_ids = sort_strings (fold add_new ids []);
          header = (if reconciled then BASELINE_HEADER @ [RECONCILED_MARKER @ '' r'' @ show_int (int generation)] else BASELINE_HEADER)
      in join [CHR 10] (header @ sorted_ids) @ [CHR 10])"

section \<open>The comparison\<close>

record evaluation =
  newFailures :: "string list"
  nowPassing :: "string list"

definition evaluate :: "string list \<Rightarrow> test_run \<Rightarrow> evaluation" where
  "evaluate baseline junit =
     \<lparr>newFailures = sort_strings (filter (\<lambda>i. i \<notin> set baseline) (run_failing junit)),
      nowPassing = sort_strings (filter (\<lambda>i. i \<in> set (run_all junit) \<and> i \<notin> set (run_failing junit)) baseline)\<rparr>"

definition finite_or_zero :: "rat option \<Rightarrow> rat" where
  "finite_or_zero t = (case t of Some x \<Rightarrow> x | None \<Rightarrow> 0)"

definition merge_case :: "junit_case \<Rightarrow> (string \<times> junit_case) list \<Rightarrow> (string \<times> junit_case) list" where
  "merge_case c byId =
     (case map_get byId (jc_id c) of
        None \<Rightarrow> map_set (jc_id c) c byId
      | Some prev \<Rightarrow>
          map_set (jc_id c)
            (prev\<lparr>jc_failure := (if jc_failure prev \<noteq> None then jc_failure prev else jc_failure c),
                  jc_timeSeconds := Some (max (finite_or_zero (jc_timeSeconds prev)) (finite_or_zero (jc_timeSeconds c)))\<rparr>)
            byId)"

definition mergeCases :: "junit_case list list \<Rightarrow> (string \<times> junit_case) list" where
  "mergeCases caseLists = fold merge_case (concat caseLists) []"

definition is_timeout :: "(string \<times> junit_case) list \<Rightarrow> string \<Rightarrow> bool" where
  "is_timeout casesById i =
     (case map_get casesById i of Some c \<Rightarrow> classifyFailure (jc_failure c) = Some Timeout_class | None \<Rightarrow> False)"

definition splitTimeouts :: "string list \<Rightarrow> (string \<times> junit_case) list \<Rightarrow> string list \<times> string list" where
  "splitTimeouts failures casesById =
     (filter (is_timeout casesById) failures, filter (\<lambda>i. \<not> is_timeout casesById i) failures)"

definition by_time :: "string \<times> rat \<Rightarrow> string \<times> rat \<Rightarrow> int" where
  "by_time a b = (if snd b < snd a then - 1 else if snd a < snd b then 1 else 0)"

definition slowUncoveredPassing ::
  "(string \<Rightarrow> string \<Rightarrow> bool option) \<Rightarrow> (string \<times> junit_case) list \<Rightarrow> override list \<Rightarrow> string \<Rightarrow> rat option \<Rightarrow>
   (string \<times> rat) list" where
  "slowUncoveredPassing regex casesById overrides profile baseSeconds =
     (case baseSeconds of
        None \<Rightarrow> []
      | Some base \<Rightarrow>
          sort_by by_time
            (List.map_filter
               (\<lambda>c. if jc_failure c \<noteq> None then None
                     else case jc_timeSeconds c of
                       Some t \<Rightarrow> if t \<le> base \<or> findBudgetOverride regex overrides profile (jc_name c) \<noteq> None
                                 then None else Some (jc_id c, t)
                     | None \<Rightarrow> None)
               (map snd casesById)))"

section \<open>The gate\<close>

text \<open>An option without its value reads as \<open>undefined\<close>.\<close>

record gate_args =
  ga_junits :: "string option list"
  ga_junitDirs :: "string option list"
  ga_baseline :: "string option"
  ga_update :: bool
  ga_bumpGeneration :: bool
  ga_allowNoReports :: bool
  ga_help :: bool
  ga_error :: "string option"

definition default_args :: gate_args where
  "default_args =
     \<lparr>ga_junits = [], ga_junitDirs = [], ga_baseline = Some ''scripts/ci/known-failures.txt'', ga_update = False,
      ga_bumpGeneration = False, ga_allowNoReports = False, ga_help = False, ga_error = None\<rparr>"

definition next_arg :: "string list \<Rightarrow> string option" where
  "next_arg as = (case as of a # _ \<Rightarrow> Some a | [] \<Rightarrow> None)"

function parse_gate_args :: "string list \<Rightarrow> gate_args \<Rightarrow> gate_args" where
  "parse_gate_args [] out = out"
| "parse_gate_args (a # as) out =
     (if a = ''--junit'' then parse_gate_args (tl as) (out\<lparr>ga_junits := ga_junits out @ [next_arg as]\<rparr>)
      else if a = ''--junit-dir'' then parse_gate_args (tl as) (out\<lparr>ga_junitDirs := ga_junitDirs out @ [next_arg as]\<rparr>)
      else if a = ''--baseline'' then parse_gate_args (tl as) (out\<lparr>ga_baseline := next_arg as\<rparr>)
      else if a = ''--update'' then parse_gate_args as (out\<lparr>ga_update := True\<rparr>)
      else if a = ''--bump-generation'' then parse_gate_args as (out\<lparr>ga_bumpGeneration := True\<rparr>)
      else if a = ''--allow-no-reports'' then parse_gate_args as (out\<lparr>ga_allowNoReports := True\<rparr>)
      else if a = ''--help'' \<or> a = ''-h'' then parse_gate_args as (out\<lparr>ga_help := True\<rparr>)
      else out\<lparr>ga_error := Some (''unknown argument '' @ [CHR 0x27] @ a @ [CHR 0x27])\<rparr>)"
  by pat_completeness auto
termination by (relation "measure (length \<circ> fst)") auto

record gate_env =
  ge_read :: "string \<Rightarrow> string option"
  ge_dir :: "string \<Rightarrow> string list option"
  ge_join :: "string \<Rightarrow> string \<Rightarrow> string"
  ge_regex :: "string \<Rightarrow> string \<Rightarrow> bool option"

definition read_file :: "gate_env \<Rightarrow> string option \<Rightarrow> string option" where
  "read_file e p = (case p of Some f \<Rightarrow> ge_read e f | None \<Rightarrow> None)"

text \<open>The reports below the directories; \<open>None\<close> is a configuration error.\<close>

fun dir_reports :: "gate_env \<Rightarrow> bool \<Rightarrow> string option list \<Rightarrow> string option list option" where
  "dir_reports e allow [] = Some []"
| "dir_reports e allow (d # ds) =
     (case (case d of Some dir \<Rightarrow> ge_dir e dir | None \<Rightarrow> None) of
        None \<Rightarrow> if allow then dir_reports e allow ds else None
      | Some entries \<Rightarrow>
          let xml = sort_strings (filter (\<lambda>n. ends_with n ''.xml'') entries) in
          if xml = [] \<and> \<not> allow then None
          else map_option ((@) (map (\<lambda>n. Some (ge_join e (the d) n)) xml)) (dir_reports e allow ds))"

datatype resolved_reports = Reports_error | No_reports | Report_paths "string option list"

definition resolveJunitPaths :: "gate_env \<Rightarrow> gate_args \<Rightarrow> resolved_reports" where
  "resolveJunitPaths e a =
     (case dir_reports e (ga_allowNoReports a) (ga_junitDirs a) of
        None \<Rightarrow> Reports_error
      | Some ps \<Rightarrow>
          let paths = ga_junits a @ ps in
          if paths = [] \<and> ga_junitDirs a \<noteq> [] then No_reports
          else if paths = [] then Report_paths [Some ''target/nextest/signoff/junit.xml'']
          else Report_paths paths)"

text \<open>Every report must be readable and name at least one test.\<close>

fun load_reports :: "gate_env \<Rightarrow> string option list \<Rightarrow> junit_case list list option" where
  "load_reports e [] = Some []"
| "load_reports e (p # ps) =
     (case read_file e p of
        None \<Rightarrow> None
      | Some xml \<Rightarrow>
          let cases = parseJunitCases xml in
          if run_all (runFromCases cases) = [] then None else map_option ((#) cases) (load_reports e ps))"

definition loadNextestBudgets :: "gate_env \<Rightarrow> override list \<times> rat option" where
  "loadNextestBudgets e =
     (case ge_read e ''.config/nextest.toml'' of
        Some toml \<Rightarrow> (parseOverrides toml, profileBaseSlowPeriodSeconds toml ''signoff'')
      | None \<Rightarrow> ([], None))"

datatype gate_verdict =
    Usage
  | Config_error
  | Nothing_selected
  | Uncaught_error
  | Updated string nat
  | Advisory "string list"
  | Judged evaluation "(string \<times> rat) list" "string list \<times> string list"

definition update_baseline :: "gate_env \<Rightarrow> gate_args \<Rightarrow> test_run \<Rightarrow> gate_verdict" where
  "update_baseline e a junit =
     (if ga_baseline a = None then Uncaught_error
      else
      let existing = (case read_file e (ga_baseline a) of Some t \<Rightarrow> baselineGeneration t | None \<Rightarrow> 0);
          generation = max existing 1 + (if ga_bumpGeneration a then 1 else 0)
      in Updated (renderBaseline (run_failing junit) True generation) generation)"

definition judge_run :: "gate_env \<Rightarrow> gate_args \<Rightarrow> junit_case list list \<Rightarrow> test_run \<Rightarrow> gate_verdict" where
  "judge_run e a caseLists junit =
     (case read_file e (ga_baseline a) of
        None \<Rightarrow> Config_error
      | Some text \<Rightarrow>
          if \<not> baselineIsReconciled text then Advisory (sort_strings (run_failing junit))
          else
            let casesById = mergeCases caseLists; budgets = loadNextestBudgets e; ev = evaluate (known_ids text) junit in
            Judged ev (slowUncoveredPassing (ge_regex e) casesById (fst budgets) ''signoff'' (snd budgets))
              (splitTimeouts (newFailures ev) casesById))"

definition gate :: "gate_env \<Rightarrow> string list \<Rightarrow> gate_verdict" where
  "gate e argv =
     (let a = parse_gate_args argv default_args in
      if ga_help a then Usage
      else if ga_error a \<noteq> None then Config_error
      else
        case resolveJunitPaths e a of
          Reports_error \<Rightarrow> Config_error
        | No_reports \<Rightarrow> Nothing_selected
        | Report_paths paths \<Rightarrow>
            (case load_reports e paths of
               None \<Rightarrow> Config_error
             | Some caseLists \<Rightarrow>
                 let junit = unionRuns (map runFromCases caseLists) in
                 if ga_update a then update_baseline e a junit else judge_run e a caseLists junit))"

definition gate_exit :: "gate_verdict \<Rightarrow> int" where
  "gate_exit v =
     (case v of Config_error \<Rightarrow> 2 | Uncaught_error \<Rightarrow> 1 | Judged ev _ _ \<Rightarrow> (if newFailures ev \<noteq> [] then 1 else 0) | _ \<Rightarrow> 0)"

section \<open>Runs as sets of failing tests\<close>

definition reported :: "junit_case list \<Rightarrow> string set" where
  "reported cs = jc_id ` set cs"

definition failed :: "junit_case list \<Rightarrow> string set" where
  "failed cs = jc_id ` set (filter (\<lambda>c. jc_failure c \<noteq> None) cs)"

lemma set_add_new [simp]: "set (add_new x xs) = insert x (set xs)"
  by (auto simp: add_new_def)

lemma set_add_all [simp]: "set (fold add_new xs ys) = set xs \<union> set ys"
  by (rule set_eqI) (simp add: js_set.has_add_all)

lemma fold_run_case:
  "set (run_all (fold run_case cs r)) = reported cs \<union> set (run_all r)"
  "set (run_failing (fold run_case cs r)) = failed cs \<union> set (run_failing r)"
  by (induction cs arbitrary: r) (auto simp: run_case_def reported_def failed_def)

lemma run_of_cases [simp]:
  "set (run_all (runFromCases cs)) = reported cs" "set (run_failing (runFromCases cs)) = failed cs"
  by (simp_all add: runFromCases_def fold_run_case)

lemma fold_union_step:
  "set (run_all (fold union_step rs u)) = (\<Union>r \<in> set rs. set (run_all r)) \<union> set (run_all u)"
  "set (run_failing (fold union_step rs u)) = (\<Union>r \<in> set rs. set (run_failing r)) \<union> set (run_failing u)"
  by (induction rs arbitrary: u) (auto simp: union_step_def)

lemma union_of_reports [simp]:
  "set (run_all (unionRuns (map runFromCases cls))) = reported (concat cls)"
  "set (run_failing (unionRuns (map runFromCases cls))) = failed (concat cls)"
  by (auto simp: unionRuns_def fold_union_step reported_def failed_def)

lemma no_cases: "run_all (runFromCases cs) = [] \<longleftrightarrow> cs = []"
proof -
  have "run_all (runFromCases cs) = [] \<longleftrightarrow> reported cs = {}" by (simp flip: run_of_cases(1))
  then show ?thesis by (simp add: reported_def)
qed

section \<open>The merged cases\<close>

definition merged_failing :: "(string \<times> junit_case) list \<Rightarrow> string \<Rightarrow> bool" where
  "merged_failing m i \<longleftrightarrow> (case map_get m i of Some c \<Rightarrow> jc_failure c \<noteq> None | None \<Rightarrow> False)"

lemma merge_case_failing:
  "merged_failing (merge_case c m) i \<longleftrightarrow> merged_failing m i \<or> (jc_id c = i \<and> jc_failure c \<noteq> None)"
  by (auto simp: merge_case_def merged_failing_def js_map.get_put split: option.splits)

lemma mergeCases_failing: "merged_failing (mergeCases cls) i \<longleftrightarrow> i \<in> failed (concat cls)"
proof -
  have "merged_failing (fold merge_case cs m) i \<longleftrightarrow> merged_failing m i \<or> i \<in> failed cs" for cs m
    by (induction cs arbitrary: m) (auto simp: merge_case_failing failed_def)
  from this[of "concat cls" "[]"] show ?thesis by (simp add: mergeCases_def merged_failing_def map_get_def)
qed

section \<open>A strict verdict\<close>

lemma evaluation_sets:
  "set (newFailures (evaluate known junit)) = set (run_failing junit) - set known"
  "set (nowPassing (evaluate known junit)) = {i \<in> set known. i \<in> set (run_all junit) \<and> i \<notin> set (run_failing junit)}"
  by (auto simp: evaluate_def)

lemma load_reports_cases:
  "load_reports e ps = Some cls \<longleftrightarrow>
     list_all2 (\<lambda>p cs. \<exists>xml. read_file e p = Some xml \<and> cs = parseJunitCases xml \<and> cs \<noteq> []) ps cls"
proof (induction ps arbitrary: cls)
  case (Cons p ps)
  then show ?case
    by (cases cls) (auto simp: Let_def no_cases split: option.splits)
qed (auto simp: list_all2_conv_all_nth)

lemma judged:
  assumes "gate e argv = Judged ev slow split"
  obtains body paths cls where
    "resolveJunitPaths e (parse_gate_args argv default_args) = Report_paths paths"
    "load_reports e paths = Some cls"
    "read_file e (ga_baseline (parse_gate_args argv default_args)) = Some body" "baselineIsReconciled body"
    "ev = evaluate (known_ids body) (unionRuns (map runFromCases cls))"
    "split = splitTimeouts (newFailures ev) (mergeCases cls)"
  using assms
  by (auto simp: gate_def judge_run_def update_baseline_def Let_def split: if_splits resolved_reports.splits option.splits)


section \<open>Reading back a written baseline\<close>

text \<open>A line that can be read back.\<close>

definition plain_line :: "string \<Rightarrow> bool" where
  "plain_line l \<longleftrightarrow> CHR 10 \<notin> set l \<and> \<not> ends_with l [CHR 13]"

lemma join_snoc: "ls \<noteq> [] \<Longrightarrow> join sep (ls @ [l]) = join sep ls @ sep @ l"
  by (induction sep ls rule: join.induct) auto

lemma lines_of_written:
  assumes "ls \<noteq> []" and "list_all plain_line ls"
  shows "lines_of (join [CHR 10] ls @ [CHR 10]) = ls @ [[]]"
proof -
  have "split_on [CHR 10] (join [CHR 10] (ls @ [[]])) = ls @ [[]]"
    using assms(2) by (intro split_on_join) (auto simp: list_all_iff plain_line_def)
  then have sp: "split_on [CHR 10] (join [CHR 10] ls @ [CHR 10]) = ls @ [[]]" using assms(1) by (simp add: join_snoc)
  have "map (\<lambda>l. if ends_with l [CHR 13] then butlast l else l) ls = ls"
    using assms(2) by (intro map_idI) (simp add: list_all_iff plain_line_def)
  then show ?thesis by (simp add: lines_of_def sp Let_def)
qed

text \<open>A test name that survives being written to a line of its own.\<close>

definition clean_id :: "string \<Rightarrow> bool" where
  "clean_id i \<longleftrightarrow> i \<noteq> [] \<and> trim i = i \<and> \<not> starts_with i ''#'' \<and> CHR 10 \<notin> set i"

lemma cr_is_ws: "is_ws (CHR 13)"
  by (simp add: is_ws_def Let_def)

lemma clean_plain: "clean_id i \<Longrightarrow> plain_line i"
proof -
  assume c: "clean_id i"
  then have "\<not> is_ws (last i)" using trim_last[of i] by (simp add: clean_id_def)
  then show ?thesis using c cr_is_ws by (auto simp: plain_line_def clean_id_def ends_with_iff)
qed

lemma parse_ids: "list_all clean_id is \<Longrightarrow> fold parse_line is acc = fold add_new is acc"
  by (induction "is" arbitrary: acc) (simp_all add: parse_line_def clean_id_def)

definition comment_line :: "string \<Rightarrow> bool" where
  "comment_line l \<longleftrightarrow> plain_line l \<and> starts_with (trim l) ''#''"

lemma parse_comments: "list_all comment_line ls \<Longrightarrow> fold parse_line ls acc = acc"
  by (induction ls arbitrary: acc) (simp_all add: parse_line_def comment_line_def)

lemma header_lines: "list_all (\<lambda>l. comment_line l \<and> marker_generation (trim l) = None) BASELINE_HEADER"
  by code_simp

definition marker_line :: "nat \<Rightarrow> string" where
  "marker_line g = RECONCILED_MARKER @ '' r'' @ show_int (int g)"

lemma marker_line_read:
  "trim (marker_line g) = marker_line g" "plain_line (marker_line g)" "marker_generation (marker_line g) = Some g"
proof -
  have d: "digits_of g \<noteq> []" "\<forall>c \<in> set (digits_of g). is_digit c" by (rule digits_of_not_Nil digits_of_digits)+
  have ws: "\<not> is_ws c" "c \<noteq> CHR 10" if "is_digit c" for c
    using that by (auto simp: is_digit_def is_ws_def Let_def)
  have m: "marker_line g = RECONCILED_MARKER @ '' r'' @ digits_of g" by (simp add: marker_line_def show_int_def)
  have l: "last (marker_line g) \<in> set (digits_of g)" using d(1) by (simp add: m)
  show t: "trim (marker_line g) = marker_line g"
    using l d(2) ws by (intro trim_id) (auto simp: m RECONCILED_MARKER_def is_ws_def Let_def)
  have "\<not> ends_with (marker_line g) [CHR 13]"
    using l d(2) ws(1) cr_is_ws by (auto simp: ends_with_iff)
  then show "plain_line (marker_line g)"
    using d(2) ws(2) by (auto simp: plain_line_def m RECONCILED_MARKER_def)
  show "marker_generation (marker_line g) = Some g"
    using d by (simp add: m marker_generation_def decimal_digits_of list_all_iff Let_def)
qed

lemma marker_comment: "comment_line (marker_line g)"
  using marker_line_read[of g] by (simp add: comment_line_def) (simp add: marker_line_def RECONCILED_MARKER_def)

lemma rendered_lines:
  assumes "list_all clean_id ids"
  shows "lines_of (renderBaseline ids True g) = BASELINE_HEADER @ [marker_line g] @ sort_strings (fold add_new ids []) @ [[]]"
proof -
  have "list_all plain_line (BASELINE_HEADER @ [marker_line g] @ sort_strings (fold add_new ids []))"
    using header_lines marker_line_read(2) assms clean_plain by (auto simp: list_all_iff comment_line_def)
  then show ?thesis
    using lines_of_written[of "BASELINE_HEADER @ [marker_line g] @ sort_strings (fold add_new ids [])"]
    by (simp add: renderBaseline_def marker_line_def Let_def)
qed

lemma rendered_ids:
  assumes "list_all clean_id ids"
  shows "set (known_ids (renderBaseline ids True g)) = set ids"
proof -
  let ?s = "sort_strings (fold add_new ids [])"
  have h: "list_all comment_line (BASELINE_HEADER @ [marker_line g])"
    using header_lines marker_comment by (auto simp: list_all_iff)
  have "list_all clean_id ?s" using assms by (simp add: list_all_iff)
  then have "known_ids (renderBaseline ids True g) = fold add_new ?s []"
    using parse_comments[OF h] parse_ids[of ?s]
    by (simp add: known_ids_def rendered_lines[OF assms]) (simp add: parse_line_def)
  then show ?thesis by simp
qed

lemma rendered_generation:
  assumes "list_all clean_id ids"
  shows "baselineGeneration (renderBaseline ids True g) = g"
proof -
  have "List.map_filter (\<lambda>raw. marker_generation (trim raw)) BASELINE_HEADER = []"
    using header_lines by (simp add: map_filter_def filter_empty_conv list_all_iff)
  then show ?thesis
    by (simp add: baselineGeneration_def rendered_lines[OF assms] map_filter_def marker_line_read)
qed

lemma dir_reports_read [simp]: "dir_reports (e\<lparr>ge_read := r\<rparr>) allow ds = dir_reports e allow ds"
proof (induction ds)
  case (Cons d ds)
  have e: "ge_dir (e\<lparr>ge_read := r\<rparr>) = ge_dir e" "ge_join (e\<lparr>ge_read := r\<rparr>) = ge_join e" by simp_all
  show ?case by (simp only: dir_reports.simps Cons e)
qed simp

lemma resolve_frame: "resolveJunitPaths (e\<lparr>ge_read := r\<rparr>) (a\<lparr>ga_update := u\<rparr>) = resolveJunitPaths e a"
  by (cases "dir_reports e (ga_allowNoReports a) (ga_junitDirs a)") (simp_all add: resolveJunitPaths_def Let_def)

lemma load_reports_other:
  "Some f \<notin> set ps \<Longrightarrow> load_reports (e\<lparr>ge_read := (ge_read e)(f \<mapsto> t)\<rparr>) ps = load_reports e ps"
proof (induction ps)
  case (Cons p ps)
  then have "read_file (e\<lparr>ge_read := (ge_read e)(f \<mapsto> t)\<rparr>) p = read_file e p"
    by (auto simp: read_file_def split: option.split)
  moreover have "load_reports (e\<lparr>ge_read := (ge_read e)(f \<mapsto> t)\<rparr>) ps = load_reports e ps"
    by (rule Cons.IH) (use Cons.prems in simp)
  ultimately show ?case by (simp only: load_reports.simps)
qed simp

lemma same_failures: "set known = set (run_failing junit) \<Longrightarrow> evaluate known junit = \<lparr>newFailures = [], nowPassing = []\<rparr>"
  by (simp add: evaluate_def filter_empty_conv sort_strings_def)


section \<open>Instances\<close>

definition quoted :: "string \<Rightarrow> string" where
  "quoted s = [dquote] @ s @ [dquote]"

definition sample_report :: string where
  "sample_report = ''<testcase name='' @ quoted ''t'' @ ''><failure/></testcase>''"

definition sample_env :: gate_env where
  "sample_env =
     \<lparr>ge_read = (\<lambda>p. if p = ''j'' then Some sample_report else if p = ''b'' then Some ''# baseline-status: reconciled'' else None),
      ge_dir = (\<lambda>d. None), ge_join = (\<lambda>d n. d @ n), ge_regex = (\<lambda>r n. None)\<rparr>"

lemma sample_parsed:
  "parseJunitCases sample_report =
     [\<lparr>jc_id = ''t'', jc_name = ''t'', jc_classname = None, jc_timeSeconds = None,
       jc_failure = Some \<lparr>jf_type = [], jf_text = '' ''\<rparr>\<rparr>]"
  by code_simp

lemma sample_judged:
  "gate sample_env [''--junit'', ''j'', ''--baseline'', ''b''] =
     Judged \<lparr>newFailures = [''t''], nowPassing = []\<rparr> [] ([], [''t''])"
  by code_simp


lemma sample_updated:
  "gate sample_env [''--junit'', ''j'', ''--baseline'', ''b'', ''--update''] = Updated (renderBaseline [''t''] True 1) 1"
  by code_simp


end
