(* ===== verification/StubInventory.thy ===== *)
theory StubInventory
  imports JsonText NodePath
begin

text \<open>
  The inventory of dependency stubs, \<open>scripts/bench/lib/fixture-stub-inventory.mjs\<close>, with the scanner
  of here documents it uses from \<open>scripts/bench/project-fixture-stub-fidelity.mjs\<close>: which project
  rows reach, through the call graph of the shell helpers, a function that writes declarations.
  The texts of the four scripts and the hash are arguments; a thrown error is the left side of a
  sum. No row is named like a property that every object inherits.
\<close>

section \<open>Text of the scripts\<close>

definition script_lines :: "string \<Rightarrow> string list" where
  "script_lines s = split_on [CHR 10] s"

definition name_start :: "char \<Rightarrow> bool" where
  "name_start c \<longleftrightarrow> is_letter c \<or> c = CHR ''_''"

text \<open>An identifier at the beginning of a text, and what follows.\<close>

definition ident_at :: "string \<Rightarrow> (string \<times> string) option" where
  "ident_at s =
     (case s of
        [] \<Rightarrow> None
      | c # _ \<Rightarrow> if name_start c then Some (takeWhile is_word_char s, dropWhile is_word_char s) else None)"

definition function_header :: "string \<Rightarrow> string option" where
  "function_header line =
     (case ident_at line of
        Some (n, r) \<Rightarrow> if starts_with r ''()'' \<and> starts_with (dropWhile is_ws (drop 2 r)) ''{'' then Some n else None
      | None \<Rightarrow> None)"

text \<open>Each definition runs to the next one.\<close>

fun split_functions :: "(string \<times> string list) option \<Rightarrow> string list \<Rightarrow> (string \<times> string) list" where
  "split_functions cur [] = (case cur of Some (n, ls) \<Rightarrow> [(n, join [CHR 10] ls)] | None \<Rightarrow> [])"
| "split_functions cur (l # ls) =
     (case function_header l of
        Some n \<Rightarrow> (case cur of Some (m, b) \<Rightarrow> [(m, join [CHR 10] b)] | None \<Rightarrow> []) @ split_functions (Some (n, [l])) ls
      | None \<Rightarrow> split_functions (map_option (\<lambda>(m, b). (m, b @ [l])) cur) ls)"

definition splitTopLevelFunctions :: "string \<Rightarrow> (string \<times> string) list" where
  "splitTopLevelFunctions source = split_functions None (script_lines source)"

text \<open>The maximal runs of word characters that do not begin with a digit.\<close>

function words_of :: "string \<Rightarrow> string list" where
  "words_of [] = []"
| "words_of (c # s) =
     (if is_word_char c
      then (if name_start c then [takeWhile is_word_char (c # s)] else []) @ words_of (dropWhile is_word_char s)
      else words_of s)"
  by pat_completeness auto
termination by (relation "measure length") (auto simp: le_imp_less_Suc length_dropWhile_le)

definition referencedFunctions :: "string \<Rightarrow> string list \<Rightarrow> string list" where
  "referencedFunctions body knownNames = fold add_new (filter (\<lambda>w. w \<in> set knownNames) (words_of body)) []"

text \<open>The number of matches of an expression; a match consumes its length.\<close>

fun count_with :: "(bool \<Rightarrow> string \<Rightarrow> nat option) \<Rightarrow> nat \<Rightarrow> bool \<Rightarrow> string \<Rightarrow> nat" where
  "count_with f k w [] = 0"
| "count_with f (Suc k) w (c # s) = count_with f k (is_word_char c) s"
| "count_with f 0 w (c # s) =
     (case f w (c # s) of
        Some n \<Rightarrow> Suc (count_with f (n - 1) (is_word_char c) s)
      | None \<Rightarrow> count_with f 0 (is_word_char c) s)"

definition at_boundary :: "string \<Rightarrow> bool" where
  "at_boundary r = (case r of [] \<Rightarrow> True | c # _ \<Rightarrow> \<not> is_word_char c)"

text \<open>\<open>\bdeclare module\b\<close> and \<open>[:=]\s*any\b\<close>.\<close>

definition declare_module_at :: "bool \<Rightarrow> string \<Rightarrow> nat option" where
  "declare_module_at w s =
     (if \<not> w \<and> starts_with s ''declare module'' \<and> at_boundary (drop (length ''declare module'') s)
      then Some (length ''declare module'') else None)"

definition any_member_at :: "bool \<Rightarrow> string \<Rightarrow> nat option" where
  "any_member_at w s =
     (case s of
        [] \<Rightarrow> None
      | c # r \<Rightarrow>
          let t = dropWhile is_ws r in
          if (c = CHR '':'' \<or> c = CHR ''='') \<and> starts_with t ''any'' \<and> at_boundary (drop 3 t)
          then Some (1 + (length r - length t) + 3) else None)"

definition countMatches :: "string \<Rightarrow> (bool \<Rightarrow> string \<Rightarrow> nat option) \<Rightarrow> nat" where
  "countMatches text f = count_with f 0 False text"

section \<open>Here documents\<close>

fun isStubBody_lines :: "string list \<Rightarrow> bool" where
  "isStubBody_lines [] = False"
| "isStubBody_lines (raw # ls) =
     (let line = trim raw in
      if line = [] \<or> starts_with line ''//'' \<or> starts_with line ''/*'' \<or> starts_with line ''*'' then isStubBody_lines ls
      else \<not> starts_with line ''{'')"

definition isStubBody :: "string \<Rightarrow> bool" where
  "isStubBody body = isStubBody_lines (script_lines body)"

text \<open>\<open>^name\s*()\s*{?\s*$\<close>.\<close>

definition writer_line :: "string \<Rightarrow> string option" where
  "writer_line line =
     (case ident_at line of
        None \<Rightarrow> None
      | Some (n, r) \<Rightarrow>
          let u = dropWhile is_ws r; v = dropWhile is_ws (drop 2 u);
              x = (if starts_with v ''{'' then tl v else v)
          in if starts_with u ''()'' \<and> list_all is_ws x then Some n else None)"

text \<open>\<open>cat >{1,2} "target" <<-? 'DELIM'\<close> to the end of the line: the target and the delimiter.\<close>

definition is_quote :: "char \<Rightarrow> bool" where
  "is_quote c \<longleftrightarrow> c = CHR 0x27 \<or> c = CHR 0x22"

definition drop_quote :: "string \<Rightarrow> string" where
  "drop_quote s = (case s of c # r \<Rightarrow> if is_quote c then r else s | [] \<Rightarrow> [])"

definition delimiter_of :: "string \<Rightarrow> string option" where
  "delimiter_of s =
     (case ident_at (drop_quote (dropWhile is_ws s)) of
        Some (d, r) \<Rightarrow> if list_all is_ws (drop_quote r) then Some d else None
      | None \<Rightarrow> None)"

definition heredoc_at :: "string \<Rightarrow> (string \<times> string) option" where
  "heredoc_at s =
     (let a = drop 3 s; b = dropWhile is_ws a; c = (if starts_with b ''>>'' then drop 2 b else drop 1 b); d = dropWhile is_ws c in
      if starts_with s ''cat'' \<and> a \<noteq> b \<and> starts_with b ''>'' \<and> starts_with d [CHR 0x22] \<and> CHR 0x22 \<in> set (tl d) then
        let target = takeWhile (\<lambda>c. c \<noteq> CHR 0x22) (tl d);
            e = dropWhile is_ws (tl (dropWhile (\<lambda>c. c \<noteq> CHR 0x22) (tl d)));
            f = drop 2 e
        in if starts_with e ''<<'' then map_option (Pair target) (delimiter_of (if starts_with f ''-'' then tl f else f)) else None
      else None)"

fun heredoc_start :: "string \<Rightarrow> (string \<times> string) option" where
  "heredoc_start [] = None"
| "heredoc_start (c # s) = (case heredoc_at (c # s) of Some x \<Rightarrow> Some x | None \<Rightarrow> heredoc_start s)"

text \<open>The lines up to the terminator, and those after it.\<close>

fun heredoc_body :: "string \<Rightarrow> string list \<Rightarrow> (string list \<times> string list) option" where
  "heredoc_body d [] = None"
| "heredoc_body d (l # ls) =
     (if dropWhile (\<lambda>c. c = CHR 9) l = d then Some ([], ls)
      else map_option (\<lambda>(b, r). (l # b, r)) (heredoc_body d ls))"

lemma heredoc_body_shorter: "heredoc_body d ls = Some (b, r) \<Longrightarrow> length r < length ls"
  by (induction ls arbitrary: b) (auto split: if_splits)

record heredoc =
  hd_writer :: string
  hd_module :: string
  hd_body :: string

definition heredoc_record :: "string \<Rightarrow> string option \<Rightarrow> string \<Rightarrow> string \<Rightarrow> heredoc list" where
  "heredoc_record label writer target body =
     (if isStubBody body then
        [\<lparr>hd_writer = (case writer of Some n \<Rightarrow> n | None \<Rightarrow> ''<file:'' @ path_basename label @ ''>''),
          hd_module = path_basename target, hd_body = body\<rparr>]
      else [])"

text \<open>\<open>i\<close> is the index of the first line of the list.\<close>

function heredocs_of :: "string \<Rightarrow> nat \<Rightarrow> string option \<Rightarrow> string list \<Rightarrow> string + heredoc list" where
  "heredocs_of label i writer [] = Inr []"
| "heredocs_of label i writer (l # ls) =
     (if (case writer_line l of Some n \<Rightarrow> starts_with n ''tsz_write_'' | None \<Rightarrow> False)
      then heredocs_of label (Suc i) (writer_line l) ls
      else
        case heredoc_start l of
          None \<Rightarrow> heredocs_of label (Suc i) writer ls
        | Some (target, d) \<Rightarrow>
            (case heredoc_body d ls of
               None \<Rightarrow>
                 Inl (label @ '': unterminated heredoc '' @ [CHR 0x27] @ d @ [CHR 0x27] @ '' for '' @ target @
                   '' (started at line '' @ show_int (int (Suc i)) @ '')'')
             | Some (b, r) \<Rightarrow>
                 map_sum id ((@) (heredoc_record label writer target (join [CHR 10] b)))
                   (heredocs_of label (i + length b + 2) writer r)))"
  by pat_completeness auto
termination by (relation "measure (\<lambda>(label, i, writer, ls). length ls)") (auto dest: heredoc_body_shorter)

definition extractStubHeredocs :: "string \<Rightarrow> string \<Rightarrow> string + heredoc list" where
  "extractStubHeredocs body sourceLabel = heredocs_of sourceLabel 0 None (script_lines body)"

section \<open>The rows of the dispatcher\<close>

definition row_char :: "char \<Rightarrow> bool" where
  "row_char c \<longleftrightarrow> (is_letter c \<and> lower_char c = c) \<or> is_digit c"

definition row_name :: "string \<Rightarrow> bool" where
  "row_name n = (case n of [] \<Rightarrow> False | c # r \<Rightarrow> row_char c \<and> list_all (\<lambda>c. row_char c \<or> c = CHR ''-'') r)"

text \<open>\<open>^\s+name(|name)*)$\<close>.\<close>

definition arm_header :: "string \<Rightarrow> string list option" where
  "arm_header line =
     (let r = dropWhile is_ws line; names = split_on ''|'' (butlast r) in
      if r \<noteq> line \<and> ends_with r '')'' \<and> list_all row_name names then Some names else None)"

definition arm_end :: "string \<Rightarrow> bool" where
  "arm_end line \<longleftrightarrow> trim line = '';;''"

record arms_state =
  as_rows :: "(string \<times> string) list"
  as_names :: "string list option"
  as_body :: "string list"

definition arm_line :: "string \<Rightarrow> arms_state \<Rightarrow> arms_state" where
  "arm_line line st =
     (case as_names st of
        None \<Rightarrow>
          (case arm_header line of
             Some names \<Rightarrow>
               st\<lparr>as_names := Some (filter (\<lambda>n. ends_with n ''-project'' \<or> ends_with n ''-app'') names), as_body := []\<rparr>
           | None \<Rightarrow> st)
      | Some names \<Rightarrow>
          if arm_end line then
            st\<lparr>as_rows := fold (\<lambda>n. map_set n (join [CHR 10] (as_body st))) names (as_rows st), as_names := None, as_body := []\<rparr>
          else st\<lparr>as_body := as_body st @ [line]\<rparr>)"

definition projectRowCaseArms :: "string \<Rightarrow> string + (string \<times> string) list" where
  "projectRowCaseArms runProjectRowBody =
     (let st = fold arm_line (script_lines runProjectRowBody) \<lparr>as_rows = [], as_names = None, as_body = []\<rparr> in
      if as_names st \<noteq> None then Inl ''fixture stub inventory found unterminated run_project_row arm''
      else if as_rows st = [] then Inl ''fixture stub inventory parsed zero project row arms''
      else Inr (as_rows st))"

section \<open>The inventory\<close>

record helper =
  he_body :: string
  he_label :: string

record stub_counts =
  dc_modules :: nat
  dc_anyMembers :: nat

fun add_functions ::
  "string \<Rightarrow> (string \<times> string) list \<Rightarrow> (string \<times> helper) list \<Rightarrow> string + (string \<times> helper) list" where
  "add_functions label [] fs = Inr fs"
| "add_functions label ((n, b) # rest) fs =
     (if map_has fs n then Inl (''duplicate fixture helper function: '' @ n)
      else add_functions label rest (map_set n \<lparr>he_body = b, he_label = label\<rparr> fs))"

fun read_sources ::
  "(string option \<times> string) list \<Rightarrow> (string \<times> helper) list \<Rightarrow> string + (string \<times> helper) list" where
  "read_sources [] fs = Inr fs"
| "read_sources ((src, label) # rest) fs =
     (case src of
        None \<Rightarrow> Inl (''fixture stub inventory source missing: '' @ label)
      | Some s \<Rightarrow>
          (case add_functions label (splitTopLevelFunctions s) fs of Inl m \<Rightarrow> Inl m | Inr fs' \<Rightarrow> read_sources rest fs'))"

definition calls_of :: "(string \<times> helper) list \<Rightarrow> (string \<times> string list) list" where
  "calls_of fs =
     map (\<lambda>(n, h). (n, filter (\<lambda>c. c \<noteq> n) (referencedFunctions (he_body h) (map_keys fs)))) fs"

fun declaration_writers :: "(string \<times> helper) list \<Rightarrow> string + (string \<times> stub_counts) list" where
  "declaration_writers [] = Inr []"
| "declaration_writers ((n, h) # rest) =
     (case extractStubHeredocs (he_body h) (he_label h @ '':'' @ n) of
        Inl m \<Rightarrow> Inl m
      | Inr hs \<Rightarrow>
          map_sum id
            ((@) (if hs = [] then []
                  else [(n, \<lparr>dc_modules = sum_list (map (\<lambda>k. countMatches (hd_body k) declare_module_at) hs),
                             dc_anyMembers = sum_list (map (\<lambda>k. countMatches (hd_body k) any_member_at) hs)\<rparr>)]))
            (declaration_writers rest))"

text \<open>The loop over the pending helpers of one row; the head of the list is the end of the array.\<close>

record owners =
  ow_visited :: "string list"
  ow_modules :: nat
  ow_anyMembers :: nat
  ow_writers :: "string list"

definition visit_owner :: "(string \<times> stub_counts) list \<Rightarrow> string \<Rightarrow> owners \<Rightarrow> owners" where
  "visit_owner decls owner st =
     (let st1 = st\<lparr>ow_visited := ow_visited st @ [owner]\<rparr> in
      case map_get decls owner of
        Some d \<Rightarrow>
          st1\<lparr>ow_modules := ow_modules st + dc_modules d, ow_anyMembers := ow_anyMembers st + dc_anyMembers d,
              ow_writers := ow_writers st @ [owner]\<rparr>
      | None \<Rightarrow> st1)"

definition callees :: "(string \<times> string list) list \<Rightarrow> string \<Rightarrow> string list" where
  "callees calls owner = (case map_get calls owner of Some cs \<Rightarrow> cs | None \<Rightarrow> [])"

lemma visit_owner_visited [simp]: "ow_visited (visit_owner decls owner st) = ow_visited st @ [owner]"
  by (simp add: visit_owner_def Let_def split: option.split)

function walk_owners ::
  "(string \<times> stub_counts) list \<Rightarrow> (string \<times> string list) list \<Rightarrow> string list \<Rightarrow> owners \<Rightarrow> owners" where
  "walk_owners decls calls [] st = st"
| "walk_owners decls calls (owner # pending) st =
     (if owner \<in> set (ow_visited st) then walk_owners decls calls pending st
      else walk_owners decls calls (rev (callees calls owner) @ pending) (visit_owner decls owner st))"
  by pat_completeness auto
termination
proof (relation "measures [\<lambda>(decls, calls, pending, st). card (fst ` set calls - set (ow_visited st)),
    \<lambda>(decls, calls, pending, st). length pending]", goal_cases)
  case (3 decls calls owner pending st)
  show ?case
  proof (cases "owner \<in> fst ` set calls")
    case True
    then have "fst ` set calls - set (ow_visited (visit_owner decls owner st)) \<subset> fst ` set calls - set (ow_visited st)"
      using 3 by auto
    then have "card (fst ` set calls - set (ow_visited (visit_owner decls owner st))) < card (fst ` set calls - set (ow_visited st))"
      by (rule psubset_card_mono[rotated]) simp
    then show ?thesis by simp
  next
    case False
    then have "callees calls owner = []" by (simp add: callees_def map_get_def map_of_eq_None_iff split: option.split)
        (metis fst_conv image_eqI map_of_SomeD)
    moreover have "fst ` set calls - set (ow_visited (visit_owner decls owner st)) = fst ` set calls - set (ow_visited st)"
      using False by auto
    ultimately show ?thesis by simp
  qed
qed auto

record row_stubs =
  rs_modules :: nat
  rs_anyMembers :: nat
  rs_writers :: "string list"

definition no_owners :: owners where
  "no_owners = \<lparr>ow_visited = [], ow_modules = 0, ow_anyMembers = 0, ow_writers = []\<rparr>"

definition row_owners :: "(string \<times> stub_counts) list \<Rightarrow> (string \<times> helper) list \<Rightarrow> string \<Rightarrow> owners" where
  "row_owners decls fs armBody =
     walk_owners decls (calls_of fs) (rev (referencedFunctions armBody (map_keys fs))) no_owners"

definition row_entry ::
  "(string \<times> stub_counts) list \<Rightarrow> (string \<times> helper) list \<Rightarrow> string \<times> string \<Rightarrow>
   (string \<times> row_stubs) list \<Rightarrow> (string \<times> row_stubs) list" where
  "row_entry decls fs row inventory =
     (let o1 = row_owners decls fs (snd row) in
      if ow_writers o1 = [] then inventory
      else obj_set (fst row)
        \<lparr>rs_modules = ow_modules o1, rs_anyMembers = ow_anyMembers o1,
         rs_writers = sort_strings (fold add_new (ow_writers o1) [])\<rparr> inventory)"

definition computeFixtureStubInventory :: "(string option \<times> string) list \<Rightarrow> string + (string \<times> row_stubs) list" where
  "computeFixtureStubInventory sources =
     (case read_sources sources [] of
        Inl m \<Rightarrow> Inl m
      | Inr fs \<Rightarrow>
          (case declaration_writers fs of
             Inl m \<Rightarrow> Inl m
           | Inr decls \<Rightarrow>
               (case map_get fs ''run_project_row'' of
                  None \<Rightarrow> Inl ''fixture stub inventory could not find run_project_row''
                | Some r \<Rightarrow>
                    (case projectRowCaseArms (he_body r) of
                       Inl m \<Rightarrow> Inl m
                     | Inr rows \<Rightarrow>
                         let inventory = fold (row_entry decls fs) rows [] in
                         if inventory = [] then Inl ''fixture stub inventory parsed zero project rows'' else Inr inventory))))"

section \<open>The evidence of a row\<close>

definition FIXTURE_STUB_EVIDENCE_SCHEMA :: int where
  "FIXTURE_STUB_EVIDENCE_SCHEMA = 2"

record stub_evidence =
  se_schema :: int
  se_modules :: nat
  se_anyMembers :: nat
  se_owners :: "string list"
  se_fingerprint :: string

definition fixtureStubEvidenceFingerprint :: "(string \<Rightarrow> string) \<Rightarrow> nat \<Rightarrow> nat \<Rightarrow> string list \<Rightarrow> string" where
  "fixtureStubEvidenceFingerprint sha modules anyMembers writers =
     sha (render json_char
       (JObj [(''schema_version'', JInt FIXTURE_STUB_EVIDENCE_SCHEMA), (''stubbed_modules'', JInt (int modules)),
              (''stubbed_any_members'', JInt (int anyMembers)), (''writers'', JArr (map JStr writers))]))"

definition fixtureStubEvidenceFromInventory ::
  "(string \<Rightarrow> string) \<Rightarrow> (string \<times> row_stubs) list \<Rightarrow> string \<Rightarrow> string + stub_evidence" where
  "fixtureStubEvidenceFromInventory sha inventory projectName =
     (if projectName = [] then Inl ''project row name is required for fixture stub evidence''
      else
        let counts = (case map_of inventory projectName of Some c \<Rightarrow> c | None \<Rightarrow> \<lparr>rs_modules = 0, rs_anyMembers = 0, rs_writers = []\<rparr>);
            writers = sort_strings (rs_writers counts)
        in Inr \<lparr>se_schema = FIXTURE_STUB_EVIDENCE_SCHEMA, se_modules = rs_modules counts, se_anyMembers = rs_anyMembers counts,
                se_owners = writers,
                se_fingerprint = fixtureStubEvidenceFingerprint sha (rs_modules counts) (rs_anyMembers counts) writers\<rparr>)"

section \<open>Every reachable writer is counted once\<close>

definition call_graph :: "(string \<times> string list) list \<Rightarrow> (string \<times> string) set" where
  "call_graph calls = {(a, b). b \<in> set (callees calls a)}"

lemma walk_visits:
  "\<exists>new. walk_owners decls calls pending st = fold (visit_owner decls) new st \<and>
     distinct new \<and> set new \<inter> set (ow_visited st) = {} \<and>
     set pending \<subseteq> set (ow_visited st) \<union> set new \<and>
     (\<forall>x \<in> set new. set (callees calls x) \<subseteq> set (ow_visited st) \<union> set new) \<and>
     set new \<subseteq> (call_graph calls)\<^sup>* `` set pending"
proof (induction decls calls pending st rule: walk_owners.induct)
  case (1 decls calls st)
  show ?case by (rule exI[of _ "[]"]) simp
next
  case (2 decls calls owner pending st)
  show ?case
  proof (cases "owner \<in> set (ow_visited st)")
    case True
    from "2.IH"(1)[OF True] obtain new where n: "walk_owners decls calls pending st = fold (visit_owner decls) new st"
      "distinct new" "set new \<inter> set (ow_visited st) = {}" "set pending \<subseteq> set (ow_visited st) \<union> set new"
      "\<forall>x \<in> set new. set (callees calls x) \<subseteq> set (ow_visited st) \<union> set new"
      "set new \<subseteq> (call_graph calls)\<^sup>* `` set pending" by blast
    show ?thesis
      using n True by (intro exI[of _ new]) auto
  next
    case False
    let ?st = "visit_owner decls owner st" and ?p = "rev (callees calls owner) @ pending"
    from "2.IH"(2)[OF False] obtain new where n: "walk_owners decls calls ?p ?st = fold (visit_owner decls) new ?st"
      "distinct new" "set new \<inter> set (ow_visited ?st) = {}" "set ?p \<subseteq> set (ow_visited ?st) \<union> set new"
      "\<forall>x \<in> set new. set (callees calls x) \<subseteq> set (ow_visited ?st) \<union> set new"
      "set new \<subseteq> (call_graph calls)\<^sup>* `` set ?p" by blast
    have step: "(owner, c) \<in> call_graph calls" if "c \<in> set (callees calls owner)" for c
      using that by (simp add: call_graph_def)
    have "(call_graph calls)\<^sup>* `` set ?p \<subseteq> (call_graph calls)\<^sup>* `` set (owner # pending)"
      using step by (auto intro: converse_rtrancl_into_rtrancl)
    then have reach: "set new \<subseteq> (call_graph calls)\<^sup>* `` set (owner # pending)" using n(6) by blast
    show ?thesis
    proof (intro exI[of _ "owner # new"] conjI)
      show "walk_owners decls calls (owner # pending) st = fold (visit_owner decls) (owner # new) st"
        using False n(1) by simp
      show "distinct (owner # new)" using n(2,3) by auto
      show "set (owner # new) \<inter> set (ow_visited st) = {}" using n(3) False by auto
      show "set (owner # pending) \<subseteq> set (ow_visited st) \<union> set (owner # new)" using n(4) by auto
      show "\<forall>x \<in> set (owner # new). set (callees calls x) \<subseteq> set (ow_visited st) \<union> set (owner # new)"
        using n(4,5) by auto
      show "set (owner # new) \<subseteq> (call_graph calls)\<^sup>* `` set (owner # pending)" using reach by auto
    qed
  qed
qed

definition modules_of :: "(string \<times> stub_counts) list \<Rightarrow> string \<Rightarrow> nat" where
  "modules_of decls owner = (case map_get decls owner of Some d \<Rightarrow> dc_modules d | None \<Rightarrow> 0)"

definition anyMembers_of :: "(string \<times> stub_counts) list \<Rightarrow> string \<Rightarrow> nat" where
  "anyMembers_of decls owner = (case map_get decls owner of Some d \<Rightarrow> dc_anyMembers d | None \<Rightarrow> 0)"

lemma fold_visits:
  "ow_modules (fold (visit_owner decls) new st) = ow_modules st + sum_list (map (modules_of decls) new)"
  "ow_anyMembers (fold (visit_owner decls) new st) = ow_anyMembers st + sum_list (map (anyMembers_of decls) new)"
  "ow_writers (fold (visit_owner decls) new st) = ow_writers st @ filter (map_has decls) new"
  by (induction new arbitrary: st)
    (simp_all add: visit_owner_def modules_of_def anyMembers_of_def map_has_def Let_def split: option.split)

lemma closed_reachable:
  assumes "S \<subseteq> F" and "\<And>x. x \<in> F \<Longrightarrow> r `` {x} \<subseteq> F"
  shows "r\<^sup>* `` S \<subseteq> F"
proof
  fix y assume "y \<in> r\<^sup>* `` S"
  then obtain x where x: "x \<in> S" "(x, y) \<in> r\<^sup>*" by blast
  from x(2) show "y \<in> F"
  proof (induction rule: rtrancl_induct)
    case base
    then show ?case using x(1) assms(1) by blast
  next
    case (step y z)
    then show ?case using assms(2) by blast
  qed
qed

text \<open>The helpers a text reaches through calls.\<close>

definition reached :: "(string \<times> helper) list \<Rightarrow> string \<Rightarrow> string set" where
  "reached fs body = (call_graph (calls_of fs))\<^sup>* `` set (referencedFunctions body (map_keys fs))"

lemma row_owners_visits:
  "\<exists>new. row_owners decls fs body = fold (visit_owner decls) new no_owners \<and> distinct new \<and> set new = reached fs body"
proof -
  let ?calls = "calls_of fs" and ?refs = "referencedFunctions body (map_keys fs)"
  obtain new where n: "walk_owners decls ?calls (rev ?refs) no_owners = fold (visit_owner decls) new no_owners"
    "distinct new" "set (rev ?refs) \<subseteq> set new" "\<forall>x \<in> set new. set (callees ?calls x) \<subseteq> set new"
    "set new \<subseteq> (call_graph ?calls)\<^sup>* `` set (rev ?refs)"
    using walk_visits[of decls ?calls "rev ?refs" no_owners] by (auto simp: no_owners_def)
  have "(call_graph ?calls)\<^sup>* `` set (rev ?refs) \<subseteq> set new"
    by (rule closed_reachable[OF n(3)]) (use n(4) in \<open>auto simp: call_graph_def\<close>)
  then have "set new = reached fs body" using n(5) by (auto simp: reached_def)
  then show ?thesis using n(1,2) by (auto simp: row_owners_def)
qed

text \<open>C36: the loop over pending helpers ends for every call graph, cycles included, and finds exactly the
  writers the row reaches through calls; each is named once, and the counts of the row are the sums
  over the helpers it reaches, each counted once.\<close>

theorem row_owners_exact:
  "set (ow_writers (row_owners decls fs body)) = {w \<in> reached fs body. map_has decls w} \<and>
   distinct (ow_writers (row_owners decls fs body)) \<and>
   ow_modules (row_owners decls fs body) = sum (modules_of decls) (reached fs body) \<and>
   ow_anyMembers (row_owners decls fs body) = sum (anyMembers_of decls) (reached fs body)"
proof -
  from row_owners_visits[of decls fs body] obtain new where
    n: "row_owners decls fs body = fold (visit_owner decls) new no_owners" "distinct new" "set new = reached fs body" by blast
  have s: "sum_list (map f new) = sum f (reached fs body)" for f :: "string \<Rightarrow> nat"
    using sum_list_distinct_conv_sum_set[OF n(2)] n(3) by simp
  show ?thesis
    using n by (simp add: fold_visits no_owners_def s)
qed

end
