(* ===== verification/SourceTreeHash.thy ===== *)
theory SourceTreeHash
  imports ResultEvidence JsonText
begin

text \<open>
  The fingerprint of a source tree, \<open>scripts/ci/lib/project-source-tree-hash.mjs\<close>: the walk over
  the physical nodes of a tree, which follows symbolic links and meets each node once, and the
  frames it feeds to one hash.

  The tree may change while it is walked, so every call of the file system and every reading of
  the clock is numbered, and its answer depends on the number: \<open>w_tick\<close> counts the calls made. A
  call that throws is the left side of a sum. A stream of directory entries is the list of their
  names, an open file is the call that opened it with its path, and reading it is the list of the
  chunks that are not empty; paths and names are their bytes.
\<close>

section \<open>The file system\<close>

record file_stat =
  fs_dev :: int
  fs_ino :: int
  fs_mode :: nat
  fs_nlink :: int
  fs_size :: int
  fs_mtimeNs :: int
  fs_ctimeNs :: int

type_synonym open_file = "nat \<times> string"

record tree_fs =
  tf_now :: "nat \<Rightarrow> int"
  tf_lstat :: "nat \<Rightarrow> string \<Rightarrow> string + file_stat"
  tf_stat :: "nat \<Rightarrow> string \<Rightarrow> string + file_stat"
  tf_readlink :: "nat \<Rightarrow> string \<Rightarrow> string + string"
  tf_readdir :: "nat \<Rightarrow> string \<Rightarrow> string + string list"
  tf_open :: "nat \<Rightarrow> string \<Rightarrow> string + unit"
  tf_fstat :: "nat \<Rightarrow> open_file \<Rightarrow> string + file_stat"
  tf_read :: "nat \<Rightarrow> open_file \<Rightarrow> string + string list"

definition file_type :: "file_stat \<Rightarrow> nat" where
  "file_type s = fs_mode s div 4096 mod 16"

definition isDirectory :: "file_stat \<Rightarrow> bool" where "isDirectory s \<longleftrightarrow> file_type s = 4"
definition isFile :: "file_stat \<Rightarrow> bool" where "isFile s \<longleftrightarrow> file_type s = 8"
definition isSymbolicLink :: "file_stat \<Rightarrow> bool" where "isSymbolicLink s \<longleftrightarrow> file_type s = 10"

definition nodeKind :: "file_stat \<Rightarrow> string" where
  "nodeKind s = (if isDirectory s then ''directory'' else if isFile s then ''file'' else ''unsupported'')"

text \<open>The permission bits have at most four octal digits.\<close>

definition modeString :: "file_stat \<Rightarrow> string" where
  "modeString s =
     (let m = fs_mode s mod 4096; d = (\<lambda>n. char_of (48 + n mod 8) :: char) in [d (m div 512), d (m div 64), d (m div 8), d m])"

record file_snapshot =
  sn_stat :: file_stat
  sn_identity :: string
  sn_stable :: string

definition stable_text :: "file_stat \<Rightarrow> string" where
  "stable_text s =
     join '':'' (map show_int
       [fs_dev s, fs_ino s, int (fs_mode s), fs_nlink s, fs_size s, fs_mtimeNs s, fs_ctimeNs s])"

definition identity_text :: "file_stat \<Rightarrow> string" where
  "identity_text s = show_int (fs_dev s) @ '':'' @ show_int (fs_ino s) @ '':'' @ nodeKind s"

definition snapshotFromStat :: "file_stat \<Rightarrow> file_snapshot" where
  "snapshotFromStat s = \<lparr>sn_stat = s, sn_identity = identity_text s, sn_stable = stable_text s\<rparr>"

section \<open>The walker\<close>

datatype walk_mode = Source | Builtins

primrec mode_text :: "walk_mode \<Rightarrow> string" where
  "mode_text Source = ''source''"
| "mode_text Builtins = ''builtins''"

record walk_config =
  wc_mode :: walk_mode
  wc_maxNodes :: nat
  wc_maxEdges :: nat
  wc_maxDepth :: nat
  wc_maxDirectoryEntries :: nat
  wc_maxPathBytes :: nat
  wc_maxBytes :: int
  wc_maxElapsedNanoseconds :: int
  wc_startedAt :: int

record node_verification =
  nv_path :: string
  nv_follow :: bool
  nv_stable :: string

record symlink_verification =
  sv_path :: string
  sv_stable :: string
  sv_rawTarget :: string

type_synonym frame = "string \<times> string"

record walker =
  w_tick :: nat
  w_frames :: "frame list"
  w_nodes :: "(string \<times> nat) list"
  w_nextNodeId :: nat
  w_edgeCount :: nat
  w_contentBytes :: int
  w_directoryEntryCount :: nat
  w_verificationPathBytes :: nat
  w_builtinCount :: nat
  w_nodeVerifications :: "node_verification list"
  w_symlinkVerifications :: "symlink_verification list"

text \<open>A step of the walk: a result and the walker after it, or the message of what it throws.\<close>

type_synonym 'a walk = "walker \<Rightarrow> string + 'a \<times> walker"

definition done_with :: "'a \<Rightarrow> 'a walk" where
  "done_with x w = Inr (x, w)"

definition throw :: "string \<Rightarrow> 'a walk" where
  "throw m w = Inl m"

definition bind_walk :: "'a walk \<Rightarrow> ('a \<Rightarrow> 'b walk) \<Rightarrow> 'b walk" where
  "bind_walk m k w = (case m w of Inl e \<Rightarrow> Inl e | Inr (x, w') \<Rightarrow> k x w')"

abbreviation then_walk :: "'a walk \<Rightarrow> 'b walk \<Rightarrow> 'b walk" where
  "then_walk m k \<equiv> bind_walk m (\<lambda>_. k)"

definition require :: "bool \<Rightarrow> string \<Rightarrow> unit walk" where
  "require b m = (if b then done_with () else throw m)"

definition modify :: "(walker \<Rightarrow> walker) \<Rightarrow> unit walk" where
  "modify f w = Inr ((), f w)"

definition with_walker :: "(walker \<Rightarrow> 'a walk) \<Rightarrow> 'a walk" where
  "with_walker k w = k w w"

text \<open>One numbered call.\<close>

definition call :: "(nat \<Rightarrow> string + 'a) \<Rightarrow> 'a walk" where
  "call f w = (case f (w_tick w) of Inl e \<Rightarrow> Inl e | Inr x \<Rightarrow> Inr (x, w\<lparr>w_tick := Suc (w_tick w)\<rparr>))"

fun each :: "('a \<Rightarrow> unit walk) \<Rightarrow> 'a list \<Rightarrow> unit walk" where
  "each f [] = done_with ()"
| "each f (x # xs) = then_walk (f x) (each f xs)"

definition updateFrame :: "string \<Rightarrow> string \<Rightarrow> unit walk" where
  "updateFrame label v = modify (\<lambda>w. w\<lparr>w_frames := w_frames w @ [(label, v)]\<rparr>)"

definition checkElapsed :: "walk_config \<Rightarrow> tree_fs \<Rightarrow> unit walk" where
  "checkElapsed c f =
     bind_walk (call (\<lambda>t. Inr (tf_now f t))) (\<lambda>now.
       let elapsed = now - wc_startedAt c in
       then_walk (require (\<not> elapsed < 0) ''source-tree monotonic clock moved backwards'')
         (require (\<not> elapsed > wc_maxElapsedNanoseconds c)
           (''source-tree elapsed-time budget exceeded ('' @ show_int (wc_maxElapsedNanoseconds c div 1000000) @ ''ms)'')))"

definition useEdge :: "walk_config \<Rightarrow> tree_fs \<Rightarrow> unit walk" where
  "useEdge c f =
     then_walk (checkElapsed c f) (\<lambda>w.
       let n = w_edgeCount w + 1 in
       if n > wc_maxEdges c then Inl (''source-tree edge budget exceeded ('' @ show_nat (wc_maxEdges c) @ '')'')
       else Inr ((), w\<lparr>w_edgeCount := n\<rparr>))"

definition retainVerificationBytes :: "walk_config \<Rightarrow> string \<Rightarrow> string walk" where
  "retainVerificationBytes c v w =
     (let n = w_verificationPathBytes w + length v in
      if n > wc_maxPathBytes c then Inl (''source-tree retained-byte budget exceeded ('' @ show_nat (wc_maxPathBytes c) @ '')'')
      else Inr (v, w\<lparr>w_verificationPathBytes := n\<rparr>))"

definition claimNode :: "walk_config \<Rightarrow> tree_fs \<Rightarrow> file_snapshot \<Rightarrow> (nat \<times> bool) walk" where
  "claimNode c f observed =
     then_walk (checkElapsed c f) (\<lambda>w.
       case map_get (w_nodes w) (sn_identity observed) of
         Some existing \<Rightarrow> Inr ((existing, False), w)
       | None \<Rightarrow>
           let n = w_nextNodeId w in
           if n + 1 > wc_maxNodes c then Inl (''source-tree physical-node budget exceeded ('' @ show_nat (wc_maxNodes c) @ '')'')
           else Inr ((n, True), w\<lparr>w_nextNodeId := n + 1, w_nodes := map_set (sn_identity observed) n (w_nodes w)\<rparr>))"

definition snapshot :: "tree_fs \<Rightarrow> string \<Rightarrow> bool \<Rightarrow> file_snapshot walk" where
  "snapshot f p deref =
     bind_walk (call (\<lambda>t. if deref then tf_stat f t p else tf_lstat f t p)) (\<lambda>s. done_with (snapshotFromStat s))"

definition requireUnchanged :: "tree_fs \<Rightarrow> string \<Rightarrow> bool \<Rightarrow> string \<Rightarrow> string \<Rightarrow> unit walk" where
  "requireUnchanged f p deref before description =
     bind_walk (snapshot f p deref) (\<lambda>after.
       require (sn_stable after = before) (description @ '' changed while its source-tree fingerprint was computed''))"

text \<open>\<open>visit p deref observed nid\<close> is the visit of a new node one level down.\<close>

type_synonym visitor = "string \<Rightarrow> bool \<Rightarrow> file_snapshot \<Rightarrow> nat \<Rightarrow> unit walk"

definition visit_reference :: "walk_config \<Rightarrow> tree_fs \<Rightarrow> visitor \<Rightarrow> string \<Rightarrow> bool \<Rightarrow> file_snapshot \<Rightarrow> unit walk" where
  "visit_reference c f visit p deref observed =
     then_walk (require (nodeKind (sn_stat observed) \<noteq> ''unsupported'') ''source-tree entry resolves to an unsupported filesystem node'')
       (bind_walk (claimNode c f observed) (\<lambda>(nid, isNew).
         then_walk (updateFrame ''target-node'' (show_nat nid))
           (then_walk (updateFrame ''target-reference'' (if isNew then ''new'' else ''backref''))
             (if isNew then visit p deref observed nid else done_with ()))))"

definition hashFile :: "walk_config \<Rightarrow> tree_fs \<Rightarrow> (string \<Rightarrow> string) \<Rightarrow> string \<Rightarrow> bool \<Rightarrow> file_snapshot \<Rightarrow> string walk" where
  "hashFile c f sha p deref observed =
     then_walk (checkElapsed c f) (with_walker (\<lambda>w.
       if w_contentBytes w + fs_size (sn_stat observed) > wc_maxBytes c
        then throw (''source-tree content-byte budget exceeded ('' @ show_int (wc_maxBytes c) @ '')'')
        else
          bind_walk (call (\<lambda>t. map_sum id (\<lambda>_. (t, p)) (tf_open f t p))) (\<lambda>handle.
          bind_walk (call (\<lambda>t. tf_fstat f t handle)) (\<lambda>before.
          then_walk (require (stable_text before = sn_stable observed) ''source-tree file changed before it could be read'')
          (then_walk (checkElapsed c f)
          (bind_walk (call (\<lambda>t. tf_read f t handle)) (\<lambda>chunks.
          let bytes = concat chunks in
          then_walk (each (\<lambda>_. checkElapsed c f) chunks)
          (then_walk (checkElapsed c f)
          (bind_walk (call (\<lambda>t. tf_fstat f t handle)) (\<lambda>after.
          then_walk (require (stable_text after = sn_stable observed \<and> int (length bytes) = fs_size (sn_stat observed))
              ''source-tree file changed while it was read'')
          (then_walk (modify (\<lambda>w. w\<lparr>w_contentBytes := w_contentBytes w + int (length bytes)\<rparr>))
          (then_walk (requireUnchanged f p deref (sn_stable observed) ''source-tree file'')
             (done_with (sha bytes))))))))))))))"

text \<open>\<open>Buffer.compare\<close> is the order of the bytes.\<close>

fun read_entries :: "walk_config \<Rightarrow> tree_fs \<Rightarrow> nat \<Rightarrow> nat \<Rightarrow> string list \<Rightarrow> unit walk" where
  "read_entries c f limit n [] = checkElapsed c f"
| "read_entries c f limit n (x # xs) =
     then_walk (checkElapsed c f)
       (then_walk
         (require (\<not> n \<ge> limit) (''source-tree directory-entry budget exceeded ('' @ show_nat (wc_maxDirectoryEntries c) @ '')''))
         (read_entries c f limit (Suc n) xs))"

definition readDirectoryNames :: "walk_config \<Rightarrow> tree_fs \<Rightarrow> string \<Rightarrow> nat \<Rightarrow> string list walk" where
  "readDirectoryNames c f p limit =
     bind_walk (call (\<lambda>t. tf_readdir f t p)) (\<lambda>names.
       then_walk (read_entries c f limit 0 names) (done_with (sort_strings names)))"

definition isBuiltinLibName :: "string \<Rightarrow> bool" where
  "isBuiltinLibName name \<longleftrightarrow> take 3 name = ''lib'' \<and> ends_with name ''.d.ts''"

definition joinRaw :: "string \<Rightarrow> string \<Rightarrow> string" where
  "joinRaw parent child = parent @ ''/'' @ child"

definition count_builtin :: "walk_config \<Rightarrow> unit walk" where
  "count_builtin c =
     modify (\<lambda>w. if wc_mode c = Builtins then w\<lparr>w_builtinCount := w_builtinCount w + 1\<rparr> else w)"

definition readlink :: "tree_fs \<Rightarrow> string \<Rightarrow> string walk" where
  "readlink f p = call (\<lambda>t. tf_readlink f t p)"

definition visitSymlink ::
  "walk_config \<Rightarrow> tree_fs \<Rightarrow> visitor \<Rightarrow> string \<Rightarrow> string \<Rightarrow> file_snapshot \<Rightarrow> unit walk" where
  "visitSymlink c f visit p name linkBefore =
     then_walk (checkElapsed c f)
     (bind_walk (readlink f p) (\<lambda>rawTarget.
      bind_walk (retainVerificationBytes c p) (\<lambda>kept.
      bind_walk (retainVerificationBytes c rawTarget) (\<lambda>keptTarget.
      then_walk (modify (\<lambda>w. w\<lparr>w_symlinkVerifications :=
          w_symlinkVerifications w @ [\<lparr>sv_path = kept, sv_stable = sn_stable linkBefore, sv_rawTarget = keptTarget\<rparr>]\<rparr>))
      (bind_walk (snapshot f p True) (\<lambda>target.
       let targetKind = nodeKind (sn_stat target) in
       then_walk (require (targetKind \<noteq> ''unsupported'') ''source-tree symlink resolves to an unsupported filesystem node'')
       (if wc_mode c = Builtins \<and> targetKind \<noteq> ''file'' then done_with ()
        else
          then_walk (count_builtin c)
          (then_walk (useEdge c f)
          (then_walk (updateFrame ''edge-name'' name)
          (then_walk (updateFrame ''edge-kind'' ''symlink'')
          (then_walk (updateFrame ''symlink-mode'' (modeString (sn_stat linkBefore)))
          (then_walk (updateFrame ''symlink-target'' rawTarget)
          (then_walk (visit_reference c f visit p True target)
          (then_walk (requireUnchanged f p False (sn_stable linkBefore) ''source-tree symlink'')
          (bind_walk (readlink f p) (\<lambda>targetAfter.
           then_walk (require (targetAfter = rawTarget) ''source-tree symlink target changed during traversal'')
             (checkElapsed c f)))))))))))))))))"

text \<open>The body of the loop over the names of a directory.\<close>

definition visit_entry :: "walk_config \<Rightarrow> tree_fs \<Rightarrow> visitor \<Rightarrow> string \<Rightarrow> string \<Rightarrow> unit walk" where
  "visit_entry c f visit p name =
     then_walk (checkElapsed c f)
     (if name = ''.git'' then done_with ()
      else
        let entryPath = joinRaw p name in
        bind_walk (snapshot f entryPath False) (\<lambda>entry.
          if isSymbolicLink (sn_stat entry) then
            (if wc_mode c = Builtins \<and> \<not> isBuiltinLibName name then done_with ()
             else visitSymlink c f visit entryPath name entry)
          else if isDirectory (sn_stat entry) then
            (if wc_mode c = Builtins then done_with ()
             else
               then_walk (useEdge c f)
               (then_walk (updateFrame ''edge-name'' name)
               (then_walk (updateFrame ''edge-kind'' ''directory'')
                 (visit_reference c f visit entryPath False entry))))
          else if isFile (sn_stat entry) then
            (if \<not> (wc_mode c \<noteq> Builtins \<or> isBuiltinLibName name) then done_with ()
             else
               then_walk (count_builtin c)
               (then_walk (useEdge c f)
               (then_walk (updateFrame ''edge-name'' name)
               (then_walk (updateFrame ''edge-kind'' ''file'')
                 (visit_reference c f visit entryPath False entry)))))
          else done_with ()))"

definition visitDirectory :: "walk_config \<Rightarrow> tree_fs \<Rightarrow> visitor \<Rightarrow> string \<Rightarrow> bool \<Rightarrow> file_snapshot \<Rightarrow> unit walk" where
  "visitDirectory c f visit p deref observed =
     then_walk (checkElapsed c f) (with_walker (\<lambda>w.
       bind_walk (readDirectoryNames c f p (wc_maxDirectoryEntries c - w_directoryEntryCount w)) (\<lambda>names.
         then_walk (modify (\<lambda>w. w\<lparr>w_directoryEntryCount := w_directoryEntryCount w + length names\<rparr>))
         (then_walk (each (visit_entry c f visit p) names)
         (bind_walk (readDirectoryNames c f p (length names)) (\<lambda>namesAfter.
          then_walk (require (names = namesAfter) ''source-tree directory entries changed during traversal'')
            (requireUnchanged f p deref (sn_stable observed) ''source-tree directory'')))))))"

text \<open>The first argument is the number of levels the depth budget leaves: the depth of the source is
  \<open>maxDepth + 1\<close> less it, and a visit beyond \<open>maxDepth\<close> is one with none left.\<close>

primrec visitNode :: "walk_config \<Rightarrow> tree_fs \<Rightarrow> (string \<Rightarrow> string) \<Rightarrow> nat \<Rightarrow> visitor" where
  "visitNode c f sha 0 p deref observed nid =
     throw (''source-tree traversal-depth budget exceeded ('' @ show_nat (wc_maxDepth c) @ '')'')"
| "visitNode c f sha (Suc k) p deref observed nid =
     (let nkind = nodeKind (sn_stat observed) in
      then_walk (updateFrame ''node-begin'' (show_nat nid))
      (then_walk (updateFrame ''node-kind'' nkind)
      (then_walk (updateFrame ''node-mode'' (modeString (sn_stat observed)))
      (bind_walk (retainVerificationBytes c p) (\<lambda>kept.
       then_walk (modify (\<lambda>w. w\<lparr>w_nodeVerifications :=
           w_nodeVerifications w @ [\<lparr>nv_path = kept, nv_follow = deref, nv_stable = sn_stable observed\<rparr>]\<rparr>))
       (then_walk
         (if nkind = ''file''
          then bind_walk (hashFile c f sha p deref observed) (updateFrame ''content-sha256'')
          else visitDirectory c f (visitNode c f sha k) p deref observed)
         (updateFrame ''node-end'' (show_nat nid))))))))"

definition verify_node :: "walk_config \<Rightarrow> tree_fs \<Rightarrow> node_verification \<Rightarrow> unit walk" where
  "verify_node c f v =
     then_walk (checkElapsed c f) (requireUnchanged f (nv_path v) (nv_follow v) (nv_stable v) ''source-tree physical node'')"

definition verify_symlink :: "walk_config \<Rightarrow> tree_fs \<Rightarrow> symlink_verification \<Rightarrow> unit walk" where
  "verify_symlink c f v =
     then_walk (checkElapsed c f)
     (then_walk (requireUnchanged f (sv_path v) False (sv_stable v) ''source-tree symlink'')
     (bind_walk (readlink f (sv_path v)) (\<lambda>target.
       require (target = sv_rawTarget v) ''source-tree symlink target changed during traversal'')))"

definition verifyFinalState :: "walk_config \<Rightarrow> tree_fs \<Rightarrow> unit walk" where
  "verifyFinalState c f =
     then_walk (with_walker (\<lambda>w. each (verify_node c f) (w_nodeVerifications w)))
       (with_walker (\<lambda>w. each (verify_symlink c f) (w_symlinkVerifications w)))"

section \<open>The fingerprint\<close>

text \<open>The updates of one hash object are the hash of their concatenation.\<close>

definition frame_bytes :: "frame \<Rightarrow> string" where
  "frame_bytes fr = fst fr @ [nul] @ show_nat (length (snd fr)) @ [nul] @ snd fr @ [nul]"

definition aggregate_bytes :: "frame list \<Rightarrow> string" where
  "aggregate_bytes frames = concat (map frame_bytes frames)"

definition tree_root :: "string \<Rightarrow> string" where
  "tree_root tree = (if ends_with tree ''/'' then butlast tree else tree)"

definition new_walker :: "walk_config \<Rightarrow> nat \<Rightarrow> walker" where
  "new_walker c t =
     \<lparr>w_tick = t, w_frames = [(''schema'', ''tsz-source-tree-graph-v3''), (''walk-mode'', mode_text (wc_mode c))],
      w_nodes = [], w_nextNodeId = 0, w_edgeCount = 0, w_contentBytes = 0, w_directoryEntryCount = 0,
      w_verificationPathBytes = 0, w_builtinCount = 0, w_nodeVerifications = [], w_symlinkVerifications = []\<rparr>"

text \<open>The walk of \<open>hash\<close> up to the final verification, and the whole of it.\<close>

definition walk_tree :: "walk_config \<Rightarrow> tree_fs \<Rightarrow> (string \<Rightarrow> string) \<Rightarrow> string \<Rightarrow> unit walk" where
  "walk_tree c f sha tree =
     then_walk (checkElapsed c f)
     (let root = tree_root tree in
      bind_walk (snapshot f root False) (\<lambda>rootObserved.
      then_walk (require (isDirectory (sn_stat rootObserved)) ''source-tree root is not a directory'')
      (bind_walk (claimNode c f rootObserved) (\<lambda>rootReference.
      then_walk (updateFrame ''root-node'' (show_nat (fst rootReference)))
      (then_walk (visitNode c f sha (Suc (wc_maxDepth c)) root False rootObserved (fst rootReference))
      (with_walker (\<lambda>w. require (\<not> (wc_mode c = Builtins \<and> w_builtinCount w = 0))
        ''builtin declaration tree contains no lib*.d.ts files'')))))))"

definition hash_tree :: "walk_config \<Rightarrow> tree_fs \<Rightarrow> (string \<Rightarrow> string) \<Rightarrow> string \<Rightarrow> string walk" where
  "hash_tree c f sha tree =
     then_walk (walk_tree c f sha tree)
     (then_walk (verifyFinalState c f)
     (then_walk (checkElapsed c f)
       (with_walker (\<lambda>w. done_with (sha (aggregate_bytes (w_frames w)))))))"

section \<open>Construction from the environment\<close>

definition safe_limit :: nat where "safe_limit = 9007199254740991"

definition positive_digits :: "string \<Rightarrow> bool" where
  "positive_digits raw \<longleftrightarrow> raw \<noteq> [] \<and> list_all is_digit raw \<and> hd raw \<noteq> CHR ''0''"

text \<open>A text of digits beyond the safe integers is not rounded into them.\<close>

definition readPositiveInteger :: "(string \<Rightarrow> string option) \<Rightarrow> string \<Rightarrow> nat \<Rightarrow> string + nat" where
  "readPositiveInteger env name fallback =
     (case env name of
        None \<Rightarrow> Inr fallback
      | Some raw \<Rightarrow>
          if raw = [] then Inr fallback
          else if \<not> positive_digits raw then Inl (name @ '' must be a positive integer'')
          else if decimal raw > safe_limit then Inl (name @ '' exceeds the safe integer range'')
          else Inr (decimal raw))"

definition readPositiveBigInt :: "(string \<Rightarrow> string option) \<Rightarrow> string \<Rightarrow> nat \<Rightarrow> string + nat" where
  "readPositiveBigInt env name fallback =
     (case env name of
        None \<Rightarrow> Inr fallback
      | Some raw \<Rightarrow>
          if raw = [] then Inr fallback
          else if \<not> positive_digits raw then Inl (name @ '' must be a positive integer'')
          else Inr (decimal raw))"

definition hash_limit :: "string \<Rightarrow> string" where
  "hash_limit name = ''TSZ_PROJECT_SOURCE_HASH_MAX_'' @ name"

fun read_limits :: "(string \<Rightarrow> string option) \<Rightarrow> (string \<times> nat) list \<Rightarrow> string + nat list" where
  "read_limits env [] = Inr []"
| "read_limits env ((n, d) # rest) =
     (case readPositiveInteger env (hash_limit n) d of
        Inl m \<Rightarrow> Inl m
      | Inr v \<Rightarrow> map_sum id (Cons v) (read_limits env rest))"

text \<open>\<open>new SourceGraphWalker(mode)\<close>: the clock is read last.\<close>

definition walker_config :: "(string \<Rightarrow> string option) \<Rightarrow> tree_fs \<Rightarrow> nat \<Rightarrow> walk_mode \<Rightarrow> string + walk_config" where
  "walker_config env f t mode =
     (case read_limits env [(''NODES'', 1000000), (''EDGES'', 3000000), (''DEPTH'', 1024), (''DIRECTORY_ENTRIES'', 2000000),
             (''PATH_BYTES'', 512 * 1024 * 1024)] of
        Inl m \<Rightarrow> Inl m
      | Inr ls \<Rightarrow>
          (case readPositiveBigInt env (hash_limit ''BYTES'') (8 * 1024 * 1024 * 1024) of
             Inl m \<Rightarrow> Inl m
           | Inr maxBytes \<Rightarrow>
               (case readPositiveInteger env (hash_limit ''MILLISECONDS'') 300000 of
                  Inl m \<Rightarrow> Inl m
                | Inr ms \<Rightarrow>
                    Inr \<lparr>wc_mode = mode, wc_maxNodes = ls ! 0, wc_maxEdges = ls ! 1, wc_maxDepth = ls ! 2,
                         wc_maxDirectoryEntries = ls ! 3, wc_maxPathBytes = ls ! 4, wc_maxBytes = int maxBytes,
                         wc_maxElapsedNanoseconds = int ms * 1000000, wc_startedAt = tf_now f t\<rparr>)))"

definition sourceGraphHash ::
  "(string \<Rightarrow> string option) \<Rightarrow> tree_fs \<Rightarrow> (string \<Rightarrow> string) \<Rightarrow> string \<Rightarrow> string \<Rightarrow> string + string" where
  "sourceGraphHash env f sha tree mode =
     (let run = (\<lambda>m. case walker_config env f 0 m of
                       Inl e \<Rightarrow> Inl e
                     | Inr c \<Rightarrow> map_sum id fst (hash_tree c f sha tree (new_walker c 1)))
      in if mode = ''source'' then run Source
         else if mode = ''builtins'' then run Builtins
         else Inl (''unsupported source-tree graph mode: '' @ mode))"

section \<open>Listed trees\<close>

definition listedPathParts :: "string \<Rightarrow> string \<Rightarrow> string + (string \<times> string)" where
  "listedPathParts tree listed =
     (if listed = [] then Inl ''source-tree listing contains an empty path''
      else
        let prefix = tree_root tree @ ''/'' in
        if take (length prefix) listed = prefix then Inr (listed, drop (length prefix) listed)
        else let relative = (if take 2 listed = ''./'' then drop 2 listed else listed) in Inr (prefix @ relative, relative))"

text \<open>\<open>fs.readFileSync\<close> of a path.\<close>

definition read_whole :: "tree_fs \<Rightarrow> string \<Rightarrow> string walk" where
  "read_whole f p =
     bind_walk (call (\<lambda>t. map_sum id (\<lambda>_. (t, p)) (tf_open f t p))) (\<lambda>handle.
     bind_walk (call (\<lambda>t. tf_read f t handle)) (\<lambda>chunks. done_with (concat chunks)))"

definition hashListedPath :: "tree_fs \<Rightarrow> (string \<Rightarrow> string) \<Rightarrow> string \<Rightarrow> bool \<Rightarrow> string \<Rightarrow> unit walk" where
  "hashListedPath f sha tree untrackedOnly listed =
     (case listedPathParts tree listed of
        Inl m \<Rightarrow> throw m
      | Inr (file, relative) \<Rightarrow>
          bind_walk (snapshot f file False) (\<lambda>entry.
          then_walk (updateFrame ''path'' relative)
          (then_walk (updateFrame ''mode'' (modeString (sn_stat entry)))
          (if isSymbolicLink (sn_stat entry) then
             then_walk (updateFrame ''kind'' ''symlink'')
             (bind_walk (readlink f file) (\<lambda>target.
              then_walk (updateFrame ''target'' target)
              (if untrackedOnly then done_with ()
               else
                 bind_walk (snapshot f file True) (\<lambda>resolved.
                 then_walk (require (isFile (sn_stat resolved)) (''listed symlink target is not a file: '' @ relative))
                 (then_walk (updateFrame ''target-mode'' (modeString (sn_stat resolved)))
                 (bind_walk (read_whole f file) (\<lambda>bytes. updateFrame ''content-sha256'' (sha bytes))))))))
           else if isFile (sn_stat entry) then
             then_walk (updateFrame ''kind'' ''file'')
               (bind_walk (read_whole f file) (\<lambda>bytes. updateFrame ''content-sha256'' (sha bytes)))
           else throw (''listed source-tree entry is neither file nor symlink: '' @ relative)))))"

text \<open>The listing arrives in chunks; \<open>take_paths\<close> is the loop over the NULs of one chunk, with what the
  chunks before it left.\<close>

fun take_paths :: "string \<Rightarrow> string \<Rightarrow> string list \<times> string" where
  "take_paths start [] = ([], rev start)"
| "take_paths start (c # s) =
     (if c = nul then
        (let (ps, rest) = take_paths [] s in (if start = [] then ps else rev start # ps, rest))
      else take_paths (c # start) s)"

fun read_chunks :: "string \<Rightarrow> string list \<Rightarrow> string list \<times> string" where
  "read_chunks pending [] = ([], pending)"
| "read_chunks pending (chunk # chunks) =
     (let (ps, rest) = take_paths [] (pending @ chunk); (qs, left) = read_chunks rest chunks in (ps @ qs, left))"

definition readNulPaths :: "string list \<Rightarrow> string + string list" where
  "readNulPaths chunks =
     (let (ps, pending) = read_chunks [] chunks in
      if pending \<noteq> [] then Inl ''source-tree listing is not NUL terminated'' else Inr (sort_strings ps))"

definition listed_start :: walker where
  "listed_start =
     \<lparr>w_tick = 0, w_frames = [(''schema'', ''tsz-listed-tree-v3'')], w_nodes = [], w_nextNodeId = 0, w_edgeCount = 0,
      w_contentBytes = 0, w_directoryEntryCount = 0, w_verificationPathBytes = 0, w_builtinCount = 0,
      w_nodeVerifications = [], w_symlinkVerifications = []\<rparr>"

definition listedTreeHash ::
  "tree_fs \<Rightarrow> (string \<Rightarrow> string) \<Rightarrow> string \<Rightarrow> string + string list \<Rightarrow> bool \<Rightarrow> string + string" where
  "listedTreeHash f sha tree listing untrackedOnly =
     (case listing of
        Inl m \<Rightarrow> Inl m
      | Inr chunks \<Rightarrow>
          (case readNulPaths chunks of
             Inl m \<Rightarrow> Inl m
           | Inr paths \<Rightarrow>
               (case each (hashListedPath f sha tree untrackedOnly) paths listed_start of
                  Inl m \<Rightarrow> Inl m
                | Inr (_, w) \<Rightarrow> Inr (sha (aggregate_bytes (w_frames w))))))"

definition usage_text :: string where
  "usage_text = ''usage: project-source-tree-hash.mjs <tree> <--source-tree|--builtin-libs|<nul-listing> --untracked>''"

text \<open>The text written to standard output, or to standard error with exit code 1.\<close>

definition hash_main ::
  "(string \<Rightarrow> string option) \<Rightarrow> tree_fs \<Rightarrow> (string \<Rightarrow> string) \<Rightarrow> (string \<Rightarrow> string + string list) \<Rightarrow> string list \<Rightarrow>
   string + string" where
  "hash_main env f sha listing_of args =
     (case args of
        tree # operation # rest \<Rightarrow>
          if tree = [] then Inl usage_text
          else if operation = ''--source-tree'' \<and> rest = [] then sourceGraphHash env f sha tree ''source''
          else if operation = ''--builtin-libs'' \<and> rest = [] then sourceGraphHash env f sha tree ''builtins''
          else if operation \<noteq> [] \<and> rest = [''--untracked''] then listedTreeHash f sha tree (listing_of operation) True
          else Inl usage_text
      | _ \<Rightarrow> Inl usage_text)"

end
