(* ===== verification/SourceTreeGraph.thy ===== *)
theory SourceTreeGraph
  imports SourceTreeHash
begin

text \<open>
  What the fingerprint of \<open>SourceTreeHash\<close> stands for. Weakest preconditions carry the proofs: for
  each step of the walk the rules of the collection \<open>walk\<close> say what has to hold before it so that a
  result, if it returns one, satisfies a postcondition. The graph of a tree is specified without
  budgets, clock or repeated observations, and the frames of a successful walk are those of the
  graph; frames can be read back from the hashed bytes, and the graph from the frames.
\<close>

named_theorems walk \<open>weakest preconditions of the steps of the walk\<close>

section \<open>Weakest preconditions\<close>

definition wp :: "'a walk \<Rightarrow> ('a \<Rightarrow> walker \<Rightarrow> bool) \<Rightarrow> walker \<Rightarrow> bool" where
  "wp m Q w = (case m w of Inl _ \<Rightarrow> True | Inr (x, w') \<Rightarrow> Q x w')"

lemma wp_elim: "m w = Inr (x, w') \<Longrightarrow> wp m Q w \<Longrightarrow> Q x w'"
  by (simp add: wp_def)

lemma wp_mono: "wp m Q w \<Longrightarrow> (\<And>x w'. Q x w' \<Longrightarrow> R x w') \<Longrightarrow> wp m R w"
  by (auto simp: wp_def split: sum.splits)

lemma wp_bind [walk]: "wp (bind_walk m k) Q w = wp m (\<lambda>x. wp (k x) Q) w"
  by (auto simp: wp_def bind_walk_def split: sum.splits)

lemma wp_done [walk]: "wp (done_with x) Q w = Q x w"
  by (simp add: wp_def done_with_def)

lemma wp_throw [walk]: "wp (throw m) Q w"
  by (simp add: wp_def throw_def)

lemma wp_require [walk]: "wp (require b m) Q w = (b \<longrightarrow> Q () w)"
  by (simp add: require_def wp_done wp_throw)

lemma wp_modify [walk]: "wp (modify f) Q w = Q () (f w)"
  by (simp add: wp_def modify_def)

lemma wp_call [walk]: "wp (call f) Q w = (\<forall>x. f (w_tick w) = Inr x \<longrightarrow> Q x (w\<lparr>w_tick := Suc (w_tick w)\<rparr>))"
  by (auto simp: wp_def call_def split: sum.splits)

lemma wp_frame [walk]: "wp (updateFrame l v) Q w = Q () (w\<lparr>w_frames := w_frames w @ [(l, v)]\<rparr>)"
  by (simp add: updateFrame_def wp_modify)

lemma wp_if [walk]: "wp (if b then m else n) Q w = (if b then wp m Q w else wp n Q w)"
  by simp

lemma wp_with [walk]: "wp (with_walker k) Q w = wp (k w) Q w"
  by (simp add: wp_def with_walker_def)

lemma wp_each:
  assumes "I [] w" and "\<And>pre x rest w. xs = pre @ x # rest \<Longrightarrow> I pre w \<Longrightarrow> wp (f x) (\<lambda>_. I (pre @ [x])) w"
  shows "wp (each f xs) (\<lambda>_. I xs) w"
proof -
  have "wp (each f rest) (\<lambda>_. I xs) w" if "I pre w" "xs = pre @ rest" for pre rest w
    using that
  proof (induction rest arbitrary: pre w)
    case Nil
    then show ?case by (simp add: walk)
  next
    case (Cons x rest)
    have "wp (f x) (\<lambda>_. I (pre @ [x])) w" by (rule assms(2)[OF Cons.prems(2,1)])
    then show ?case
      by (simp add: walk) (erule wp_mono, rule Cons.IH, auto simp: Cons.prems)
  qed
  from this[of "[]" w xs] assms(1) show ?thesis by simp
qed

definition in_time :: "walk_config \<Rightarrow> tree_fs \<Rightarrow> nat \<Rightarrow> bool" where
  "in_time c f t \<longleftrightarrow> wc_startedAt c \<le> tf_now f t \<and> tf_now f t - wc_startedAt c \<le> wc_maxElapsedNanoseconds c"

lemma wp_checkElapsed [walk]:
  "wp (checkElapsed c f) Q w = (in_time c f (w_tick w) \<longrightarrow> Q () (w\<lparr>w_tick := Suc (w_tick w)\<rparr>))"
  by (auto simp: checkElapsed_def walk Let_def in_time_def)

lemma wp_useEdge [walk]:
  "wp (useEdge c f) Q w =
     (in_time c f (w_tick w) \<longrightarrow> w_edgeCount w < wc_maxEdges c \<longrightarrow>
       Q () (w\<lparr>w_tick := Suc (w_tick w), w_edgeCount := Suc (w_edgeCount w)\<rparr>))"
  by (simp add: useEdge_def walk) (simp add: wp_def Let_def)

lemma wp_retain [walk]:
  "wp (retainVerificationBytes c v) Q w =
     (w_verificationPathBytes w + length v \<le> wc_maxPathBytes c \<longrightarrow>
       Q v (w\<lparr>w_verificationPathBytes := w_verificationPathBytes w + length v\<rparr>))"
  by (simp add: retainVerificationBytes_def wp_def Let_def)

text \<open>What a path is observed to be.\<close>

definition observe :: "tree_fs \<Rightarrow> nat \<Rightarrow> string \<Rightarrow> bool \<Rightarrow> string + file_stat" where
  "observe f t p deref = (if deref then tf_stat f t p else tf_lstat f t p)"

lemma wp_snapshot [walk]:
  "wp (snapshot f p deref) Q w =
     (\<forall>s. observe f (w_tick w) p deref = Inr s \<longrightarrow> Q (snapshotFromStat s) (w\<lparr>w_tick := Suc (w_tick w)\<rparr>))"
  by (simp add: snapshot_def walk observe_def)

lemma snapshot_fields [simp]:
  "sn_stat (snapshotFromStat s) = s" "sn_identity (snapshotFromStat s) = identity_text s"
  "sn_stable (snapshotFromStat s) = stable_text s"
  by (simp_all add: snapshotFromStat_def)

lemma wp_requireUnchanged [walk]:
  "wp (requireUnchanged f p deref before d) Q w =
     (\<forall>s. observe f (w_tick w) p deref = Inr s \<longrightarrow> stable_text s = before \<longrightarrow> Q () (w\<lparr>w_tick := Suc (w_tick w)\<rparr>))"
  by (simp add: requireUnchanged_def walk)

lemma wp_readlink [walk]:
  "wp (readlink f p) Q w = (\<forall>x. tf_readlink f (w_tick w) p = Inr x \<longrightarrow> Q x (w\<lparr>w_tick := Suc (w_tick w)\<rparr>))"
  by (simp add: readlink_def walk)

lemma wp_count_builtin [walk]:
  "wp (count_builtin c) Q w =
     Q () (w\<lparr>w_builtinCount := w_builtinCount w + (if wc_mode c = Builtins then 1 else 0)\<rparr>)"
  by (simp add: count_builtin_def walk)

lemma wp_ticks: "(\<And>t. Q () (w\<lparr>w_tick := t\<rparr>)) \<Longrightarrow> wp (each (\<lambda>_. checkElapsed c f) xs) Q w"
proof (induction xs arbitrary: w)
  case Nil
  have "w\<lparr>w_tick := w_tick w\<rparr> = w" by simp
  then show ?case using Nil[of "w_tick w"] by (simp add: walk)
next
  case (Cons x xs)
  then show ?case by (simp add: walk)
qed

lemma wp_read_entries:
  "(\<And>t. n + length xs \<le> max n limit \<Longrightarrow> Q () (w\<lparr>w_tick := t\<rparr>)) \<Longrightarrow> wp (read_entries c f limit n xs) Q w"
proof (induction xs arbitrary: n w)
  case Nil
  then show ?case by (simp add: walk)
next
  case (Cons x xs)
  have "wp (read_entries c f limit (Suc n) xs) Q (w\<lparr>w_tick := Suc (w_tick w)\<rparr>)" if "n < limit"
    by (rule Cons.IH) (use that Cons.prems in simp)
  then show ?case by (simp add: walk)
qed

lemma wp_readDirectoryNames [walk]:
  assumes "\<And>t names. tf_readdir f (w_tick w) p = Inr names \<Longrightarrow> length names \<le> limit \<Longrightarrow> Q (sort_strings names) (w\<lparr>w_tick := t\<rparr>)"
  shows "wp (readDirectoryNames c f p limit) Q w"
  unfolding readDirectoryNames_def
  by (simp add: walk, intro allI impI, rule wp_read_entries) (use assms in \<open>simp add: walk\<close>)

lemma wp_hashFile [walk]:
  assumes "\<And>t t1 t2 chunks. w_contentBytes w + fs_size (sn_stat observed) \<le> wc_maxBytes c \<Longrightarrow>
      tf_read f t2 (t1, p) = Inr chunks \<Longrightarrow> int (length (concat chunks)) = fs_size (sn_stat observed) \<Longrightarrow>
      Q (sha (concat chunks)) (w\<lparr>w_contentBytes := w_contentBytes w + int (length (concat chunks)), w_tick := t\<rparr>)"
  shows "wp (hashFile c f sha p deref observed) Q w"
proof -
  have o: "map_sum id (\<lambda>_. (t, p)) x = Inr h \<longleftrightarrow> x = Inr () \<and> h = (t, p)" for t x and h :: open_file
    by (cases x) auto
  show ?thesis
    unfolding hashFile_def
    by (simp add: walk Let_def o, intro impI allI, rule wp_ticks) (use assms in \<open>simp add: walk\<close>)
qed

section \<open>Budgets, and what the final verification covers\<close>

definition within :: "walk_config \<Rightarrow> walker \<Rightarrow> bool" where
  "within c w \<longleftrightarrow> w_nextNodeId w \<le> wc_maxNodes c \<and> w_edgeCount w \<le> wc_maxEdges c \<and> w_contentBytes w \<le> wc_maxBytes c \<and>
     w_verificationPathBytes w \<le> wc_maxPathBytes c \<and> w_directoryEntryCount w \<le> wc_maxDirectoryEntries c"

text \<open>The observation behind a node that was claimed.\<close>

definition observed_as :: "string \<times> nat \<Rightarrow> string \<Rightarrow> bool" where
  "observed_as node st \<longleftrightarrow> (\<exists>s. identity_text s = fst node \<and> stable_text s = st)"

text \<open>Every node claimed is noted for the final verification, but those of \<open>pend\<close>.\<close>

definition kept :: "walk_config \<Rightarrow> string list \<Rightarrow> walker \<Rightarrow> bool" where
  "kept c pend w \<longleftrightarrow> within c w \<and> map snd (w_nodes w) = [0..<w_nextNodeId w] \<and>
     list_all2 observed_as (w_nodes w) (map nv_stable (w_nodeVerifications w) @ pend)"

lemma kept_tick [simp]:
  "kept c pend (w\<lparr>w_tick := t\<rparr>) = kept c pend w"
  "kept c pend (w\<lparr>w_frames := fr\<rparr>) = kept c pend w"
  "kept c pend (w\<lparr>w_builtinCount := n\<rparr>) = kept c pend w"
  "kept c pend (w\<lparr>w_symlinkVerifications := vs\<rparr>) = kept c pend w"
  by (simp_all add: kept_def within_def)

lemma kept_budgets [simp]:
  "kept c pend w \<Longrightarrow> n \<le> wc_maxEdges c \<Longrightarrow> kept c pend (w\<lparr>w_edgeCount := n\<rparr>)"
  "kept c pend w \<Longrightarrow> b \<le> wc_maxBytes c \<Longrightarrow> kept c pend (w\<lparr>w_contentBytes := b\<rparr>)"
  "kept c pend w \<Longrightarrow> n \<le> wc_maxPathBytes c \<Longrightarrow> kept c pend (w\<lparr>w_verificationPathBytes := n\<rparr>)"
  "kept c pend w \<Longrightarrow> n \<le> wc_maxDirectoryEntries c \<Longrightarrow> kept c pend (w\<lparr>w_directoryEntryCount := n\<rparr>)"
  by (simp_all add: kept_def within_def)

lemma kept_noted [simp]:
  "kept c [nv_stable v] w \<Longrightarrow> w_nodeVerifications w = vs \<Longrightarrow> kept c [] (w\<lparr>w_nodeVerifications := vs @ [v]\<rparr>)"
  by (simp add: kept_def within_def)

lemma map_set_new: "map_get m k = None \<Longrightarrow> map_set k v m = m @ [(k, v)]"
  by (induction m) (auto simp: map_set_def map_get_def split: if_splits)

lemma wp_claimNode:
  assumes k: "kept c [] w" and s: "observed = snapshotFromStat s"
    and q: "\<And>w' n. map_get (w_nodes w) (identity_text s) = Some n \<Longrightarrow> kept c [] w' \<Longrightarrow> Q (n, False) w'"
      "\<And>w' n. kept c [stable_text s] w' \<Longrightarrow> Q (n, True) w'"
  shows "wp (claimNode c f observed) Q w"
proof -
  let ?w = "w\<lparr>w_tick := Suc (w_tick w)\<rparr>" and ?i = "identity_text s" and ?n = "w_nextNodeId w"
  have kw: "kept c [] ?w" using k by simp
  have new: "kept c [stable_text s] (?w\<lparr>w_nextNodeId := Suc ?n, w_nodes := map_set ?i ?n (w_nodes w)\<rparr>)"
    if "map_get (w_nodes w) ?i = None" "Suc ?n \<le> wc_maxNodes c"
  proof -
    have "map_set ?i ?n (w_nodes w) = w_nodes w @ [(?i, ?n)]"
      by (rule map_set_new[OF that(1)])
    moreover have "observed_as (?i, ?n) (stable_text s)" by (auto simp: observed_as_def)
    ultimately show ?thesis using k that(2) by (simp add: kept_def within_def list_all2_appendI)
  qed
  show ?thesis
    unfolding claimNode_def wp_bind wp_checkElapsed
    using q(1)[OF _ kw] q(2)[OF new] s by (simp add: wp_def Let_def split: option.split)
qed

text \<open>The interface of a visit, and what the code around it makes of it.\<close>

locale kept_visitor =
  fixes c :: walk_config and visit :: visitor
  assumes visit_kept: "kept c [stable_text s] w \<Longrightarrow> wp (visit p deref (snapshotFromStat s) n) (\<lambda>_. kept c []) w"
begin

lemma reference_kept: "kept c [] w \<Longrightarrow> wp (visit_reference c f visit p deref (snapshotFromStat s)) (\<lambda>_. kept c []) w"
  unfolding visit_reference_def
  by (simp add: walk, intro impI, rule wp_claimNode[OF _ refl])
    (auto simp: walk intro: visit_kept)

lemma symlink_kept:
  assumes "kept c [] w"
  shows "wp (visitSymlink c f visit p name (snapshotFromStat s)) (\<lambda>_. kept c []) w"
  unfolding visitSymlink_def
  using assms by (auto simp: walk Let_def intro!: wp_mono[OF reference_kept])

lemma entry_kept: "kept c [] w \<Longrightarrow> wp (visit_entry c f visit p name) (\<lambda>_. kept c []) w"
  unfolding visit_entry_def
  by (auto simp: walk Let_def intro!: symlink_kept wp_mono[OF reference_kept])

lemma entries_kept: "kept c [] w \<Longrightarrow> wp (each (visit_entry c f visit p) names) (\<lambda>_. kept c []) w"
  by (rule wp_each[where I = "\<lambda>_. kept c []"]) (auto intro: entry_kept)

lemma directory_kept:
  assumes "kept c [] w"
  shows "wp (visitDirectory c f visit p deref observed) (\<lambda>_. kept c []) w"
proof -
  have le: "w_directoryEntryCount w + n \<le> wc_maxDirectoryEntries c" if "n \<le> wc_maxDirectoryEntries c - w_directoryEntryCount w" for n
    using that assms by (auto simp: kept_def within_def)
  show ?thesis
    unfolding visitDirectory_def
    using assms
    by (auto simp: walk Let_def le sort_strings_def intro!: wp_readDirectoryNames wp_mono[OF entries_kept])
qed

end

interpretation nodes_kept: kept_visitor c "visitNode c f sha k" for c f sha k
proof (unfold_locales, induction k)
  case 0
  show ?case by (simp add: walk)
next
  case (Suc k)
  have v: "kept_visitor c (visitNode c f sha k)" by unfold_locales (rule Suc.IH)
  show ?case using Suc.prems
    by (auto simp: walk Let_def intro!: wp_hashFile wp_mono[OF kept_visitor.directory_kept[OF v]])
qed

lemma walk_tree_kept:
  assumes "0 \<le> wc_maxBytes c"
  shows "wp (walk_tree c f sha tree) (\<lambda>_. kept c []) (new_walker c t)"
proof -
  have k: "kept c [] (new_walker c t)" using assms by (simp add: kept_def within_def new_walker_def)
  have "w_nodes (new_walker c t) = []" by (simp add: new_walker_def)
  with k show ?thesis
    unfolding walk_tree_def
    by (auto simp: walk Let_def simp del: visitNode.simps intro!: wp_claimNode[OF _ refl] wp_mono[OF nodes_kept.visit_kept])
qed

lemma stable_text_inject: "stable_text s = stable_text s' \<longleftrightarrow> s = s'"
proof
  assume e: "stable_text s = stable_text s'"
  let ?fs = "\<lambda>s. map show_int [fs_dev s, fs_ino s, int (fs_mode s), fs_nlink s, fs_size s, fs_mtimeNs s, fs_ctimeNs s]"
  have "CHR '':'' \<notin> set (show_int i)" for i using show_int_chars[of i] by (auto simp: is_digit_def)
  then have "split_on '':'' (stable_text x) = ?fs x" for x
    unfolding stable_text_def by (intro split_on_join) auto
  then have "?fs s = ?fs s'" using e by metis
  then show "s = s'" by (simp add: file_stat.equality)
qed simp

text \<open>The verification moves the clock only.\<close>

definition later :: "walker \<Rightarrow> walker \<Rightarrow> bool" where
  "later w w' \<longleftrightarrow> (\<exists>t. w_tick w \<le> t \<and> w' = w\<lparr>w_tick := t\<rparr>)"

lemma later_refl [simp]: "later w w"
  unfolding later_def by (intro exI[of _ "w_tick w"]) simp

lemma later_step: "later w w' \<Longrightarrow> w_tick w' \<le> t \<Longrightarrow> later w (w'\<lparr>w_tick := t\<rparr>)"
  unfolding later_def by (elim exE conjE, intro exI[of _ t]) simp

text \<open>A path looked like this at some call from \<open>lo\<close> to before \<open>hi\<close>.\<close>

definition seen_between :: "tree_fs \<Rightarrow> nat \<Rightarrow> nat \<Rightarrow> string \<Rightarrow> bool \<Rightarrow> string \<Rightarrow> bool" where
  "seen_between f lo hi p deref st \<longleftrightarrow>
     (\<exists>t s. lo \<le> t \<and> t < hi \<and> observe f t p deref = Inr s \<and> stable_text s = st)"

lemma seen_at:
  "observe f t p deref = Inr s \<Longrightarrow> stable_text s = st \<Longrightarrow> lo \<le> t \<Longrightarrow> t < hi \<Longrightarrow> seen_between f lo hi p deref st"
  unfolding seen_between_def by blast

lemma later_trans: "later w w1 \<Longrightarrow> later w1 w' \<Longrightarrow> later w w'"
  unfolding later_def by (elim exE conjE) (rule_tac x = "w_tick w'" in exI, simp)

lemma later_tick: "later w w' \<Longrightarrow> w_tick w \<le> w_tick w'"
  by (auto simp: later_def)

lemma seen_between_mono: "seen_between f lo hi p d st \<Longrightarrow> lo' \<le> lo \<Longrightarrow> hi \<le> hi' \<Longrightarrow> seen_between f lo' hi' p d st"
  unfolding seen_between_def by (metis le_trans less_le_trans)

definition link_between :: "tree_fs \<Rightarrow> nat \<Rightarrow> nat \<Rightarrow> symlink_verification \<Rightarrow> bool" where
  "link_between f lo hi v \<longleftrightarrow> seen_between f lo hi (sv_path v) False (sv_stable v) \<and>
     (\<exists>t. lo \<le> t \<and> t < hi \<and> tf_readlink f t (sv_path v) = Inr (sv_rawTarget v))"

lemma link_between_mono: "link_between f lo hi v \<Longrightarrow> lo' \<le> lo \<Longrightarrow> hi \<le> hi' \<Longrightarrow> link_between f lo' hi' v"
  unfolding link_between_def by (meson le_trans less_le_trans seen_between_mono)

lemma wp_verify_nodes:
  "wp (each (verify_node c f) vs)
     (\<lambda>_ w'. later w w' \<and> (\<forall>v \<in> set vs. seen_between f (w_tick w) (w_tick w') (nv_path v) (nv_follow v) (nv_stable v))) w"
proof (rule wp_each[where I = "\<lambda>vs w'. later w w' \<and>
    (\<forall>v \<in> set vs. seen_between f (w_tick w) (w_tick w') (nv_path v) (nv_follow v) (nv_stable v))"])
  fix pre rest :: "node_verification list" and v :: node_verification and w' :: walker
  assume I: "later w w' \<and> (\<forall>v \<in> set pre. seen_between f (w_tick w) (w_tick w') (nv_path v) (nv_follow v) (nv_stable v))"
  then have "later w (w'\<lparr>w_tick := Suc (Suc (w_tick w'))\<rparr>)" by (simp add: later_step)
  moreover have "seen_between f (w_tick w) (Suc (Suc (w_tick w'))) (nv_path v) (nv_follow v) (nv_stable v)"
    if "observe f (Suc (w_tick w')) (nv_path v) (nv_follow v) = Inr s" "stable_text s = nv_stable v" for s
    using that I later_tick[of w w'] by (intro seen_at[OF that]) simp_all
  ultimately show "wp (verify_node c f v) (\<lambda>_ w'. later w w' \<and>
      (\<forall>v \<in> set (pre @ [v]). seen_between f (w_tick w) (w_tick w') (nv_path v) (nv_follow v) (nv_stable v))) w'"
    using I by (auto simp: verify_node_def walk elim!: seen_between_mono)
qed simp

lemma wp_verify_symlinks:
  "wp (each (verify_symlink c f) vs) (\<lambda>_ w'. later w w' \<and> (\<forall>v \<in> set vs. link_between f (w_tick w) (w_tick w') v)) w"
proof (rule wp_each[where I = "\<lambda>vs w'. later w w' \<and> (\<forall>v \<in> set vs. link_between f (w_tick w) (w_tick w') v)"])
  fix pre v rest w'
  assume I: "later w w' \<and> (\<forall>v \<in> set pre. link_between f (w_tick w) (w_tick w') v)"
  let ?hi = "Suc (Suc (Suc (w_tick w')))"
  from I have "later w (w'\<lparr>w_tick := ?hi\<rparr>)" by (simp add: later_step)
  moreover have "link_between f (w_tick w) ?hi v"
    if "observe f (Suc (w_tick w')) (sv_path v) False = Inr s" "stable_text s = sv_stable v"
      "tf_readlink f (Suc (Suc (w_tick w'))) (sv_path v) = Inr (sv_rawTarget v)" for s
    using that(3) I later_tick[of w w'] unfolding link_between_def
    by (intro conjI seen_at[OF that(1,2)] exI[of _ "Suc (Suc (w_tick w'))"]) simp_all
  ultimately show "wp (verify_symlink c f v)
      (\<lambda>_ w'. later w w' \<and> (\<forall>v \<in> set (pre @ [v]). link_between f (w_tick w) (w_tick w') v)) w'"
    using I by (auto simp: verify_symlink_def walk elim!: link_between_mono)
qed simp

lemma wp_verifyFinalState:
  "wp (verifyFinalState c f)
     (\<lambda>_ w'. later w w' \<and>
       (\<forall>v \<in> set (w_nodeVerifications w). seen_between f (w_tick w) (w_tick w') (nv_path v) (nv_follow v) (nv_stable v)) \<and>
       (\<forall>v \<in> set (w_symlinkVerifications w). link_between f (w_tick w) (w_tick w') v)) w"
proof -
  let ?N = "\<lambda>w'. \<forall>v \<in> set (w_nodeVerifications w). seen_between f (w_tick w) (w_tick w') (nv_path v) (nv_follow v) (nv_stable v)"
  have l: "later w w' \<and> ?N w' \<and> (\<forall>v \<in> set (w_symlinkVerifications w). link_between f (w_tick w) (w_tick w') v)"
    if n: "later w w1 \<and> ?N w1"
      and s: "later w1 w' \<and> (\<forall>v \<in> set (w_symlinkVerifications w1). link_between f (w_tick w1) (w_tick w') v)" for w1 w'
  proof -
    have t: "w_tick w \<le> w_tick w1" "w_tick w1 \<le> w_tick w'" using n s by (auto dest: later_tick)
    have "w_symlinkVerifications w1 = w_symlinkVerifications w" using n by (auto simp: later_def)
    moreover have "later w w'" using n s later_trans by blast
    ultimately show ?thesis using n s t by (auto elim: seen_between_mono link_between_mono)
  qed
  show ?thesis
    unfolding verifyFinalState_def wp_bind wp_with
    by (rule wp_mono[OF wp_verify_nodes], rule wp_mono[OF wp_verify_symlinks], rule l)
qed

lemma list_all2_mem: "list_all2 P xs ys \<Longrightarrow> x \<in> set xs \<Longrightarrow> \<exists>y \<in> set ys. P x y"
  by (induction rule: list_all2_induct) auto

text \<open>A node of the walk and the last observation of it.\<close>

lemma kept_identity:
  assumes k: "kept c [] w" and n: "(node, n) \<in> set (w_nodes w)"
    and v: "\<forall>v \<in> set (w_nodeVerifications w). seen_between f lo hi (nv_path v) (nv_follow v) (nv_stable v)"
  shows "\<exists>p deref t s. lo \<le> t \<and> t < hi \<and> observe f t p deref = Inr s \<and> identity_text s = node"
proof -
  from k have "list_all2 observed_as (w_nodes w) (map nv_stable (w_nodeVerifications w))" by (simp add: kept_def)
  from list_all2_mem[OF this n] obtain st where "observed_as (node, n) st" "st \<in> set (map nv_stable (w_nodeVerifications w))"
    by blast
  then obtain s v where s: "identity_text s = node" "stable_text s = nv_stable v" "v \<in> set (w_nodeVerifications w)"
    by (auto simp: observed_as_def)
  from v s(3) obtain t s' where t: "lo \<le> t" "t < hi" "observe f t (nv_path v) (nv_follow v) = Inr s'" "stable_text s' = nv_stable v"
    unfolding seen_between_def by blast
  have "s' = s" using t(4) s(2) stable_text_inject by metis
  then show ?thesis using t(1-3) s(1) by blast
qed


section \<open>The graph of a tree that holds still\<close>

text \<open>An edge has the name of its entry, its kind, and for a symbolic link its mode and target; it leads to a
  node met before, or to a new one with its number, its mode and its content or its edges.\<close>

type_synonym gedge = "string \<times> string \<times> (string \<times> string) option"

datatype gnode =
    Seen nat
  | FileNode nat string string
  | DirNode nat string "(gedge \<times> gnode) list"

type_synonym node_ids = "(string \<times> nat) list"

definition quiet :: "tree_fs \<Rightarrow> bool" where
  "quiet f \<longleftrightarrow>
     (\<forall>t p. tf_lstat f t p = tf_lstat f 0 p \<and> tf_stat f t p = tf_stat f 0 p \<and> tf_readlink f t p = tf_readlink f 0 p \<and>
        tf_readdir f t p = tf_readdir f 0 p) \<and>
     (\<forall>t t' p. tf_read f t (t', p) = tf_read f 0 (0, p))"

definition file_content :: "tree_fs \<Rightarrow> string \<Rightarrow> string" where
  "file_content f p = (case tf_read f 0 (0, p) of Inr chunks \<Rightarrow> concat chunks | Inl _ \<Rightarrow> [])"

definition directory_names :: "tree_fs \<Rightarrow> string \<Rightarrow> string list" where
  "directory_names f p = (case tf_readdir f 0 p of Inr names \<Rightarrow> sort_strings names | Inl _ \<Rightarrow> [])"

text \<open>Which entries of a directory are edges: in builtin mode the library declarations only, never
  the metadata of the repository.\<close>

definition edge_at :: "walk_mode \<Rightarrow> tree_fs \<Rightarrow> string \<Rightarrow> string \<Rightarrow> (gedge \<times> file_stat) option" where
  "edge_at mode f p name =
     (if name = ''.git'' then None
      else
        case tf_lstat f 0 (joinRaw p name) of
          Inl _ \<Rightarrow> None
        | Inr s \<Rightarrow>
            if isSymbolicLink s then
              (case (tf_readlink f 0 (joinRaw p name), tf_stat f 0 (joinRaw p name)) of
                 (Inr target, Inr t) \<Rightarrow>
                   if mode = Builtins \<and> (\<not> isBuiltinLibName name \<or> nodeKind t \<noteq> ''file'') then None
                   else Some ((name, ''symlink'', Some (modeString s, target)), t)
               | _ \<Rightarrow> None)
            else if isDirectory s then (if mode = Builtins then None else Some ((name, ''directory'', None), s))
            else if isFile s then (if mode = Builtins \<and> \<not> isBuiltinLibName name then None else Some ((name, ''file'', None), s))
            else None)"

type_synonym grapher = "string \<Rightarrow> file_stat \<Rightarrow> nat \<Rightarrow> node_ids \<Rightarrow> gnode \<times> node_ids"

definition graph_ref :: "grapher \<Rightarrow> string \<Rightarrow> file_stat \<Rightarrow> node_ids \<Rightarrow> gnode \<times> node_ids" where
  "graph_ref g p s ids =
     (case map_get ids (identity_text s) of
        Some n \<Rightarrow> (Seen n, ids)
      | None \<Rightarrow> g p s (length ids) (map_set (identity_text s) (length ids) ids))"

fun graph_edges :: "walk_mode \<Rightarrow> tree_fs \<Rightarrow> grapher \<Rightarrow> string \<Rightarrow> string list \<Rightarrow> node_ids \<Rightarrow> (gedge \<times> gnode) list \<times> node_ids" where
  "graph_edges mode f g p [] ids = ([], ids)"
| "graph_edges mode f g p (name # names) ids =
     (case edge_at mode f p name of
        None \<Rightarrow> graph_edges mode f g p names ids
      | Some (e, s) \<Rightarrow>
          let (n, ids1) = graph_ref g (joinRaw p name) s ids; (es, ids2) = graph_edges mode f g p names ids1
          in ((e, n) # es, ids2))"

primrec graph_node :: "walk_mode \<Rightarrow> tree_fs \<Rightarrow> nat \<Rightarrow> grapher" where
  "graph_node mode f 0 p s n ids = (Seen n, ids)"
| "graph_node mode f (Suc k) p s n ids =
     (if nodeKind s = ''file'' then (FileNode n (modeString s) (file_content f p), ids)
      else let (es, ids') = graph_edges mode f (graph_node mode f k) p (directory_names f p) ids
           in (DirNode n (modeString s) es, ids'))"

definition tree_graph :: "walk_config \<Rightarrow> tree_fs \<Rightarrow> string \<Rightarrow> gnode" where
  "tree_graph c f tree =
     (case tf_lstat f 0 (tree_root tree) of
        Inl _ \<Rightarrow> Seen 0
      | Inr s \<Rightarrow> fst (graph_node (wc_mode c) f (Suc (wc_maxDepth c)) (tree_root tree) s 0 [(identity_text s, 0)]))"

text \<open>The frames of a graph.\<close>

definition edge_frames :: "gedge \<Rightarrow> frame list" where
  "edge_frames e =
     [(''edge-name'', fst e), (''edge-kind'', fst (snd e))] @
     (case snd (snd e) of None \<Rightarrow> [] | Some (m, t) \<Rightarrow> [(''symlink-mode'', m), (''symlink-target'', t)])"

fun ref_frames :: "gnode \<Rightarrow> frame list" where
  "ref_frames (Seen n) = [(''target-node'', show_nat n), (''target-reference'', ''backref'')]"
| "ref_frames (FileNode n m x) = [(''target-node'', show_nat n), (''target-reference'', ''new'')]"
| "ref_frames (DirNode n m es) = [(''target-node'', show_nat n), (''target-reference'', ''new'')]"

fun node_frames :: "(string \<Rightarrow> string) \<Rightarrow> gnode \<Rightarrow> frame list" where
  "node_frames sha (Seen n) = []"
| "node_frames sha (FileNode n m x) =
     [(''node-begin'', show_nat n), (''node-kind'', ''file''), (''node-mode'', m), (''content-sha256'', sha x), (''node-end'', show_nat n)]"
| "node_frames sha (DirNode n m es) =
     [(''node-begin'', show_nat n), (''node-kind'', ''directory''), (''node-mode'', m)] @
     concat (map (\<lambda>e. edge_frames (fst e) @ ref_frames (snd e) @ node_frames sha (snd e)) es) @
     [(''node-end'', show_nat n)]"

definition edges_frames :: "(string \<Rightarrow> string) \<Rightarrow> (gedge \<times> gnode) list \<Rightarrow> frame list" where
  "edges_frames sha es = concat (map (\<lambda>e. edge_frames (fst e) @ ref_frames (snd e) @ node_frames sha (snd e)) es)"

section \<open>The walk draws the graph\<close>

definition drawn :: "frame list \<Rightarrow> node_ids \<Rightarrow> walker \<Rightarrow> bool" where
  "drawn fr ids w \<longleftrightarrow> w_frames w = fr \<and> w_nodes w = ids \<and> w_nextNodeId w = length ids"

lemma drawn_other [simp]:
  "drawn fr ids (w\<lparr>w_tick := t\<rparr>) = drawn fr ids w"
  "drawn fr ids (w\<lparr>w_edgeCount := n\<rparr>) = drawn fr ids w"
  "drawn fr ids (w\<lparr>w_contentBytes := b\<rparr>) = drawn fr ids w"
  "drawn fr ids (w\<lparr>w_verificationPathBytes := n\<rparr>) = drawn fr ids w"
  "drawn fr ids (w\<lparr>w_directoryEntryCount := n\<rparr>) = drawn fr ids w"
  "drawn fr ids (w\<lparr>w_builtinCount := n\<rparr>) = drawn fr ids w"
  "drawn fr ids (w\<lparr>w_nodeVerifications := vs\<rparr>) = drawn fr ids w"
  "drawn fr ids (w\<lparr>w_symlinkVerifications := ls\<rparr>) = drawn fr ids w"
  by (simp_all add: drawn_def)

lemma drawn_frames [simp]:
  "drawn fr ids w \<Longrightarrow> drawn fr' ids (w\<lparr>w_frames := w_frames w @ xs\<rparr>) \<longleftrightarrow> fr' = fr @ xs"
  by (auto simp: drawn_def)

lemma drawn_self: "w_nodes w = ids \<Longrightarrow> w_nextNodeId w = length ids \<Longrightarrow> drawn (w_frames w) ids w"
  by (simp add: drawn_def)

lemma wp_claim_draws:
  assumes "drawn fr ids w"
    and "\<And>w' n. map_get ids (identity_text s) = Some n \<Longrightarrow> drawn fr ids w' \<Longrightarrow> Q (n, False) w'"
    and "\<And>w'. map_get ids (identity_text s) = None \<Longrightarrow>
      drawn fr (map_set (identity_text s) (length ids) ids) w' \<Longrightarrow> Q (length ids, True) w'"
  shows "wp (claimNode c f (snapshotFromStat s)) Q w"
proof -
  have "drawn fr (map_set (identity_text s) (length ids) ids)
      (w\<lparr>w_tick := t, w_nextNodeId := Suc (length ids), w_nodes := map_set (identity_text s) (length ids) ids\<rparr>)"
    if "map_get ids (identity_text s) = None" for t
    using assms(1) by (simp add: drawn_def map_set_new[OF that])
  then show ?thesis
    using assms unfolding claimNode_def wp_bind wp_checkElapsed
    by (auto simp: wp_def Let_def drawn_def split: option.split)
qed

definition fresh :: "nat \<Rightarrow> gnode \<Rightarrow> bool" where
  "fresh n g \<longleftrightarrow> ref_frames g = [(''target-node'', show_nat n), (''target-reference'', ''new'')]"

lemma still_calls:
  assumes q: "quiet f"
  shows
  "observe f t p False = tf_lstat f 0 p" "observe f t p True = tf_stat f 0 p" "tf_readlink f t p = tf_readlink f 0 p"
  "tf_readdir f t p = tf_readdir f 0 p" "tf_read f t (t', p) = tf_read f 0 (0, p)"
  using q unfolding quiet_def observe_def if_True if_False by blast+

locale drawing_visitor =
  fixes f :: tree_fs and sha :: "string \<Rightarrow> string" and visit :: visitor and g :: grapher
  assumes visit_draws: "quiet f \<Longrightarrow> drawn fr ids w \<Longrightarrow> nodeKind s \<noteq> ''unsupported'' \<Longrightarrow>
      wp (visit p deref (snapshotFromStat s) n)
        (\<lambda>_ w'. fresh n (fst (g p s n ids)) \<and> drawn (fr @ node_frames sha (fst (g p s n ids))) (snd (g p s n ids)) w') w"
begin

lemma reference_draws:
  assumes q: "quiet f" and d: "drawn fr ids w" and r: "graph_ref g p s ids = (x, ids')"
  shows "wp (visit_reference c f visit p deref (snapshotFromStat s))
    (\<lambda>_. drawn (fr @ ref_frames x @ node_frames sha x) ids') w"
  unfolding visit_reference_def
proof (simp add: walk, intro impI, rule wp_claim_draws[OF d], goal_cases)
  case (1 w' n)
  then have "x = Seen n" "ids' = ids" using r by (simp_all add: graph_ref_def)
  with 1(3) show ?case by (simp add: walk)
next
  case (2 w')
  let ?ids = "map_set (identity_text s) (length ids) ids"
  have r': "g p s (length ids) ?ids = (x, ids')" using 2(2) r by (simp add: graph_ref_def)
  let ?fr = "fr @ [(''target-node'', show_nat (length ids)), (''target-reference'', ''new'')]"
  have "drawn ?fr ?ids (w'\<lparr>w_frames := w_frames w' @ [(''target-node'', show_nat (length ids)), (''target-reference'', ''new'')]\<rparr>)"
    using 2(3) by simp
  from visit_draws[OF q this 2(1), of p deref "length ids"] show ?case
    by (simp add: walk r') (erule wp_mono, simp add: fresh_def)
qed

lemmas reference_at = reference_draws[OF _ drawn_self]

lemma symlink_draws:
  assumes q: "quiet f" and d: "drawn fr ids w" and e: "tf_readlink f 0 p = Inr target" "tf_stat f 0 p = Inr t"
    and n: "\<not> (wc_mode c = Builtins \<and> nodeKind t \<noteq> ''file'')" and r: "graph_ref g p t ids = (x, ids')"
  shows "wp (visitSymlink c f visit p name (snapshotFromStat s))
    (\<lambda>_. drawn (fr @ edge_frames (name, ''symlink'', Some (modeString s, target)) @ ref_frames x @ node_frames sha x) ids') w"
proof -
  have l: "tf_readlink f u p = Inr target" and t: "observe f u p True = Inr t" for u
    by (rule trans[OF still_calls(3)[OF q] e(1)], rule trans[OF still_calls(2)[OF q] e(2)])
  from d have w: "w_frames w = fr" "w_nodes w = ids" "w_nextNodeId w = length ids" by (simp_all add: drawn_def)
  show ?thesis
    unfolding visitSymlink_def
    using w n by (auto simp: walk Let_def l t edge_frames_def intro!: wp_mono[OF reference_at[OF q _ _ r]])
qed

lemma entry_draws:
  assumes q: "quiet f" and d: "drawn fr ids w" and e: "edge_at (wc_mode c) f p name = Some (e, s)"
    and r: "graph_ref g (joinRaw p name) s ids = (x, ids')"
  shows "wp (visit_entry c f visit p name) (\<lambda>_. drawn (fr @ edge_frames e @ ref_frames x @ node_frames sha x) ids') w"
proof -
  let ?p = "joinRaw p name"
  from d have w: "w_frames w = fr" "w_nodes w = ids" "w_nextNodeId w = length ids" by (simp_all add: drawn_def)
  from e have name: "name \<noteq> ''.git''" by (auto simp: edge_at_def)
  with e obtain s0 where s0: "tf_lstat f 0 ?p = Inr s0" by (auto simp: edge_at_def split: sum.splits)
  have l: "observe f u ?p False = Inr s0" for u by (rule trans[OF still_calls(1)[OF q] s0])
  show ?thesis
  proof (cases "isSymbolicLink s0")
    case True
    with e name s0 obtain target where t: "tf_readlink f 0 ?p = Inr target" "tf_stat f 0 ?p = Inr s"
      "e = (name, ''symlink'', Some (modeString s0, target))"
      "\<not> (wc_mode c = Builtins \<and> (\<not> isBuiltinLibName name \<or> nodeKind s \<noteq> ''file''))"
      by (auto simp: edge_at_def split: sum.splits if_splits)
    then have n: "\<not> (wc_mode c = Builtins \<and> nodeKind s \<noteq> ''file'')" by blast
    show ?thesis
      unfolding visit_entry_def using name True t(4) d
      by (auto simp: walk Let_def l t(3) intro!: symlink_draws[OF q _ t(1,2) n r])
  next
    case False
    with e name s0 show ?thesis
      unfolding visit_entry_def using w r
      by (auto simp: walk Let_def l edge_at_def edge_frames_def split: if_splits intro!: wp_mono[OF reference_at[OF q]])
  qed
qed

lemma no_entry_draws:
  assumes q: "quiet f" and d: "drawn fr ids w" and e: "edge_at (wc_mode c) f p name = None"
  shows "wp (visit_entry c f visit p name) (\<lambda>_. drawn fr ids) w"
proof (cases "name = ''.git'' \<or> (\<forall>s. tf_lstat f 0 (joinRaw p name) \<noteq> Inr s)")
  case True
  have "tf_lstat f 0 (joinRaw p name) = Inr s" if "observe f u (joinRaw p name) False = Inr s" for u s
    using that still_calls(1)[OF q] by metis
  with True d show ?thesis by (auto simp: visit_entry_def walk Let_def)
next
  case False
  let ?p = "joinRaw p name"
  from False obtain s where s: "tf_lstat f 0 ?p = Inr s" "name \<noteq> ''.git''" by blast
  have l: "observe f u ?p False = Inr s" for u by (rule trans[OF still_calls(1)[OF q] s(1)])
  define target resolved where "target = tf_readlink f 0 ?p" and "resolved = tf_stat f 0 ?p"
  then have r: "tf_readlink f u ?p = target" "observe f u ?p True = resolved" "tf_stat f 0 ?p = resolved" for u
    using still_calls(2,3)[OF q] by simp_all
  show ?thesis
  proof (cases "isSymbolicLink s")
    case True
    with e s d show ?thesis
      by (auto simp: edge_at_def visit_entry_def visitSymlink_def walk Let_def l r split: if_splits sum.splits)
  next
    case False
    with e s d show ?thesis by (auto simp: edge_at_def visit_entry_def walk Let_def l split: if_splits)
  qed
qed

lemma edges_draw:
  "quiet f \<Longrightarrow> drawn fr ids w \<Longrightarrow> graph_edges (wc_mode c) f g p names ids = (es, ids') \<Longrightarrow>
   wp (each (visit_entry c f visit p) names) (\<lambda>_. drawn (fr @ edges_frames sha es) ids') w"
proof (induction names arbitrary: fr ids w es ids')
  case Nil
  then show ?case by (simp add: walk edges_frames_def)
next
  case (Cons name names)
  show ?case
  proof (cases "edge_at (wc_mode c) f p name")
    case None
    with Cons.prems(3) have "graph_edges (wc_mode c) f g p names ids = (es, ids')" by simp
    then show ?thesis
      by (simp add: walk) (rule wp_mono[OF no_entry_draws[OF Cons.prems(1,2) None]], rule Cons.IH[OF Cons.prems(1)])
  next
    case (Some e)
    obtain l s where e: "e = (l, s)" by (cases e)
    obtain x ids1 where x: "graph_ref g (joinRaw p name) s ids = (x, ids1)" by force
    obtain es1 ids2 where r: "graph_edges (wc_mode c) f g p names ids1 = (es1, ids2)" by force
    have "es = (l, x) # es1" "ids' = ids2" using Cons.prems(3) Some e x r by simp_all
    then show ?thesis
      by (simp add: walk) (rule wp_mono[OF entry_draws[OF Cons.prems(1,2) Some[unfolded e] x]],
        drule Cons.IH[OF Cons.prems(1) _ r], simp add: edges_frames_def)
  qed
qed

lemma directory_draws:
  assumes q: "quiet f" and d: "drawn fr ids w" and r: "graph_edges (wc_mode c) f g p (directory_names f p) ids = (es, ids')"
  shows "wp (visitDirectory c f visit p deref observed) (\<lambda>_. drawn (fr @ edges_frames sha es) ids') w"
proof -
  have n: "sort_strings names = directory_names f p" if "tf_readdir f u p = Inr names" for u names
  proof -
    have "tf_readdir f 0 p = Inr names" using that still_calls(4)[OF q] by metis
    then show ?thesis by (simp add: directory_names_def)
  qed
  show ?thesis
    unfolding visitDirectory_def
    using d by (auto simp: walk Let_def n intro!: wp_readDirectoryNames wp_mono[OF edges_draw[OF q _ r]])
qed

end

lemma node_frames_dir:
  "node_frames sha (DirNode n m es) =
     [(''node-begin'', show_nat n), (''node-kind'', ''directory''), (''node-mode'', m)] @ edges_frames sha es @
     [(''node-end'', show_nat n)]"
  by (simp add: edges_frames_def)

interpretation nodes_draw: drawing_visitor f sha "visitNode c f sha k" "graph_node (wc_mode c) f k" for c f sha k
proof (unfold_locales, induction k)
  case 0
  show ?case by (simp add: walk)
next
  case (Suc k)
  have v: "drawing_visitor f sha (visitNode c f sha k) (graph_node (wc_mode c) f k)"
    by unfold_locales (rule Suc.IH)
  show ?case
  proof (cases "nodeKind s = ''file''")
    case True
    have "file_content f p = concat chunks" if "tf_read f t2 (t1, p) = Inr chunks" for t1 t2 chunks
    proof -
      have "tf_read f 0 (0, p) = Inr chunks" using that still_calls(5)[OF Suc.prems(1)] by metis
      then show ?thesis by (simp add: file_content_def)
    qed
    then show ?thesis using True Suc.prems
      by (auto simp: walk Let_def fresh_def drawn_def intro!: wp_hashFile)
  next
    case False
    with Suc.prems(3) have dir: "nodeKind s = ''directory''" by (simp add: nodeKind_def split: if_splits)
    obtain es ids' where r: "graph_edges (wc_mode c) f (graph_node (wc_mode c) f k) p (directory_names f p) ids = (es, ids')"
      by force
    show ?thesis using dir r Suc.prems
      by (auto simp: walk Let_def fresh_def node_frames_dir drawn_def simp del: node_frames.simps(3)
          intro!: wp_mono[OF drawing_visitor.directory_draws[OF v Suc.prems(1) drawn_self r]])
  qed
qed

section \<open>Reading the graph back\<close>

lemma frame_bytes_inject:
  assumes "frame_bytes a @ r = frame_bytes b @ r'" and "nul_free (fst a)" "nul_free (fst b)"
  shows "a = b \<and> r = r'"
proof -
  let ?n = "\<lambda>x. show_nat (length (snd x))"
  have "fst a @ nul # (?n a @ nul # snd a @ nul # r) = fst b @ nul # (?n b @ nul # snd b @ nul # r')"
    using assms(1) by (simp add: frame_bytes_def)
  then have f: "fst a = fst b" and e: "?n a @ nul # (snd a @ nul # r) = ?n b @ nul # (snd b @ nul # r')"
    using nul_split_first[OF assms(2,3)] by simp_all
  have "?n a = ?n b" and t: "snd a @ nul # r = snd b @ nul # r'"
    using e nul_split_first[OF show_nat_nul_free show_nat_nul_free] by simp_all
  then have "length (snd a) = length (snd b)" by (simp add: show_nat_inject)
  with t show ?thesis using f by (simp add: prod_eq_iff)
qed

lemma frame_bytes_not_Nil [simp]: "frame_bytes a \<noteq> []"
  by (simp add: frame_bytes_def)

lemma aggregate_bytes_inject:
  "aggregate_bytes xs = aggregate_bytes ys \<Longrightarrow> list_all (nul_free \<circ> fst) xs \<Longrightarrow> list_all (nul_free \<circ> fst) ys \<Longrightarrow> xs = ys"
proof (induction xs arbitrary: ys)
  case Nil
  then show ?case by (cases ys) (auto simp: aggregate_bytes_def)
next
  case (Cons x xs)
  then obtain y ys' where ys: "ys = y # ys'" by (cases ys) (auto simp: aggregate_bytes_def)
  have "frame_bytes x @ aggregate_bytes xs = frame_bytes y @ aggregate_bytes ys'"
    using Cons.prems(1) by (simp add: ys aggregate_bytes_def)
  from frame_bytes_inject[OF this] Cons.prems(2,3) have "x = y" "aggregate_bytes xs = aggregate_bytes ys'"
    by (simp_all add: ys)
  then show ?case using Cons by (simp add: ys)
qed

fun contents :: "gnode \<Rightarrow> string set" where
  "contents (Seen n) = {}"
| "contents (FileNode n m x) = {x}"
| "contents (DirNode n m es) = \<Union> (set (map (\<lambda>e. contents (snd e)) es))"

definition graph_frames :: "(string \<Rightarrow> string) \<Rightarrow> gnode \<Rightarrow> frame list" where
  "graph_frames sha g = ref_frames g @ node_frames sha g"

lemma graph_frames_head: "\<exists>n xs. graph_frames sha g = (''target-node'', show_nat n) # xs"
  by (cases g) (auto simp: graph_frames_def)

lemma edges_frames_Cons [simp]:
  "edges_frames sha [] = []"
  "edges_frames sha (e # es) = edge_frames (fst e) @ graph_frames sha (snd e) @ edges_frames sha es"
  by (simp_all add: edges_frames_def graph_frames_def)

lemma edge_frames_inject:
  assumes "edge_frames e @ graph_frames sha g @ r = edge_frames e' @ graph_frames sha g' @ r'"
  shows "e = e' \<and> graph_frames sha g @ r = graph_frames sha g' @ r'"
proof -
  obtain n xs n' xs' where "graph_frames sha g = (''target-node'', n) # xs" "graph_frames sha g' = (''target-node'', n') # xs'"
    using graph_frames_head by metis
  then show ?thesis
    using assms by (cases e; cases e') (auto simp: edge_frames_def split: option.splits)
qed

lemma edges_frames_inject:
  assumes "\<And>e g' r r'. e \<in> set es \<Longrightarrow> graph_frames sha (snd e) @ r = graph_frames sha g' @ r' \<Longrightarrow>
      inj_on sha (contents (snd e) \<union> contents g') \<Longrightarrow> snd e = g' \<and> r = r'"
    and "edges_frames sha es @ (''node-end'', m) # r = edges_frames sha es' @ (''node-end'', m') # r'"
    and "inj_on sha (contents (DirNode n k es) \<union> contents (DirNode n' k' es'))"
  shows "es = es' \<and> m = m' \<and> r = r'"
  using assms
proof (induction es arbitrary: es')
  case Nil
  then show ?case by (cases es') (auto simp: edge_frames_def)
next
  case (Cons e es)
  then obtain e' es1 where es': "es' = e' # es1" by (cases es') (auto simp: edge_frames_def)
  have 1: "fst e = fst e' \<and> graph_frames sha (snd e) @ edges_frames sha es @ (''node-end'', m) # r =
      graph_frames sha (snd e') @ edges_frames sha es1 @ (''node-end'', m') # r'"
    using Cons.prems(2) by (intro edge_frames_inject) (simp add: es')
  have "inj_on sha (contents (snd e) \<union> contents (snd e'))"
    by (rule inj_on_subset[OF Cons.prems(3)]) (auto simp: es')
  then have 2: "snd e = snd e' \<and> edges_frames sha es @ (''node-end'', m) # r = edges_frames sha es1 @ (''node-end'', m') # r'"
    using Cons.prems(1)[OF _ conjunct2[OF 1]] by simp
  have i: "inj_on sha (contents (DirNode n k es) \<union> contents (DirNode n' k' es1))"
    by (rule inj_on_subset[OF Cons.prems(3)]) (auto simp: es')
  have "es = es1 \<and> m = m' \<and> r = r'"
    by (rule Cons.IH[OF _ conjunct2[OF 2] i]) (rule Cons.prems(1), rule list.set_intros(2))
  then show ?case using 1 2 by (simp add: es' prod_eq_iff)
qed

lemma graph_frames_inject:
  "graph_frames sha g @ r = graph_frames sha g' @ r' \<Longrightarrow> inj_on sha (contents g \<union> contents g') \<Longrightarrow> g = g' \<and> r = r'"
proof (induction sha g arbitrary: r g' r' rule: node_frames.induct)
  case (1 sha n)
  then show ?case by (cases g') (auto simp: graph_frames_def show_nat_inject)
next
  case (2 sha n m x)
  then show ?case by (cases g') (auto simp: graph_frames_def show_nat_inject)
next
  case (3 sha n m es)
  show ?case
  proof (cases g')
    case (DirNode n' m' es')
    have e: "edges_frames sha es @ (''node-end'', show_nat n) # r = edges_frames sha es' @ (''node-end'', show_nat n') # r'"
      and m: "m = m'"
      using 3(2) by (auto simp: graph_frames_def DirNode node_frames_dir simp del: node_frames.simps(3))
    have i: "inj_on sha (contents (DirNode n m es) \<union> contents (DirNode n' m' es'))" using 3(3) by (simp add: DirNode)
    have "es = es' \<and> show_nat n = show_nat n' \<and> r = r'"
      by (rule edges_frames_inject[OF _ e i]) (rule 3(1))
    then show ?thesis using m by (simp add: DirNode show_nat_inject)
  qed (use 3 in \<open>auto simp: graph_frames_def\<close>)
qed

section \<open>Equal fingerprints mean equal trees\<close>

text \<open>The root is the first node; nothing refers to it before it begins.\<close>

definition tree_frames :: "(string \<Rightarrow> string) \<Rightarrow> walk_mode \<Rightarrow> gnode \<Rightarrow> frame list" where
  "tree_frames sha mode g =
     [(''schema'', ''tsz-source-tree-graph-v3''), (''walk-mode'', mode_text mode), (''root-node'', show_nat 0)] @ node_frames sha g"

lemma walk_tree_draws:
  assumes q: "quiet f"
  shows "wp (walk_tree c f sha tree)
    (\<lambda>_ w. fresh 0 (tree_graph c f tree) \<and> w_frames w = tree_frames sha (wc_mode c) (tree_graph c f tree)) (new_walker c t)"
proof -
  let ?fr = "[(''schema'', ''tsz-source-tree-graph-v3''), (''walk-mode'', mode_text (wc_mode c))]"
  let ?root = "tree_root tree"
  have visit: "wp (visitNode c f sha (Suc (wc_maxDepth c)) ?root False (snapshotFromStat s) 0)
      (\<lambda>_ w. fresh 0 (tree_graph c f tree) \<and> w_frames w = tree_frames sha (wc_mode c) (tree_graph c f tree)) w"
    if d: "drawn (?fr @ [(''root-node'', show_nat 0)]) [(identity_text s, 0)] w" and s: "observe f u ?root False = Inr s"
      "isDirectory s" for w u s
  proof -
    have "tf_lstat f 0 ?root = Inr s" using s(1) still_calls(1)[OF q] by metis
    then have g: "tree_graph c f tree = fst (graph_node (wc_mode c) f (Suc (wc_maxDepth c)) ?root s 0 [(identity_text s, 0)])"
      by (simp only: tree_graph_def sum.case)
    have k: "nodeKind s \<noteq> ''unsupported''" using s(2) by (simp add: nodeKind_def)
    show ?thesis unfolding g
      by (rule wp_mono[OF nodes_draw.visit_draws[OF q d k]]) (auto simp: drawn_def tree_frames_def simp del: graph_node.simps)
  qed
  have d: "drawn ?fr [] (new_walker c t)" by (simp add: drawn_def new_walker_def)
  show ?thesis
    unfolding walk_tree_def
    by (simp add: walk Let_def del: visitNode.simps, intro impI allI, rule wp_claim_draws[where fr = ?fr and ids = "[]"])
      (auto simp: walk map_set_def d simp del: visitNode.simps intro!: wp_mono[OF visit])
qed

lemma labels_nul_free: "list_all (nul_free \<circ> fst) (graph_frames sha g)"
proof (induction sha g rule: node_frames.induct)
  case (3 sha n m es)
  then show ?case
    by (fastforce simp: graph_frames_def edge_frames_def list_all_iff nul_free_def nul_def split: option.splits)
qed (simp_all add: graph_frames_def nul_free_def nul_def)

text \<open>What is hashed for the fingerprint of a tree.\<close>

definition hashed_texts :: "walk_config \<Rightarrow> tree_fs \<Rightarrow> (string \<Rightarrow> string) \<Rightarrow> string \<Rightarrow> string set" where
  "hashed_texts c f sha tree =
     insert (aggregate_bytes (tree_frames sha (wc_mode c) (tree_graph c f tree))) (contents (tree_graph c f tree))"

lemma fingerprint_of_graph:
  assumes "quiet f" and "hash_tree c f sha tree (new_walker c t) = Inr (d, w)"
  shows "fresh 0 (tree_graph c f tree) \<and> d = sha (aggregate_bytes (tree_frames sha (wc_mode c) (tree_graph c f tree)))"
proof -
  have "wp (hash_tree c f sha tree)
      (\<lambda>d w. fresh 0 (tree_graph c f tree) \<and> d = sha (aggregate_bytes (tree_frames sha (wc_mode c) (tree_graph c f tree))))
      (new_walker c t)"
    unfolding hash_tree_def wp_bind
    by (rule wp_mono[OF walk_tree_draws[OF assms(1)]], rule wp_mono[OF wp_verifyFinalState]) (auto simp: walk later_def)
  from wp_elim[OF assms(2) this] show ?thesis .
qed

lemma fresh_frames: "fresh n g \<Longrightarrow> graph_frames sha g = [(''target-node'', show_nat n), (''target-reference'', ''new'')] @ node_frames sha g"
  by (simp add: fresh_def graph_frames_def)

lemma tree_frames_inject:
  assumes "aggregate_bytes (tree_frames sha m g) = aggregate_bytes (tree_frames sha m' g')" and "fresh 0 g" "fresh 0 g'"
    and "inj_on sha (contents g \<union> contents g')"
  shows "m = m' \<and> g = g'"
proof -
  have l: "list_all (nul_free \<circ> fst) (tree_frames sha m g)" if "fresh 0 g" for m g
    using labels_nul_free[of sha g] that by (simp add: fresh_frames tree_frames_def nul_free_def nul_def)
  have "tree_frames sha m g = tree_frames sha m' g'"
    by (rule aggregate_bytes_inject[OF assms(1) l l]) (rule assms(2,3))+
  then have "mode_text m = mode_text m'" "graph_frames sha g @ [] = graph_frames sha g' @ []"
    using assms(2,3) by (simp_all add: tree_frames_def fresh_frames)
  with graph_frames_inject[OF _ assms(4)] show ?thesis by (cases m; cases m') auto
qed

text \<open>C9: two trees that hold still have the same fingerprint exactly when the walks are of the same mode and
  meet the same graph: the same names, kinds, permission bits, link targets and file contents, and the same
  aliases, since an edge to a node met before leads to the same node in both. The hash is only asked to tell
  apart the texts that are hashed.\<close>

theorem fingerprint_exact:
  assumes "quiet f" and "quiet f'"
    and "hash_tree c f sha tree (new_walker c t) = Inr (d, w)"
    and "hash_tree c' f' sha tree' (new_walker c' t') = Inr (d', w')"
    and "inj_on sha (hashed_texts c f sha tree \<union> hashed_texts c' f' sha tree')"
  shows "d = d' \<longleftrightarrow> wc_mode c = wc_mode c' \<and> tree_graph c f tree = tree_graph c' f' tree'"
proof -
  note a = fingerprint_of_graph[OF assms(1,3)] and b = fingerprint_of_graph[OF assms(2,4)]
  have i: "inj_on sha (contents (tree_graph c f tree) \<union> contents (tree_graph c' f' tree'))"
    by (rule inj_on_subset[OF assms(5)]) (auto simp: hashed_texts_def)
  have "d = d' \<longleftrightarrow> aggregate_bytes (tree_frames sha (wc_mode c) (tree_graph c f tree)) =
      aggregate_bytes (tree_frames sha (wc_mode c') (tree_graph c' f' tree'))"
    unfolding conjunct2[OF a] conjunct2[OF b] by (rule inj_on_eq_iff[OF assms(5)]) (simp_all add: hashed_texts_def)
  then show ?thesis using tree_frames_inject[OF _ _ _ i] a b by auto
qed

section \<open>A tree with a file, a cycle and repository metadata\<close>

definition demo_stat :: "int \<Rightarrow> nat \<Rightarrow> int \<Rightarrow> file_stat" where
  "demo_stat ino mode bytes =
     \<lparr>fs_dev = 1, fs_ino = ino, fs_mode = mode, fs_nlink = 1, fs_size = bytes, fs_mtimeNs = 0, fs_ctimeNs = 0\<rparr>"

definition demo_lookup :: "string \<Rightarrow> bool \<Rightarrow> string \<Rightarrow> string + file_stat" where
  "demo_lookup content deref p =
     (if p = ''/t'' \<or> (p = ''/t/l'' \<and> deref) then Inr (demo_stat 1 16877 64)
      else if p = ''/t/a'' then Inr (demo_stat 2 33188 (int (length content)))
      else if p = ''/t/l'' then Inr (demo_stat 3 41471 1) else Inl ''ENOENT'')"

definition demo_fs :: "string \<Rightarrow> tree_fs" where
  "demo_fs content =
     \<lparr>tf_now = int, tf_lstat = (\<lambda>_. demo_lookup content False), tf_stat = (\<lambda>_. demo_lookup content True),
      tf_readlink = (\<lambda>_ _. Inr ''.''), tf_readdir = (\<lambda>_ _. Inr [''l'', ''.git'', ''a'']), tf_open = (\<lambda>_ _. Inr ()),
      tf_fstat = (\<lambda>_ h. demo_lookup content True (snd h)), tf_read = (\<lambda>_ _. Inr [content])\<rparr>"

definition demo_config :: walk_config where
  "demo_config =
     \<lparr>wc_mode = Source, wc_maxNodes = 9, wc_maxEdges = 9, wc_maxDepth = 1, wc_maxDirectoryEntries = 9, wc_maxPathBytes = 99,
      wc_maxBytes = 9, wc_maxElapsedNanoseconds = 99, wc_startedAt = 0\<rparr>"

abbreviation demo_hash :: "string \<Rightarrow> string + string \<times> walker" where
  "demo_hash content \<equiv> hash_tree demo_config (demo_fs content) (Cons CHR ''h'') ''/t'' (new_walker demo_config 0)"

lemma demo_digits:
  "digits_of (Suc 0) = ''1''" "digits_of 2 = ''2''" "char_of (48 :: nat) = CHR ''0''" "char_of (52 :: nat) = CHR ''4''"
  "char_of (53 :: nat) = CHR ''5''" "char_of (54 :: nat) = CHR ''6''" "char_of (55 :: nat) = CHR ''7''"
  by code_simp+

lemma demo_texts:
  "identity_text (demo_stat 1 16877 64) = ''1:1:directory''" "identity_text (demo_stat 2 33188 1) = ''1:2:file''"
  "modeString (demo_stat 1 16877 64) = ''0755''" "modeString (demo_stat 2 33188 1) = ''0644''" "modeString (demo_stat 3 41471 1) = ''0777''"
  by (simp_all add: identity_text_def modeString_def demo_stat_def nodeKind_def isDirectory_def isFile_def file_type_def show_int_def Let_def
      demo_digits)

lemma demo_types:
  "isSymbolicLink (demo_stat i m n) \<longleftrightarrow> m div 4096 mod 16 = 10" "isDirectory (demo_stat i m n) \<longleftrightarrow> m div 4096 mod 16 = 4"
  "isFile (demo_stat i m n) \<longleftrightarrow> m div 4096 mod 16 = 8" "fs_size (demo_stat i m n) = n"
  by (simp_all add: isSymbolicLink_def isDirectory_def isFile_def file_type_def demo_stat_def)

lemma demo_names: "sort_strings [''l'', ''.git'', ''a''] = [''.git'', ''a'', ''l'']"
  by code_simp

lemma demo_graph:
  "tree_graph demo_config (demo_fs [ch]) ''/t'' =
     DirNode 0 ''0755'' [((''a'', ''file'', None), FileNode 1 ''0644'' [ch]), ((''l'', ''symlink'', Some (''0777'', ''.'')), Seen 0)]"
  by (simp add: tree_graph_def tree_root_def ends_with_def demo_fs_def demo_lookup_def demo_texts demo_types demo_names nodeKind_def
      directory_names_def file_content_def edge_at_def joinRaw_def graph_ref_def map_get_def map_set_def demo_config_def)

lemma demo_quiet: "quiet (demo_fs content)"
  by (simp add: quiet_def demo_fs_def)

text \<open>Running the walk: a step at a time, what follows it is not looked into before it has run.\<close>

lemma run_bind: "m w = Inr (x, w') \<Longrightarrow> bind_walk m k w = k x w'"
  by (simp add: bind_walk_def)

lemma run_cong: "m w = m' w \<Longrightarrow> bind_walk m k w = bind_walk m' k w"
  by (simp add: bind_walk_def)

lemma run_require: "require b m w = (if b then Inr ((), w) else Inl m)"
  by (simp add: require_def done_with_def throw_def)

lemmas run = run_bind run_require done_with_def modify_def with_walker_def call_def updateFrame_def

lemma run_checkElapsed: "in_time c f (w_tick w) \<Longrightarrow> checkElapsed c f w = Inr ((), w\<lparr>w_tick := Suc (w_tick w)\<rparr>)"
  by (simp add: checkElapsed_def in_time_def run Let_def)

lemma demo_time: "n < 99 \<Longrightarrow> in_time demo_config (demo_fs x) n"
  by (simp add: in_time_def demo_config_def demo_fs_def)

lemma demo_calls:
  "tf_lstat (demo_fs x) = (\<lambda>_. demo_lookup x False)" "tf_stat (demo_fs x) = (\<lambda>_. demo_lookup x True)"
  "tf_readlink (demo_fs x) = (\<lambda>_ _. Inr ''.'')" "tf_readdir (demo_fs x) = (\<lambda>_ _. Inr [''l'', ''.git'', ''a''])"
  "tf_open (demo_fs x) = (\<lambda>_ _. Inr ())" "tf_fstat (demo_fs x) = (\<lambda>_ h. demo_lookup x True (snd h))" "tf_read (demo_fs x) = (\<lambda>_ _. Inr [x])"
  by (simp_all add: demo_fs_def)

lemma demo_lookups:
  "demo_lookup x deref ''/t'' = Inr (demo_stat 1 16877 64)" "demo_lookup x deref ''/t/a'' = Inr (demo_stat 2 33188 (int (length x)))"
  "demo_lookup x False ''/t/l'' = Inr (demo_stat 3 41471 1)" "demo_lookup x True ''/t/l'' = Inr (demo_stat 1 16877 64)"
  by (simp_all add: demo_lookup_def)

lemma demo_limits:
  "wc_mode demo_config = Source" "wc_maxNodes demo_config = 9" "wc_maxEdges demo_config = 9" "wc_maxDepth demo_config = 1"
  "wc_maxDirectoryEntries demo_config = 9" "wc_maxPathBytes demo_config = 99" "wc_maxBytes demo_config = 9"
  by (simp_all add: demo_config_def)

lemma demo_kind: "nodeKind (demo_stat 1 16877 64) = ''directory''" "nodeKind (demo_stat 2 33188 1) = ''file''"
  by (simp_all add: nodeKind_def demo_types)

lemmas demo = demo_time demo_calls demo_lookups demo_limits demo_texts demo_types demo_kind demo_names

lemma demo_runs: "\<exists>d w. hash_tree demo_config (demo_fs [ch]) (Cons CHR ''h'') ''/t'' (new_walker demo_config 0) = Inr (d, w)"
  by (simp add: hash_tree_def walk_tree_def Let_def run run_checkElapsed demo snapshot_def requireUnchanged_def new_walker_def
      tree_root_def ends_with_def claimNode_def retainVerificationBytes_def hashFile_def visitDirectory_def readDirectoryNames_def
      visit_entry_def visitSymlink_def visit_reference_def useEdge_def count_builtin_def joinRaw_def readlink_def
      verifyFinalState_def verify_node_def verify_symlink_def map_get_def map_set_def cong: run_cong)

text \<open>Two trees that differ in one byte of a file.\<close>

theorem fingerprint_exact_witness:
  "\<exists>d w d' w'.
     hash_tree demo_config (demo_fs ''x'') (Cons CHR ''h'') ''/t'' (new_walker demo_config 0) = Inr (d, w) \<and>
     hash_tree demo_config (demo_fs ''y'') (Cons CHR ''h'') ''/t'' (new_walker demo_config 0) = Inr (d', w') \<and> d \<noteq> d'"
proof -
  from demo_runs obtain d w where x: "hash_tree demo_config (demo_fs ''x'') (Cons CHR ''h'') ''/t'' (new_walker demo_config 0) = Inr (d, w)"
    by blast
  from demo_runs obtain d' w' where y: "hash_tree demo_config (demo_fs ''y'') (Cons CHR ''h'') ''/t'' (new_walker demo_config 0) = Inr (d', w')"
    by blast
  have "inj_on (Cons CHR ''h'') A" for A :: "string set" by simp
  from fingerprint_exact[OF demo_quiet demo_quiet x y this] have "d \<noteq> d'" by (simp add: demo_graph)
  with x y show ?thesis by blast
qed


section \<open>Chunks of a listing\<close>

lemma take_paths_append:
  "take_paths start (a @ b) = (let (ps, r) = take_paths start a; (qs, r') = take_paths (rev r) b in (ps @ qs, r'))"
  by (induction start a rule: take_paths.induct) (auto simp: Let_def split: prod.splits)

lemma take_paths_pending: "nul_free s \<Longrightarrow> take_paths start (s @ b) = take_paths (rev s @ start) b"
  by (induction s arbitrary: start) (auto simp: nul_free_def nul_def)

lemma take_paths_rest: "nul_free start \<Longrightarrow> nul_free (snd (take_paths start s))"
  by (induction start s rule: take_paths.induct) (auto simp: nul_free_def nul_def split: prod.splits)

lemma read_chunks_concat: "nul_free pending \<Longrightarrow> read_chunks pending chunks = take_paths [] (pending @ concat chunks)"
proof (induction chunks arbitrary: pending)
  case Nil
  then show ?case using take_paths_pending[of pending "[]" "[]"] by simp
next
  case (Cons chunk chunks)
  obtain ps r where t: "take_paths [] (pending @ chunk) = (ps, r)" by force
  have "nul_free r" using take_paths_rest[of "[]" "pending @ chunk"] t by (simp add: nul_free_def)
  then have "read_chunks r chunks = take_paths (rev r) (concat chunks)"
    using Cons.IH[of r] take_paths_pending[of r "[]" "concat chunks"] by simp
  then show ?case using t take_paths_append[of "[]" "pending @ chunk" "concat chunks"] by (simp add: Let_def)
qed

text \<open>How the listing of a tree is cut into chunks does not matter, even when a path or its terminator
  falls on a boundary: the paths are those of the whole text.\<close>

theorem readNulPaths_chunks: "readNulPaths chunks = readNulPaths [concat chunks]"
  by (simp add: readNulPaths_def read_chunks_concat nul_free_def)

end
