(* ===== verification/DeltaAggregator.thy ===== *)
theory DeltaAggregator
  imports StubInventory CanonicalProducts
begin

text \<open>
  The aggregation of the diagnostic deltas of a project row, \<open>scripts/ci/diagnostic-aggregator.mjs\<close>
  with the table of \<open>diagnostic-subsystems.mjs\<close>: one pass over the lines fills the codes, the lines and
  codes by source, the subsystem groups, the first location and the candidates for a reduction. The
  table and the classifier a caller plugs in are arguments.
\<close>

section \<open>Diagnostic lines\<close>

definition line_break :: "char \<Rightarrow> bool" where
  "line_break c \<longleftrightarrow> c = CHR 10 \<or> c = CHR 13"

definition lower_letter :: "char \<Rightarrow> bool" where
  "lower_letter c \<longleftrightarrow> is_letter c \<and> lower_char c = c"

text \<open>\<open>^([a-z][\w-]*):\s+(.*)$\<close>: the label in lower case and the rest.\<close>

definition source_label :: "string \<Rightarrow> (string \<times> string) option" where
  "source_label text0 =
     (let l = takeWhile (\<lambda>c. is_word_char c \<or> c = CHR ''-'') text0; r = drop (length l) text0; b = dropWhile is_ws (tl r) in
      if l \<noteq> [] \<and> lower_letter (hd l) \<and> starts_with r '':'' \<and> tl r \<noteq> b \<and> \<not> list_ex line_break b
      then Some (to_lower l, b) else None)"

datatype delta_source = Tsc | Tsz | Tsgo

definition delta_source_of :: "string \<Rightarrow> delta_source option" where
  "delta_source_of l =
     (if l = ''tsc'' then Some Tsc else if l = ''tsz'' then Some Tsz else if l = ''tsgo'' then Some Tsgo else None)"

text \<open>The source a line is labelled with, and its body.\<close>

definition labelled :: "string \<Rightarrow> delta_source option \<times> string" where
  "labelled line =
     (case source_label line of
        Some (l, b) \<Rightarrow> (case delta_source_of l of Some s \<Rightarrow> (Some s, trim b) | None \<Rightarrow> (None, line))
      | None \<Rightarrow> (None, line))"

text \<open>\<open>TS\d{4,5}\<close> at the beginning of a text: the code and what follows.\<close>

definition ts_code_at :: "string \<Rightarrow> (string \<times> string) option" where
  "ts_code_at s =
     (let d = takeWhile is_digit (drop 2 s); n = min 5 (length d) in
      if starts_with s ''TS'' \<and> 4 \<le> n then Some (take (2 + n) s, drop (2 + n) s) else None)"

text \<open>All matches of \<open>\bTS\d{4,5}\b\<close>; the argument says whether a word character stands before.\<close>

fun line_codes :: "bool \<Rightarrow> string \<Rightarrow> string list" where
  "line_codes w [] = []"
| "line_codes w (c # s) =
     (case ts_code_at (c # s) of
        Some (code, r) \<Rightarrow> if \<not> w \<and> at_boundary r then [code] else []
      | None \<Rightarrow> []) @ line_codes (is_word_char c) s"

text \<open>\<open>(?:error\s+)?(TS\d{4,5})\<close>.\<close>

definition error_code_at :: "string \<Rightarrow> string option" where
  "error_code_at s =
     (let e = drop 5 s; t = (if starts_with s ''error'' \<and> e \<noteq> dropWhile is_ws e then dropWhile is_ws e else s)
      in map_option fst (ts_code_at t))"

record delta_location =
  dl_path :: "string option"
  dl_line :: "nat option"
  dl_column :: "nat option"
  dl_code :: string

definition digits_then :: "string \<Rightarrow> string \<Rightarrow> (nat \<times> string) option" where
  "digits_then sep s =
     (let d = takeWhile is_digit s; r = dropWhile is_digit s in
      if d \<noteq> [] \<and> starts_with r sep then Some (decimal d, drop (length sep) r) else None)"

definition at_location :: "string \<Rightarrow> nat \<Rightarrow> nat \<Rightarrow> string \<Rightarrow> delta_location" where
  "at_location p l c code = \<lparr>dl_path = Some p, dl_line = Some l, dl_column = Some c, dl_code = code\<rparr>"

text \<open>What follows the path: \<open>(line,column): code\<close>, or \<open>:line:column - code\<close>.\<close>

definition paren_tail :: "string \<Rightarrow> string \<Rightarrow> delta_location option" where
  "paren_tail p s =
     (if \<not> starts_with s ''('' then None
      else
        case digits_then '','' (tl s) of
          None \<Rightarrow> None
        | Some (l, s1) \<Rightarrow>
            (case digits_then ''):'' s1 of
               None \<Rightarrow> None
             | Some (c, s2) \<Rightarrow>
                 if s2 = dropWhile is_ws s2 then None
                 else map_option (at_location p l c) (error_code_at (dropWhile is_ws s2))))"

definition colon_tail :: "string \<Rightarrow> string \<Rightarrow> delta_location option" where
  "colon_tail p s =
     (if \<not> starts_with s '':'' then None
      else
        case digits_then '':'' (tl s) of
          None \<Rightarrow> None
        | Some (l, s1) \<Rightarrow>
            (case digits_then [] s1 of
               None \<Rightarrow> None
             | Some (c, s2) \<Rightarrow>
                 let s3 = dropWhile is_ws s2; s4 = (if s2 \<noteq> s3 \<and> starts_with s3 ''-'' then tl s3 else s2); s5 = dropWhile is_ws s4
                 in if s4 = s5 then None else map_option (at_location p l c) (error_code_at s5)))"

text \<open>\<open>^(.+?)\<close>: the shortest path that is not empty, on one line.\<close>

fun shortest_path :: "(string \<Rightarrow> string \<Rightarrow> delta_location option) \<Rightarrow> string \<Rightarrow> string \<Rightarrow> delta_location option" where
  "shortest_path tail p [] = None"
| "shortest_path tail p (c # s) =
     (if line_break c then None
      else case tail (p @ [c]) s of Some x \<Rightarrow> Some x | None \<Rightarrow> shortest_path tail (p @ [c]) s)"

definition global_diagnostic :: "string \<Rightarrow> delta_location option" where
  "global_diagnostic s =
     (let n = (if starts_with s ''error'' then 5 else if starts_with s ''warning'' then 7 else 0); r = drop n s; t = dropWhile is_ws r in
      if n = 0 \<or> r = t then None
      else case ts_code_at t of
             Some (code, u) \<Rightarrow> if at_boundary u then Some \<lparr>dl_path = None, dl_line = None, dl_column = None, dl_code = code\<rparr> else None
           | None \<Rightarrow> None)"

definition parseDiagnosticLine :: "string \<Rightarrow> delta_location option" where
  "parseDiagnosticLine rawLine =
     (let body = snd (labelled (trim rawLine)) in
      case shortest_path paren_tail [] body of
        Some x \<Rightarrow> Some x
      | None \<Rightarrow> (case shortest_path colon_tail [] body of Some x \<Rightarrow> Some x | None \<Rightarrow> global_diagnostic body))"

section \<open>The table of subsystems\<close>

record subsystem_rule =
  sr_subsystem :: string
  sr_codes :: "string list"
  sr_owner_track :: string

definition code_to_subsystem :: "subsystem_rule list \<Rightarrow> (string \<times> string) list" where
  "code_to_subsystem rules = fold (\<lambda>r m. fold (\<lambda>c. map_set c (sr_subsystem r)) (sr_codes r) m) rules []"

definition subsystemForCode :: "subsystem_rule list \<Rightarrow> string \<Rightarrow> string" where
  "subsystemForCode rules code =
     (case map_get (code_to_subsystem rules) code of Some s \<Rightarrow> s | None \<Rightarrow> ''unclassified diagnostic'')"

definition owner_track_by_subsystem :: "subsystem_rule list \<Rightarrow> (string \<times> string) list" where
  "owner_track_by_subsystem rules = fold (\<lambda>r. map_set (sr_subsystem r) (sr_owner_track r)) rules []"

definition ownerTrackForSubsystem :: "subsystem_rule list \<Rightarrow> string option \<Rightarrow> string" where
  "ownerTrackForSubsystem rules subsystem =
     (case subsystem of
        None \<Rightarrow> ''Track 1 triage''
      | Some s \<Rightarrow>
          if s = ''uncoded diagnostic'' \<or> s = ''unclassified diagnostic'' then ''Track 1 triage''
          else if starts_with s ''type-challenges '' then
            (if str_includes s ''indexed access'' then ''Track 5 Type Challenges keyspace/indexed access''
             else ''Track 2/3 Type Challenges type-level semantics'')
          else case map_get (owner_track_by_subsystem rules) s of Some t \<Rightarrow> t | None \<Rightarrow> ''Track 1 triage'')"

section \<open>One pass over the lines\<close>

definition CODE_LIMIT :: nat where "CODE_LIMIT = 8"
definition SUBSYSTEM_EXAMPLE_LIMIT :: nat where "SUBSYSTEM_EXAMPLE_LIMIT = 3"
definition REDUCTION_LIMIT :: nat where "REDUCTION_LIMIT = 5"

definition pushUnique :: "nat \<Rightarrow> 'a \<Rightarrow> 'a list \<Rightarrow> 'a list" where
  "pushUnique limit v target = (if length target \<ge> limit then target else if v \<in> set target then target else target @ [v])"

record delta_group =
  dg_subsystem :: string
  dg_codes :: "string list"
  dg_count :: nat
  dg_examples :: "string list"

text \<open>\<open>None\<close> is the bucket \<open>unattributed\<close>. The sets of the codes already seen hold the codes of the list
  beside them.\<close>

record delta_state =
  ds_codesBySource :: "delta_source option \<Rightarrow> string list"
  ds_bodiesBySource :: "delta_source option \<Rightarrow> string list"
  ds_groups :: "(string \<times> delta_group) list"
  ds_codes :: "string list"
  ds_coded :: "string list"
  ds_uncoded :: "string list"
  ds_firstLocation :: "delta_location option"

definition push_code :: "delta_source option \<Rightarrow> string \<Rightarrow> delta_state \<Rightarrow> delta_state" where
  "push_code key code st =
     st\<lparr>ds_codes := (if code \<notin> set (ds_codes st) \<and> length (ds_codes st) < CODE_LIMIT then ds_codes st @ [code] else ds_codes st),
        ds_codesBySource := (ds_codesBySource st)(key :=
          (let cs = ds_codesBySource st key in if code \<notin> set cs \<and> length cs < CODE_LIMIT then cs @ [code] else cs))\<rparr>"

definition push_group :: "string list \<Rightarrow> string \<Rightarrow> string \<Rightarrow> (string \<times> delta_group) list \<Rightarrow> (string \<times> delta_group) list" where
  "push_group codes line subsystem groups =
     (let g = (case map_get groups subsystem of
                 Some g \<Rightarrow> g
               | None \<Rightarrow> \<lparr>dg_subsystem = subsystem, dg_codes = [], dg_count = 0, dg_examples = []\<rparr>)
      in map_set subsystem
           (g\<lparr>dg_count := dg_count g + 1, dg_codes := fold (pushUnique CODE_LIMIT) codes (dg_codes g),
              dg_examples := (if length (dg_examples g) < SUBSYSTEM_EXAMPLE_LIMIT then dg_examples g @ [line] else dg_examples g)\<rparr>)
           groups)"

type_synonym classifier = "string \<Rightarrow> delta_location option \<Rightarrow> string list option"

definition line_subsystems :: "subsystem_rule list \<Rightarrow> classifier option \<Rightarrow> string \<Rightarrow> string list \<Rightarrow> string list" where
  "line_subsystems rules subsystemFor line codes =
     (case (case subsystemFor of Some f \<Rightarrow> f line (parseDiagnosticLine line) | None \<Rightarrow> None) of
        Some custom \<Rightarrow> custom
      | None \<Rightarrow> if codes \<noteq> [] then map (subsystemForCode rules) codes else [''uncoded diagnostic''])"

definition delta_step :: "subsystem_rule list \<Rightarrow> classifier option \<Rightarrow> string \<Rightarrow> delta_state \<Rightarrow> delta_state" where
  "delta_step rules subsystemFor rawLine st =
     (let line = trim rawLine; (key, body) = labelled line; codes = line_codes False body;
          st1 = st\<lparr>ds_bodiesBySource := (ds_bodiesBySource st)(key := ds_bodiesBySource st key @ [body])\<rparr>;
          st2 = (if codes \<noteq> [] then st1\<lparr>ds_coded := ds_coded st @ [line]\<rparr> else st1\<lparr>ds_uncoded := ds_uncoded st @ [line]\<rparr>);
          st3 = (if ds_firstLocation st = None then st2\<lparr>ds_firstLocation := parseDiagnosticLine line\<rparr> else st2);
          st4 = fold (push_code key) codes st3
      in st4\<lparr>ds_groups := fold (push_group codes line) (line_subsystems rules subsystemFor line codes) (ds_groups st4)\<rparr>)"

definition no_deltas :: delta_state where
  "no_deltas =
     \<lparr>ds_codesBySource = (\<lambda>_. []), ds_bodiesBySource = (\<lambda>_. []), ds_groups = [], ds_codes = [], ds_coded = [], ds_uncoded = [],
      ds_firstLocation = None\<rparr>"

record delta_aggregate =
  da_codes :: "string list"
  da_codesBySource :: "delta_source option \<Rightarrow> string list"
  da_bodiesBySource :: "delta_source option \<Rightarrow> string list"
  da_subsystems :: "delta_group list"
  da_firstLocation :: "delta_location option"
  da_reductionCandidates :: "string list"

definition aggregateRowDeltas :: "subsystem_rule list \<Rightarrow> classifier option \<Rightarrow> string list \<Rightarrow> delta_aggregate" where
  "aggregateRowDeltas rules subsystemFor deltas =
     (let st = fold (delta_step rules subsystemFor) deltas no_deltas in
      \<lparr>da_codes = ds_codes st, da_codesBySource = ds_codesBySource st, da_bodiesBySource = ds_bodiesBySource st,
       da_subsystems = map snd (ds_groups st), da_firstLocation = ds_firstLocation st,
       da_reductionCandidates = take REDUCTION_LIMIT (if ds_coded st \<noteq> [] then ds_coded st else ds_uncoded st)\<rparr>)"

section \<open>The pass is the buckets, each on its own\<close>

definition push_capped :: "nat \<Rightarrow> 'a \<Rightarrow> 'a list \<Rightarrow> 'a list" where
  "push_capped n x xs = (if x \<notin> set xs \<and> length xs < n then xs @ [x] else xs)"

lemma push_capped_take: "push_capped n x (take n xs) = take n (add_new x xs)"
  by (cases "length xs < n") (auto simp: push_capped_def add_new_def)

lemma fold_push_capped: "fold (push_capped n) xs (take n ys) = take n (fold add_new xs ys)"
  by (induction xs arbitrary: ys) (simp_all add: push_capped_take)

lemma pushUnique_capped: "pushUnique n x xs = push_capped n x xs"
  by (simp add: pushUnique_def push_capped_def)

lemma push_code_fields [simp]:
  "ds_codes (push_code key code st) = push_capped CODE_LIMIT code (ds_codes st)"
  "ds_codesBySource (push_code key code st) k =
     (if k = key then push_capped CODE_LIMIT code (ds_codesBySource st k) else ds_codesBySource st k)"
  "ds_bodiesBySource (push_code key code st) = ds_bodiesBySource st"
  "ds_groups (push_code key code st) = ds_groups st" "ds_coded (push_code key code st) = ds_coded st"
  "ds_uncoded (push_code key code st) = ds_uncoded st" "ds_firstLocation (push_code key code st) = ds_firstLocation st"
  by (simp_all add: push_code_def push_capped_def Let_def)

lemma push_codes_fields [simp]:
  "ds_codes (fold (push_code key) codes st) = fold (push_capped CODE_LIMIT) codes (ds_codes st)"
  "ds_codesBySource (fold (push_code key) codes st) k =
     (if k = key then fold (push_capped CODE_LIMIT) codes (ds_codesBySource st k) else ds_codesBySource st k)"
  "ds_bodiesBySource (fold (push_code key) codes st) = ds_bodiesBySource st"
  "ds_groups (fold (push_code key) codes st) = ds_groups st" "ds_coded (fold (push_code key) codes st) = ds_coded st"
  "ds_uncoded (fold (push_code key) codes st) = ds_uncoded st" "ds_firstLocation (fold (push_code key) codes st) = ds_firstLocation st"
  by (induction codes arbitrary: st) simp_all

abbreviation codes_on :: "string \<Rightarrow> string list" where
  "codes_on line \<equiv> line_codes False (snd (labelled line))"

definition subsystems_on :: "subsystem_rule list \<Rightarrow> classifier option \<Rightarrow> string \<Rightarrow> string list" where
  "subsystems_on rules f line = line_subsystems rules f line (codes_on line)"

lemma delta_step_fields:
  "ds_codes (delta_step rules f raw st) = fold (push_capped CODE_LIMIT) (codes_on (trim raw)) (ds_codes st)"
  "ds_codesBySource (delta_step rules f raw st) k =
     fold (push_capped CODE_LIMIT) (if k = fst (labelled (trim raw)) then codes_on (trim raw) else []) (ds_codesBySource st k)"
  "ds_bodiesBySource (delta_step rules f raw st) k =
     ds_bodiesBySource st k @ (if k = fst (labelled (trim raw)) then [snd (labelled (trim raw))] else [])"
  "ds_groups (delta_step rules f raw st) = fold (push_group (codes_on (trim raw)) (trim raw)) (subsystems_on rules f (trim raw)) (ds_groups st)"
  "ds_coded (delta_step rules f raw st) = ds_coded st @ filter (\<lambda>l. codes_on l \<noteq> []) [trim raw]"
  "ds_uncoded (delta_step rules f raw st) = ds_uncoded st @ filter (\<lambda>l. codes_on l = []) [trim raw]"
  "ds_firstLocation (delta_step rules f raw st) =
     (case ds_firstLocation st of Some x \<Rightarrow> Some x | None \<Rightarrow> parseDiagnosticLine (trim raw))"
  by (cases "labelled (trim raw)"; simp add: delta_step_def subsystems_on_def Let_def split: option.split)+

text \<open>The groups: their names in the order of first use, and how often each was used.\<close>

definition groups_ok :: "string list \<Rightarrow> (string \<times> delta_group) list \<Rightarrow> bool" where
  "groups_ok uses gs \<longleftrightarrow> map fst gs = fold add_new uses [] \<and>
     (\<forall>(s, g) \<in> set gs. dg_subsystem g = s \<and> dg_count g = count_list uses s)"

lemma set_add_new_all [simp]: "set (fold add_new xs ys) = set xs \<union> set ys"
  by (induction xs arbitrary: ys) (auto simp: add_new_def)

lemma distinct_add_new_all: "distinct ys \<Longrightarrow> distinct (fold add_new xs ys)"
  by (induction xs arbitrary: ys) (auto simp: add_new_def)

lemma count_list_snoc: "count_list (xs @ [x]) y = count_list xs y + (if x = y then 1 else 0)"
  by (induction xs) auto

lemma groups_ok_push:
  assumes "groups_ok uses gs"
  shows "groups_ok (uses @ [s]) (push_group codes line s gs)"
proof -
  have d: "distinct (map fst gs)" using assms by (simp add: groups_ok_def distinct_add_new_all)
  let ?old = "case map_get gs s of Some g \<Rightarrow> g | None \<Rightarrow> \<lparr>dg_subsystem = s, dg_codes = [], dg_count = 0, dg_examples = []\<rparr>"
  have old: "dg_subsystem ?old = s \<and> dg_count ?old = count_list uses s"
  proof (cases "map_get gs s")
    case None
    then have "s \<notin> set uses" using assms by (auto simp: groups_ok_def map_get_def map_of_eq_None_iff simp flip: set_map)
    then show ?thesis using None by (simp add: count_notin)
  next
    case (Some g)
    then show ?thesis using assms map_get_Some_mem[OF Some] by (auto simp: groups_ok_def)
  qed
  obtain g where g: "push_group codes line s gs = map_set s g gs" "dg_subsystem g = s" "dg_count g = Suc (count_list uses s)"
    using old by (auto simp: push_group_def Let_def)
  have "map fst (map_set s g gs) = fold add_new (uses @ [s]) []"
    using assms js_map.keys_put[of s g gs] by (simp add: groups_ok_def map_keys_def add_new_def)
  moreover have "dg_subsystem h = k \<and> dg_count h = count_list (uses @ [s]) k" if "(k, h) \<in> set (map_set s g gs)" for k h
  proof -
    have "map_get (map_set s g gs) k = Some h"
      using that d by (subst map_get_iff) (simp_all add: map_keys_def map_set_def distinct_update)
    then have "(if k = s then Some g else map_get gs k) = Some h" by (simp add: js_map.get_put)
    then show ?thesis using g assms by (auto simp: groups_ok_def count_list_snoc split: if_splits dest: map_get_Some_mem)
  qed
  ultimately show ?thesis using g(1) by (auto simp: groups_ok_def)
qed

lemma groups_ok_pushes: "groups_ok uses gs \<Longrightarrow> groups_ok (uses @ subs) (fold (push_group codes line) subs gs)"
proof (induction subs arbitrary: uses gs)
  case (Cons s subs)
  from Cons.IH[OF groups_ok_push[OF Cons.prems]] show ?case by simp
qed simp

lemma groups_ok_list:
  assumes "groups_ok uses gs"
  shows "map (\<lambda>g. (dg_subsystem g, dg_count g)) (map snd gs) = map (\<lambda>s. (s, count_list uses s)) (fold add_new uses [])"
proof -
  have k: "fold add_new uses [] = map fst gs" using assms by (simp add: groups_ok_def)
  show ?thesis unfolding k list.map_comp using assms by (auto simp: groups_ok_def)
qed

lemma pass_fields:
  "ds_codes (fold (delta_step rules f) deltas st) = fold (push_capped CODE_LIMIT) (concat (map (\<lambda>d. codes_on (trim d)) deltas)) (ds_codes st)"
  "ds_codesBySource (fold (delta_step rules f) deltas st) k =
     fold (push_capped CODE_LIMIT) (concat (map codes_on (filter (\<lambda>l. fst (labelled l) = k) (map trim deltas)))) (ds_codesBySource st k)"
  "ds_bodiesBySource (fold (delta_step rules f) deltas st) k =
     ds_bodiesBySource st k @ map (\<lambda>l. snd (labelled l)) (filter (\<lambda>l. fst (labelled l) = k) (map trim deltas))"
  "ds_coded (fold (delta_step rules f) deltas st) = ds_coded st @ filter (\<lambda>l. codes_on l \<noteq> []) (map trim deltas)"
  "ds_uncoded (fold (delta_step rules f) deltas st) = ds_uncoded st @ filter (\<lambda>l. codes_on l = []) (map trim deltas)"
  "ds_firstLocation (fold (delta_step rules f) deltas st) =
     (case ds_firstLocation st of Some x \<Rightarrow> Some x | None \<Rightarrow> first_some parseDiagnosticLine (map trim deltas))"
  by (induction deltas arbitrary: st) (auto simp: delta_step_fields split: option.split)

lemma pass_groups:
  "groups_ok uses (ds_groups st) \<Longrightarrow>
   groups_ok (uses @ concat (map (subsystems_on rules f) (map trim deltas))) (ds_groups (fold (delta_step rules f) deltas st))"
proof (induction deltas arbitrary: uses st)
  case (Cons d deltas)
  have "groups_ok (uses @ subsystems_on rules f (trim d)) (ds_groups (delta_step rules f d st))"
    unfolding delta_step_fields by (rule groups_ok_pushes[OF Cons.prems])
  from Cons.IH[OF this] show ?case by simp
qed simp

text \<open>C33: the single pass over the delta lines gives in every bucket what a pass of its own would give: the
  codes are the distinct codes in the order of the lines, whatever their sources, cut at eight; a source has the bodies
  and the distinct codes of the lines labelled with it; the subsystems stand in the order of their
  first use, each with the number of its uses; the first location is that of the first line that has
  one; and the candidates are lines with a code when there is one.\<close>

theorem aggregate_exact:
  "let a = aggregateRowDeltas rules f deltas; ls = map trim deltas; coded = filter (\<lambda>l. codes_on l \<noteq> []) ls;
       uses = concat (map (subsystems_on rules f) ls)
   in da_codes a = take CODE_LIMIT (fold add_new (concat (map codes_on ls)) []) \<and>
      da_codesBySource a = (\<lambda>k. take CODE_LIMIT (fold add_new (concat (map codes_on (filter (\<lambda>l. fst (labelled l) = k) ls))) [])) \<and>
      da_bodiesBySource a = (\<lambda>k. map (\<lambda>l. snd (labelled l)) (filter (\<lambda>l. fst (labelled l) = k) ls)) \<and>
      map (\<lambda>g. (dg_subsystem g, dg_count g)) (da_subsystems a) = map (\<lambda>s. (s, count_list uses s)) (fold add_new uses []) \<and>
      da_firstLocation a = first_some parseDiagnosticLine ls \<and>
      da_reductionCandidates a = take REDUCTION_LIMIT (if coded \<noteq> [] then coded else ls)"
proof -
  let ?st = "fold (delta_step rules f) deltas no_deltas" and ?uses = "concat (map (subsystems_on rules f) (map trim deltas))"
  have capped: "fold (push_capped CODE_LIMIT) xs [] = take CODE_LIMIT (fold add_new xs [])" for xs :: "string list"
    using fold_push_capped[of CODE_LIMIT xs "[]"] by simp
  have "groups_ok [] (ds_groups no_deltas)" by (simp add: groups_ok_def no_deltas_def)
  from pass_groups[OF this] have g: "groups_ok ?uses (ds_groups ?st)" by simp
  note groups = groups_ok_list[OF g]
  have c: "concat (map (\<lambda>d. codes_on (trim d)) deltas) = concat (map codes_on (map trim deltas))" by (simp add: comp_def)
  have u: "filter (\<lambda>l. codes_on l = []) ls = ls" if "filter (\<lambda>l. codes_on l \<noteq> []) ls = []" for ls
    using that by (auto simp: filter_empty_conv filter_id_conv)
  show ?thesis
    unfolding Let_def aggregateRowDeltas_def delta_aggregate.simps groups
    by (simp add: pass_fields c capped u no_deltas_def fun_eq_iff del: map_map)
qed

end
