(* ===== verification/CompatEvidence.thy ===== *)
theory CompatEvidence
  imports DeltaAggregator ResultEvidence JunitCases HarnessConfig NodePath CliOutcome
begin

text \<open>
  The compatibility evidence of project rows, \<open>scripts/ci/project-compatibility.mjs\<close>: \<open>record\<close> builds a
  row from the environment of a run, \<open>summarize\<close> reads recorded rows back and counts them, and both
  let a row stay green only with exact evidence.

  The environment is a function, a row the list of its properties with \<open>jsval\<close> values. \<open>JSON.parse\<close>,
  the hash, the file system and the classifier of one project are arguments. Numbers are exact, a
  count with a fraction keeps its text; objects in a row are never the same object, so \<open>===\<close> of two is
  false; no state is named like a property that every object inherits, and the subsystem groups of
  a row have their declared shape.
\<close>

section \<open>Values\<close>

type_synonym env = "string \<Rightarrow> string option"
type_synonym row = "(string \<times> jsval) list"

definition falsy :: "jsval \<Rightarrow> bool" where
  "falsy v \<longleftrightarrow> v = JUndef \<or> v = JNull \<or> v = JBool False \<or> v = JInt 0 \<or> v = JStr []"

text \<open>\<open>String(value || "")\<close>.\<close>

definition js_text :: "jsval \<Rightarrow> string" where
  "js_text v = (if falsy v then [] else template_text v)"

definition js_same :: "jsval \<Rightarrow> jsval \<Rightarrow> bool" where
  "js_same a b = (case a of JArr _ \<Rightarrow> False | JObj _ \<Rightarrow> False | _ \<Rightarrow> a = b)"

fun value_number :: "jsval \<Rightarrow> rat option" where
  "value_number JUndef = None"
| "value_number JNull = Some 0"
| "value_number (JBool b) = Some (if b then 1 else 0)"
| "value_number (JInt i) = Some (of_int i)"
| "value_number v = js_Number (template_text v)"

definition int_of_rat :: "rat option \<Rightarrow> int option" where
  "int_of_rat q = (case q of None \<Rightarrow> None | Some x \<Rightarrow> if snd (quotient_of x) = 1 then Some (fst (quotient_of x)) else None)"

definition env_value :: "env \<Rightarrow> string \<Rightarrow> jsval" where
  "env_value env name = (case env name of None \<Rightarrow> JUndef | Some s \<Rightarrow> JStr s)"

definition env_or :: "env \<Rightarrow> string \<Rightarrow> string \<Rightarrow> string" where
  "env_or env name default0 = (case env name of None \<Rightarrow> default0 | Some s \<Rightarrow> if s = [] then default0 else s)"

definition or_json_null :: "'a option \<Rightarrow> ('a \<Rightarrow> jsval) \<Rightarrow> jsval" where
  "or_json_null x f = (case x of None \<Rightarrow> JNull | Some v \<Rightarrow> f v)"

definition strings :: "string list \<Rightarrow> jsval" where
  "strings ss = JArr (map JStr ss)"

definition toNumber :: "jsval \<Rightarrow> rat option" where
  "toNumber v = (if v = JUndef \<or> v = JNull \<or> v = JStr [] then None else value_number v)"

definition toNonnegativeInteger :: "jsval \<Rightarrow> int option" where
  "toNonnegativeInteger v = (case int_of_rat (toNumber v) of Some i \<Rightarrow> if i \<ge> 0 then Some i else None | None \<Rightarrow> None)"

definition count_value :: "jsval \<Rightarrow> jsval" where
  "count_value v =
     (case toNumber v of
        None \<Rightarrow> JNull
      | Some q \<Rightarrow> (case int_of_rat (Some q) of Some i \<Rightarrow> JInt i | None \<Rightarrow> JFrac (trim (template_text v))))"

definition hex_char :: "char \<Rightarrow> bool" where
  "hex_char c \<longleftrightarrow> is_digit c \<or> c \<in> set ''abcdef''"

definition hex_text :: "nat \<Rightarrow> jsval \<Rightarrow> string option" where
  "hex_text n v = (let s = to_lower (trim (js_text v)) in if length s = n \<and> list_all hex_char s then Some s else None)"

definition toSha256 :: "jsval \<Rightarrow> string option" where "toSha256 v = hex_text 64 v"
definition toGitCommit :: "jsval \<Rightarrow> string option" where "toGitCommit v = hex_text 40 v"

definition toBoolean :: "jsval \<Rightarrow> bool option" where
  "toBoolean v =
     (if v = JBool True \<or> v = JStr ''true'' then Some True
      else if v = JBool False \<or> v = JStr ''false'' then Some False else None)"

definition strings_of :: "jsval \<Rightarrow> string list option" where
  "strings_of v =
     (case v of
        JArr vs \<Rightarrow> if list_all (\<lambda>x. case x of JStr _ \<Rightarrow> True | _ \<Rightarrow> False) vs then Some (map template_text vs) else None
      | _ \<Rightarrow> None)"

definition toStringArray :: "(string \<Rightarrow> string + jsval) \<Rightarrow> jsval \<Rightarrow> string list option" where
  "toStringArray parse v =
     (case strings_of v of
        Some ss \<Rightarrow> Some (sort_strings ss)
      | None \<Rightarrow> (case parse (js_text v) of Inl _ \<Rightarrow> None | Inr p \<Rightarrow> map_option sort_strings (strings_of p)))"

definition FILES_REACHED_REASONS :: "string list" where
  "FILES_REACHED_REASONS =
     [''runner did not count'', ''not in scope'', ''process exited before counting'', ''compiler stats missing'',
      ''compiler stats malformed'', ''zero source files processed'', ''fixture dependency stubs present'',
      ''fixture stub inventory unavailable'']"

definition PEAK_MEMORY_BYTES_REASONS :: "string list" where
  "PEAK_MEMORY_BYTES_REASONS =
     [''not measured on platform'', ''measurement disabled'', ''process exited before sampling'', ''not in scope'']"

definition residencyReason :: "jsval \<Rightarrow> jsval \<Rightarrow> string list \<Rightarrow> string \<Rightarrow> jsval" where
  "residencyReason v rawReason vocabulary fallback =
     (if v \<noteq> JNull then JNull
      else let reason = trim (js_text rawReason) in
        JStr (if reason = [] then fallback else if reason \<in> set vocabulary then reason else fallback))"

text \<open>\<open>\b\d+\b\<close>: the runs of word characters that are all digits.\<close>

definition toExitCodes :: "jsval \<Rightarrow> nat list" where
  "toExitCodes v = map decimal (filter (list_all is_digit) (word_runs (js_text v)))"

definition splitDeltaLines :: "jsval \<Rightarrow> string list" where
  "splitDeltaLines v = filter (\<lambda>l. l \<noteq> []) (map trim (split_on [CHR 10] (js_text v)))"

definition codesFromLines :: "string list \<Rightarrow> nat \<Rightarrow> string list" where
  "codesFromLines ls limit = fold (push_capped limit) (concat (map (line_codes False) ls)) []"

section \<open>Classification\<close>

definition side_failed :: "nat list \<Rightarrow> string list \<Rightarrow> bool" where
  "side_failed exitCodes lineCodes \<longleftrightarrow> lineCodes \<noteq> [] \<or> list_ex (\<lambda>c. c \<noteq> 0) exitCodes"

definition oracleClassificationFrom :: "nat list \<Rightarrow> nat list \<Rightarrow> string list \<Rightarrow> string list \<Rightarrow> string" where
  "oracleClassificationFrom tscExits tszExits tscCodes tszCodes =
     (let tscSignaled = tscExits \<noteq> [] \<or> tscCodes \<noteq> []; tszSignaled = tszExits \<noteq> [] \<or> tszCodes \<noteq> [];
          tscFailed = side_failed tscExits tscCodes; tszFailed = side_failed tszExits tszCodes
      in if \<not> tscSignaled \<and> \<not> tszSignaled then ''unknown''
         else if \<not> tszSignaled then (if tscFailed then ''tsc-fails-only'' else ''unknown'')
         else if \<not> tscSignaled then ''unknown''
         else if \<not> tscFailed \<and> \<not> tszFailed then ''both-pass''
         else if tscFailed \<and> \<not> tszFailed then ''tsc-fails-only''
         else if \<not> tscFailed \<and> tszFailed then ''tsz-fails-only''
         else
           let tscSet = fold add_new tscCodes []; tszSet = fold add_new tszCodes [] in
           if length tscSet = length tszSet \<and> list_all (\<lambda>c. c \<in> set tszSet) tscSet \<and> tscExits = tszExits
           then ''both-fail-same'' else ''both-fail-different'')"

definition ORACLE_CLASSIFICATION_ORDER :: "string list" where
  "ORACLE_CLASSIFICATION_ORDER =
     [''both-pass'', ''tsc-fails-only'', ''tsz-fails-only'', ''both-fail-same'', ''both-fail-different'', ''unknown'']"

fun firstNonEmpty :: "string option list \<Rightarrow> string option" where
  "firstNonEmpty [] = None"
| "firstNonEmpty (v # vs) =
     (case v of None \<Rightarrow> firstNonEmpty vs | Some s \<Rightarrow> if trim s \<noteq> [] then Some (trim s) else firstNonEmpty vs)"

definition githubRunUrl :: "env \<Rightarrow> string option \<Rightarrow> string option" where
  "githubRunUrl env runId =
     (case runId of
        None \<Rightarrow> None
      | Some r \<Rightarrow>
          if r = [] \<or> r = ''local'' then None
          else case (firstNonEmpty [env ''GITHUB_SERVER_URL'', Some ''https://github.com''], firstNonEmpty [env ''GITHUB_REPOSITORY'']) of
                 (Some serverUrl, Some repository) \<Rightarrow> Some (serverUrl @ ''/'' @ repository @ ''/actions/runs/'' @ r)
               | _ \<Rightarrow> None)"

definition artifactMetadata :: "env \<Rightarrow> string \<Rightarrow> string \<Rightarrow> row" where
  "artifactMetadata env pre generatedAt =
     (let e = (\<lambda>n. env (pre @ ''_'' @ n)); text1 = (\<lambda>vs. or_json_null (firstNonEmpty vs) JStr);
          runId = firstNonEmpty [e ''WORKFLOW_RUN_ID'', env ''GITHUB_RUN_ID'', Some ''local'']
      in [(''generated_at'', text1 [e ''GENERATED_AT'', Some generatedAt]),
          (''source_commit'', text1 [e ''SOURCE_COMMIT'', env ''BENCH_TARGET_SHA'', env ''GITHUB_SHA'', Some ''local'']),
          (''workflow_name'', text1 [e ''WORKFLOW_NAME'', env ''GITHUB_WORKFLOW'', Some ''local'']),
          (''workflow_run_id'', or_json_null runId JStr),
          (''workflow_run_url'', text1 [e ''WORKFLOW_RUN_URL'', githubRunUrl env runId]),
          (''workflow_run_attempt'', text1 [e ''WORKFLOW_RUN_ATTEMPT'', env ''GITHUB_RUN_ATTEMPT'']),
          (''run_status'', text1 [e ''RUN_STATUS'', Some (if env ''GITHUB_ACTIONS'' = Some ''true'' then ''completed'' else ''local'')])])"

definition slug_char :: "char \<Rightarrow> bool" where
  "slug_char c \<longleftrightarrow> is_digit c \<or> lower_letter c"

definition isProjectRowName :: "string \<Rightarrow> bool" where
  "isProjectRowName s \<longleftrightarrow> list_all (\<lambda>p. p \<noteq> [] \<and> list_all slug_char p) (split_on ''-'' s)"

text \<open>Lines \<open>name|repository|ref\<close>, entry from one; a repeated line is dropped.\<close>

fun fixture_sources :: "nat \<Rightarrow> string list \<Rightarrow> string list \<Rightarrow> string + jsval list" where
  "fixture_sources n seen [] = Inr []"
| "fixture_sources n seen (raw # ls) =
     (let line = trim raw; parts = map trim (split_on ''|'' line) in
      if line = [] then fixture_sources (Suc n) seen ls
      else if length parts \<noteq> 3 \<or> list_ex (\<lambda>p. p = []) parts then
        Inl (''COMPAT_FIXTURE_SOURCES line '' @ show_nat n @ '' must be name|repository|ref: '' @ line)
      else
        let key = join [nul] parts in
        if key \<in> set seen then fixture_sources (Suc n) seen ls
        else map_sum id
               (Cons (JObj [(''name'', JStr (parts ! 0)), (''repository'', JStr (parts ! 1)), (''ref'', JStr (parts ! 2))]))
               (fixture_sources (Suc n) (key # seen) ls))"

definition fixtureSourcesFrom :: "jsval \<Rightarrow> string + jsval list" where
  "fixtureSourcesFrom v = fixture_sources 1 [] (split_on [CHR 10] (js_text v))"

definition add_blocker :: "string \<Rightarrow> string list \<Rightarrow> string list" where
  "add_blocker b bs = (if b \<noteq> [] \<and> b \<notin> set bs \<and> length bs < 8 then bs @ [b] else bs)"

definition exit_blockers :: "(string \<times> string) list" where
  "exit_blockers =
     [(''timeout'', ''timeout during project check''), (''oom'', ''OOM or killed during project check''),
      (''crash'', ''compiler crash during project check''), (''slowdown'', ''runtime slowdown during project timing''),
      (''fixture invalid'', ''reference fixture invalid''), (''runner error'', ''benchmark runner error''),
      (''tsz unavailable'', ''tsz unavailable in benchmark runner''), (''oracle unavailable'', ''tsc oracle unavailable'')]"

definition knownBlockersFrom :: "string \<Rightarrow> string \<Rightarrow> delta_group list \<Rightarrow> string list \<Rightarrow> string list" where
  "knownBlockersFrom exitClass phase groups codes =
     (let b1 = (case map_of exit_blockers exitClass of Some b \<Rightarrow> add_blocker b [] | None \<Rightarrow> []);
          b2 = (if phase \<noteq> [] \<and> phase \<noteq> ''check'' then add_blocker (phase @ '' phase blocker'') b1 else b1);
          b3 = fold (\<lambda>g. add_blocker (dg_subsystem g)) groups b2
      in if b3 = [] \<and> codes \<noteq> [] then add_blocker ''unclassified diagnostic mismatch'' b3 else b3)"

definition lastSuccessfulPhaseFrom :: "string \<Rightarrow> string \<Rightarrow> jsval" where
  "lastSuccessfulPhaseFrom exitClass diagnosticStatus =
     (if exitClass = ''exit success'' \<and> diagnosticStatus = ''none'' then JStr ''check'' else JNull)"

definition rowStateFrom :: "jsval \<Rightarrow> jsval \<Rightarrow> string" where
  "rowStateFrom exitClass diagnosticStatus =
     (if exitClass = JStr ''exit success'' \<and> diagnosticStatus = JStr ''none'' then ''green''
      else if exitClass \<in> JStr ` set [''fixture invalid'', ''runner error'', ''tsz unavailable'', ''oracle unavailable''] then ''gray''
      else if str_includes (to_lower (js_text diagnosticStatus)) ''diagnostic mismatch'' then ''yellow''
      else if exitClass \<in> JStr ` set [''nonzero exit'', ''timeout'', ''oom'', ''crash'', ''slowdown''] then ''red''
      else ''yellow'')"

definition ownerTrackFrom :: "subsystem_rule list \<Rightarrow> string \<Rightarrow> delta_group list \<Rightarrow> string" where
  "ownerTrackFrom rules exitClass groups =
     (case map_of
         [(''timeout'', ''Track 1 runtime/timeout triage''), (''oom'', ''Track 1 residency triage''), (''crash'', ''Track 1 crash triage''),
          (''slowdown'', ''Track 10 runtime slowdown triage''), (''fixture invalid'', ''Track 1 project-corpus harness/config''),
          (''runner error'', ''Track 1 benchmark runner''), (''tsz unavailable'', ''Track 1 benchmark runner''),
          (''oracle unavailable'', ''Track 1 tsc oracle evidence'')] exitClass of
        Some t \<Rightarrow> t
      | None \<Rightarrow>
          let t = ownerTrackForSubsystem rules (case groups of g # _ \<Rightarrow> Some (dg_subsystem g) | [] \<Rightarrow> None) in
          if t = [] then ''Track 1 triage'' else t)"

section \<open>Evidence\<close>

definition exactOrdinaryExit :: "jsval \<Rightarrow> int option" where
  "exactOrdinaryExit codes =
     (case codes of
        JArr [v] \<Rightarrow> (case int_of_rat (value_number v) of Some i \<Rightarrow> if 0 \<le> i \<and> i \<le> 4 then Some i else None | None \<Rightarrow> None)
      | _ \<Rightarrow> None)"

definition opt_field :: "jsval \<Rightarrow> string \<Rightarrow> jsval" where
  "opt_field v k = (case v of JObj ob \<Rightarrow> obj_get ob k | _ \<Rightarrow> JUndef)"

definition is_integer :: "jsval \<Rightarrow> (int \<Rightarrow> bool) \<Rightarrow> bool" where
  "is_integer v P = (case v of JInt i \<Rightarrow> P i | _ \<Rightarrow> False)"

definition sha_fields :: "string list" where
  "sha_fields =
     [''source_tree_fingerprint'', ''evidence_protocol_fingerprint'', ''tsz_binary_sha256'', ''build_manifest_sha256'',
      ''build_inputs_sha256'', ''build_manifest_binary_sha256'', ''compile_input_fingerprint'', ''oracle_fingerprint'',
      ''root_file_fingerprint'', ''source_file_fingerprint'', ''oracle_root_file_fingerprint'', ''oracle_source_file_fingerprint'',
      ''diagnostic_fingerprint'', ''oracle_diagnostic_fingerprint'', ''stub_inventory_fingerprint'']"

text \<open>One failure when its test holds.\<close>

definition failure_if :: "bool \<Rightarrow> string \<Rightarrow> string list" where
  "failure_if b name = (if b then [name] else [])"

definition graph_differs :: "row \<Rightarrow> bool" where
  "graph_differs r \<longleftrightarrow>
     \<not> is_integer (obj_get r ''root_files'') (\<lambda>i. i > 0) \<or> \<not> is_integer (obj_get r ''source_files'') (\<lambda>i. i > 0) \<or>
     \<not> js_same (obj_get r ''root_files'') (obj_get r ''oracle_root_files'') \<or>
     \<not> js_same (obj_get r ''source_files'') (obj_get r ''oracle_source_files'') \<or>
     \<not> js_same (obj_get r ''files_reached'') (obj_get r ''source_files'') \<or>
     \<not> js_same (obj_get r ''root_file_fingerprint'') (obj_get r ''oracle_root_file_fingerprint'') \<or>
     \<not> js_same (obj_get r ''source_file_fingerprint'') (obj_get r ''oracle_source_file_fingerprint'')"

definition exits_differ :: "row \<Rightarrow> bool" where
  "exits_differ r \<longleftrightarrow>
     (let tsz = exactOrdinaryExit (opt_field (obj_get r ''exit_codes'') ''tsz''); tsc = exactOrdinaryExit (opt_field (obj_get r ''exit_codes'') ''tsc'')
      in tsz = None \<or> tsc = None \<or> tsz \<noteq> tsc)"

definition records_differ :: "row \<Rightarrow> bool" where
  "records_differ r \<longleftrightarrow>
     \<not> is_integer (obj_get r ''diagnostic_records'') (\<lambda>i. i \<ge> 0) \<or>
     \<not> js_same (obj_get r ''diagnostic_records'') (obj_get r ''oracle_diagnostic_records'') \<or>
     \<not> js_same (obj_get r ''diagnostic_fingerprint'') (obj_get r ''oracle_diagnostic_fingerprint'')"

definition stubs_present :: "(string \<Rightarrow> string) \<Rightarrow> (string \<Rightarrow> string + jsval) \<Rightarrow> row \<Rightarrow> bool" where
  "stubs_present sha parse r \<longleftrightarrow>
     (let owners = toStringArray parse (obj_get r ''stub_inventory_owners'') in
      \<not> js_same (obj_get r ''stub_inventory_schema'') (JInt 2) \<or> \<not> is_integer (obj_get r ''stubbed_modules'') (\<lambda>i. i = 0) \<or>
      \<not> is_integer (obj_get r ''stubbed_any_members'') (\<lambda>i. i = 0) \<or> owners = None \<or> owners \<noteq> Some [] \<or>
      \<not> js_same (obj_get r ''stub_inventory_fingerprint'')
          (JStr (fixtureStubEvidenceFingerprint sha 0 0 (case owners of Some os \<Rightarrow> os | None \<Rightarrow> []))))"

definition evidenceV3Failures :: "(string \<Rightarrow> string) \<Rightarrow> (string \<Rightarrow> string + jsval) \<Rightarrow> row \<Rightarrow> string list" where
  "evidenceV3Failures sha parse r =
     fold add_new
       (failure_if (toGitCommit (obj_get r ''source_commit'') = None) ''source_commit'' @
        failure_if (case obj_get r ''source_dirty'' of JBool _ \<Rightarrow> False | _ \<Rightarrow> True) ''source_dirty'' @
        failure_if (obj_get r ''source_stable'' \<noteq> JBool True) ''source_stable'' @
        failure_if (obj_get r ''compile_input_stable'' \<noteq> JBool True) ''compile_input_stable'' @
        filter (\<lambda>k. toSha256 (obj_get r k) = None) sha_fields @
        failure_if (\<not> js_same (obj_get r ''build_manifest_binary_sha256'') (obj_get r ''tsz_binary_sha256'')) ''build_manifest_binary'' @
        failure_if (obj_get r ''semantic_completion'' \<noteq> JStr ''complete'') ''semantic_completion'' @
        failure_if (graph_differs r) ''project_graph'' @
        failure_if (exits_differ r) ''compiler_exits'' @
        failure_if (obj_get r ''oracle_classification'' \<noteq> JStr ''both-pass'' \<and>
                    obj_get r ''oracle_classification'' \<noteq> JStr ''both-fail-same'') ''oracle_classification'' @
        failure_if (records_differ r) ''diagnostic_records'' @
        failure_if (stubs_present sha parse r) ''fixture_stub_inventory'' @
        failure_if (obj_get r ''exit_class'' \<noteq> JStr ''exit success'' \<or> obj_get r ''diagnostic_status'' \<noteq> JStr ''none'') ''semantic_verdict'')
       []"

definition set_evidence :: "bool \<Rightarrow> string list \<Rightarrow> row \<Rightarrow> row" where
  "set_evidence exact failures r =
     obj_set ''evidence_failures'' (strings failures)
       (obj_set ''evidence_status'' (JStr (if exact then ''exact'' else ''incomplete''))
         (obj_set ''evidence_schema'' (if exact then JInt 3 else JNull) r))"

definition demote :: "string list \<Rightarrow> row \<Rightarrow> row" where
  "demote failures r =
     obj_set ''known_blockers''
       (JArr (take 8 (JStr (''compatibility evidence incomplete: '' @ join '', '' failures) #
          (case obj_get r ''known_blockers'' of JArr bs \<Rightarrow> bs | _ \<Rightarrow> []))))
       (obj_set ''owner_track'' (JStr ''Track 1 project-corpus harness/config'')
         (obj_set ''first_failure_class'' (JStr ''compatibility evidence incomplete'') (obj_set ''state'' (JStr ''gray'') r)))"

definition applyEvidenceState :: "(string \<Rightarrow> string) \<Rightarrow> (string \<Rightarrow> string + jsval) \<Rightarrow> row \<Rightarrow> jsval \<Rightarrow> row" where
  "applyEvidenceState sha parse r requestedSchema =
     (let failures = evidenceV3Failures sha parse r; exact = (requestedSchema = JInt 3 \<and> failures = []);
          named = (if exact then [] else if requestedSchema = JInt 3 then failures else [''evidence_schema'']);
          r1 = set_evidence exact named r
      in if obj_get r1 ''state'' = JStr ''green'' \<and> \<not> exact then demote named r1 else r1)"

section \<open>Recording a row\<close>

record place =
  pl_cwd :: string
  pl_exists :: "string \<Rightarrow> bool"
  pl_isFile :: "string \<Rightarrow> bool"
  pl_isDirectory :: "string \<Rightarrow> bool"
  pl_read :: "string \<Rightarrow> string option"

definition isInside :: "place \<Rightarrow> string \<Rightarrow> string \<Rightarrow> bool" where
  "isInside pl outputRoot file =
     (let rel = path_relative (pl_cwd pl) outputRoot file in
      rel = [] \<or> (\<not> starts_with rel ''..'' \<and> \<not> isAbsolute rel))"

definition resolveWritableFile :: "place \<Rightarrow> string option \<Rightarrow> string \<Rightarrow> string option \<Rightarrow> string option list \<Rightarrow> string + string" where
  "resolveWritableFile pl v label outputRoot forbidden =
     (if \<not> truthy v then Inl (label @ '' is required'')
      else
        let resolved = path_resolve (pl_cwd pl) [the v] in
        if truthy outputRoot \<and> \<not> isInside pl (path_resolve (pl_cwd pl) [the outputRoot]) resolved
        then Inl (label @ '' must stay inside output root'')
        else if list_ex (\<lambda>b. truthy b \<and> path_resolve (pl_cwd pl) [the b] = resolved) forbidden
        then Inl (label @ '' must not overwrite an input artifact'')
        else if \<not> pl_exists pl (path_dirname resolved) \<or> \<not> pl_isDirectory pl (path_dirname resolved)
        then Inl (label @ '' parent directory does not exist'')
        else if pl_exists pl resolved \<and> \<not> pl_isFile pl resolved then Inl (label @ '' path is not a file'')
        else Inr resolved)"

text \<open>\<open>None\<close> is \<open>null\<close>; an empty text comes back as it is only from \<open>null\<close> or the empty text.\<close>

definition relativeToFixture :: "place \<Rightarrow> env \<Rightarrow> string option \<Rightarrow> string option" where
  "relativeToFixture pl env v =
     (if \<not> truthy v then None
      else
        let value0 = the v; fixture = env_or env ''COMPAT_FIXTURE_ROOT'' [] in
        if fixture = [] \<or> \<not> isAbsolute value0 then Some value0
        else
          let rel = path_relative (pl_cwd pl) fixture value0 in
          if rel \<noteq> [] \<and> \<not> starts_with rel ''..'' \<and> \<not> isAbsolute rel then Some rel else Some value0)"

definition reproFrom :: "place \<Rightarrow> env \<Rightarrow> delta_location option \<Rightarrow> row" where
  "reproFrom pl env loc =
     (let rel = (case loc of Some l \<Rightarrow> relativeToFixture pl env (dl_path l) | None \<Rightarrow> None);
          tsconfig = relativeToFixture pl env (env ''COMPAT_TSCONFIG_PATH'');
          sourceRoot = relativeToFixture pl env (env ''COMPAT_SOURCE_ROOT'');
          pre = trim (env_or env ''COMPAT_TSZ_COMMAND_ENV_PREFIX'' []);
          commandPrefix = (if pre = [] then [] else pre @ '' '');
          nat_field = (\<lambda>f. case loc of Some l \<Rightarrow> or_json_null (f l) (\<lambda>n. JInt (int n)) | None \<Rightarrow> JNull)
      in [(''tsconfig_path'', or_json_null tsconfig JStr), (''source_root'', or_json_null sourceRoot JStr),
          (''first_failure_path'', or_json_null rel JStr),
          (''first_failure_line'', nat_field dl_line), (''first_failure_column'', nat_field dl_column),
          (''first_failure_code'', (case loc of Some l \<Rightarrow> JStr (dl_code l) | None \<Rightarrow> JNull)),
          (''reduced_repro_path'', or_json_null (or_option rel (or_option sourceRoot tsconfig)) JStr),
          (''command'', or_json_null tsconfig (\<lambda>t. JStr (commandPrefix @ ''$TSZ_BIN --noEmit -p '' @ t)))])"

definition group_value :: "delta_group \<Rightarrow> jsval" where
  "group_value g =
     JObj [(''subsystem'', JStr (dg_subsystem g)), (''codes'', strings (dg_codes g)), (''count'', JInt (int (dg_count g))),
           (''examples'', strings (dg_examples g))]"

definition nats :: "nat list \<Rightarrow> jsval" where
  "nats ns = JArr (map (\<lambda>n. JInt (int n)) ns)"

text \<open>The lines and codes of the three compilers, from their own variables or from the unified list.\<close>

definition perSourceDeltas :: "env \<Rightarrow> delta_aggregate \<Rightarrow> delta_source \<Rightarrow> string list" where
  "perSourceDeltas env a s =
     (let name = (case s of Tsc \<Rightarrow> ''COMPAT_TSC_DIAGNOSTIC_DELTA'' | Tsz \<Rightarrow> ''COMPAT_TSZ_DIAGNOSTIC_DELTA'' | Tsgo \<Rightarrow> ''COMPAT_TSGO_DIAGNOSTIC_DELTA'') in
      if env name \<noteq> None then splitDeltaLines (env_value env name)
      else case s of
             Tsz \<Rightarrow> da_bodiesBySource a (Some Tsz) @ da_bodiesBySource a None
           | _ \<Rightarrow> da_bodiesBySource a (Some s))"

definition perSourceCodes :: "env \<Rightarrow> delta_aggregate \<Rightarrow> delta_source \<Rightarrow> string list" where
  "perSourceCodes env a s =
     (let name = (case s of Tsc \<Rightarrow> ''COMPAT_TSC_DIAGNOSTIC_DELTA'' | Tsz \<Rightarrow> ''COMPAT_TSZ_DIAGNOSTIC_DELTA'' | Tsgo \<Rightarrow> ''COMPAT_TSGO_DIAGNOSTIC_DELTA'') in
      if env name \<noteq> None then codesFromLines (perSourceDeltas env a s) 8
      else case s of
             Tsz \<Rightarrow> take 8 (fold add_new (da_codesBySource a (Some Tsz) @ da_codesBySource a None) [])
           | _ \<Rightarrow> da_codesBySource a (Some s))"

definition sha_entry :: "env \<Rightarrow> string \<Rightarrow> string \<Rightarrow> string \<times> jsval" where
  "sha_entry env field name = (field, or_json_null (toSha256 (env_value env (''COMPAT_'' @ name))) JStr)"

definition count_entry :: "env \<Rightarrow> string \<Rightarrow> string \<Rightarrow> string \<times> jsval" where
  "count_entry env field name = (field, or_json_null (toNonnegativeInteger (env_value env (''COMPAT_'' @ name))) JInt)"

definition flag_entry :: "env \<Rightarrow> string \<Rightarrow> string \<Rightarrow> string \<times> jsval" where
  "flag_entry env field name = (field, or_json_null (toBoolean (env_value env (''COMPAT_'' @ name))) JBool)"

text \<open>The properties of a row that bind it to its inputs, as the environment gives them.\<close>

definition evidence_entries :: "(string \<Rightarrow> string + jsval) \<Rightarrow> env \<Rightarrow> row" where
  "evidence_entries parse env =
     [(''evidence_schema'', JNull), (''evidence_status'', JNull), (''evidence_failures'', JArr []),
      flag_entry env ''source_dirty'' ''SOURCE_DIRTY'', flag_entry env ''source_stable'' ''SOURCE_STABLE'',
      sha_entry env ''source_tree_fingerprint'' ''SOURCE_TREE_FINGERPRINT'',
      sha_entry env ''evidence_protocol_fingerprint'' ''EVIDENCE_PROTOCOL_FINGERPRINT'',
      sha_entry env ''tsz_binary_sha256'' ''TSZ_BINARY_SHA256'', sha_entry env ''build_manifest_sha256'' ''BUILD_MANIFEST_SHA256'',
      sha_entry env ''build_inputs_sha256'' ''BUILD_INPUTS_SHA256'',
      sha_entry env ''build_manifest_binary_sha256'' ''BUILD_MANIFEST_BINARY_SHA256'',
      sha_entry env ''compile_input_fingerprint'' ''COMPILE_INPUT_FINGERPRINT'',
      flag_entry env ''compile_input_stable'' ''COMPILE_INPUT_STABLE'', sha_entry env ''oracle_fingerprint'' ''ORACLE_FINGERPRINT'',
      (''semantic_completion'', (let t = trim (env_or env ''COMPAT_SEMANTIC_COMPLETION'' []) in if t = [] then JNull else JStr t)),
      count_entry env ''root_files'' ''ROOT_FILES'', count_entry env ''source_files'' ''SOURCE_FILES'',
      sha_entry env ''root_file_fingerprint'' ''ROOT_FILE_FINGERPRINT'', sha_entry env ''source_file_fingerprint'' ''SOURCE_FILE_FINGERPRINT'',
      count_entry env ''oracle_root_files'' ''ORACLE_ROOT_FILES'', count_entry env ''oracle_source_files'' ''ORACLE_SOURCE_FILES'',
      sha_entry env ''oracle_root_file_fingerprint'' ''ORACLE_ROOT_FILE_FINGERPRINT'',
      sha_entry env ''oracle_source_file_fingerprint'' ''ORACLE_SOURCE_FILE_FINGERPRINT'',
      count_entry env ''diagnostic_records'' ''DIAGNOSTIC_RECORDS'', sha_entry env ''diagnostic_fingerprint'' ''DIAGNOSTIC_FINGERPRINT'',
      count_entry env ''oracle_diagnostic_records'' ''ORACLE_DIAGNOSTIC_RECORDS'',
      sha_entry env ''oracle_diagnostic_fingerprint'' ''ORACLE_DIAGNOSTIC_FINGERPRINT'',
      (''stub_inventory_schema'',
        if toNonnegativeInteger (env_value env ''COMPAT_STUB_INVENTORY_SCHEMA'') = Some 2 then JInt 2 else JNull),
      count_entry env ''stubbed_modules'' ''STUBBED_MODULES'', count_entry env ''stubbed_any_members'' ''STUBBED_ANY_MEMBERS'',
      sha_entry env ''stub_inventory_fingerprint'' ''STUB_INVENTORY_FINGERPRINT'',
      (''stub_inventory_owners'', or_json_null (toStringArray parse (env_value env ''COMPAT_STUB_INVENTORY_OWNERS'')) strings)]"

definition exit_class :: "env \<Rightarrow> string" where "exit_class env = env_or env ''COMPAT_EXIT_CLASS'' ''unknown''"

definition diagnostic_status :: "env \<Rightarrow> string" where
  "diagnostic_status env = env_or env ''COMPAT_DIAGNOSTIC_STATUS'' ''unknown''"

definition compat_phase :: "env \<Rightarrow> string" where "compat_phase env = env_or env ''COMPAT_PHASE'' ''unknown''"

text \<open>The verdict on the run as it was reported, before its evidence is judged.\<close>

definition verdict_entries :: "subsystem_rule list \<Rightarrow> env \<Rightarrow> string \<Rightarrow> delta_aggregate \<Rightarrow> row" where
  "verdict_entries rules env projectName a =
     (let st = rowStateFrom (JStr (exit_class env)) (JStr (diagnostic_status env));
          blockers = knownBlockersFrom (exit_class env) (compat_phase env) (da_subsystems a) (da_codes a)
      in [(''name'', JStr projectName), (''state'', JStr st), (''exit_class'', JStr (exit_class env)),
          (''first_failure_class'', if st = ''green'' then JNull else JStr (case blockers of b # _ \<Rightarrow> b | [] \<Rightarrow> exit_class env)),
          (''owner_track'', if st = ''green'' then JNull else JStr (ownerTrackFrom rules (exit_class env) (da_subsystems a))),
          (''phase'', JStr (compat_phase env)), (''last_successful_phase'', lastSuccessfulPhaseFrom (exit_class env) (diagnostic_status env)),
          (''diagnostic_status'', JStr (diagnostic_status env))])"

definition exits_of :: "env \<Rightarrow> delta_source \<Rightarrow> nat list" where
  "exits_of env s =
     toExitCodes (env_value env (case s of Tsc \<Rightarrow> ''COMPAT_TSC_EXIT_CODES'' | Tsz \<Rightarrow> ''COMPAT_TSZ_EXIT_CODES'' | Tsgo \<Rightarrow> ''COMPAT_TSGO_EXIT_CODES''))"

definition per_compiler :: "(delta_source \<Rightarrow> jsval) \<Rightarrow> jsval" where
  "per_compiler f = JObj [(''tsc'', f Tsc), (''tsz'', f Tsz), (''tsgo'', f Tsgo)]"

definition report_entries :: "place \<Rightarrow> env \<Rightarrow> string list \<Rightarrow> delta_aggregate \<Rightarrow> jsval list \<Rightarrow> row" where
  "report_entries pl env deltas a fixtureSources =
     (let groups = da_subsystems a; repro = reproFrom pl env (da_firstLocation a);
          filesReached = count_value (env_value env ''COMPAT_FILES_REACHED'');
          peak = count_value (env_value env ''COMPAT_PEAK_MEMORY_BYTES'')
      in [(''oracle_classification'',
             JStr (oracleClassificationFrom (exits_of env Tsc) (exits_of env Tsz) (perSourceCodes env a Tsc) (perSourceCodes env a Tsz))),
          (''diagnostic_deltas'', strings deltas), (''diagnostic_subsystems'', JArr (map group_value groups)),
          (''primary_subsystem'', case groups of g # _ \<Rightarrow> if dg_subsystem g = [] then JNull else JStr (dg_subsystem g) | [] \<Rightarrow> JNull),
          (''diagnostic_codes'', strings (da_codes a)), (''tsc_diagnostic_codes'', strings (perSourceCodes env a Tsc)),
          (''tsz_diagnostic_codes'', strings (perSourceCodes env a Tsz)), (''tsgo_diagnostic_codes'', strings (perSourceCodes env a Tsgo)),
          (''emit_status'', JStr ''not in scope (noEmit project check)''), (''dts_status'', JStr ''not in scope (noEmit project check)''),
          (''known_blockers'', strings (knownBlockersFrom (exit_class env) (compat_phase env) groups (da_codes a))),
          (''reduced_repro_path'', obj_get repro ''reduced_repro_path''), (''repro'', JObj repro),
          (''exit_codes'', per_compiler (\<lambda>s. nats (exits_of env s))),
          (''diagnostic_counts'', per_compiler (\<lambda>s. JInt (int (length (perSourceDeltas env a s))))),
          (''files_reached'', filesReached),
          (''files_reached_reason'', residencyReason filesReached (env_value env ''COMPAT_FILES_REACHED_REASON'') FILES_REACHED_REASONS ''runner did not count''),
          (''peak_memory_bytes'', peak),
          (''peak_memory_bytes_reason'', residencyReason peak (env_value env ''COMPAT_PEAK_MEMORY_BYTES_REASON'') PEAK_MEMORY_BYTES_REASONS ''not measured on platform''),
          (''fixture_sources'', JArr fixtureSources)])"

definition record_row ::
  "place \<Rightarrow> subsystem_rule list \<Rightarrow> (string \<Rightarrow> string + jsval) \<Rightarrow> env \<Rightarrow> string \<Rightarrow> string \<Rightarrow> string list \<Rightarrow> delta_aggregate \<Rightarrow> jsval list \<Rightarrow> row" where
  "record_row pl rules parse env generatedAt projectName deltas a fixtureSources =
     artifactMetadata env ''COMPAT'' generatedAt @ verdict_entries rules env projectName a @ evidence_entries parse env @
     report_entries pl env deltas a fixtureSources"

text \<open>The file to append to and the row, or the message of exit code 1. The classifier is used for the
  project it is made for.\<close>

definition record_compat ::
  "place \<Rightarrow> subsystem_rule list \<Rightarrow> classifier \<Rightarrow> (string \<Rightarrow> string) \<Rightarrow> (string \<Rightarrow> string + jsval) \<Rightarrow> env \<Rightarrow> string \<Rightarrow> string + string \<times> row" where
  "record_compat pl rules hook sha parse env generatedAt =
     (let deltas = take 20 (splitDeltaLines (env_value env ''COMPAT_DIAGNOSTIC_DELTA'')); projectName = env_or env ''COMPAT_NAME'' [] in
      if \<not> isProjectRowName projectName then Inl ''error: COMPAT_NAME must be a lowercase hyphenated project row slug''
      else
        let a = aggregateRowDeltas rules (if projectName = ''type-challenges-solutions-project'' then Some hook else None) deltas in
        case resolveWritableFile pl (env ''COMPAT_JSONL_FILE'') ''project compatibility JSONL'' (env ''COMPAT_OUTPUT_ROOT'') [] of
          Inl m \<Rightarrow> Inl (''error: '' @ m)
        | Inr outputFile \<Rightarrow>
            (case fixtureSourcesFrom (env_value env ''COMPAT_FIXTURE_SOURCES'') of
               Inl m \<Rightarrow> Inl (''error: '' @ m)
             | Inr sources \<Rightarrow>
                 Inr (outputFile,
                   applyEvidenceState sha parse (record_row pl rules parse env generatedAt projectName deltas a sources)
                     (or_json_null (toNonnegativeInteger (env_value env ''COMPAT_EVIDENCE_SCHEMA'')) JInt))))"

section \<open>The summary\<close>

record read_result =
  rr_rows :: "jsval list"
  rr_malformed :: nat
  rr_examples :: "jsval list"

definition read_line :: "(string \<Rightarrow> string + jsval) \<Rightarrow> nat \<times> string \<Rightarrow> read_result \<Rightarrow> read_result" where
  "read_line parse entry st =
     (case parse (snd entry) of
        Inr v \<Rightarrow> st\<lparr>rr_rows := rr_rows st @ [v]\<rparr>
      | Inl m \<Rightarrow>
          st\<lparr>rr_malformed := rr_malformed st + 1,
             rr_examples := (if length (rr_examples st) < 3
               then rr_examples st @ [JObj [(''line'', JInt (int (fst entry))), (''error'', JStr m), (''text'', JStr (take 240 (snd entry)))]]
               else rr_examples st)\<rparr>)"

definition readRows :: "place \<Rightarrow> (string \<Rightarrow> string + jsval) \<Rightarrow> string \<Rightarrow> read_result" where
  "readRows pl parse input =
     (let start = \<lparr>rr_rows = [], rr_malformed = 0, rr_examples = []\<rparr> in
      case pl_read pl input of
        None \<Rightarrow> start
      | Some content0 \<Rightarrow>
          let ls = filter (\<lambda>l. l \<noteq> []) (map trim (split_on [CHR 10] content0)) in
          fold (read_line parse) (zip [1..<Suc (length ls)] ls) start)"

text \<open>A property cannot be set on \<open>null\<close> or on a primitive value; on an array it is set, and no text
  of the array shows it.\<close>

definition summarize_row :: "(string \<Rightarrow> string) \<Rightarrow> (string \<Rightarrow> string + jsval) \<Rightarrow> jsval \<Rightarrow> string + jsval" where
  "summarize_row sha parse v =
     (case v of
        JObj ob \<Rightarrow>
          let r = (if falsy (obj_get ob ''state'')
                   then obj_set ''state'' (JStr (rowStateFrom (obj_get ob ''exit_class'') (obj_get ob ''diagnostic_status''))) ob else ob)
          in Inr (JObj (if obj_get r ''state'' = JStr ''green'' then applyEvidenceState sha parse r (obj_get r ''evidence_schema'') else r))
      | JArr _ \<Rightarrow> Inr v
      | _ \<Rightarrow> Inl ''TypeError'')"

definition row_state :: "jsval \<Rightarrow> jsval" where
  "row_state v = (case v of JArr _ \<Rightarrow> JStr ''yellow'' | _ \<Rightarrow> opt_field v ''state'')"

fun summarize_rows :: "(string \<Rightarrow> string) \<Rightarrow> (string \<Rightarrow> string + jsval) \<Rightarrow> jsval list \<Rightarrow> string + jsval list" where
  "summarize_rows sha parse [] = Inr []"
| "summarize_rows sha parse (v # vs) =
     (case summarize_row sha parse v of Inl m \<Rightarrow> Inl m | Inr r \<Rightarrow> map_sum id (Cons r) (summarize_rows sha parse vs))"

definition or_unknown :: "jsval \<Rightarrow> string" where
  "or_unknown v = (if falsy v then ''unknown'' else template_text v)"

definition count_key :: "string \<Rightarrow> row \<Rightarrow> row" where
  "count_key k counts = obj_set k (JInt ((case obj_get counts k of JInt i \<Rightarrow> i | _ \<Rightarrow> 0) + 1)) counts"

definition oracle_key :: "jsval \<Rightarrow> string" where
  "oracle_key v =
     (let raw = opt_field v ''oracle_classification'' in
      if raw \<notin> JStr ` set ORACLE_CLASSIFICATION_ORDER then ''unknown'' else or_unknown raw)"

definition or_null_value :: "jsval \<Rightarrow> jsval" where
  "or_null_value v = (if falsy v then JNull else v)"

definition delta_items :: "subsystem_rule list \<Rightarrow> jsval \<Rightarrow> jsval list" where
  "delta_items rules v =
     (let elems = (\<lambda>x. case x of JArr vs \<Rightarrow> vs | _ \<Rightarrow> []);
          pairs = concat (map (\<lambda>g. if falsy (opt_field g ''subsystem'') then []
                                   else map (\<lambda>e. (e, opt_field g ''subsystem'')) (elems (opt_field g ''examples'')))
                           (elems (opt_field v ''diagnostic_subsystems'')))
      in map (\<lambda>d.
           let loc = parseDiagnosticLine (js_text d); known = map_of pairs d in
           JObj [(''project'', or_null_value (opt_field v ''name'')),
                 (''oracle_classification'', let o1 = opt_field v ''oracle_classification'' in if falsy o1 then JStr ''unknown'' else o1),
                 (''state'', or_null_value (row_state v)),
                 (''code'', case loc of Some l \<Rightarrow> JStr (dl_code l) | None \<Rightarrow> JNull),
                 (''path'', case loc of Some l \<Rightarrow> or_json_null (dl_path l) JStr | None \<Rightarrow> JNull),
                 (''subsystem'', case known of Some s \<Rightarrow> s
                    | None \<Rightarrow> JStr (case loc of Some l \<Rightarrow> subsystemForCode rules (dl_code l) | None \<Rightarrow> ''unattributed'')),
                 (''delta'', d)]) (elems (opt_field v ''diagnostic_deltas'')))"

definition residency_item :: "jsval \<Rightarrow> jsval" where
  "residency_item v =
     JObj ((''project'', or_null_value (opt_field v ''name'')) # (''state'', or_null_value (row_state v)) #
       map (\<lambda>k. (k, or_null (opt_field v k)))
         [''files_reached'', ''files_reached_reason'', ''peak_memory_bytes'', ''peak_memory_bytes_reason''])"

definition rows_in_state :: "string \<Rightarrow> jsval list \<Rightarrow> jsval list" where
  "rows_in_state s rows = filter (\<lambda>v. or_unknown (row_state v) = s) rows"

record row_summary =
  rs_byState :: row
  rs_byOracle :: row
  rs_topDeltas :: "jsval list"
  rs_residency :: "jsval list"

definition aggregateRowsForSummary :: "subsystem_rule list \<Rightarrow> nat \<Rightarrow> jsval list \<Rightarrow> row_summary" where
  "aggregateRowsForSummary rules limit rows =
     \<lparr>rs_byState = fold (\<lambda>v. count_key (or_unknown (row_state v))) rows [],
      rs_byOracle = fold (\<lambda>v. count_key (oracle_key v)) rows [],
      rs_topDeltas = take limit (concat (map (delta_items rules)
        (concat (map (\<lambda>s. rows_in_state s rows) [''red'', ''yellow'', ''gray'', ''green''])))),
      rs_residency = map residency_item (concat (map (\<lambda>s. filter (\<lambda>v. row_state v = JStr s) rows) [''red'', ''yellow'']))\<rparr>"

definition summarize ::
  "place \<Rightarrow> subsystem_rule list \<Rightarrow> (string \<Rightarrow> string) \<Rightarrow> (string \<Rightarrow> string + jsval) \<Rightarrow> env \<Rightarrow> string \<Rightarrow> string + string \<times> row" where
  "summarize pl rules sha parse env generatedAt =
     (let input = readRows pl parse (env_or env ''SUMMARY_JSONL_FILE'' []) in
      case resolveWritableFile pl (env ''SUMMARY_OUTPUT_FILE'') ''project compatibility summary'' (env ''SUMMARY_OUTPUT_ROOT'')
          [env ''SUMMARY_JSONL_FILE''] of
        Inl m \<Rightarrow> Inl (''error: '' @ m)
      | Inr outputFile \<Rightarrow>
          (case summarize_rows sha parse (rr_rows input) of
             Inl m \<Rightarrow> Inl m
           | Inr rows \<Rightarrow>
               let s = aggregateRowsForSummary rules 3 rows in
               Inr (outputFile,
                 artifactMetadata env ''SUMMARY'' generatedAt @
                 [(''project_set'', JStr (env_or env ''SUMMARY_PROJECT_SET'' ''required'')),
                  (''project_filter'', JStr (env_or env ''SUMMARY_PROJECT_FILTER'' [])),
                  (''allow_failures'', JBool (env ''SUMMARY_ALLOW_FAILURES'' = Some ''1'')),
                  (''failures'', case count_value (env_value env ''SUMMARY_FAILURES'') of
                     JNull \<Rightarrow> if env_or env ''SUMMARY_FAILURES'' [] = [] then JInt 0 else JNull | n \<Rightarrow> n),
                  (''row_count'', JInt (int (length rows))), (''malformed_jsonl_lines'', JInt (int (rr_malformed input))),
                  (''malformed_jsonl_examples'', JArr (rr_examples input)), (''by_state'', JObj (rs_byState s)),
                  (''by_oracle_classification'', JObj (rs_byOracle s)), (''first_diagnostic_deltas'', JArr (rs_topDeltas s)),
                  (''residency_by_row'', JArr (rs_residency s)), (''rows'', JArr rows)])))"

end
