(* ===== verification/CompatProofs.thy ===== *)
theory CompatProofs
  imports CompatEvidence
begin

text \<open>
  What a green row of \<open>CompatEvidence\<close> stands for: whether a row is recorded or read back, it is
  green only with exact evidence, and the summary changes no row that was recorded.
\<close>

section \<open>Properties of a row\<close>

lemma obj_get_set [simp]: "k \<noteq> ''__proto__'' \<Longrightarrow> obj_get (obj_set k v r) k' = (if k' = k then v else obj_get r k')"
  by (simp add: obj_get_def obj_set_get)

lemma obj_set_same:
  assumes "obj_get r k = v" and "v \<noteq> JUndef"
  shows "obj_set k v r = r"
proof -
  have m: "map_of r k = Some v" using assms by (auto simp: obj_get_def split: option.splits)
  then have "k \<in> fst ` set r" by (metis map_of_eq_None_iff option.distinct(1))
  with m show ?thesis by (simp add: obj_set_def update_triv)
qed

text \<open>The properties that a verdict on the evidence does not look at.\<close>

definition verdict_fields :: "string set" where
  "verdict_fields = {''evidence_schema'', ''evidence_status'', ''evidence_failures'', ''state'', ''first_failure_class'', ''owner_track'', ''known_blockers''}"

definition same_inputs :: "row \<Rightarrow> row \<Rightarrow> bool" where
  "same_inputs r r' \<longleftrightarrow> (\<forall>k. k \<notin> verdict_fields \<longrightarrow> obj_get r k = obj_get r' k)"

lemma inputs_outside: "same_inputs r r' \<Longrightarrow> k \<notin> verdict_fields \<Longrightarrow> obj_get r k = obj_get r' k"
  by (simp add: same_inputs_def)

lemma failures_same_inputs:
  assumes "same_inputs r r'"
  shows "evidenceV3Failures sha parse r = evidenceV3Failures sha parse r'"
proof -
  note g = inputs_outside[OF assms]
  have sha: "filter (\<lambda>k. toSha256 (obj_get r k) = None) sha_fields = filter (\<lambda>k. toSha256 (obj_get r' k) = None) sha_fields"
    by (rule filter_cong[OF refl]) (subst g, auto simp: sha_fields_def verdict_fields_def)
  have d: "graph_differs r = graph_differs r'" "exits_differ r = exits_differ r'" "records_differ r = records_differ r'"
    "stubs_present sha parse r = stubs_present sha parse r'"
    by (simp_all add: graph_differs_def exits_differ_def records_differ_def stubs_present_def g verdict_fields_def)
  show ?thesis unfolding evidenceV3Failures_def sha d by (simp add: g verdict_fields_def)
qed

lemma set_evidence_inputs: "same_inputs (set_evidence e f r) r"
  by (simp add: same_inputs_def set_evidence_def verdict_fields_def)

lemma set_evidence_state: "obj_get (set_evidence e f r) ''state'' = obj_get r ''state''"
  by (simp add: set_evidence_def)

text \<open>A row is green after its evidence was judged only if it was green and the evidence is exact.\<close>

lemma applied_green:
  assumes "obj_get (applyEvidenceState sha parse r req) ''state'' = JStr ''green''"
  shows "req = JInt 3 \<and> evidenceV3Failures sha parse r = [] \<and> applyEvidenceState sha parse r req = set_evidence True [] r \<and>
    obj_get r ''state'' = JStr ''green''"
  using assms by (auto simp: applyEvidenceState_def Let_def demote_def set_evidence_state split: if_splits)

section \<open>What exact evidence says\<close>

text \<open>Both compilers ended with the same ordinary exit code on the same root and source files, with the same
  diagnostics; the binary is the one the build manifest names; the sources did not change; no
  dependency was stubbed.\<close>

definition same_graph :: "row \<Rightarrow> bool" where
  "same_graph r \<longleftrightarrow>
     (\<exists>roots files. roots > 0 \<and> files > 0 \<and> obj_get r ''root_files'' = JInt roots \<and> obj_get r ''oracle_root_files'' = JInt roots \<and>
        obj_get r ''source_files'' = JInt files \<and> obj_get r ''oracle_source_files'' = JInt files \<and> obj_get r ''files_reached'' = JInt files) \<and>
     obj_get r ''root_file_fingerprint'' = obj_get r ''oracle_root_file_fingerprint'' \<and>
     obj_get r ''source_file_fingerprint'' = obj_get r ''oracle_source_file_fingerprint''"

definition same_result :: "row \<Rightarrow> bool" where
  "same_result r \<longleftrightarrow>
     (\<exists>code. 0 \<le> code \<and> code \<le> 4 \<and> exactOrdinaryExit (opt_field (obj_get r ''exit_codes'') ''tsz'') = Some code \<and>
        exactOrdinaryExit (opt_field (obj_get r ''exit_codes'') ''tsc'') = Some code) \<and>
     (\<exists>n \<ge> 0. obj_get r ''diagnostic_records'' = JInt n \<and> obj_get r ''oracle_diagnostic_records'' = JInt n) \<and>
     obj_get r ''diagnostic_fingerprint'' = obj_get r ''oracle_diagnostic_fingerprint'' \<and>
     obj_get r ''oracle_classification'' \<in> {JStr ''both-pass'', JStr ''both-fail-same''} \<and>
     obj_get r ''exit_class'' = JStr ''exit success'' \<and> obj_get r ''diagnostic_status'' = JStr ''none''"

definition bound_inputs :: "row \<Rightarrow> bool" where
  "bound_inputs r \<longleftrightarrow> toGitCommit (obj_get r ''source_commit'') \<noteq> None \<and> list_all (\<lambda>k. toSha256 (obj_get r k) \<noteq> None) sha_fields \<and>
     obj_get r ''source_stable'' = JBool True \<and> obj_get r ''compile_input_stable'' = JBool True \<and>
     obj_get r ''build_manifest_binary_sha256'' = obj_get r ''tsz_binary_sha256'' \<and> obj_get r ''semantic_completion'' = JStr ''complete''"

definition no_stubs :: "(string \<Rightarrow> string) \<Rightarrow> row \<Rightarrow> bool" where
  "no_stubs sha r \<longleftrightarrow> obj_get r ''stub_inventory_schema'' = JInt 2 \<and> obj_get r ''stubbed_modules'' = JInt 0 \<and>
     obj_get r ''stubbed_any_members'' = JInt 0 \<and>
     obj_get r ''stub_inventory_fingerprint'' = JStr (fixtureStubEvidenceFingerprint sha 0 0 [])"

definition sound_evidence :: "(string \<Rightarrow> string) \<Rightarrow> row \<Rightarrow> bool" where
  "sound_evidence sha r \<longleftrightarrow> same_graph r \<and> same_result r \<and> bound_inputs r \<and> no_stubs sha r \<and> obj_get r ''evidence_schema'' = JInt 3 \<and>
     obj_get r ''evidence_status'' = JStr ''exact'' \<and> obj_get r ''evidence_failures'' = JArr []"

lemma js_same_eq: "js_same a b \<Longrightarrow> a = b"
  by (cases a) (simp_all add: js_same_def)

lemma is_integerD: "is_integer v P \<Longrightarrow> \<exists>i. v = JInt i \<and> P i"
  by (cases v) (simp_all add: is_integer_def)

lemma new_all_Nil: "fold add_new xs [] = [] \<longleftrightarrow> xs = []"
  by (metis set_add_new_all set_empty sup_bot.right_neutral fold_simps(1))

lemma failure_if_Nil: "failure_if b n = [] \<longleftrightarrow> \<not> b"
  by (simp add: failure_if_def)

lemma exact_means:
  assumes "evidenceV3Failures sha parse r = []"
  shows "same_graph r \<and> same_result r \<and> bound_inputs r \<and> no_stubs sha r"
proof -
  note f = assms[unfolded evidenceV3Failures_def new_all_Nil append_is_Nil_conv failure_if_Nil filter_empty_conv]
  have "\<not> graph_differs r" "\<not> exits_differ r" "\<not> records_differ r" "\<not> stubs_present sha parse r" using f by blast+
  then have "same_graph r"
    unfolding graph_differs_def same_graph_def by (metis js_same_eq is_integerD)
  moreover have "same_result r"
  proof -
    from \<open>\<not> exits_differ r\<close> obtain code where
      "exactOrdinaryExit (opt_field (obj_get r ''exit_codes'') ''tsz'') = Some code"
      "exactOrdinaryExit (opt_field (obj_get r ''exit_codes'') ''tsc'') = Some code" by (auto simp: exits_differ_def Let_def)
    moreover from this(1) have "0 \<le> code \<and> code \<le> 4"
      by (auto simp: exactOrdinaryExit_def split: jsval.splits list.splits option.splits if_splits)
    moreover from \<open>\<not> records_differ r\<close> have
      "(\<exists>n \<ge> 0. obj_get r ''diagnostic_records'' = JInt n \<and> obj_get r ''oracle_diagnostic_records'' = JInt n) \<and>
       obj_get r ''diagnostic_fingerprint'' = obj_get r ''oracle_diagnostic_fingerprint''"
      unfolding records_differ_def by (auto dest!: js_same_eq is_integerD)
    ultimately show ?thesis using f unfolding same_result_def by blast
  qed
  moreover have "bound_inputs r"
    using f unfolding bound_inputs_def list_all_iff by (auto dest!: js_same_eq)
  moreover have "no_stubs sha r"
    using \<open>\<not> stubs_present sha parse r\<close> unfolding stubs_present_def no_stubs_def Let_def
    by (auto dest!: js_same_eq is_integerD)
  ultimately show ?thesis by blast
qed

lemma applied_sound:
  assumes "obj_get (applyEvidenceState sha parse r req) ''state'' = JStr ''green''"
  shows "sound_evidence sha (applyEvidenceState sha parse r req)"
proof -
  let ?r = "set_evidence True [] r"
  note g = applied_green[OF assms]
  have "evidenceV3Failures sha parse ?r = []"
    using g failures_same_inputs[OF set_evidence_inputs] by simp
  from exact_means[OF this] have "sound_evidence sha ?r"
    by (simp add: sound_evidence_def set_evidence_def strings_def)
  moreover from g have "applyEvidenceState sha parse r req = ?r" by blast
  ultimately show ?thesis by simp
qed

text \<open>Judging a second time changes nothing.\<close>

lemma applied_twice:
  assumes "obj_get (applyEvidenceState sha parse r req) ''state'' = JStr ''green''"
  defines "r' \<equiv> applyEvidenceState sha parse r req"
  shows "applyEvidenceState sha parse r' (obj_get r' ''evidence_schema'') = r'"
proof -
  note g = applied_green[OF assms(1)]
  have r': "r' = set_evidence True [] r" unfolding r'_def using g by blast
  have "evidenceV3Failures sha parse r' = []" using g failures_same_inputs[OF set_evidence_inputs] by (simp add: r')
  moreover have "obj_get r' ''evidence_schema'' = JInt 3" "obj_get r' ''evidence_status'' = JStr ''exact''"
    "obj_get r' ''evidence_failures'' = strings []"
    by (simp_all add: r' set_evidence_def)
  ultimately show ?thesis
    by (simp add: applyEvidenceState_def Let_def set_evidence_def obj_set_same strings_def)
qed

section \<open>Recorded and summarised rows\<close>

lemma row_state_obj [simp]: "row_state (JObj r) = obj_get r ''state''"
  by (simp add: row_state_def opt_field_def)

lemma summarize_row_sound:
  assumes "summarize_row sha parse v = Inr v'" and "row_state v' = JStr ''green''"
  shows "\<exists>r. v' = JObj r \<and> sound_evidence sha r"
proof (cases v)
  case (JObj ob)
  let ?r = "if falsy (obj_get ob ''state'')
    then obj_set ''state'' (JStr (rowStateFrom (obj_get ob ''exit_class'') (obj_get ob ''diagnostic_status''))) ob else ob"
  have v': "v' = JObj (if obj_get ?r ''state'' = JStr ''green'' then applyEvidenceState sha parse ?r (obj_get ?r ''evidence_schema'') else ?r)"
    using assms(1) by (simp only: JObj summarize_row_def jsval.case Let_def sum.inject)
  show ?thesis
  proof (cases "obj_get ?r ''state'' = JStr ''green''")
    case True
    then have "v' = JObj (applyEvidenceState sha parse ?r (obj_get ?r ''evidence_schema''))" using v' by simp
    then show ?thesis using assms(2) applied_sound by (metis row_state_obj)
  next
    case False
    then have "v' = JObj ?r" using v' by simp
    then show ?thesis using assms(2) False by (metis row_state_obj)
  qed
qed (use assms in \<open>auto simp: summarize_row_def row_state_def\<close>)

lemma summarize_rows_sound:
  "summarize_rows sha parse vs = Inr rs \<Longrightarrow> v \<in> set rs \<Longrightarrow> row_state v = JStr ''green'' \<Longrightarrow> \<exists>r. v = JObj r \<and> sound_evidence sha r"
proof (induction vs arbitrary: rs)
  case (Cons u us)
  then obtain r rs' where "summarize_row sha parse u = Inr r" "summarize_rows sha parse us = Inr rs'" "rs = r # rs'"
    by (auto split: sum.splits simp: map_sum_def)
  then show ?case using Cons summarize_row_sound by (metis set_ConsD)
qed simp

lemma summary_rows:
  assumes "summarize pl rules sha parse env generatedAt = Inr (file, s)"
  shows "\<exists>rows. summarize_rows sha parse (rr_rows (readRows pl parse (env_or env ''SUMMARY_JSONL_FILE'' []))) = Inr rows \<and>
    obj_get s ''rows'' = JArr rows"
  using assms unfolding summarize_def Let_def
  by (auto split: sum.splits simp: artifactMetadata_def Let_def obj_get_def simp del: firstNonEmpty.simps)

text \<open>C11: whatever the lines of the input hold, rows written by hand or by an older recorder included, a row
  that is green in a summary has exact evidence: both compilers ended with the same ordinary exit code, over
  the same root and source files, with the same diagnostics; the inputs are bound by commit and
  hashes and did not change; and no dependency was replaced by a stub.\<close>

theorem summary_green_exact:
  assumes "summarize pl rules sha parse env generatedAt = Inr (file, s)"
    and "obj_get s ''rows'' = JArr rows" and "v \<in> set rows" and "row_state v = JStr ''green''"
  shows "\<exists>r. v = JObj r \<and> sound_evidence sha r"
  using summary_rows[OF assms(1)] summarize_rows_sound[OF _ assms(3,4)] assms(2) by auto

lemma record_row_state:
  "\<exists>exitClass status. obj_get (record_row pl rules parse env g name ds a srcs) ''state'' = JStr (rowStateFrom exitClass status)"
  unfolding record_row_def verdict_entries_def artifactMetadata_def obj_get_def Let_def by (simp, blast)

lemma rowStateFrom_not_Nil: "rowStateFrom e d \<noteq> []"
  by (simp add: rowStateFrom_def)

lemma applied_state:
  "obj_get (applyEvidenceState sha parse r req) ''state'' = obj_get r ''state'' \<or>
   obj_get (applyEvidenceState sha parse r req) ''state'' = JStr ''gray''"
  by (simp add: applyEvidenceState_def Let_def demote_def set_evidence_state)

text \<open>C12: a recorded row is green only with exact evidence, and the summary keeps every recorded row as it is.\<close>

theorem recorded_row_kept:
  assumes "record_compat pl rules hook sha parse env generatedAt = Inr (file, r)"
  shows "summarize_row sha parse (JObj r) = Inr (JObj r) \<and> (obj_get r ''state'' = JStr ''green'' \<longrightarrow> sound_evidence sha r)"
proof -
  obtain r0 req where r: "r = applyEvidenceState sha parse r0 req"
    and "\<exists>e d. obj_get r0 ''state'' = JStr (rowStateFrom e d)"
    using assms record_row_state unfolding record_compat_def Let_def by (auto split: if_splits sum.splits)
  then obtain e d where "obj_get r ''state'' = JStr (rowStateFrom e d) \<or> obj_get r ''state'' = JStr ''gray''"
    using applied_state[of sha parse r0 req] by metis
  then have "\<not> falsy (obj_get r ''state'')" using rowStateFrom_not_Nil[of e d] by (auto simp: falsy_def)
  then have "summarize_row sha parse (JObj r) =
      Inr (JObj (if obj_get r ''state'' = JStr ''green'' then applyEvidenceState sha parse r (obj_get r ''evidence_schema'') else r))"
    by (simp add: summarize_row_def Let_def)
  then show ?thesis using applied_twice[of sha parse r0 req] applied_sound[of sha parse r0 req] by (auto simp: r)
qed

section \<open>A recorded run that passes\<close>

definition demo_digest :: string where "demo_digest = replicate 64 CHR ''a''"

definition compat_demo_env :: env where
  "compat_demo_env name =
     (if take 7 name \<noteq> ''COMPAT_'' then None
      else map_of
        [(''NAME'', ''p''), (''JSONL_FILE'', ''/o/rows''), (''EXIT_CLASS'', ''exit success''),
         (''DIAGNOSTIC_STATUS'', ''none''), (''SOURCE_COMMIT'', replicate 40 CHR ''b''), (''EVIDENCE_SCHEMA'', ''3''),
         (''SOURCE_DIRTY'', ''false''), (''SOURCE_STABLE'', ''true''), (''COMPILE_INPUT_STABLE'', ''true''),
         (''SEMANTIC_COMPLETION'', ''complete''), (''ROOT_FILES'', ''2''), (''ORACLE_ROOT_FILES'', ''2''),
         (''SOURCE_FILES'', ''3''), (''ORACLE_SOURCE_FILES'', ''3''), (''FILES_REACHED'', ''3''),
         (''TSC_EXIT_CODES'', ''0''), (''TSZ_EXIT_CODES'', ''0''), (''DIAGNOSTIC_RECORDS'', ''0''),
         (''ORACLE_DIAGNOSTIC_RECORDS'', ''0''), (''STUB_INVENTORY_SCHEMA'', ''2''), (''STUBBED_MODULES'', ''0''),
         (''STUBBED_ANY_MEMBERS'', ''0''), (''STUB_INVENTORY_OWNERS'', ''[]''),
         (''SOURCE_TREE_FINGERPRINT'', demo_digest), (''EVIDENCE_PROTOCOL_FINGERPRINT'', demo_digest),
         (''TSZ_BINARY_SHA256'', demo_digest), (''BUILD_MANIFEST_SHA256'', demo_digest), (''BUILD_INPUTS_SHA256'', demo_digest),
         (''BUILD_MANIFEST_BINARY_SHA256'', demo_digest), (''COMPILE_INPUT_FINGERPRINT'', demo_digest), (''ORACLE_FINGERPRINT'', demo_digest),
         (''ROOT_FILE_FINGERPRINT'', demo_digest), (''SOURCE_FILE_FINGERPRINT'', demo_digest),
         (''ORACLE_ROOT_FILE_FINGERPRINT'', demo_digest), (''ORACLE_SOURCE_FILE_FINGERPRINT'', demo_digest),
         (''DIAGNOSTIC_FINGERPRINT'', demo_digest), (''ORACLE_DIAGNOSTIC_FINGERPRINT'', demo_digest),
         (''STUB_INVENTORY_FINGERPRINT'', demo_digest)] (drop 7 name))"

definition demo_parse :: "string \<Rightarrow> string + jsval" where
  "demo_parse s = (if s = ''[]'' then Inr (JArr []) else Inl ''SyntaxError'')"

definition demo_place :: place where
  "demo_place =
     \<lparr>pl_cwd = ''/'', pl_exists = (\<lambda>p. p = ''/o''), pl_isFile = (\<lambda>p. False), pl_isDirectory = (\<lambda>p. True), pl_read = (\<lambda>p. None)\<rparr>"

abbreviation demo_record :: "string + string \<times> row" where
  "demo_record \<equiv> record_compat demo_place [] (\<lambda>_ _. None) (\<lambda>_. demo_digest) demo_parse compat_demo_env ''now''"

lemma demo_sha: "toSha256 (JStr demo_digest) = Some demo_digest"
proof -
  have w: "\<not> is_ws CHR ''a''" "lower_char CHR ''a'' = CHR ''a''" "hex_char CHR ''a''" by code_simp+
  have "trim demo_digest = demo_digest" by (rule trim_id) (simp_all add: demo_digest_def w)
  then show ?thesis
    by (simp add: toSha256_def hex_text_def js_text_def falsy_def to_lower_def demo_digest_def w Let_def list_all_iff)
qed

lemma demo_numbers:
  "toNonnegativeInteger (JStr ''0'') = Some 0" "toNonnegativeInteger (JStr ''2'') = Some 2" "toNonnegativeInteger (JStr ''3'') = Some 3"
  "toExitCodes (JStr ''0'') = [0]" "toExitCodes JUndef = []" "count_value (JStr ''3'') = JInt 3"
  by code_simp+

lemma demo_commit: "toGitCommit (JStr (replicate 40 CHR ''b'')) \<noteq> None"
proof -
  have w: "\<not> is_ws CHR ''b''" "lower_char CHR ''b'' = CHR ''b''" "hex_char CHR ''b''" by code_simp+
  have "trim (replicate 40 CHR ''b'') = replicate 40 CHR ''b''" by (rule trim_id) (simp_all add: w)
  then show ?thesis
    by (simp add: toGitCommit_def hex_text_def js_text_def falsy_def to_lower_def w Let_def list_all_iff)
qed

lemma demo_entries:
  "evidence_entries demo_parse compat_demo_env =
     [(''evidence_schema'', JNull), (''evidence_status'', JNull), (''evidence_failures'', JArr []),
      (''source_dirty'', JBool False), (''source_stable'', JBool True), (''source_tree_fingerprint'', JStr demo_digest),
      (''evidence_protocol_fingerprint'', JStr demo_digest), (''tsz_binary_sha256'', JStr demo_digest),
      (''build_manifest_sha256'', JStr demo_digest), (''build_inputs_sha256'', JStr demo_digest),
      (''build_manifest_binary_sha256'', JStr demo_digest), (''compile_input_fingerprint'', JStr demo_digest),
      (''compile_input_stable'', JBool True), (''oracle_fingerprint'', JStr demo_digest), (''semantic_completion'', JStr ''complete''),
      (''root_files'', JInt 2), (''source_files'', JInt 3), (''root_file_fingerprint'', JStr demo_digest),
      (''source_file_fingerprint'', JStr demo_digest), (''oracle_root_files'', JInt 2), (''oracle_source_files'', JInt 3),
      (''oracle_root_file_fingerprint'', JStr demo_digest), (''oracle_source_file_fingerprint'', JStr demo_digest),
      (''diagnostic_records'', JInt 0), (''diagnostic_fingerprint'', JStr demo_digest), (''oracle_diagnostic_records'', JInt 0),
      (''oracle_diagnostic_fingerprint'', JStr demo_digest), (''stub_inventory_schema'', JInt 2), (''stubbed_modules'', JInt 0),
      (''stubbed_any_members'', JInt 0), (''stub_inventory_fingerprint'', JStr demo_digest), (''stub_inventory_owners'', JArr [])]"
proof -
  have t: "trim ''complete'' = ''complete''" "trim ''[]'' = ''[]''" by code_simp+
  show ?thesis
    unfolding evidence_entries_def sha_entry_def count_entry_def flag_entry_def env_value_def env_or_def compat_demo_env_def
    by (simp add: demo_sha demo_numbers or_json_null_def toBoolean_def t Let_def toStringArray_def strings_of_def js_text_def falsy_def
        demo_parse_def strings_def sort_strings_def)
qed

text \<open>The keys of the parts of a row, none of which occurs twice.\<close>

lemma metadata_keys:
  "map fst (artifactMetadata env pre g) =
     [''generated_at'', ''source_commit'', ''workflow_name'', ''workflow_run_id'', ''workflow_run_url'', ''workflow_run_attempt'', ''run_status'']"
  by (simp add: artifactMetadata_def Let_def del: firstNonEmpty.simps)

lemma verdict_keys:
  "map fst (verdict_entries rules env name a) =
     [''name'', ''state'', ''exit_class'', ''first_failure_class'', ''owner_track'', ''phase'', ''last_successful_phase'', ''diagnostic_status'']"
  by (simp add: verdict_entries_def Let_def)

lemma obj_get_append: "obj_get (xs @ ys) k = (if k \<in> set (map fst xs) then obj_get xs k else obj_get ys k)"
proof (cases "map_of xs k")
  case None
  then have "k \<notin> set (map fst xs)" by (simp add: map_of_eq_None_iff)
  with None show ?thesis by (simp add: obj_get_def map_add_def)
next
  case (Some v)
  then have "k \<in> set (map fst xs)" by (metis map_of_eq_None_iff option.distinct(1) set_map)
  with Some show ?thesis by (simp add: obj_get_def map_add_def)
qed

lemma record_row_get:
  "obj_get (record_row pl rules parse env g name ds a srcs) k =
     (if k \<in> set (map fst (artifactMetadata env ''COMPAT'' g)) then obj_get (artifactMetadata env ''COMPAT'' g) k
      else if k \<in> set (map fst (verdict_entries rules env name a)) then obj_get (verdict_entries rules env name a) k
      else if k \<in> set (map fst (evidence_entries parse env)) then obj_get (evidence_entries parse env) k
      else obj_get (report_entries pl env ds a srcs) k)"
  by (simp only: record_row_def obj_get_append)

definition demo_row :: row where
  "demo_row = record_row demo_place [] demo_parse compat_demo_env ''now'' ''p'' [] (aggregateRowDeltas [] None []) []"

lemma demo_env_values:
  "exit_class compat_demo_env = ''exit success''" "diagnostic_status compat_demo_env = ''none''"
  "compat_demo_env ''COMPAT_SOURCE_COMMIT'' = Some (replicate 40 CHR ''b'')" "compat_demo_env ''COMPAT_DIAGNOSTIC_DELTA'' = None"
  "env_value compat_demo_env ''COMPAT_TSC_EXIT_CODES'' = JStr ''0''" "env_value compat_demo_env ''COMPAT_TSZ_EXIT_CODES'' = JStr ''0''"
  "env_value compat_demo_env ''COMPAT_FILES_REACHED'' = JStr ''3''" "env_value compat_demo_env ''COMPAT_EVIDENCE_SCHEMA'' = JStr ''3''"
  "compat_demo_env ''COMPAT_TSC_DIAGNOSTIC_DELTA'' = None" "compat_demo_env ''COMPAT_TSZ_DIAGNOSTIC_DELTA'' = None"
  by (simp_all add: exit_class_def diagnostic_status_def env_or_def env_value_def compat_demo_env_def)

lemma demo_aggregate:
  "da_subsystems (aggregateRowDeltas [] f []) = []" "da_codes (aggregateRowDeltas [] f []) = []"
  "da_codesBySource (aggregateRowDeltas [] f []) = (\<lambda>_. [])"
  by (simp_all add: aggregateRowDeltas_def no_deltas_def Let_def)

lemma demo_fields:
  "obj_get demo_row ''source_commit'' = JStr (replicate 40 CHR ''b'')" "obj_get demo_row ''exit_class'' = JStr ''exit success''"
  "obj_get demo_row ''diagnostic_status'' = JStr ''none''" "obj_get demo_row ''state'' = JStr ''green''"
  "obj_get demo_row ''oracle_classification'' = JStr ''both-pass''" "obj_get demo_row ''files_reached'' = JInt 3"
  "opt_field (obj_get demo_row ''exit_codes'') ''tsz'' = JArr [JInt 0]" "opt_field (obj_get demo_row ''exit_codes'') ''tsc'' = JArr [JInt 0]"
proof -
  have t: "trim (replicate 40 CHR ''b'') = replicate 40 CHR ''b''"
    by (rule trim_id) (simp add: is_ws_def)
  note k = record_row_get metadata_keys verdict_keys demo_entries
  show "obj_get demo_row ''source_commit'' = JStr (replicate 40 CHR ''b'')"
    unfolding demo_row_def k by (simp add: artifactMetadata_def obj_get_def Let_def demo_env_values or_json_null_def t)
  show "obj_get demo_row ''exit_class'' = JStr ''exit success''" "obj_get demo_row ''diagnostic_status'' = JStr ''none''"
    "obj_get demo_row ''state'' = JStr ''green''"
    unfolding demo_row_def k by (simp_all add: verdict_entries_def obj_get_def Let_def demo_env_values rowStateFrom_def)
  show "obj_get demo_row ''oracle_classification'' = JStr ''both-pass''" "obj_get demo_row ''files_reached'' = JInt 3"
    "opt_field (obj_get demo_row ''exit_codes'') ''tsz'' = JArr [JInt 0]" "opt_field (obj_get demo_row ''exit_codes'') ''tsc'' = JArr [JInt 0]"
    unfolding demo_row_def k
    by (simp_all add: report_entries_def obj_get_def Let_def demo_env_values demo_numbers exits_of_def perSourceCodes_def demo_aggregate
        oracleClassificationFrom_def side_failed_def per_compiler_def nats_def opt_field_def)
qed

lemma demo_bound:
  "list_all (\<lambda>k. obj_get demo_row k = JStr demo_digest) sha_fields"
  "obj_get demo_row ''source_dirty'' = JBool False" "obj_get demo_row ''source_stable'' = JBool True"
  "obj_get demo_row ''compile_input_stable'' = JBool True" "obj_get demo_row ''semantic_completion'' = JStr ''complete''"
  "obj_get demo_row ''root_files'' = JInt 2" "obj_get demo_row ''oracle_root_files'' = JInt 2"
  "obj_get demo_row ''source_files'' = JInt 3" "obj_get demo_row ''oracle_source_files'' = JInt 3"
  "obj_get demo_row ''diagnostic_records'' = JInt 0" "obj_get demo_row ''oracle_diagnostic_records'' = JInt 0"
  "obj_get demo_row ''stub_inventory_schema'' = JInt 2" "obj_get demo_row ''stubbed_modules'' = JInt 0"
  "obj_get demo_row ''stubbed_any_members'' = JInt 0" "obj_get demo_row ''stub_inventory_owners'' = JArr []"
  unfolding demo_row_def record_row_get metadata_keys verdict_keys demo_entries sha_fields_def
  by (simp_all add: obj_get_def)

lemma demo_exact: "evidenceV3Failures (\<lambda>_. demo_digest) parse demo_row = []"
proof -
  have f: "obj_get demo_row k = JStr demo_digest" if "k \<in> set sha_fields" for k
    using demo_bound(1) that by (simp add: list_all_iff)
  have sha: "filter (\<lambda>k. toSha256 (obj_get demo_row k) = None) sha_fields = []"
    using f demo_sha by (simp add: filter_empty_conv)
  have e: "exactOrdinaryExit (JArr [JInt 0]) = Some 0" by code_simp
  have same: "js_same (obj_get demo_row k) (obj_get demo_row k')" if "k \<in> set sha_fields" "k' \<in> set sha_fields" for k k'
    using f[OF that(1)] f[OF that(2)] by (simp add: js_same_def)
  have s: "obj_get demo_row ''stub_inventory_fingerprint'' = JStr demo_digest" by (rule f) (simp add: sha_fields_def)
  have "\<not> graph_differs demo_row" "\<not> records_differ demo_row"
    by (simp_all add: graph_differs_def records_differ_def demo_bound demo_fields is_integer_def js_same_def same[unfolded js_same_def] sha_fields_def
        f)
  moreover have "\<not> exits_differ demo_row" by (simp add: exits_differ_def demo_fields e)
  moreover have "\<not> stubs_present (\<lambda>_. demo_digest) parse demo_row"
    by (simp add: stubs_present_def demo_bound js_same_def is_integer_def toStringArray_def strings_of_def sort_strings_def s
        fixtureStubEvidenceFingerprint_def)
  moreover have "js_same (obj_get demo_row ''build_manifest_binary_sha256'') (obj_get demo_row ''tsz_binary_sha256'')"
    by (rule same) (simp_all add: sha_fields_def)
  ultimately show ?thesis
    unfolding evidenceV3Failures_def sha by (simp add: failure_if_def demo_bound demo_fields demo_commit)
qed

lemma demo_recorded: "demo_record = Inr (''/o/rows'', set_evidence True [] demo_row)"
proof -
  have p: "isProjectRowName ''p''" "path_resolve ''/'' [''/o/rows''] = ''/o/rows''" "path_dirname ''/o/rows'' = ''/o''" by code_simp+
  have v: "env_or compat_demo_env ''COMPAT_NAME'' [] = ''p''" "compat_demo_env ''COMPAT_JSONL_FILE'' = Some ''/o/rows''"
    "compat_demo_env ''COMPAT_OUTPUT_ROOT'' = None" "env_value compat_demo_env ''COMPAT_FIXTURE_SOURCES'' = JUndef"
    "env_value compat_demo_env ''COMPAT_DIAGNOSTIC_DELTA'' = JUndef"
    by (simp_all add: env_or_def env_value_def compat_demo_env_def)
  have d: "splitDeltaLines JUndef = []" "fixtureSourcesFrom JUndef = Inr []" by code_simp+
  have w: "resolveWritableFile demo_place (Some ''/o/rows'') l None [] = Inr ''/o/rows''" for l
    by (simp add: resolveWritableFile_def truthy_def demo_place_def p Let_def)
  show ?thesis
    unfolding record_compat_def Let_def v d
    by (simp add: p w demo_env_values demo_numbers or_json_null_def applyEvidenceState_def demo_exact Let_def flip: demo_row_def)
qed

text \<open>A green row is recorded and kept.\<close>

theorem recorded_row_kept_witness:
  "demo_record = Inr (''/o/rows'', set_evidence True [] demo_row) \<and>
   obj_get (set_evidence True [] demo_row) ''state'' = JStr ''green'' \<and> sound_evidence (\<lambda>_. demo_digest) (set_evidence True [] demo_row) \<and>
   summarize_row (\<lambda>_. demo_digest) demo_parse (JObj (set_evidence True [] demo_row)) = Inr (JObj (set_evidence True [] demo_row))"
proof -
  have "obj_get (set_evidence True [] demo_row) ''state'' = JStr ''green''" by (simp add: set_evidence_state demo_fields)
  with recorded_row_kept[OF demo_recorded] demo_recorded show ?thesis by blast
qed

text \<open>A summary of the recorded row and of a row that only claims to be green.\<close>

definition demo_lines :: "string \<Rightarrow> string + jsval" where
  "demo_lines s =
     (if s = ''r'' then Inr (JObj (set_evidence True [] demo_row))
      else if s = ''f'' then Inr (JObj [(''state'', JStr ''green'')]) else Inl ''SyntaxError'')"

definition demo_summary_env :: env where
  "demo_summary_env = [''SUMMARY_JSONL_FILE'' \<mapsto> ''/o/rows'', ''SUMMARY_OUTPUT_FILE'' \<mapsto> ''/o/s'']"

definition demo_input :: place where
  "demo_input = demo_place\<lparr>pl_read := (\<lambda>p. if p = ''/o/rows'' then Some [CHR ''r'', CHR 10, CHR ''f'', CHR 10, CHR ''x''] else None)\<rparr>"

abbreviation demo_summary :: "string + string \<times> row" where
  "demo_summary \<equiv> summarize demo_input [] (\<lambda>_. demo_digest) demo_lines demo_summary_env ''now''"

lemma demo_read: "rr_rows (readRows demo_input demo_lines ''/o/rows'') = [JObj (set_evidence True [] demo_row), JObj [(''state'', JStr ''green'')]]"
proof -
  have l: "filter (\<lambda>l. l \<noteq> []) (map trim (split_on [CHR 10] [CHR ''r'', CHR 10, CHR ''f'', CHR 10, CHR ''x''])) = [''r'', ''f'', ''x'']"
    by code_simp
  show ?thesis
    by (simp add: readRows_def demo_input_def l Let_def upt_rec[of 1] upt_rec[of 2] upt_rec[of 3] read_line_def demo_lines_def numeral_2_eq_2)
qed

lemma demo_twice:
  "summarize_row (\<lambda>_. demo_digest) parse (JObj (set_evidence True [] demo_row)) = Inr (JObj (set_evidence True [] demo_row))"
proof -
  let ?r = "applyEvidenceState (\<lambda>_. demo_digest) parse demo_row (JInt 3)"
  have r: "?r = set_evidence True [] demo_row" by (simp add: applyEvidenceState_def demo_exact Let_def)
  have g: "obj_get ?r ''state'' = JStr ''green''" by (simp add: r set_evidence_state demo_fields)
  from applied_twice[OF this] show ?thesis using g unfolding r by (simp add: summarize_row_def Let_def falsy_def)
qed

lemma forged_row:
  "\<exists>r. summarize_row sha parse (JObj [(''state'', JStr ''green'')]) = Inr (JObj r) \<and> obj_get r ''state'' = JStr ''gray'' \<and>
     obj_get r ''name'' = JUndef"
proof -
  have "obj_get [(''state'', JStr ''green'')] ''evidence_schema'' = JUndef" "obj_get [(''state'', JStr ''green'')] ''state'' = JStr ''green''"
    "obj_get [(''state'', JStr ''green'')] ''name'' = JUndef"
    by (simp_all add: obj_get_def)
  then show ?thesis
    by (simp add: summarize_row_def applyEvidenceState_def Let_def demote_def set_evidence_def falsy_def)
qed

lemma demo_summarized:
  "\<exists>out s forged. demo_summary = Inr (out, s) \<and> obj_get s ''rows'' = JArr [JObj (set_evidence True [] demo_row), JObj forged] \<and>
     obj_get forged ''state'' = JStr ''gray'' \<and> obj_get forged ''name'' = JUndef"
proof -
  obtain forged where f: "summarize_row (\<lambda>_. demo_digest) demo_lines (JObj [(''state'', JStr ''green'')]) = Inr (JObj forged)"
    "obj_get forged ''state'' = JStr ''gray''" "obj_get forged ''name'' = JUndef" using forged_row by blast
  let ?rows = "[JObj (set_evidence True [] demo_row), JObj forged]"
  have rows: "summarize_rows (\<lambda>_. demo_digest) demo_lines (rr_rows (readRows demo_input demo_lines ''/o/rows'')) = Inr ?rows"
    by (simp add: demo_read demo_twice f)
  have p: "path_resolve ''/'' [''/o/s''] = ''/o/s''" "path_resolve ''/'' [''/o/rows''] = ''/o/rows''" "path_dirname ''/o/s'' = ''/o''"
    by code_simp+
  have w: "resolveWritableFile demo_input (Some ''/o/s'') l None [Some ''/o/rows''] = Inr ''/o/s''" for l
    by (simp add: resolveWritableFile_def truthy_def demo_input_def demo_place_def p Let_def)
  have v: "env_or demo_summary_env ''SUMMARY_JSONL_FILE'' [] = ''/o/rows''" "demo_summary_env ''SUMMARY_JSONL_FILE'' = Some ''/o/rows''"
    "demo_summary_env ''SUMMARY_OUTPUT_FILE'' = Some ''/o/s''" "demo_summary_env ''SUMMARY_OUTPUT_ROOT'' = None"
    by (simp_all add: env_or_def demo_summary_env_def)
  obtain out s where s: "demo_summary = Inr (out, s)"
    unfolding summarize_def Let_def v w sum.case rows by blast
  have "obj_get s ''rows'' = JArr ?rows"
    using summary_rows[OF s] rows by (simp add: v)
  with s f(2,3) show ?thesis by blast
qed

theorem summary_green_exact_witness:
  "\<exists>out s forged. demo_summary = Inr (out, s) \<and> obj_get s ''rows'' = JArr [JObj (set_evidence True [] demo_row), JObj forged] \<and>
     sound_evidence (\<lambda>_. demo_digest) (set_evidence True [] demo_row) \<and> obj_get forged ''state'' = JStr ''gray''"
proof -
  obtain out s forged where s: "demo_summary = Inr (out, s)"
    and r: "obj_get s ''rows'' = JArr [JObj (set_evidence True [] demo_row), JObj forged]" "obj_get forged ''state'' = JStr ''gray''"
    using demo_summarized by blast
  have "row_state (JObj (set_evidence True [] demo_row)) = JStr ''green''" by (simp add: set_evidence_state demo_fields)
  from summary_green_exact[OF s r(1) _ this] have "sound_evidence (\<lambda>_. demo_digest) (set_evidence True [] demo_row)" by simp
  with s r show ?thesis by blast
qed

text \<open>A state that is a list of one text is not compared with it, but counted under it.\<close>

lemma list_state_counted:
  "let v = JObj [(''state'', JArr [JStr ''green''])] in
   summarize_rows sha parse [v] = Inr [v] \<and> obj_get (rs_byState (aggregateRowsForSummary rules 3 [v])) ''green'' = JInt 1"
  by (simp add: summarize_row_def falsy_def obj_get_def aggregateRowsForSummary_def count_key_def or_unknown_def row_state_def opt_field_def
      obj_set_def Let_def)

end
