(* ===== verification/CompatRatchet.thy ===== *)
theory CompatRatchet
  imports CompatProofs
begin

text \<open>
  The ratchet over the summaries of project rows, \<open>scripts/ci/project-compat-ratchet.mjs\<close>: a row that
  the baseline records as green fails the gate when complete runs measured it red or yellow. The
  reading of a file and \<open>JSON.parse\<close> are arguments; a run ends with the texts of its two streams and its
  exit code, an error that nothing catches ends it with code 1.
\<close>

section \<open>The states of the rows\<close>

record merged =
  mg_states :: "(string \<times> jsval) list"
  mg_complete :: bool

text \<open>\<open>summary?.rows ?? []\<close> under \<open>for of\<close>: the characters of a text have no name.\<close>

definition rows_of :: "jsval \<Rightarrow> string + jsval list" where
  "rows_of summary =
     (case opt_field summary ''rows'' of
        JUndef \<Rightarrow> Inr [] | JNull \<Rightarrow> Inr [] | JArr vs \<Rightarrow> Inr vs | JStr t \<Rightarrow> Inr (map (\<lambda>c. JStr [c]) t)
      | _ \<Rightarrow> Inl ''TypeError'')"

definition merge_row :: "jsval \<Rightarrow> merged \<Rightarrow> merged" where
  "merge_row v m =
     (case opt_field v ''name'' of
        JStr n \<Rightarrow> m\<lparr>mg_states := map_set n (opt_field v ''state'') (mg_states m)\<rparr>
      | _ \<Rightarrow> m)"

fun merge_all :: "jsval list \<Rightarrow> merged \<Rightarrow> string + merged" where
  "merge_all [] m = Inr m"
| "merge_all (s # ss) m =
     (let m1 = (if opt_field s ''shards_complete'' = JBool False then m\<lparr>mg_complete := False\<rparr> else m) in
      case rows_of s of Inl e \<Rightarrow> Inl e | Inr rows \<Rightarrow> merge_all ss (fold merge_row rows m1))"

definition mergeSummaries :: "jsval list \<Rightarrow> string + merged" where
  "mergeSummaries summaries = merge_all summaries \<lparr>mg_states = [], mg_complete = True\<rparr>"

section \<open>The verdict\<close>

definition BLOCKING_STATES :: "string list" where "BLOCKING_STATES = [''red'', ''yellow'']"

text \<open>\<open>Object.entries(value ?? {})\<close>\<close>

definition entries_of :: "jsval \<Rightarrow> (string \<times> jsval) list" where
  "entries_of v =
     (case v of
        JObj ob \<Rightarrow> ob
      | JArr vs \<Rightarrow> zip (map show_nat [0..<length vs]) vs
      | JStr t \<Rightarrow> zip (map show_nat [0..<length t]) (map (\<lambda>c. JStr [c]) t)
      | _ \<Rightarrow> [])"

definition baseline_green :: "jsval \<Rightarrow> string list" where
  "baseline_green baseline = map fst (filter (\<lambda>p. snd p = JStr ''green'') (entries_of (opt_field baseline ''rows'')))"

record ratchet =
  rt_baselineGreenCount :: nat
  rt_shardsComplete :: bool
  rt_regressions :: "(string \<times> string) list"
  rt_inconclusive :: "(string \<times> string) list"

definition evaluate_row :: "merged \<Rightarrow> string \<Rightarrow> ratchet \<Rightarrow> ratchet" where
  "evaluate_row m name rt =
     (let unsure = (\<lambda>reason. rt\<lparr>rt_inconclusive := rt_inconclusive rt @ [(name, reason)]\<rparr>) in
      if \<not> mg_complete m then unsure ''canary shard set incomplete''
      else
        case map_get (mg_states m) name of
          None \<Rightarrow> unsure ''row not measured in this run''
        | Some s \<Rightarrow>
            if s = JUndef then unsure ''row not measured in this run''
            else if s = JStr ''green'' then rt
            else if s = JStr ''gray'' then unsure ''gray (fixture invalid / not measured)''
            else if s \<in> JStr ` set BLOCKING_STATES then rt\<lparr>rt_regressions := rt_regressions rt @ [(name, template_text s)]\<rparr>
            else unsure (''unrecognized state '' @ [CHR 0x27] @ template_text s @ [CHR 0x27]))"

definition evaluateRatchet :: "jsval \<Rightarrow> merged \<Rightarrow> ratchet" where
  "evaluateRatchet baseline m =
     fold (evaluate_row m) (baseline_green baseline)
       \<lparr>rt_baselineGreenCount = length (baseline_green baseline), rt_shardsComplete = mg_complete m, rt_regressions = [], rt_inconclusive = []\<rparr>"

section \<open>The command\<close>

record ratchet_args =
  ra_baseline :: "string option"
  ra_summaries :: "string list"
  ra_help :: bool

fun ratchet_args_from :: "string list \<Rightarrow> ratchet_args \<Rightarrow> ratchet_args" where
  "ratchet_args_from [] out = out"
| "ratchet_args_from [a] out =
     (if a = ''--baseline'' then out\<lparr>ra_baseline := None\<rparr>
      else if a = ''--help'' \<or> a = ''-h'' then out\<lparr>ra_help := True\<rparr>
      else out\<lparr>ra_summaries := ra_summaries out @ [a]\<rparr>)"
| "ratchet_args_from (a # b # argv) out =
     (if a = ''--baseline'' then ratchet_args_from argv (out\<lparr>ra_baseline := Some b\<rparr>)
      else if a = ''--help'' \<or> a = ''-h'' then ratchet_args_from (b # argv) (out\<lparr>ra_help := True\<rparr>)
      else ratchet_args_from (b # argv) (out\<lparr>ra_summaries := ra_summaries out @ [a]\<rparr>))"

definition ratchetArgs :: "string list \<Rightarrow> ratchet_args" where
  "ratchetArgs argv =
     ratchet_args_from argv \<lparr>ra_baseline = Some ''scripts/ci/project-compat-baseline.json'', ra_summaries = [], ra_help = False\<rparr>"

type_synonym file_reader = "string option \<Rightarrow> string + string"

definition read_json :: "file_reader \<Rightarrow> (string \<Rightarrow> string + jsval) \<Rightarrow> string option \<Rightarrow> string + jsval" where
  "read_json read parse path = (case read path of Inl m \<Rightarrow> Inl m | Inr t \<Rightarrow> parse t)"

record run_end =
  re_out :: string
  re_err :: string
  re_code :: nat

text \<open>The summaries that can be read, and the warnings for those that cannot.\<close>

fun read_summaries :: "file_reader \<Rightarrow> (string \<Rightarrow> string + jsval) \<Rightarrow> string list \<Rightarrow> jsval list \<times> string" where
  "read_summaries read parse [] = ([], [])"
| "read_summaries read parse (p # ps) =
     (let (ss, warnings) = read_summaries read parse ps in
      case read_json read parse (Some p) of
        Inr s \<Rightarrow> (s # ss, warnings)
      | Inl m \<Rightarrow> (ss, ''project-compat-ratchet: warning: skipping unreadable summary '' @ p @ '': '' @ m @ [CHR 10] @ warnings))"

definition report_text :: "ratchet \<Rightarrow> string" where
  "report_text rt =
     join [CHR 10]
       ((''Project-compile no-regression ratchet: '' @ show_nat (rt_baselineGreenCount rt) @ '' baseline-green row(s), shards_complete='' @
         bool_text (rt_shardsComplete rt) @ ''.'')
        # map (\<lambda>(n, reason). ''  inconclusive: '' @ n @ '' ('' @ reason @ '')'') (rt_inconclusive rt)
        @ map (\<lambda>(n, s). ''  REGRESSION: '' @ n @ '' green -> '' @ s) (rt_regressions rt)) @ [CHR 10]"

definition regression_text :: "(string \<times> string) list \<Rightarrow> string" where
  "regression_text rs =
     ''::error title=Project compatibility regression::'' @ show_nat (length rs) @ '' baseline-green row(s) regressed: '' @
     join '', '' (map (\<lambda>(n, s). n @ '' (->'' @ s @ '')'') rs) @
     ''. A change must not make a previously-green project row fail to compile like tsc. If this is an intentional, reviewed change, update scripts/ci/project-compat-baseline.json.''
     @ [CHR 10]"

definition ratchet_main :: "file_reader \<Rightarrow> (string \<Rightarrow> string + jsval) \<Rightarrow> string list \<Rightarrow> run_end" where
  "ratchet_main read parse argv =
     (let args = ratchetArgs argv in
      if ra_help args then
        \<lparr>re_out = ''usage: node scripts/ci/project-compat-ratchet.mjs --baseline <baseline.json> <summary.json> [summary.json ...]'' @ [CHR 10],
         re_err = [], re_code = 0\<rparr>
      else
        case read_json read parse (ra_baseline args) of
          Inl m \<Rightarrow>
            \<lparr>re_out = [],
             re_err = ''project-compat-ratchet: cannot read baseline '' @
               (case ra_baseline args of Some p \<Rightarrow> p | None \<Rightarrow> ''undefined'') @ '': '' @ m @ [CHR 10],
             re_code = 2\<rparr>
        | Inr baseline \<Rightarrow>
            let (summaries, warnings) = read_summaries read parse (ra_summaries args) in
            case mergeSummaries summaries of
              Inl m \<Rightarrow> \<lparr>re_out = [], re_err = warnings @ m, re_code = 1\<rparr>
            | Inr m \<Rightarrow>
                let result = evaluateRatchet baseline m; rs = rt_regressions result in
                if rs \<noteq> [] then \<lparr>re_out = report_text result, re_err = warnings @ regression_text rs, re_code = 1\<rparr>
                else \<lparr>re_out = report_text result, re_err = warnings, re_code = 0\<rparr>)"

section \<open>When the gate fails\<close>

text \<open>The last state of a row over all summaries; no entry and no state are \<open>undefined\<close>.\<close>

definition all_rows :: "jsval list \<Rightarrow> jsval list" where
  "all_rows ss = concat (map (\<lambda>s. case rows_of s of Inr rows \<Rightarrow> rows | Inl _ \<Rightarrow> []) ss)"

definition last_state :: "string \<Rightarrow> jsval list \<Rightarrow> jsval" where
  "last_state name rows = (case find (\<lambda>v. opt_field v ''name'' = JStr name) (rev rows) of Some v \<Rightarrow> opt_field v ''state'' | None \<Rightarrow> JUndef)"

definition state_in :: "merged \<Rightarrow> string \<Rightarrow> jsval" where
  "state_in m name = (case map_get (mg_states m) name of Some s \<Rightarrow> s | None \<Rightarrow> JUndef)"

lemma find_in_append: "find P (xs @ ys) = (case find P xs of Some x \<Rightarrow> Some x | None \<Rightarrow> find P ys)"
  by (induction xs) auto

lemma merged_states:
  "state_in (fold merge_row rows m) name =
     (case find (\<lambda>v. opt_field v ''name'' = JStr name) (rev rows) of Some v \<Rightarrow> opt_field v ''state'' | None \<Rightarrow> state_in m name)"
proof (induction rows arbitrary: m)
  case (Cons v rows)
  have "state_in (merge_row v m) name = (if opt_field v ''name'' = JStr name then opt_field v ''state'' else state_in m name)"
    by (auto simp: merge_row_def state_in_def js_map.get_put split: jsval.split)
  then show ?case by (simp add: Cons.IH find_in_append split: option.split)
qed (simp add: state_in_def)

lemma merged_complete [simp]: "mg_complete (fold merge_row rows m) = mg_complete m"
  by (induction rows arbitrary: m) (simp_all add: merge_row_def split: jsval.split)

definition unreadable_rows :: "jsval list \<Rightarrow> bool" where
  "unreadable_rows ss \<longleftrightarrow> list_ex (\<lambda>s. \<exists>e. rows_of s = Inl e) ss"

lemma unreadable_fails: "merge_all ss m = Inl e \<Longrightarrow> unreadable_rows ss"
  by (induction ss arbitrary: m) (auto simp: unreadable_rows_def Let_def split: sum.splits)

lemma merge_complete_apart:
  "fold merge_row rows (m\<lparr>mg_complete := b\<rparr>) = (fold merge_row rows m)\<lparr>mg_complete := b\<rparr>"
proof (induction rows arbitrary: m)
  case (Cons v rows)
  have "merge_row v (m\<lparr>mg_complete := b\<rparr>) = (merge_row v m)\<lparr>mg_complete := b\<rparr>"
    by (simp add: merge_row_def split: jsval.split)
  then show ?case by (simp add: Cons.IH)
qed simp

abbreviation all_complete :: "jsval list \<Rightarrow> bool" where
  "all_complete ss \<equiv> \<not> list_ex (\<lambda>s. opt_field s ''shards_complete'' = JBool False) ss"

lemma merge_all_rows:
  "merge_all ss m = Inr m' \<Longrightarrow>
   m' = (fold merge_row (all_rows ss) m)\<lparr>mg_complete := mg_complete m \<and> all_complete ss\<rparr> \<and> list_all (\<lambda>s. \<exists>rows. rows_of s = Inr rows) ss"
proof (induction ss arbitrary: m)
  case (Cons s ss)
  let ?m = "m\<lparr>mg_complete := mg_complete m \<and> opt_field s ''shards_complete'' \<noteq> JBool False\<rparr>"
  have m1: "(if opt_field s ''shards_complete'' = JBool False then m\<lparr>mg_complete := False\<rparr> else m) = ?m" by simp
  obtain rows where r: "rows_of s = Inr rows" and rest: "merge_all ss (fold merge_row rows ?m) = Inr m'"
    using Cons.prems unfolding merge_all.simps Let_def m1 by (cases "rows_of s") simp_all
  have all: "all_rows (s # ss) = rows @ all_rows ss" by (simp add: all_rows_def r)
  from Cons.IH[OF rest] show ?case
    unfolding merge_complete_apart all fold_append by (simp add: r merge_complete_apart)
qed (simp add: all_rows_def)

lemma evaluate_regressions:
  "rt_regressions (fold (evaluate_row m) names rt) =
     rt_regressions rt @ map (\<lambda>n. (n, template_text (state_in m n)))
       (filter (\<lambda>n. mg_complete m \<and> state_in m n \<in> {JStr ''red'', JStr ''yellow''}) names)"
  by (induction names arbitrary: rt)
    (auto simp: evaluate_row_def state_in_def Let_def BLOCKING_STATES_def split: option.split)

definition regressed :: "jsval \<Rightarrow> jsval list \<Rightarrow> bool" where
  "regressed baseline ss \<longleftrightarrow>
     \<not> list_ex (\<lambda>s. opt_field s ''shards_complete'' = JBool False) ss \<and>
     (\<exists>name. (name, JStr ''green'') \<in> set (entries_of (opt_field baseline ''rows'')) \<and>
        last_state name (all_rows ss) \<in> {JStr ''red'', JStr ''yellow''})"


section \<open>What a held row stands for\<close>

lemma unreported_green:
  assumes "name \<in> set names" and "name \<notin> fst ` set (rt_regressions (fold (evaluate_row m) names rt))"
    and "name \<notin> fst ` set (rt_inconclusive (fold (evaluate_row m) names rt))"
  shows "state_in m name = JStr ''green''"
proof -
  have grow: "fst ` set (rt_regressions rt) \<union> fst ` set (rt_inconclusive rt) \<subseteq>
      fst ` set (rt_regressions (fold (evaluate_row m) ns rt)) \<union> fst ` set (rt_inconclusive (fold (evaluate_row m) ns rt))" for ns rt
  proof (induction ns arbitrary: rt)
    case (Cons n ns)
    have "fst ` set (rt_regressions rt) \<union> fst ` set (rt_inconclusive rt) \<subseteq>
        fst ` set (rt_regressions (evaluate_row m n rt)) \<union> fst ` set (rt_inconclusive (evaluate_row m n rt))"
      by (auto simp: evaluate_row_def Let_def split: option.split)
    from order_trans[OF this Cons.IH] show ?case by simp
  qed simp
  obtain as bs where n: "names = as @ name # bs" using assms(1) by (auto simp: in_set_conv_decomp)
  let ?rt = "fold (evaluate_row m) as rt"
  have "name \<notin> fst ` set (rt_regressions (evaluate_row m name ?rt)) \<union> fst ` set (rt_inconclusive (evaluate_row m name ?rt))"
    using assms(2,3) grow[of "evaluate_row m name ?rt" bs] unfolding n fold_append by auto
  then show ?thesis by (auto simp: evaluate_row_def state_in_def Let_def split: option.splits if_splits)
qed

text \<open>C16: a row that the ratchet holds, neither a regression nor inconclusive, over a summary that the recorder
  made, has exact evidence in that summary: the state that the baseline pins is never an unproven one.\<close>

theorem held_row_exact:
  assumes "summarize pl rules sha parse env generatedAt = Inr (file, s)" and "mergeSummaries [JObj s] = Inr m"
    and "name \<in> set (baseline_green baseline)"
    and "name \<notin> fst ` set (rt_regressions (evaluateRatchet baseline m))"
    and "name \<notin> fst ` set (rt_inconclusive (evaluateRatchet baseline m))"
  shows "\<exists>rows r. obj_get s ''rows'' = JArr rows \<and> JObj r \<in> set rows \<and> obj_get r ''name'' = JStr name \<and> sound_evidence sha r"
proof -
  obtain rows where rows: "summarize_rows sha parse (rr_rows (readRows pl parse (env_or env ''SUMMARY_JSONL_FILE'' []))) = Inr rows"
    "obj_get s ''rows'' = JArr rows" using summary_rows[OF assms(1)] by blast
  have "state_in m name = JStr ''green''"
    using unreported_green[OF assms(3)] assms(4,5) unfolding evaluateRatchet_def by blast
  moreover have "all_rows [JObj s] = rows" by (simp add: all_rows_def rows_of_def opt_field_def rows(2))
  moreover have "state_in m name = state_in (fold merge_row (all_rows [JObj s]) \<lparr>mg_states = [], mg_complete = True\<rparr>) name"
    using merge_all_rows[OF assms(2)[unfolded mergeSummaries_def]] by (simp add: state_in_def)
  ultimately obtain v where v: "find (\<lambda>v. opt_field v ''name'' = JStr name) (rev rows) = Some v" "opt_field v ''state'' = JStr ''green''"
    unfolding merged_states by (auto simp: state_in_def map_get_def split: option.splits)
  then have "v \<in> set rows" "opt_field v ''name'' = JStr name" unfolding find_Some_iff by (metis length_rev nth_mem set_rev)+
  moreover from this(2) obtain r where "v = JObj r" unfolding opt_field_def by (cases v) auto
  ultimately show ?thesis
    using summarize_rows_sound[OF rows(1), of v] v(2) rows(2) by (auto simp: opt_field_def)
qed

definition demo_baseline :: jsval where
  "demo_baseline = JObj [(''rows'', JObj [(''p'', JStr ''green'')])]"

theorem held_row_exact_witness:
  "\<exists>out s m rows r. demo_summary = Inr (out, s) \<and> mergeSummaries [JObj s] = Inr m \<and> baseline_green demo_baseline = [''p''] \<and>
     evaluateRatchet demo_baseline m = \<lparr>rt_baselineGreenCount = 1, rt_shardsComplete = True, rt_regressions = [], rt_inconclusive = []\<rparr> \<and>
     obj_get s ''rows'' = JArr rows \<and> JObj r \<in> set rows \<and> obj_get r ''name'' = JStr ''p'' \<and> sound_evidence (\<lambda>_. demo_digest) r"
proof -
  obtain out s forged where s: "demo_summary = Inr (out, s)"
    and r: "obj_get s ''rows'' = JArr [JObj (set_evidence True [] demo_row), JObj forged]" "obj_get forged ''state'' = JStr ''gray''"
      "obj_get forged ''name'' = JUndef"
    using demo_summarized by blast
  have c: "obj_get s ''shards_complete'' \<noteq> JBool False"
    using s unfolding summarize_def Let_def
    by (auto split: sum.splits simp: artifactMetadata_def Let_def obj_get_def simp del: firstNonEmpty.simps)
  have named: "obj_get demo_row ''name'' = JStr ''p''"
    unfolding demo_row_def record_row_get metadata_keys verdict_keys by (simp add: verdict_entries_def obj_get_def Let_def)
  have n: "obj_get (set_evidence True [] demo_row) ''name'' = JStr ''p''" "obj_get (set_evidence True [] demo_row) ''state'' = JStr ''green''"
    using named by (simp_all add: set_evidence_def demo_fields)
  have m: "mergeSummaries [JObj s] = Inr \<lparr>mg_states = [(''p'', JStr ''green'')], mg_complete = True\<rparr>"
    by (simp add: mergeSummaries_def rows_of_def opt_field_def r c merge_row_def n map_set_def Let_def)
  have b: "baseline_green demo_baseline = [''p'']"
    by (simp add: baseline_green_def demo_baseline_def entries_of_def opt_field_def obj_get_def)
  have e: "evaluateRatchet demo_baseline \<lparr>mg_states = [(''p'', JStr ''green'')], mg_complete = True\<rparr> =
      \<lparr>rt_baselineGreenCount = 1, rt_shardsComplete = True, rt_regressions = [], rt_inconclusive = []\<rparr>"
    by (simp add: evaluateRatchet_def b evaluate_row_def map_get_def)
  have "\<exists>rows r. obj_get s ''rows'' = JArr rows \<and> JObj r \<in> set rows \<and> obj_get r ''name'' = JStr ''p'' \<and> sound_evidence (\<lambda>_. demo_digest) r"
    by (rule held_row_exact[OF s m, of _ demo_baseline]) (simp_all add: b e)
  with s m b e show ?thesis by blast
qed

end
