(* ===== verification/RowUtils.thy ===== *)
theory RowUtils
  imports CompatRatchet
begin

text \<open>
  The readers of the rows of a benchmark artifact, \<open>scripts/bench/row-utils.mjs\<close> and
  \<open>scripts/bench/benchmark-artifact-selection.mjs\<close>: which rows count as green, as finished and as a
  measured pair of times, and which of several artifacts is the latest that satisfies the gates. The
  table of project rows, the inventory of stubs, the hash, the files, \<open>JSON.parse\<close> and \<open>Date.parse\<close> are
  arguments. A row is an object wherever the source reads its properties without a guard.
\<close>

section \<open>The table of project rows\<close>

record project_row =
  pr_name :: string
  pr_category :: string
  pr_guard_set :: "string option"
  pr_benchmark_set :: "string option"
  pr_perf_timed :: bool

definition REQUIRED_PROJECT_ROWS :: "project_row list \<Rightarrow> string list" where
  "REQUIRED_PROJECT_ROWS rows = map pr_name (filter (\<lambda>r. pr_benchmark_set r = Some ''required'') rows)"

definition COMPILE_GUARD_REQUIRED_ROWS :: "project_row list \<Rightarrow> string list" where
  "COMPILE_GUARD_REQUIRED_ROWS rows = map pr_name (filter (\<lambda>r. pr_guard_set r = Some ''required'') rows)"

definition COMPILE_CANARY_PROJECT_ROWS :: "project_row list \<Rightarrow> string list" where
  "COMPILE_CANARY_PROJECT_ROWS rows = map pr_name (filter (\<lambda>r. pr_guard_set r = Some ''canary'') rows)"

definition PERF_TIMED_CANARY_PROJECT_ROWS :: "project_row list \<Rightarrow> string list" where
  "PERF_TIMED_CANARY_PROJECT_ROWS rows = map pr_name (filter (\<lambda>r. pr_perf_timed r \<and> pr_category r \<noteq> ''application'') rows)"

definition PERF_TIMED_APPLICATION_PROJECT_ROWS :: "project_row list \<Rightarrow> string list" where
  "PERF_TIMED_APPLICATION_PROJECT_ROWS rows = map pr_name (filter (\<lambda>r. pr_perf_timed r \<and> pr_category r = ''application'') rows)"

definition PERF_TIMED_PROJECT_ROWS :: "project_row list \<Rightarrow> string list" where
  "PERF_TIMED_PROJECT_ROWS rows = map pr_name (filter pr_perf_timed rows)"

definition APPLICATION_PROJECT_ROW_NAMES :: "project_row list \<Rightarrow> string list" where
  "APPLICATION_PROJECT_ROW_NAMES rows = map pr_name (filter (\<lambda>r. pr_category r = ''application'') rows)"

definition known_project :: "project_row list \<Rightarrow> jsval \<Rightarrow> bool" where
  "known_project rows name \<longleftrightarrow> js_text name \<in> pr_name ` set rows"

definition REQUIRED_COMPATIBILITY_FIELDS :: "string list" where
  "REQUIRED_COMPATIBILITY_FIELDS =
     [''generated_at'', ''source_commit'', ''workflow_name'', ''workflow_run_id'', ''workflow_run_url'', ''workflow_run_attempt'',
      ''run_status'', ''state'', ''exit_class'', ''first_failure_class'', ''owner_track'', ''phase'', ''last_successful_phase'',
      ''diagnostic_status'', ''evidence_schema'', ''evidence_status'', ''evidence_failures'', ''source_dirty'', ''source_stable'',
      ''source_tree_fingerprint'', ''evidence_protocol_fingerprint'', ''tsz_binary_sha256'', ''build_manifest_sha256'',
      ''build_inputs_sha256'', ''build_manifest_binary_sha256'', ''compile_input_fingerprint'', ''compile_input_stable'',
      ''oracle_fingerprint'', ''diagnostic_deltas'', ''diagnostic_subsystems'', ''known_blockers'', ''reduced_repro_path'', ''repro'',
      ''exit_codes'', ''files_reached'', ''files_reached_reason'', ''peak_memory_bytes'', ''peak_memory_bytes_reason'',
      ''fixture_sources'', ''stub_inventory_schema'', ''stubbed_modules'', ''stubbed_any_members'', ''stub_inventory_fingerprint'',
      ''stub_inventory_owners'', ''emit_status'', ''dts_status'']"

section \<open>The gates on a row\<close>

record bench =
  bn_rows :: "project_row list"
  bn_inventory :: "(string \<times> row_stubs) list option"
  bn_sha :: "string \<Rightarrow> string"

text \<open>The inventory as the module loads it: an error leaves none.\<close>

definition fixture_inventory :: "(string option \<times> string) list \<Rightarrow> (string \<times> row_stubs) list option" where
  "fixture_inventory sources = (case computeFixtureStubInventory sources of Inl _ \<Rightarrow> None | Inr inventory \<Rightarrow> Some inventory)"

definition REQUIRED_PHASE_EXIT_FIELDS :: "string list" where
  "REQUIRED_PHASE_EXIT_FIELDS = [''state'', ''phase'', ''last_successful_phase'', ''exit_class'', ''diagnostic_status'']"

definition has_own :: "jsval \<Rightarrow> string \<Rightarrow> bool" where
  "has_own v k = (case v of JObj ob \<Rightarrow> k \<in> fst ` set ob | _ \<Rightarrow> False)"

definition hasCompletePhaseMetadata :: "jsval \<Rightarrow> bool" where
  "hasCompletePhaseMetadata compatibility = list_all (has_own compatibility) REQUIRED_PHASE_EXIT_FIELDS"

text \<open>\<open>/^[0-9a-f]{n}$/.test(value || "")\<close>\<close>

definition hex_exact :: "nat \<Rightarrow> jsval \<Rightarrow> bool" where
  "hex_exact n v \<longleftrightarrow> length (js_text v) = n \<and> list_all hex_char (js_text v)"

definition hasExactFixtureStubEvidence :: "bench \<Rightarrow> jsval \<Rightarrow> jsval \<Rightarrow> bool" where
  "hasExactFixtureStubEvidence b compatibility projectName =
     (case (bn_inventory b, projectName) of
        (Some inventory, JStr name) \<Rightarrow>
          (case fixtureStubEvidenceFromInventory (bn_sha b) inventory name of
             Inl _ \<Rightarrow> False
           | Inr e \<Rightarrow>
               opt_field compatibility ''stub_inventory_schema'' = JInt (se_schema e) \<and>
               opt_field compatibility ''stubbed_modules'' = JInt (int (se_modules e)) \<and>
               opt_field compatibility ''stubbed_any_members'' = JInt (int (se_anyMembers e)) \<and>
               opt_field compatibility ''stub_inventory_fingerprint'' = JStr (se_fingerprint e) \<and>
               opt_field compatibility ''stub_inventory_owners'' \<noteq> JUndef \<and>
               render json_char (opt_field compatibility ''stub_inventory_owners'') = render json_char (strings (se_owners e)) \<and>
               se_modules e = 0 \<and> se_anyMembers e = 0 \<and> se_owners e = [])
      | _ \<Rightarrow> False)"

definition bound_fields :: "string list" where
  "bound_fields =
     [''source_tree_fingerprint'', ''evidence_protocol_fingerprint'', ''tsz_binary_sha256'', ''build_manifest_sha256'',
      ''build_inputs_sha256'', ''build_manifest_binary_sha256'', ''compile_input_fingerprint'', ''oracle_fingerprint'']"

definition compared_fields :: "(string \<times> string) list" where
  "compared_fields =
     [(''root_file_fingerprint'', ''oracle_root_file_fingerprint''), (''source_file_fingerprint'', ''oracle_source_file_fingerprint''),
      (''diagnostic_fingerprint'', ''oracle_diagnostic_fingerprint'')]"

definition hasExactProjectEvidence :: "bench \<Rightarrow> jsval \<Rightarrow> jsval \<Rightarrow> bool" where
  "hasExactProjectEvidence b compatibility projectName =
     (let f = opt_field compatibility;
          tszExit = exactOrdinaryExit (opt_field (f ''exit_codes'') ''tsz''); tscExit = exactOrdinaryExit (opt_field (f ''exit_codes'') ''tsc'')
      in \<not> falsy compatibility \<and> f ''evidence_schema'' = JInt 3 \<and> hex_exact 40 (f ''source_commit'') \<and>
         (case f ''source_dirty'' of JBool _ \<Rightarrow> True | _ \<Rightarrow> False) \<and> f ''source_stable'' = JBool True \<and>
         f ''compile_input_stable'' = JBool True \<and> list_all (\<lambda>k. hex_exact 64 (f k)) bound_fields \<and>
         js_same (f ''build_manifest_binary_sha256'') (f ''tsz_binary_sha256'') \<and> f ''semantic_completion'' = JStr ''complete'' \<and>
         hasExactFixtureStubEvidence b compatibility projectName \<and>
         is_integer (f ''root_files'') (\<lambda>i. i > 0) \<and> is_integer (f ''source_files'') (\<lambda>i. i > 0) \<and>
         js_same (f ''root_files'') (f ''oracle_root_files'') \<and> js_same (f ''source_files'') (f ''oracle_source_files'') \<and>
         js_same (f ''files_reached'') (f ''source_files'') \<and>
         list_all (\<lambda>(k, k'). hex_exact 64 (f k) \<and> js_same (f k) (f k')) compared_fields \<and>
         is_integer (f ''diagnostic_records'') (\<lambda>i. i \<ge> 0) \<and> js_same (f ''diagnostic_records'') (f ''oracle_diagnostic_records'') \<and>
         tszExit \<noteq> None \<and> tscExit \<noteq> None \<and> tszExit = tscExit \<and>
         (f ''oracle_classification'' = JStr ''both-pass'' \<or> f ''oracle_classification'' = JStr ''both-fail-same''))"

definition missingDeclaredRows :: "string list \<Rightarrow> jsval list \<Rightarrow> string list" where
  "missingDeclaredRows declaredNames rows =
     (let measured = filter (\<lambda>n. \<not> falsy n) (map (\<lambda>r. opt_field r ''name'') rows)
      in filter (\<lambda>n. JStr n \<notin> set measured) declaredNames)"

definition isGreen :: "bench \<Rightarrow> jsval \<Rightarrow> bool" where
  "isGreen b row =
     (let compatibility = opt_field row ''compatibility'' in
      if \<not> falsy (opt_field row ''status'') then False
      else if opt_field row ''artifact_missing'' = JBool True then False
      else if falsy compatibility then \<not> known_project (bn_rows b) (opt_field row ''name'')
      else if \<not> hasCompletePhaseMetadata compatibility then False
      else hasExactProjectEvidence b compatibility (opt_field row ''name'') \<and> opt_field compatibility ''state'' = JStr ''green'' \<and>
           opt_field compatibility ''exit_class'' = JStr ''exit success'' \<and> opt_field compatibility ''diagnostic_status'' = JStr ''none'')"

definition isIncompleteCompat :: "bench \<Rightarrow> jsval \<Rightarrow> bool" where
  "isIncompleteCompat b row =
     (let compatibility = opt_field row ''compatibility'' in
      if \<not> falsy (opt_field row ''status'') then False
      else if opt_field row ''artifact_missing'' = JBool True then True
      else if falsy compatibility then known_project (bn_rows b) (opt_field row ''name'')
      else \<not> hasCompletePhaseMetadata compatibility)"

definition nonzero_code :: "jsval \<Rightarrow> bool" where
  "nonzero_code v = (case value_number v of Some q \<Rightarrow> q \<noteq> 0 | None \<Rightarrow> False)"

definition hasNonZeroExitCode :: "jsval \<Rightarrow> bool" where
  "hasNonZeroExitCode codes =
     (if codes = JUndef \<or> codes = JNull then False
      else list_ex nonzero_code (case codes of JArr vs \<Rightarrow> vs | v \<Rightarrow> [v]))"

definition didNotFinish :: "jsval \<Rightarrow> bool" where
  "didNotFinish row =
     (let compatibility = opt_field row ''compatibility''; exitCodes = opt_field compatibility ''exit_codes'' in
      if falsy row then False
      else if opt_field row ''winner'' = JStr ''error'' then True
      else if falsy compatibility then False
      else if opt_field compatibility ''exit_class'' = JStr ''timeout'' \<or> opt_field compatibility ''exit_class'' = JStr ''nonzero exit'' then True
      else \<not> falsy exitCodes \<and> (hasNonZeroExitCode (opt_field exitCodes ''tsz'') \<or> hasNonZeroExitCode (opt_field exitCodes ''tsgo'')))"

definition isPositiveFiniteTiming :: "jsval \<Rightarrow> bool" where
  "isPositiveFiniteTiming v = (case value_number v of Some q \<Rightarrow> q > 0 | None \<Rightarrow> False)"

definition isSpeedRatioEligible :: "bench \<Rightarrow> jsval \<Rightarrow> bool" where
  "isSpeedRatioEligible b row =
     (let compatibility = opt_field row ''compatibility'' in
      if falsy row \<or> \<not> falsy (opt_field row ''status'') then False
      else if didNotFinish row then False
      else if known_project (bn_rows b) (opt_field row ''name'') \<and> falsy compatibility then False
      else if \<not> falsy compatibility \<and> \<not> hasExactProjectEvidence b compatibility (opt_field row ''name'') then False
      else isPositiveFiniteTiming (opt_field row ''tsz_ms'') \<and> isPositiveFiniteTiming (opt_field row ''tsgo_ms''))"

definition SLOWDOWN_FAILURE_FACTOR :: rat where "SLOWDOWN_FAILURE_FACTOR = 3 / 2"

definition isSpeedChartEligible :: "bench \<Rightarrow> rat \<Rightarrow> jsval \<Rightarrow> bool" where
  "isSpeedChartEligible b factor row =
     (if \<not> isSpeedRatioEligible b row then False
      else case (value_number (opt_field row ''tsz_ms''), value_number (opt_field row ''tsgo_ms'')) of
             (Some x, Some y) \<Rightarrow> x < factor * y
           | _ \<Rightarrow> False)"

section \<open>The latest artifact\<close>

definition results_of :: "jsval \<Rightarrow> jsval list" where
  "results_of artifact = (case opt_field artifact ''results'' of JArr vs \<Rightarrow> vs | _ \<Rightarrow> [])"

definition readBenchmarkArtifact :: "file_reader \<Rightarrow> (string \<Rightarrow> string + jsval) \<Rightarrow> string \<Rightarrow> jsval option" where
  "readBenchmarkArtifact read parse path =
     (case read_json read parse (Some path) of Inl _ \<Rightarrow> None | Inr d \<Rightarrow> if results_of d \<noteq> [] then Some d else None)"

text \<open>\<open>None\<close> is \<open>Number.NEGATIVE_INFINITY\<close>.\<close>

definition benchmarkGeneratedAtMs :: "(string \<Rightarrow> int option) \<Rightarrow> jsval \<Rightarrow> int option" where
  "benchmarkGeneratedAtMs date artifact =
     (let v = opt_field artifact ''generated_at'' in date (if v = JUndef \<or> v = JNull then [] else template_text v))"

definition successfulProjectTimingPairCount :: "bench \<Rightarrow> jsval \<Rightarrow> nat" where
  "successfulProjectTimingPairCount b artifact =
     length (filter (\<lambda>r. known_project (bn_rows b) (opt_field r ''name'') \<and> isSpeedRatioEligible b r \<and> isGreen b r) (results_of artifact))"

definition hasSuccessfulProjectTimingPairs :: "bench \<Rightarrow> jsval \<Rightarrow> nat \<Rightarrow> bool" where
  "hasSuccessfulProjectTimingPairs b artifact minimum \<longleftrightarrow> successfulProjectTimingPairCount b artifact \<ge> minimum"

definition hasGreenCompatibilityEvidence :: "bench \<Rightarrow> jsval \<Rightarrow> bool" where
  "hasGreenCompatibilityEvidence b row =
     (let compatibility = opt_field row ''compatibility''; low = (\<lambda>k. to_lower (js_text (opt_field compatibility k))) in
      (case compatibility of JObj _ \<Rightarrow> True | JArr _ \<Rightarrow> True | _ \<Rightarrow> False) \<and>
      hasExactProjectEvidence b compatibility (opt_field row ''name'') \<and> low ''state'' = ''green'' \<and> low ''exit_class'' = ''exit success'' \<and>
      (low ''diagnostic_status'' = [] \<or> low ''diagnostic_status'' = ''none''))"

definition greenProjectTimingPairGapCount :: "bench \<Rightarrow> jsval \<Rightarrow> nat" where
  "greenProjectTimingPairGapCount b artifact =
     length (filter (\<lambda>r. js_text (opt_field r ''name'') \<in> set (PERF_TIMED_PROJECT_ROWS (bn_rows b)) \<and>
       hasGreenCompatibilityEvidence b r \<and> \<not> isSpeedRatioEligible b r) (results_of artifact))"

definition hasGreenProjectTimingPairs :: "bench \<Rightarrow> jsval \<Rightarrow> bool" where
  "hasGreenProjectTimingPairs b artifact \<longleftrightarrow> greenProjectTimingPairGapCount b artifact = 0"

text \<open>The last row of a name counts, as in a \<open>Map\<close>.\<close>

definition applicationCompatibilityRowCount :: "bench \<Rightarrow> jsval \<Rightarrow> nat" where
  "applicationCompatibilityRowCount b artifact =
     (let rows = filter (\<lambda>r. \<not> falsy (opt_field r ''name'')) (results_of artifact) in
      length (filter (\<lambda>n.
        case find (\<lambda>r. opt_field r ''name'' = JStr n) (rev rows) of
          None \<Rightarrow> False
        | Some r \<Rightarrow> (case opt_field r ''compatibility'' of JObj ob \<Rightarrow> ob \<noteq> [] | JArr vs \<Rightarrow> vs \<noteq> [] | _ \<Rightarrow> False))
        (APPLICATION_PROJECT_ROW_NAMES (bn_rows b))))"

definition hasApplicationCompatibilityRows :: "bench \<Rightarrow> jsval \<Rightarrow> bool" where
  "hasApplicationCompatibilityRows b artifact \<longleftrightarrow>
     applicationCompatibilityRowCount b artifact = length (APPLICATION_PROJECT_ROW_NAMES (bn_rows b))"

record selection_options =
  so_minimumProjectTimingPairs :: nat
  so_requireApplicationCompat :: bool
  so_requireGreenProjectTimingPairs :: bool

definition admissible :: "bench \<Rightarrow> selection_options \<Rightarrow> jsval \<Rightarrow> bool" where
  "admissible b options artifact \<longleftrightarrow>
     \<not> successfulProjectTimingPairCount b artifact < so_minimumProjectTimingPairs options \<and>
     \<not> (so_requireApplicationCompat options \<and>
        applicationCompatibilityRowCount b artifact < length (APPLICATION_PROJECT_ROW_NAMES (bn_rows b))) \<and>
     \<not> (so_requireGreenProjectTimingPairs options \<and> greenProjectTimingPairGapCount b artifact > 0)"

record candidate =
  cd_file :: string
  cd_data :: jsval
  cd_generatedAtMs :: "int option"
  cd_index :: nat

definition candidates_of ::
  "bench \<Rightarrow> file_reader \<Rightarrow> (string \<Rightarrow> string + jsval) \<Rightarrow> (string \<Rightarrow> int option) \<Rightarrow> selection_options \<Rightarrow> (nat \<times> string) list \<Rightarrow> candidate list" where
  "candidates_of b read parse date options files =
     concat (map (\<lambda>(i, path).
       case readBenchmarkArtifact read parse path of
         None \<Rightarrow> []
       | Some d \<Rightarrow>
           if admissible b options d
           then [\<lparr>cd_file = path, cd_data = d, cd_generatedAtMs = benchmarkGeneratedAtMs date d, cd_index = i\<rparr>] else []) files)"

text \<open>\<open>b.generatedAtMs - a.generatedAtMs\<close>, or the indices when the times are equal.\<close>

definition newest_first :: "candidate \<Rightarrow> candidate \<Rightarrow> int" where
  "newest_first a c =
     (if cd_generatedAtMs a = cd_generatedAtMs c then int (cd_index a) - int (cd_index c)
      else case (cd_generatedAtMs a, cd_generatedAtMs c) of
             (Some x, Some y) \<Rightarrow> y - x
           | (None, _) \<Rightarrow> 1
           | (Some _, None) \<Rightarrow> -1)"

definition selectLatestBenchmarkArtifact ::
  "bench \<Rightarrow> file_reader \<Rightarrow> (string \<Rightarrow> string + jsval) \<Rightarrow> (string \<Rightarrow> int option) \<Rightarrow> selection_options \<Rightarrow> string list \<Rightarrow> (string \<times> jsval) option" where
  "selectLatestBenchmarkArtifact b read parse date options files =
     (case sort_by newest_first (candidates_of b read parse date options (zip [0..<length files] files)) of
        [] \<Rightarrow> None
      | c # _ \<Rightarrow> Some (cd_file c, cd_data c))"

end
