(* ===== verification/RowGates.thy ===== *)
theory RowGates
  imports RowUtils
begin

text \<open>
  The gates of \<open>RowUtils\<close> against the recorder of \<open>CompatEvidence\<close>: what counts as green in a report is
  green for the recorder too, a recorded green row counts as green in a report up to two conditions,
  and the selected artifact is the newest that satisfies the gates.
\<close>

section \<open>Digests\<close>

lemma hex_char_plain:
  assumes "hex_char c"
  shows "\<not> is_ws c \<and> lower_char c = c"
proof -
  let ?n = "of_char c :: nat"
  have "(48 \<le> ?n \<and> ?n \<le> 57) \<or> (97 \<le> ?n \<and> ?n \<le> 102)"
    using assms unfolding hex_char_def is_digit_def Let_def by auto
  then show ?thesis by (auto simp: is_ws_def lower_char_def Let_def)
qed

lemma hex_exact_text:
  assumes "hex_exact n v"
  shows "hex_text n v = Some (js_text v)"
proof -
  have h: "length (js_text v) = n" "list_all hex_char (js_text v)" using assms by (simp_all add: hex_exact_def)
  have "trim (js_text v) = js_text v"
    by (rule trim_id) (use h(2) hex_char_plain in \<open>auto simp: list_all_iff\<close>)
  moreover have "to_lower (js_text v) = js_text v"
    using h(2) hex_char_plain by (auto simp: to_lower_def list_all_iff intro: map_idI)
  ultimately show ?thesis using h by (simp add: hex_text_def)
qed

lemma hex_text_shape: "hex_text n v = Some s \<Longrightarrow> length s = n \<and> list_all hex_char s"
  by (auto simp: hex_text_def Let_def split: if_splits)

lemma digest_exact: "hex_text n v = Some s \<Longrightarrow> 0 < n \<Longrightarrow> hex_exact n (JStr s)"
  by (drule hex_text_shape) (auto simp: hex_exact_def js_text_def falsy_def)

section \<open>What a report counts as green\<close>

lemma zero_owners:
  assumes "json_value v" and "render json_char v = render json_char (strings [])"
  shows "v = JArr []"
  using assms plain_json.render_inject[of v "JArr []"] by (simp add: strings_def)

lemma stubs_read:
  assumes "hasExactFixtureStubEvidence b (JObj r) name" and "json_value (obj_get r ''stub_inventory_owners'')"
  shows "no_stubs (bn_sha b) r \<and> obj_get r ''stub_inventory_owners'' = JArr []"
proof -
  obtain inventory s e where i: "bn_inventory b = Some inventory" "name = JStr s"
    and e: "fixtureStubEvidenceFromInventory (bn_sha b) inventory s = Inr e"
    and m: "opt_field (JObj r) ''stub_inventory_schema'' = JInt (se_schema e)" "obj_get r ''stubbed_modules'' = JInt (int (se_modules e))"
      "obj_get r ''stubbed_any_members'' = JInt (int (se_anyMembers e))" "obj_get r ''stub_inventory_fingerprint'' = JStr (se_fingerprint e)"
      "render json_char (obj_get r ''stub_inventory_owners'') = render json_char (strings (se_owners e))"
      "se_modules e = 0" "se_anyMembers e = 0" "se_owners e = []"
    using assms(1) unfolding hasExactFixtureStubEvidence_def opt_field_def
    by (auto split: option.splits jsval.splits sum.splits)
  have "se_schema e = 2" "se_fingerprint e = fixtureStubEvidenceFingerprint (bn_sha b) 0 0 []"
    using e m(6-8) unfolding fixtureStubEvidenceFromInventory_def FIXTURE_STUB_EVIDENCE_SCHEMA_def
    by (auto simp: Let_def split: if_splits)
  moreover have "obj_get r ''stub_inventory_owners'' = JArr []" using zero_owners[OF assms(2)] m(5,8) by simp
  ultimately show ?thesis using m by (simp add: no_stubs_def opt_field_def)
qed

lemma is_integer_iff: "is_integer v P \<longleftrightarrow> (\<exists>i. v = JInt i \<and> P i)"
  by (cases v) (simp_all add: is_integer_def)

text \<open>The part of the evidence that both gates read in the same way.\<close>

lemma exact_evidence_fields:
  assumes "hasExactProjectEvidence b (JObj r) name"
  shows "hex_exact 40 (obj_get r ''source_commit'')" and "\<exists>d. obj_get r ''source_dirty'' = JBool d"
    and "obj_get r ''source_stable'' = JBool True" and "obj_get r ''compile_input_stable'' = JBool True"
    and "list_all (\<lambda>k. hex_exact 64 (obj_get r k)) bound_fields"
    and "js_same (obj_get r ''build_manifest_binary_sha256'') (obj_get r ''tsz_binary_sha256'')"
    and "obj_get r ''semantic_completion'' = JStr ''complete''" and "hasExactFixtureStubEvidence b (JObj r) name"
    and "\<not> exits_differ r"
    and "obj_get r ''oracle_classification'' = JStr ''both-pass'' \<or> obj_get r ''oracle_classification'' = JStr ''both-fail-same''"
    and "list_all (\<lambda>(k, k'). hex_exact 64 (obj_get r k) \<and> js_same (obj_get r k) (obj_get r k')) compared_fields"
    and "\<not> graph_differs r" and "\<not> records_differ r"
proof -
  note h = assms[unfolded hasExactProjectEvidence_def Let_def opt_field_def jsval.case]
  show "list_all (\<lambda>(k, k'). hex_exact 64 (obj_get r k) \<and> js_same (obj_get r k) (obj_get r k')) compared_fields"
    using h by blast
  then have c: "js_same (obj_get r ''root_file_fingerprint'') (obj_get r ''oracle_root_file_fingerprint'')"
    "js_same (obj_get r ''source_file_fingerprint'') (obj_get r ''oracle_source_file_fingerprint'')"
    "js_same (obj_get r ''diagnostic_fingerprint'') (obj_get r ''oracle_diagnostic_fingerprint'')"
    by (simp_all add: compared_fields_def)
  show "\<not> graph_differs r" "\<not> records_differ r" "\<not> exits_differ r"
    using h c unfolding graph_differs_def records_differ_def exits_differ_def Let_def opt_field_def by blast+
  show "\<exists>d. obj_get r ''source_dirty'' = JBool d" using h by (auto split: jsval.splits)
qed (use assms[unfolded hasExactProjectEvidence_def Let_def opt_field_def jsval.case] in blast)+

lemma digests_read:
  assumes "list_all (\<lambda>k. hex_exact 64 (obj_get r k)) bound_fields"
    and "list_all (\<lambda>(k, k'). hex_exact 64 (obj_get r k) \<and> js_same (obj_get r k) (obj_get r k')) compared_fields"
    and "toSha256 (obj_get r ''stub_inventory_fingerprint'') \<noteq> None" and "k \<in> set sha_fields"
  shows "toSha256 (obj_get r k) \<noteq> None"
proof -
  have digest: "hex_exact 64 v \<Longrightarrow> toSha256 v \<noteq> None" for v by (simp add: toSha256_def hex_exact_text)
  have "k \<in> set bound_fields \<or> k \<in> fst ` set compared_fields \<or> k \<in> snd ` set compared_fields \<or> k = ''stub_inventory_fingerprint''"
    using assms(4) by (auto simp: sha_fields_def bound_fields_def compared_fields_def)
  then show ?thesis
    using assms(1-3) digest js_same_eq unfolding list_all_iff by fastforce
qed

text \<open>C13: the report's gate is at least as strict as the recorder's: a row that counts as green in a report
  with compatibility evidence has no failure when the recorder judges that evidence, provided the
  listed owners are a JSON value and the hash gives digests.\<close>

theorem green_row_exact:
  assumes "isGreen b row" and "opt_field row ''compatibility'' = JObj r"
    and "json_value (obj_get r ''stub_inventory_owners'')"
    and "toSha256 (JStr (fixtureStubEvidenceFingerprint (bn_sha b) 0 0 [])) \<noteq> None"
  shows "evidenceV3Failures (bn_sha b) parse r = []"
proof -
  have g: "hasExactProjectEvidence b (JObj r) (opt_field row ''name'')" "obj_get r ''exit_class'' = JStr ''exit success''"
    "obj_get r ''diagnostic_status'' = JStr ''none''"
    using assms(1) unfolding isGreen_def Let_def assms(2) falsy_def opt_field_def[of "JObj r"] by (auto split: if_splits)
  note f = exact_evidence_fields[OF g(1)]
  from stubs_read[OF f(8) assms(3)] have s: "no_stubs (bn_sha b) r" "obj_get r ''stub_inventory_owners'' = JArr []" by blast+
  have sha: "filter (\<lambda>k. toSha256 (obj_get r k) = None) sha_fields = []"
    using digests_read[OF f(5) f(11)] s(1) assms(4) by (simp add: filter_empty_conv no_stubs_def)
  have stubs: "\<not> stubs_present (bn_sha b) parse r"
    using s by (simp add: stubs_present_def no_stubs_def js_same_def is_integer_def toStringArray_def strings_of_def sort_strings_def)
  have "toGitCommit (obj_get r ''source_commit'') \<noteq> None" using f(1) by (simp add: toGitCommit_def hex_exact_text)
  then show ?thesis
    unfolding evidenceV3Failures_def sha
    using f(2,3,4,6,7,9,10,12,13) g(2,3) stubs by (auto simp: failure_if_def)
qed

section \<open>What the recorder leaves for a report\<close>

definition zero_stubs :: "bench \<Rightarrow> string \<Rightarrow> bool" where
  "zero_stubs b name \<longleftrightarrow>
     (case bn_inventory b of
        None \<Rightarrow> False
      | Some inventory \<Rightarrow>
          name \<noteq> [] \<and>
          (case map_of inventory name of None \<Rightarrow> True | Some c \<Rightarrow> rs_modules c = 0 \<and> rs_anyMembers c = 0 \<and> rs_writers c = []))"

lemma stub_gate:
  assumes "no_stubs (bn_sha b) r" and "obj_get r ''stub_inventory_owners'' = JArr []"
  shows "hasExactFixtureStubEvidence b (JObj r) (JStr name) \<longleftrightarrow> zero_stubs b name"
proof (cases "bn_inventory b")
  case (Some inventory)
  have w: "sort_strings ws = [] \<longleftrightarrow> ws = []" for ws :: "string list"
    by (metis sort_strings_def set_sort_by set_empty)
  have e: "sort_strings [] = []" using w by blast
  define c where "c = (case map_of inventory name of Some c \<Rightarrow> c | None \<Rightarrow> \<lparr>rs_modules = 0, rs_anyMembers = 0, rs_writers = []\<rparr>)"
  have zero: "zero_stubs b name \<longleftrightarrow> name \<noteq> [] \<and> rs_modules c = 0 \<and> rs_anyMembers c = 0 \<and> rs_writers c = []"
    unfolding zero_stubs_def Some c_def by (simp split: option.split)
  have f: "obj_get r ''stub_inventory_schema'' = JInt 2" "obj_get r ''stubbed_modules'' = JInt 0" "obj_get r ''stubbed_any_members'' = JInt 0"
    "obj_get r ''stub_inventory_fingerprint'' = JStr (fixtureStubEvidenceFingerprint (bn_sha b) 0 0 [])"
    using assms(1) by (simp_all add: no_stubs_def)
  have "hasExactFixtureStubEvidence b (JObj r) (JStr name) \<longleftrightarrow>
      name \<noteq> [] \<and> rs_modules c = 0 \<and> rs_anyMembers c = 0 \<and> sort_strings (rs_writers c) = []"
    unfolding hasExactFixtureStubEvidence_def Some prod.case option.case jsval.case fixtureStubEvidenceFromInventory_def Let_def
      c_def[symmetric] opt_field_def f assms(2)
    by (cases "name = []") (auto simp: FIXTURE_STUB_EVIDENCE_SCHEMA_def strings_def e w)
  then show ?thesis using zero w by blast
qed (simp add: hasExactFixtureStubEvidence_def zero_stubs_def)

lemma sound_read:
  assumes sound: "sound_evidence (bn_sha b) r" and dirty: "obj_get r ''source_dirty'' = JBool d"
    and digests: "\<And>k. k \<in> set sha_fields \<Longrightarrow> hex_exact 64 (obj_get r k) \<and> js_same (obj_get r k) (obj_get r k)"
    and owners: "obj_get r ''stub_inventory_owners'' = JArr []"
  shows "hasExactProjectEvidence b (JObj r) (JStr name) \<longleftrightarrow> hex_exact 40 (obj_get r ''source_commit'') \<and> zero_stubs b name"
proof -
  have s: "same_graph r" "same_result r" "bound_inputs r" "no_stubs (bn_sha b) r" "obj_get r ''evidence_schema'' = JInt 3"
    using sound by (simp_all add: sound_evidence_def)
  have b: "list_all (\<lambda>k. hex_exact 64 (obj_get r k)) bound_fields"
    using digests by (auto simp: bound_fields_def sha_fields_def)
  have c: "list_all (\<lambda>(k, k'). hex_exact 64 (obj_get r k) \<and> js_same (obj_get r k) (obj_get r k')) compared_fields"
    using digests s(1,2) by (auto simp: compared_fields_def sha_fields_def same_graph_def same_result_def)
  have m: "js_same (obj_get r ''build_manifest_binary_sha256'') (obj_get r ''tsz_binary_sha256'')"
    using digests s(3) by (auto simp: bound_inputs_def sha_fields_def)
  obtain roots files where g: "roots > 0" "files > 0" "obj_get r ''root_files'' = JInt roots" "obj_get r ''oracle_root_files'' = JInt roots"
    "obj_get r ''source_files'' = JInt files" "obj_get r ''oracle_source_files'' = JInt files" "obj_get r ''files_reached'' = JInt files"
    using s(1) unfolding same_graph_def by blast
  obtain code where x: "exactOrdinaryExit (opt_field (obj_get r ''exit_codes'') ''tsz'') = Some code"
    "exactOrdinaryExit (opt_field (obj_get r ''exit_codes'') ''tsc'') = Some code" using s(2) unfolding same_result_def by blast
  obtain n where n: "n \<ge> 0" "obj_get r ''diagnostic_records'' = JInt n" "obj_get r ''oracle_diagnostic_records'' = JInt n"
    using s(2) unfolding same_result_def by blast
  have o1: "obj_get r ''oracle_classification'' = JStr ''both-pass'' \<or> obj_get r ''oracle_classification'' = JStr ''both-fail-same''"
    using s(2) unfolding same_result_def by blast
  have i: "obj_get r ''source_stable'' = JBool True" "obj_get r ''compile_input_stable'' = JBool True"
    "obj_get r ''semantic_completion'' = JStr ''complete''" using s(3) by (simp_all add: bound_inputs_def)
  have f: "opt_field (JObj r) = obj_get r" by (simp add: opt_field_def fun_eq_iff)
  show ?thesis
    unfolding hasExactProjectEvidence_def Let_def f
    using b c m s(5) o1 by (simp add: stub_gate[OF s(4) owners] dirty g x n i is_integer_def js_same_def falsy_def)
qed

lemma evidence_keys:
  "map fst (evidence_entries parse env) =
     [''evidence_schema'', ''evidence_status'', ''evidence_failures'', ''source_dirty'', ''source_stable'', ''source_tree_fingerprint'',
      ''evidence_protocol_fingerprint'', ''tsz_binary_sha256'', ''build_manifest_sha256'', ''build_inputs_sha256'',
      ''build_manifest_binary_sha256'', ''compile_input_fingerprint'', ''compile_input_stable'', ''oracle_fingerprint'',
      ''semantic_completion'', ''root_files'', ''source_files'', ''root_file_fingerprint'', ''source_file_fingerprint'',
      ''oracle_root_files'', ''oracle_source_files'', ''oracle_root_file_fingerprint'', ''oracle_source_file_fingerprint'',
      ''diagnostic_records'', ''diagnostic_fingerprint'', ''oracle_diagnostic_records'', ''oracle_diagnostic_fingerprint'',
      ''stub_inventory_schema'', ''stubbed_modules'', ''stubbed_any_members'', ''stub_inventory_fingerprint'', ''stub_inventory_owners'']"
  by (simp add: evidence_entries_def sha_entry_def count_entry_def flag_entry_def)

lemma recorded_evidence:
  assumes "k \<in> set (map fst (evidence_entries parse env))"
  shows "obj_get (record_row pl rules parse env g name ds a srcs) k = obj_get (evidence_entries parse env) k"
proof -
  have "k \<notin> set (map fst (artifactMetadata env ''COMPAT'' g)) \<and> k \<notin> set (map fst (verdict_entries rules env name a))"
    using assms unfolding metadata_keys verdict_keys evidence_keys by auto
  with assms show ?thesis by (simp add: record_row_get)
qed

text \<open>The variable each digest is read from.\<close>

definition digest_variables :: "(string \<times> string) list" where
  "digest_variables =
     [(''source_tree_fingerprint'', ''SOURCE_TREE_FINGERPRINT''), (''evidence_protocol_fingerprint'', ''EVIDENCE_PROTOCOL_FINGERPRINT''),
      (''tsz_binary_sha256'', ''TSZ_BINARY_SHA256''), (''build_manifest_sha256'', ''BUILD_MANIFEST_SHA256''),
      (''build_inputs_sha256'', ''BUILD_INPUTS_SHA256''), (''build_manifest_binary_sha256'', ''BUILD_MANIFEST_BINARY_SHA256''),
      (''compile_input_fingerprint'', ''COMPILE_INPUT_FINGERPRINT''), (''oracle_fingerprint'', ''ORACLE_FINGERPRINT''),
      (''root_file_fingerprint'', ''ROOT_FILE_FINGERPRINT''), (''source_file_fingerprint'', ''SOURCE_FILE_FINGERPRINT''),
      (''oracle_root_file_fingerprint'', ''ORACLE_ROOT_FILE_FINGERPRINT''), (''oracle_source_file_fingerprint'', ''ORACLE_SOURCE_FILE_FINGERPRINT''),
      (''diagnostic_fingerprint'', ''DIAGNOSTIC_FINGERPRINT''), (''oracle_diagnostic_fingerprint'', ''ORACLE_DIAGNOSTIC_FINGERPRINT''),
      (''stub_inventory_fingerprint'', ''STUB_INVENTORY_FINGERPRINT'')]"

lemma digest_fields: "map fst digest_variables = sha_fields"
  by (simp add: digest_variables_def sha_fields_def)

lemma digest_entries: "set (map (\<lambda>(k, n). sha_entry env k n) digest_variables) \<subseteq> set (evidence_entries parse env)"
  unfolding digest_variables_def evidence_entries_def by simp

lemma recorded_digest:
  assumes "k \<in> set sha_fields"
  shows "\<exists>v. obj_get (record_row pl rules parse env g name ds a srcs) k = or_json_null (toSha256 v) JStr"
proof -
  obtain n where n: "sha_entry env k n \<in> set (evidence_entries parse env)"
    using digest_entries[of env parse] assms unfolding digest_fields[symmetric] by force
  have "distinct (map fst (evidence_entries parse env))" unfolding evidence_keys by simp
  then have "obj_get (evidence_entries parse env) k = snd (sha_entry env k n)"
    using n by (simp add: obj_get_def sha_entry_def)
  moreover have "k \<in> set (map fst (evidence_entries parse env))" using n by (force simp: sha_entry_def)
  ultimately show ?thesis by (auto simp: recorded_evidence sha_entry_def)
qed

lemma recorded_owners:
  "\<exists>v. obj_get (record_row pl rules parse env g name ds a srcs) ''stub_inventory_owners'' = or_json_null (toStringArray parse v) strings"
proof -
  have "distinct (map fst (evidence_entries parse env))" unfolding evidence_keys by simp
  moreover have "(''stub_inventory_owners'', or_json_null (toStringArray parse (env_value env ''COMPAT_STUB_INVENTORY_OWNERS'')) strings)
      \<in> set (evidence_entries parse env)"
    unfolding evidence_entries_def by simp
  ultimately have "obj_get (evidence_entries parse env) ''stub_inventory_owners'' =
      or_json_null (toStringArray parse (env_value env ''COMPAT_STUB_INVENTORY_OWNERS'')) strings"
    by (simp add: obj_get_def)
  then show ?thesis by (subst recorded_evidence) (simp_all add: evidence_keys, blast)
qed

lemma recorded_name: "obj_get (record_row pl rules parse env g name ds a srcs) ''name'' = JStr name"
  unfolding record_row_get metadata_keys verdict_keys by (simp add: verdict_entries_def obj_get_def Let_def)

lemma owner_field: "''stub_inventory_owners'' \<notin> verdict_fields"
  by (simp add: verdict_fields_def)

lemma owners_none:
  assumes "\<not> stubs_present sha parse r" and "obj_get r ''stub_inventory_owners'' = or_json_null (toStringArray parse v) strings"
    and "parse [] = Inl m"
  shows "obj_get r ''stub_inventory_owners'' = JArr []"
proof -
  have z: "toStringArray parse (obj_get r ''stub_inventory_owners'') = Some []"
    using assms(1) by (auto simp: stubs_present_def Let_def)
  show ?thesis
  proof (cases "toStringArray parse v")
    case None
    then have "obj_get r ''stub_inventory_owners'' = JNull" using assms(2) by (simp add: or_json_null_def)
    then show ?thesis using z assms(3) by (simp add: toStringArray_def strings_of_def js_text_def falsy_def)
  next
    case (Some ss)
    then have o1: "obj_get r ''stub_inventory_owners'' = strings ss" using assms(2) by (simp add: or_json_null_def)
    have "strings_of (strings ss) = Some ss" by (simp add: strings_of_def strings_def list_all_iff comp_def)
    then have "length ss = 0" using z o1 by (simp add: toStringArray_def sort_strings_def flip: length_0_conv)
    then show ?thesis using o1 by (simp add: strings_def)
  qed
qed

text \<open>C14: a recorded green row counts as exact in a report exactly when its commit is written in lower case
  and the inventory of the report's own checkout finds no stub behind the row; all other conditions of
  the report were met when the row was recorded.\<close>

theorem recorded_green_read:
  assumes "record_compat pl rules hook (bn_sha b) parse env generatedAt = Inr (file, r)"
    and "obj_get r ''state'' = JStr ''green''" and "parse [] = Inl m"
  shows "\<exists>name. obj_get r ''name'' = JStr name \<and>
    (hasExactProjectEvidence b (JObj r) (JStr name) \<longleftrightarrow> hex_exact 40 (obj_get r ''source_commit'') \<and> zero_stubs b name)"
proof -
  obtain g name ds a srcs req where r0: "r = applyEvidenceState (bn_sha b) parse (record_row pl rules parse env g name ds a srcs) req"
    using assms(1) unfolding record_compat_def Let_def by (auto split: if_splits sum.splits)
  let ?r = "record_row pl rules parse env g name ds a srcs"
  note g = applied_green[of "bn_sha b" parse ?r req]
  have none: "evidenceV3Failures (bn_sha b) parse ?r = []" and r: "r = set_evidence True [] ?r" using g assms(2) r0 by auto
  have same: "obj_get r k = obj_get ?r k" if "k \<notin> verdict_fields" for k
    unfolding r using inputs_outside[OF set_evidence_inputs that] .
  have sound: "sound_evidence (bn_sha b) r" using applied_sound assms(2) r0 by metis
  note f = none[unfolded evidenceV3Failures_def new_all_Nil append_is_Nil_conv failure_if_Nil filter_empty_conv]
  have "\<not> stubs_present (bn_sha b) parse ?r" using f by blast
  then have owners: "obj_get r ''stub_inventory_owners'' = JArr []"
    using owners_none[of _ parse ?r] recorded_owners assms(3) by (metis same[of "''stub_inventory_owners''"] owner_field)
  have "\<not> (case obj_get ?r ''source_dirty'' of JBool x \<Rightarrow> False | _ \<Rightarrow> True)" using f by blast
  moreover have "''source_dirty'' \<notin> verdict_fields" by (simp add: verdict_fields_def)
  ultimately obtain d where dirty: "obj_get r ''source_dirty'' = JBool d"
    using same by (cases "obj_get ?r ''source_dirty''") auto
  have digests: "hex_exact 64 (obj_get r k) \<and> js_same (obj_get r k) (obj_get r k)" if k: "k \<in> set sha_fields" for k
  proof -
    have nv: "k \<notin> verdict_fields" using k by (auto simp: sha_fields_def verdict_fields_def)
    obtain v where v: "obj_get ?r k = or_json_null (toSha256 v) JStr" using recorded_digest[OF k] by blast
    have "toSha256 (obj_get ?r k) \<noteq> None" using f k by blast
    then obtain s where "toSha256 v = Some s" using v
      by (cases "toSha256 v") (auto simp: or_json_null_def toSha256_def hex_text_def js_text_def falsy_def trim_def trim_start_def trim_end_def to_lower_def)
    then show ?thesis using v by (simp add: same[OF nv] or_json_null_def js_same_def toSha256_def digest_exact)
  qed
  have "obj_get r ''name'' = JStr name" by (subst same) (simp_all add: verdict_fields_def recorded_name)
  with sound_read[OF sound dirty digests owners] show ?thesis by blast
qed

text \<open>The recorded run of \<open>CompatProofs\<close> in a report whose inventory is empty.\<close>

definition demo_bench :: bench where
  "demo_bench = \<lparr>bn_rows = [], bn_inventory = Some [], bn_sha = (\<lambda>_. demo_digest)\<rparr>"

abbreviation demo_green :: row where
  "demo_green \<equiv> set_evidence True [] demo_row"

lemma demo_outside: "k \<notin> verdict_fields \<Longrightarrow> obj_get demo_green k = obj_get demo_row k"
  by (rule inputs_outside[OF set_evidence_inputs])

lemma demo_commit_exact: "hex_exact 40 (obj_get demo_green ''source_commit'')"
proof -
  have "hex_char CHR ''b''" by code_simp
  then show ?thesis by (simp add: demo_outside verdict_fields_def demo_fields hex_exact_def js_text_def falsy_def list_all_iff)
qed

lemma demo_stubs: "zero_stubs demo_bench ''p''"
  by (simp add: zero_stubs_def demo_bench_def)

theorem recorded_green_read_witness:
  "demo_record = Inr (''/o/rows'', demo_green) \<and> obj_get demo_green ''state'' = JStr ''green'' \<and>
   hasExactProjectEvidence demo_bench (JObj demo_green) (obj_get demo_green ''name'')"
proof -
  have s: "obj_get demo_green ''state'' = JStr ''green''" by (simp add: set_evidence_state demo_fields)
  have n: "obj_get demo_green ''name'' = JStr ''p''" by (simp add: demo_outside verdict_fields_def) (simp add: demo_row_def recorded_name)
  have p: "demo_parse [] = Inl ''SyntaxError''" by (simp add: demo_parse_def)
  have r: "record_compat demo_place [] (\<lambda>_ _. None) (bn_sha demo_bench) demo_parse compat_demo_env ''now'' = Inr (''/o/rows'', demo_green)"
    using demo_recorded by (simp add: demo_bench_def)
  from recorded_green_read[OF r s p] show ?thesis using demo_recorded s n demo_commit_exact demo_stubs by auto
qed

lemma demo_evidence: "hasExactProjectEvidence demo_bench (JObj demo_green) (JStr ''p'')"
proof -
  have "sound_evidence (bn_sha demo_bench) demo_green"
    using applied_sound[of "\<lambda>_. demo_digest" demo_parse demo_row "JInt 3"]
    by (simp add: applied_state applyEvidenceState_def demo_exact Let_def set_evidence_state demo_fields demo_bench_def)
  moreover have "obj_get demo_green ''source_dirty'' = JBool False" "obj_get demo_green ''stub_inventory_owners'' = JArr []"
    by (simp_all add: demo_outside verdict_fields_def demo_bound)
  moreover have "hex_exact 64 (obj_get demo_green k) \<and> js_same (obj_get demo_green k) (obj_get demo_green k)" if "k \<in> set sha_fields" for k
  proof -
    have "k \<notin> verdict_fields" using that by (auto simp: sha_fields_def verdict_fields_def)
    moreover have "obj_get demo_row k = JStr demo_digest" using demo_bound(1) that by (simp add: list_all_iff)
    moreover have "hex_exact 64 (JStr demo_digest)" using digest_exact[OF demo_sha[unfolded toSha256_def]] by simp
    ultimately show ?thesis by (simp add: demo_outside js_same_def)
  qed
  ultimately show ?thesis using sound_read demo_commit_exact demo_stubs by blast
qed

text \<open>The row of a report that carries the recorded evidence.\<close>

definition demo_report :: jsval where
  "demo_report = JObj [(''name'', JStr ''p''), (''tsz_ms'', JInt 2), (''tsgo_ms'', JInt 3), (''compatibility'', JObj demo_green)]"

lemma demo_phase: "hasCompletePhaseMetadata (JObj demo_green)"
proof -
  have v: "set (map fst (verdict_entries rules env n a)) \<subseteq> fst ` set (record_row pl rules parse env g n ds a srcs)" for rules env n a pl parse g ds srcs
    by (auto simp: record_row_def image_Un)
  have "fst ` set demo_row \<subseteq> fst ` set demo_green" by (auto simp: set_evidence_def obj_set_keys)
  moreover have "set REQUIRED_PHASE_EXIT_FIELDS \<subseteq> fst ` set demo_row"
    using v unfolding demo_row_def verdict_keys REQUIRED_PHASE_EXIT_FIELDS_def by force
  ultimately show ?thesis by (auto simp: hasCompletePhaseMetadata_def has_own_def list_all_iff)
qed

lemma demo_report_fields:
  "opt_field demo_report ''compatibility'' = JObj demo_green" "opt_field demo_report ''name'' = JStr ''p''"
  "opt_field demo_report ''status'' = JUndef" "opt_field demo_report ''artifact_missing'' = JUndef"
  by (simp_all add: demo_report_def opt_field_def obj_get_def)

theorem green_row_exact_witness:
  "isGreen demo_bench demo_report \<and> opt_field demo_report ''compatibility'' = JObj demo_green \<and>
   evidenceV3Failures (bn_sha demo_bench) demo_parse demo_green = []"
proof -
  have g: "isGreen demo_bench demo_report"
    by (simp add: isGreen_def Let_def demo_report_fields falsy_def demo_phase demo_evidence opt_field_def[of "JObj demo_green"]
        set_evidence_state demo_fields demo_outside verdict_fields_def)
  have o1: "json_value (obj_get demo_green ''stub_inventory_owners'')" by (simp add: demo_outside verdict_fields_def demo_bound)
  have d: "toSha256 (JStr (fixtureStubEvidenceFingerprint (bn_sha demo_bench) 0 0 [])) \<noteq> None"
    by (simp add: fixtureStubEvidenceFingerprint_def demo_bench_def demo_sha)
  from green_row_exact[OF g demo_report_fields(1) o1 d] g show ?thesis by (simp add: demo_report_fields)
qed

section \<open>The newest artifact\<close>

interpretation newest: comparator newest_first
proof
  show "sgn (newest_first x y) = - sgn (newest_first y x)" for x y
    by (auto simp: newest_first_def sgn_if split: option.split)
  show "newest_first x y \<le> 0 \<Longrightarrow> newest_first y z \<le> 0 \<Longrightarrow> newest_first x z \<le> 0" for x y z
    by (auto simp: newest_first_def split: option.splits if_splits)
qed

lemma candidates_in:
  "c \<in> set (candidates_of b read parse date options fs) \<longleftrightarrow>
   (cd_index c, cd_file c) \<in> set fs \<and> readBenchmarkArtifact read parse (cd_file c) = Some (cd_data c) \<and> admissible b options (cd_data c) \<and>
   cd_generatedAtMs c = benchmarkGeneratedAtMs date (cd_data c)"
  by (cases c) (force simp: candidates_of_def split: option.splits if_splits)

text \<open>The artifact taken is one that satisfies the gates, and none that does is before it: neither newer nor
  as new and listed earlier.\<close>

lemma selected_newest:
  assumes "selectLatestBenchmarkArtifact b read parse date options files = Some (path, d)"
  shows "\<exists>c \<in> set (candidates_of b read parse date options (zip [0..<length files] files)).
    cd_file c = path \<and> cd_data c = d \<and> admissible b options d \<and>
    (\<forall>c' \<in> set (candidates_of b read parse date options (zip [0..<length files] files)). newest_first c c' \<le> 0)"
proof -
  let ?cs = "candidates_of b read parse date options (zip [0..<length files] files)"
  obtain c rest where s: "sort_by newest_first ?cs = c # rest" and c: "cd_file c = path" "cd_data c = d"
    using assms unfolding selectLatestBenchmarkArtifact_def by (auto split: list.splits)
  have "\<forall>c' \<in> set (c # rest). newest_first c c' \<le> 0"
    using newest.sorted_sort_by[of ?cs] newest.self[of c] unfolding s by simp
  moreover have "set (c # rest) = set ?cs" by (metis s set_sort_by)
  ultimately show ?thesis using c candidates_in[of c] by (metis list.set_intros(1))
qed

lemma none_selected:
  "selectLatestBenchmarkArtifact b read parse date options files = None \<longleftrightarrow>
   candidates_of b read parse date options (zip [0..<length files] files) = []"
proof -
  let ?cs = "candidates_of b read parse date options (zip [0..<length files] files)"
  have "sort_by newest_first ?cs = [] \<longleftrightarrow> ?cs = []" by (metis length_sort_by length_0_conv)
  then show ?thesis by (cases "sort_by newest_first ?cs") (auto simp: selectLatestBenchmarkArtifact_def)
qed

end
