(* ===== verification/CompileStats.thy ===== *)
theory CompileStats
  imports RowUtils
begin

text \<open>
  The parser of the evidence of a compile, \<open>scripts/ci/project-compile-stats.mjs\<close>: the statistics that the
  compiler reports, the root files of a configuration, the files of a program, and the fingerprints of
  lists of paths that the recorder compares. The working directory, the platform (whether it folds
  case), the hash, the files and \<open>JSON.parse\<close> are arguments. Paths are those of a POSIX system.
\<close>

section \<open>The statistics of the compiler\<close>

definition nonnegativeInteger :: "jsval \<Rightarrow> bool" where
  "nonnegativeInteger v = is_integer v (\<lambda>i. i \<ge> 0)"

definition SEMANTIC_COMPLETIONS :: "string list" where
  "SEMANTIC_COMPLETIONS = [''complete'', ''deferred'', ''cycle'', ''limit'']"

definition file_text :: "jsval \<Rightarrow> bool" where
  "file_text v = (case v of JStr s \<Rightarrow> s \<noteq> [] \<and> nul \<notin> set s | _ \<Rightarrow> False)"

record compiler_stats =
  ct_semanticCompletion :: string
  ct_rootFiles :: int
  ct_sourceFiles :: int
  ct_rootFilePaths :: "string list"
  ct_sourceFilePaths :: "string list"

text \<open>One list of paths with its declared count.\<close>

definition counted_paths :: "string \<Rightarrow> jsval \<Rightarrow> jsval \<Rightarrow> string + string list" where
  "counted_paths name paths expected =
     (case paths of
        JArr vs \<Rightarrow>
          if \<not> list_all file_text vs then Inl (''stats.'' @ name @ '' must be an array of non-empty strings'')
          else if JInt (int (length vs)) \<noteq> expected then Inl (''stats.'' @ name @ '' length must equal its canonical count'')
          else Inr (map template_text vs)
      | _ \<Rightarrow> Inl (''stats.'' @ name @ '' must be an array of non-empty strings''))"

definition int_of_value :: "jsval \<Rightarrow> int" where
  "int_of_value v = (case v of JInt i \<Rightarrow> i | _ \<Rightarrow> 0)"

definition stats_fields :: "(string \<times> jsval) list \<Rightarrow> string + compiler_stats" where
  "stats_fields stats =
     (let completion = obj_get stats ''semantic_completion''; rootFiles = obj_get stats ''root_files'';
          sourceFiles = obj_get stats ''source_files''
      in if completion \<notin> JStr ` set SEMANTIC_COMPLETIONS then
           Inl ''stats.semantic_completion must be exactly one of \"complete\", \"deferred\", \"cycle\", or \"limit\"''
         else if \<not> nonnegativeInteger rootFiles then Inl ''stats.root_files must be a nonnegative integer''
         else if \<not> nonnegativeInteger sourceFiles then Inl ''stats.source_files must be a nonnegative integer''
         else if ''files'' \<in> fst ` set stats \<and>
                 (\<not> nonnegativeInteger (obj_get stats ''files'') \<or> obj_get stats ''files'' \<noteq> sourceFiles) then
           Inl ''stats.files must equal stats.source_files when present''
         else
           (case counted_paths ''root_file_paths'' (obj_get stats ''root_file_paths'') rootFiles of
              Inl m \<Rightarrow> Inl m
            | Inr roots \<Rightarrow>
                (case counted_paths ''source_file_paths'' (obj_get stats ''source_file_paths'') sourceFiles of
                   Inl m \<Rightarrow> Inl m
                 | Inr sources \<Rightarrow>
                     Inr \<lparr>ct_semanticCompletion = template_text completion, ct_rootFiles = int_of_value rootFiles,
                          ct_sourceFiles = int_of_value sourceFiles, ct_rootFilePaths = roots, ct_sourceFilePaths = sources\<rparr>)))"

definition compilerStatsFrom :: "jsval \<Rightarrow> string + compiler_stats" where
  "compilerStatsFrom v =
     (if opt_field v ''schema_version'' \<noteq> JInt 2 then Inl ''payload schema_version must be 2''
      else case opt_field v ''stats'' of JObj stats \<Rightarrow> stats_fields stats | _ \<Rightarrow> Inl ''payload has no stats object'')"

definition rootFilePathsFromShowConfig :: "jsval \<Rightarrow> string + string list" where
  "rootFilePathsFromShowConfig v =
     (case opt_field v ''files'' of
        JArr vs \<Rightarrow>
          if list_all file_text vs then Inr (map template_text vs) else Inl ''showConfig files must all be non-empty strings''
      | _ \<Rightarrow> Inl ''showConfig payload has no files array'')"

text \<open>\<open>split(/\r?\n/)\<close>: a carriage return before a line feed belongs to the separator.\<close>

definition split_newlines :: "string \<Rightarrow> string list" where
  "split_newlines s = (let ls = split_on [CHR 10] s in map strip_cr (butlast ls) @ [last ls])"

text \<open>\<open>/^lib(?:\..+)?\.d\.ts$/i\<close>\<close>

definition builtin_lib_name :: "string \<Rightarrow> bool" where
  "builtin_lib_name name =
     (let s = to_lower name; middle = drop 4 (take (length s - 5) s) in
      s = ''lib.d.ts'' \<or>
      starts_with s ''lib.'' \<and> ends_with s ''.d.ts'' \<and> length s > 9 \<and> middle \<noteq> [] \<and> \<not> list_ex line_break middle)"

definition sourceFilePathsFromListFilesOnly :: "string \<Rightarrow> string \<Rightarrow> string \<Rightarrow> string + string list" where
  "sourceFilePathsFromListFilesOnly cwd text0 builtinLibDir =
     (let canonicalLibDir = (if builtinLibDir = [] then [] else path_resolve cwd [builtinLibDir]);
          files = filter (\<lambda>f. canonicalLibDir = [] \<or>
            \<not> (path_dirname (path_resolve cwd [f]) = canonicalLibDir \<and> builtin_lib_name (path_basename (path_resolve cwd [f]))))
            (filter (\<lambda>f. f \<noteq> []) (split_newlines text0))
      in if list_ex (\<lambda>f. nul \<in> set f) files then Inl ''listFilesOnly paths may not contain NUL'' else Inr files)"

section \<open>Paths and their fingerprints\<close>

definition asciiFoldPath :: "string \<Rightarrow> string" where
  "asciiFoldPath s = map (\<lambda>c. let n = of_char c :: nat in if 65 \<le> n \<and> n \<le> 90 then char_of (n + 32) else c) s"

record platform =
  pf_cwd :: string
  pf_caseSensitive :: bool

definition forward_slashes :: "string \<Rightarrow> string" where
  "forward_slashes s = map (\<lambda>c. if c = CHR 92 then CHR ''/'' else c) s"

definition normalizeProjectPath :: "platform \<Rightarrow> string \<Rightarrow> string \<Rightarrow> string \<Rightarrow> string" where
  "normalizeProjectPath pf path baseDir projectRoot =
     (let cwd = pf_cwd pf; input = forward_slashes path; base = path_resolve cwd [if baseDir = [] then ''.'' else baseDir];
          project = path_resolve cwd [if projectRoot = [] then base else projectRoot];
          full = (if isAbsolute input then path_normalize input else path_resolve cwd [base, input]);
          fold_case = (if pf_caseSensitive pf then (\<lambda>s. s) else asciiFoldPath);
          rel = path_relative cwd (fold_case project) (fold_case full)
      in if rel = [] then ''.'' else rel)"

definition normalizedPathMultiset :: "platform \<Rightarrow> string list \<Rightarrow> string \<Rightarrow> string \<Rightarrow> string list" where
  "normalizedPathMultiset pf files baseDir projectRoot =
     sort_strings (map (\<lambda>f. normalizeProjectPath pf f baseDir projectRoot) files)"

definition pathMultisetFingerprint :: "platform \<Rightarrow> (string \<Rightarrow> string) \<Rightarrow> string list \<Rightarrow> string \<Rightarrow> string \<Rightarrow> string" where
  "pathMultisetFingerprint pf sha files baseDir projectRoot =
     sha (render json_char (strings (normalizedPathMultiset pf files baseDir projectRoot)))"

definition pathGraphFingerprint :: "platform \<Rightarrow> (string \<Rightarrow> string) \<Rightarrow> string list \<Rightarrow> string \<Rightarrow> string \<Rightarrow> string" where
  "pathGraphFingerprint pf sha files baseDir projectRoot =
     sha (render json_char (strings (map (\<lambda>f. normalizeProjectPath pf f baseDir projectRoot) files)))"

definition rootFileCountFromShowConfig :: "jsval \<Rightarrow> string + nat" where
  "rootFileCountFromShowConfig v = map_sum id length (rootFilePathsFromShowConfig v)"

definition sourceFileCountFromListFilesOnly :: "string \<Rightarrow> string \<Rightarrow> string \<Rightarrow> string + nat" where
  "sourceFileCountFromListFilesOnly cwd text0 builtinLibDir = map_sum id length (sourceFilePathsFromListFilesOnly cwd text0 builtinLibDir)"

section \<open>The command\<close>

text \<open>A file that cannot be read: whether it is missing, and the message.\<close>

type_synonym stats_reader = "string \<Rightarrow> bool \<times> string + string"

definition stats_failure :: "bool \<times> string \<Rightarrow> run_end" where
  "stats_failure failure =
     (let name = (if fst failure then ''missing'' else ''malformed'') in
      \<lparr>re_out = [], re_err = name @ '': '' @ snd failure @ [CHR 10], re_code = (if fst failure then 3 else 4)\<rparr>)"

definition stats_line :: "string list \<Rightarrow> run_end" where
  "stats_line parts = \<lparr>re_out = join [CHR 9] parts @ [CHR 10], re_err = [], re_code = 0\<rparr>"

definition arg_or :: "string list \<Rightarrow> nat \<Rightarrow> string \<Rightarrow> string" where
  "arg_or argv n default0 = (if n < length argv \<and> argv ! n \<noteq> [] then argv ! n else default0)"

definition stats_usage :: run_end where
  "stats_usage =
     \<lparr>re_out = [],
      re_err = ''usage: project-compile-stats.mjs <compiler-stats|show-config-roots|list-files-graph|list-files-count> <file> [base] [project-root]'' @ [CHR 10],
      re_code = 2\<rparr>"

definition stats_main :: "platform \<Rightarrow> (string \<Rightarrow> string) \<Rightarrow> stats_reader \<Rightarrow> (string \<Rightarrow> string + jsval) \<Rightarrow> string list \<Rightarrow> run_end" where
  "stats_main pf sha read parse argv =
     (let command = arg_or argv 2 []; path = arg_or argv 3 [] in
      if path = [] \<or> command \<notin> set [''compiler-stats'', ''show-config-roots'', ''list-files-graph'', ''list-files-count''] then stats_usage
      else if command = ''list-files-count'' \<or> command = ''list-files-graph'' then
        (case read path of
           Inl e \<Rightarrow> stats_failure e
         | Inr t \<Rightarrow>
             (case sourceFilePathsFromListFilesOnly (pf_cwd pf) t (arg_or argv 4 []) of
                Inl m \<Rightarrow> stats_failure (False, m)
              | Inr paths \<Rightarrow>
                  if command = ''list-files-count'' then stats_line [show_nat (length paths)]
                  else let projectRoot = arg_or argv 5 ''.'' in
                       stats_line [show_nat (length paths), pathGraphFingerprint pf sha paths projectRoot projectRoot]))
      else
        case read path of
          Inl e \<Rightarrow> stats_failure e
        | Inr t \<Rightarrow>
            (case parse t of
               Inl m \<Rightarrow> stats_failure (False, m)
             | Inr v \<Rightarrow>
                 let baseDir = arg_or argv 4 ''.''; projectRoot = arg_or argv 5 baseDir in
                 if command = ''compiler-stats'' then
                   (case compilerStatsFrom v of
                      Inl m \<Rightarrow> stats_failure (False, m)
                    | Inr stats \<Rightarrow>
                        stats_line [show_int (ct_rootFiles stats), show_int (ct_sourceFiles stats),
                          pathGraphFingerprint pf sha (ct_rootFilePaths stats) baseDir projectRoot,
                          pathGraphFingerprint pf sha (ct_sourceFilePaths stats) baseDir projectRoot, ct_semanticCompletion stats])
                 else
                   (case rootFilePathsFromShowConfig v of
                      Inl m \<Rightarrow> stats_failure (False, m)
                    | Inr paths \<Rightarrow> stats_line [show_nat (length paths), pathGraphFingerprint pf sha paths baseDir projectRoot])))"

section \<open>What the numbers and the fingerprints say\<close>

lemma counted_paths_ok:
  assumes "counted_paths name paths expected = Inr ps"
  shows "paths = strings ps \<and> expected = JInt (int (length ps)) \<and> list_all (\<lambda>p. p \<noteq> [] \<and> nul \<notin> set p) ps"
proof -
  obtain vs where v: "paths = JArr vs" "list_all file_text vs" "expected = JInt (int (length vs))" "ps = map template_text vs"
    using assms unfolding counted_paths_def by (auto split: jsval.splits if_splits)
  have "file_text u \<Longrightarrow> JStr (template_text u) = u \<and> template_text u \<noteq> [] \<and> nul \<notin> set (template_text u)" for u
    by (cases u) (simp_all add: file_text_def)
  then show ?thesis using v by (auto simp: strings_def list_all_iff map_idI)
qed

lemma stats_fields_ok:
  assumes "stats_fields st = Inr stats"
  shows "ct_semanticCompletion stats \<in> set SEMANTIC_COMPLETIONS \<and>
    counted_paths ''root_file_paths'' (obj_get st ''root_file_paths'') (obj_get st ''root_files'') = Inr (ct_rootFilePaths stats) \<and>
    counted_paths ''source_file_paths'' (obj_get st ''source_file_paths'') (obj_get st ''source_files'') = Inr (ct_sourceFilePaths stats) \<and>
    ct_rootFiles stats = int_of_value (obj_get st ''root_files'') \<and> ct_sourceFiles stats = int_of_value (obj_get st ''source_files'')"
  using assms unfolding stats_fields_def Let_def by (auto split: if_splits sum.splits)


definition demo_stats :: jsval where
  "demo_stats = JObj [(''schema_version'', JInt 2), (''stats'', JObj [(''semantic_completion'', JStr ''complete''),
     (''root_files'', JInt 1), (''source_files'', JInt 2), (''root_file_paths'', strings [''a.ts'']),
     (''source_file_paths'', strings [''a.ts'', ''b.ts''])])]"


text \<open>Where case is kept, two paths have the same text exactly when they name the same place.\<close>

definition place_of :: "platform \<Rightarrow> string \<Rightarrow> string \<Rightarrow> string" where
  "place_of pf baseDir path =
     path_resolve (pf_cwd pf) [path_resolve (pf_cwd pf) [if baseDir = [] then ''.'' else baseDir], forward_slashes path]"

lemma segments_of_normal:
  assumes "isAbsolute s"
  shows "abs_segments (path_normalize s) = abs_segments s"
proof -
  let ?b = "norm_go False [] (segments s)"
  have n: "\<forall>a \<in> set ?b. is_name a" using abs_segments_names[of s] by (simp add: abs_segments_def)
  have a: "abs_segments (abs_text ?b) = ?b" by (rule abs_segments_text[OF n])
  have t: "abs_segments (x @ ''/'') = abs_segments x" for x
    using segments_append[of x "[]"] by (simp add: abs_segments_def norm_go_append)
  have "path_normalize s = abs_text ?b \<or> path_normalize s = abs_text ?b @ ''/'' \<or> path_normalize s = ''/'' \<and> join ''/'' ?b = []"
    using assms absolute_not_Nil[OF assms] by (auto simp: path_normalize_def abs_text_def Let_def)
  moreover have "abs_segments ''/'' = ?b" if "join ''/'' ?b = []" using that a by (simp add: abs_text_def)
  ultimately show ?thesis using a t by (auto simp: abs_segments_def)
qed

lemma same_segments: "isAbsolute cwd \<Longrightarrow> abs_segments a = abs_segments b \<Longrightarrow> isAbsolute a \<Longrightarrow> isAbsolute b \<Longrightarrow> path_resolve cwd [a] = path_resolve cwd [b]"
  by (simp add: path_resolve_segs resolve_segs_def)

lemma resolve_again: "isAbsolute cwd \<Longrightarrow> path_resolve cwd [path_resolve cwd args] = path_resolve cwd args"
  by (metis abs_segments_resolve isAbsolute_text path_resolve_segs resolve_segs_snoc append_Nil)

lemma resolve_dot:
  assumes "isAbsolute cwd"
  shows "path_resolve cwd [p, ''.''] = path_resolve cwd [p, []]"
proof -
  have "\<not> isAbsolute ''.''" "\<not> isAbsolute []" "segments ''.'' = [''.'']" by code_simp+
  then show ?thesis using resolve_segs_snoc[of _ "[p]"] by (simp add: path_resolve_segs[OF assms])
qed

lemma normalized_same_place:
  assumes "isAbsolute (pf_cwd pf)" and "pf_caseSensitive pf"
  shows "normalizeProjectPath pf f baseDir project = normalizeProjectPath pf g baseDir project \<longleftrightarrow>
    place_of pf baseDir f = place_of pf baseDir g"
proof -
  let ?cwd = "pf_cwd pf" and ?base = "path_resolve (pf_cwd pf) [if baseDir = [] then ''.'' else baseDir]"
  let ?root = "path_resolve ?cwd [if project = [] then ?base else project]"
  let ?full = "\<lambda>f. if isAbsolute (forward_slashes f) then path_normalize (forward_slashes f) else path_resolve ?cwd [?base, forward_slashes f]"
  have full: "path_resolve ?cwd [?full f] = place_of pf baseDir f" for f
  proof (cases "isAbsolute (forward_slashes f)")
    case True
    have "isAbsolute (path_normalize (forward_slashes f))"
      using True absolute_not_Nil[OF True] by (simp add: path_normalize_def Let_def isAbsolute_def starts_with_def)
    then show ?thesis
      using True by (simp add: place_of_def path_resolve_segs[OF assms(1)] resolve_segs_def segments_of_normal)
  qed (simp add: place_of_def resolve_again[OF assms(1)])
  define rel where "rel f = path_relative ?cwd ?root (?full f)" for f
  have norm: "normalizeProjectPath pf f baseDir project = (if rel f = [] then ''.'' else rel f)" for f
    using assms(2) by (simp add: normalizeProjectPath_def rel_def Let_def)
  have "path_resolve ?cwd [?root, rel f] = place_of pf baseDir f" for f
    unfolding rel_def path_relative_back[OF assms(1)] by (rule full)
  then have returns: "path_resolve ?cwd [?root, normalizeProjectPath pf f baseDir project] = place_of pf baseDir f" for f
    using resolve_dot[OF assms(1), of ?root] unfolding norm by (cases "rel f = []") (simp_all only: if_True if_False refl, metis)
  show ?thesis
  proof
    assume e: "normalizeProjectPath pf f baseDir project = normalizeProjectPath pf g baseDir project"
    show "place_of pf baseDir f = place_of pf baseDir g" using returns[of f] returns[of g] unfolding e by (rule trans[OF sym])
  next
    assume p: "place_of pf baseDir f = place_of pf baseDir g"
    have "path_resolve ?cwd [?full f] = path_resolve ?cwd [?full g]" unfolding full p by (rule refl)
    then have "rel f = rel g" unfolding rel_def path_relative_def by (simp only:)
    then show "normalizeProjectPath pf f baseDir project = normalizeProjectPath pf g baseDir project" unfolding norm by (simp only:)
  qed
qed

lemma mset_through:
  assumes "\<And>x y. p x = p y \<Longrightarrow> n x = n y" and "mset (map p xs) = mset (map p ys)"
  shows "mset (map n xs) = mset (map n ys)"
proof -
  let ?h = "\<lambda>q. n (inv p q)"
  have h: "?h (p x) = n x" for x by (rule assms(1)) (simp add: f_inv_into_f)
  have "image_mset ?h (mset (map p xs)) = image_mset ?h (mset (map p ys))" using assms(2) by simp
  then show ?thesis by (simp add: h multiset.map_comp comp_def)
qed

lemma map_through: "(\<And>x y. n x = n y \<longleftrightarrow> p x = p y) \<Longrightarrow> map n xs = map n ys \<longleftrightarrow> map p xs = map p ys"
proof (induction xs arbitrary: ys)
  case (Cons x xs)
  then show ?case by (cases ys) auto
qed simp

lemma sort_strings_eq: "sort_strings xs = sort_strings ys \<longleftrightarrow> mset xs = mset ys"
  by (metis sort_strings_perm sort_strings_def mset_sort_by)

lemma rendered_strings: "render json_char (strings xs) = render json_char (strings ys) \<longleftrightarrow> xs = ys"
proof -
  have "json_value (strings xs)" for xs by (simp add: strings_def list_all_iff)
  then have "render json_char (strings xs) = render json_char (strings ys) \<longleftrightarrow> strings xs = strings ys"
    by (intro plain_json.render_inject)
  moreover have "inj JStr" by (rule injI) simp
  ultimately show ?thesis by (simp add: strings_def inj_map_eq_map)
qed


definition demo_platform :: platform where
  "demo_platform = \<lparr>pf_cwd = ''/w'', pf_caseSensitive = True\<rparr>"


end
