(* ===== verification/StubFidelity.thy ===== *)
theory StubFidelity
  imports StubInventory CompatRatchet
begin

text \<open>
  The ratchet over the stub declarations of the benchmark fixtures, the audit of
  \<open>scripts/bench/project-fixture-stub-fidelity.mjs\<close>: the metrics of each writer are counted from the
  here documents of the shell shards (the scanner is in \<open>StubInventory\<close>) and compared with a pinned
  baseline. The files, \<open>localeCompare\<close> and the text of \<open>JSON.stringify\<close> with indentation are arguments;
  the baseline is taken to have its declared shape.
\<close>

section \<open>The metrics of one declaration file\<close>

text \<open>The text after the first end of a block comment.\<close>

fun after_close :: "string \<Rightarrow> string option" where
  "after_close [] = None"
| "after_close (c # s) = (if starts_with (c # s) ''*/'' then Some (tl s) else after_close s)"

lemma after_close_shorter: "after_close s = Some r \<Longrightarrow> length r < length s"
  by (induction s) (auto split: if_splits)

function strip_blocks :: "string \<Rightarrow> string" where
  "strip_blocks [] = []"
| "strip_blocks (c # s) =
     (if starts_with (c # s) ''/*''
      then case after_close (tl s) of Some r \<Rightarrow> strip_blocks r | None \<Rightarrow> c # strip_blocks s
      else c # strip_blocks s)"
  by pat_completeness auto
termination
  by (relation "measure length") (auto dest!: after_close_shorter simp: less_Suc_eq_le intro: order.trans[OF less_imp_le] le_SucI)

function strip_line_comments :: "string \<Rightarrow> string" where
  "strip_line_comments [] = []"
| "strip_line_comments (c # s) =
     (if starts_with (c # s) ''//'' then strip_line_comments (dropWhile (\<lambda>d. d \<noteq> CHR 10) s) else c # strip_line_comments s)"
  by pat_completeness auto
termination by (relation "measure length") (auto simp: le_imp_less_Suc length_dropWhile_le)

definition word_at :: "string \<Rightarrow> bool \<Rightarrow> string \<Rightarrow> nat option" where
  "word_at word w s = (if \<not> w \<and> starts_with s word \<and> at_boundary (drop (length word) s) then Some (length word) else None)"

text \<open>\<open>\bdeclare\s+module\b\<close>\<close>

definition declare_at :: "bool \<Rightarrow> string \<Rightarrow> nat option" where
  "declare_at w s =
     (let r = drop 7 s; t = dropWhile is_ws r in
      if \<not> w \<and> starts_with s ''declare'' \<and> r \<noteq> t \<and> starts_with t ''module'' \<and> at_boundary (drop 6 t)
      then Some (length s - length t + 6) else None)"

record stub_metrics =
  sm_declareModules :: nat
  sm_anyTokens :: nat
  sm_exports :: nat

definition measureStubBody :: "string \<Rightarrow> stub_metrics" where
  "measureStubBody body =
     (let code = strip_line_comments (strip_blocks body) in
      \<lparr>sm_declareModules = countMatches code declare_at, sm_anyTokens = countMatches code (word_at ''any''),
       sm_exports = countMatches code (word_at ''export'')\<rparr>)"

section \<open>The audit\<close>

record writer_entry =
  we_metrics :: stub_metrics
  we_modules :: "string list"

definition add_metrics :: "stub_metrics \<Rightarrow> stub_metrics \<Rightarrow> stub_metrics" where
  "add_metrics a b =
     \<lparr>sm_declareModules = sm_declareModules a + sm_declareModules b, sm_anyTokens = sm_anyTokens a + sm_anyTokens b,
      sm_exports = sm_exports a + sm_exports b\<rparr>"

definition no_metrics :: stub_metrics where
  "no_metrics = \<lparr>sm_declareModules = 0, sm_anyTokens = 0, sm_exports = 0\<rparr>"

definition audit_record :: "heredoc \<Rightarrow> (string \<times> writer_entry) list \<Rightarrow> (string \<times> writer_entry) list" where
  "audit_record rec writers =
     (let e = (case map_of writers (hd_writer rec) of Some e \<Rightarrow> e | None \<Rightarrow> \<lparr>we_metrics = no_metrics, we_modules = []\<rparr>) in
      obj_set (hd_writer rec)
        \<lparr>we_metrics = add_metrics (we_metrics e) (measureStubBody (hd_body rec)), we_modules = add_new (hd_module rec) (we_modules e)\<rparr>
        writers)"

text \<open>The dash of the messages, in the bytes the streams carry.\<close>

definition em_dash :: string where "em_dash = [CHR 0xE2, CHR 0x80, CHR 0x94]"

record fidelity_audit =
  fa_writers :: "(string \<times> writer_entry) list"
  fa_totals :: stub_metrics
  fa_count :: nat

fun audit_sources :: "string \<Rightarrow> (string \<Rightarrow> string option) \<Rightarrow> string list \<Rightarrow> (string \<times> writer_entry) list \<Rightarrow> string + (string \<times> writer_entry) list" where
  "audit_sources repo read [] writers = Inr writers"
| "audit_sources repo read (rel # sources) writers =
     (case read (path_join [repo, rel]) of
        None \<Rightarrow>
          Inl (''stub source shard not found: '' @ rel @
            ''. If it was renamed or removed, update STUB_SOURCE_FILES '' @ em_dash @ '' do not let its writers vanish from the ratchet.'')
      | Some t \<Rightarrow>
          (case extractStubHeredocs t rel of
             Inl m \<Rightarrow> Inl m
           | Inr heredocs \<Rightarrow> audit_sources repo read sources (fold audit_record heredocs writers)))"

definition auditStubFidelity :: "string \<Rightarrow> (string \<Rightarrow> string option) \<Rightarrow> string list \<Rightarrow> string + fidelity_audit" where
  "auditStubFidelity repo read sources =
     (case audit_sources repo read sources [] of
        Inl m \<Rightarrow> Inl m
      | Inr writers \<Rightarrow>
          let ws = map (\<lambda>(n, e). (n, e\<lparr>we_modules := sort_strings (we_modules e)\<rparr>)) writers in
          Inr \<lparr>fa_writers = ws, fa_totals = fold (\<lambda>(n, e) t. add_metrics t (we_metrics e)) ws no_metrics, fa_count = length ws\<rparr>)"

definition STUB_SOURCE_FILES :: "string list" where
  "STUB_SOURCE_FILES =
     [''scripts/bench/project-fixtures.sh'', ''scripts/bench/lib/project-fixture-stubs.sh'', ''scripts/bench/lib/project-fixture-stubs-canary.sh'']"

definition rankedWriters :: "(string \<Rightarrow> string \<Rightarrow> int) \<Rightarrow> fidelity_audit \<Rightarrow> (string \<times> writer_entry) list" where
  "rankedWriters localeCompare audit =
     sort_by (\<lambda>a b.
       let d = int (sm_anyTokens (we_metrics (snd b))) - int (sm_anyTokens (we_metrics (snd a))) in
       if d \<noteq> 0 then d else localeCompare (fst a) (fst b)) (fa_writers audit)"

section \<open>The ratchet\<close>

record fidelity_baseline =
  fb_totals :: stub_metrics
  fb_count :: nat
  fb_writers :: "(string \<times> stub_metrics) list"

definition toBaseline :: "fidelity_audit \<Rightarrow> fidelity_baseline" where
  "toBaseline audit =
     \<lparr>fb_totals = fa_totals audit, fb_count = fa_count audit, fb_writers = map (\<lambda>(n, e). (n, we_metrics e)) (fa_writers audit)\<rparr>"

record fidelity_check =
  fc_ok :: bool
  fc_regressions :: "string list"
  fc_improvements :: "string list"
  fc_missing :: "string list"

definition metric_of :: "string \<Rightarrow> stub_metrics \<Rightarrow> nat" where
  "metric_of metric m = (if metric = ''anyTokens'' then sm_anyTokens m else sm_declareModules m)"

definition quoted_any :: string where "quoted_any = [CHR 0x60] @ ''any'' @ [CHR 0x60]"

definition check_metric :: "string \<Rightarrow> stub_metrics \<Rightarrow> stub_metrics \<Rightarrow> string \<Rightarrow> fidelity_check \<Rightarrow> fidelity_check" where
  "check_metric name cur base metric st =
     (let c = metric_of metric cur; b = metric_of metric base; change = show_nat b @ '' -> '' @ show_nat c in
      if c > b then
        st\<lparr>fc_regressions := fc_regressions st @
          [name @ ''.'' @ metric @ '' grew '' @ change @ '' (fixture stubs must not become more '' @ quoted_any @ ''-eroded)'']\<rparr>
      else if c < b then st\<lparr>fc_improvements := fc_improvements st @ [name @ ''.'' @ metric @ '' improved '' @ change]\<rparr>
      else st)"

definition check_writer :: "fidelity_baseline \<Rightarrow> string \<times> writer_entry \<Rightarrow> fidelity_check \<Rightarrow> fidelity_check" where
  "check_writer baseline writer st =
     (let name = fst writer; cur = we_metrics (snd writer) in
      case map_of (fb_writers baseline) name of
        None \<Rightarrow>
          st\<lparr>fc_regressions := fc_regressions st @
            [''new stub writer '' @ [CHR 0x27] @ name @ [CHR 0x27] @ '' (anyTokens='' @ show_nat (sm_anyTokens cur) @ '', declareModules='' @
             show_nat (sm_declareModules cur) @ '') is not in the fidelity baseline '' @ em_dash @
             '' acknowledge its erosion with --update-baseline'']\<rparr>
      | Some base \<Rightarrow> fold (check_metric name cur base) [''anyTokens'', ''declareModules''] st)"

definition checkAgainstBaseline :: "fidelity_audit \<Rightarrow> fidelity_baseline \<Rightarrow> fidelity_check" where
  "checkAgainstBaseline audit baseline =
     (let st = fold (check_writer baseline) (fa_writers audit) \<lparr>fc_ok = True, fc_regressions = [], fc_improvements = [], fc_missing = []\<rparr> in
      st\<lparr>fc_ok := fc_regressions st = [],
         fc_missing := filter (\<lambda>n. n \<notin> fst ` set (fa_writers audit)) (map fst (fb_writers baseline))\<rparr>)"

section \<open>The command\<close>

definition formatMarkdown :: "(string \<Rightarrow> string \<Rightarrow> int) \<Rightarrow> fidelity_audit \<Rightarrow> string" where
  "formatMarkdown localeCompare audit =
     (let t = fa_totals audit; tick = [CHR 0x60] in
      join [CHR 10]
        ([''# Project-fixture stub fidelity (#16311)'', [],
          ''Total: **'' @ show_nat (sm_anyTokens t) @ '' '' @ quoted_any @ '' tokens**, **'' @ show_nat (sm_declareModules t) @ '' '' @ tick @
            ''declare module'' @ tick @ '' shims**, **'' @ show_nat (sm_exports t) @ '' exports** across **'' @ show_nat (fa_count audit) @
            '' stub writers**.'', [],
          ''Ranked by '' @ quoted_any @ '' erosion (worst first) '' @ em_dash @ '' the campaign'' @ [CHR 0x27] @ ''s work-list:'', [],
          ''| writer | any | shims | exports | modules |'', ''| --- | ---: | ---: | ---: | --- |''] @
         map (\<lambda>(n, e). let m = we_metrics e in
           ''| '' @ tick @ n @ tick @ '' | '' @ show_nat (sm_anyTokens m) @ '' | '' @ show_nat (sm_declareModules m) @ '' | '' @
           show_nat (sm_exports m) @ '' | '' @ join '', '' (we_modules e) @ '' |'') (rankedWriters localeCompare audit) @ [[]]))"

definition formatSummary :: "(string \<Rightarrow> string \<Rightarrow> int) \<Rightarrow> fidelity_audit \<Rightarrow> string" where
  "formatSummary localeCompare audit =
     (let rows = rankedWriters localeCompare audit; worst = take 5 rows; t = fa_totals audit in
      join [CHR 10]
        ([''stub fidelity: '' @ show_nat (sm_anyTokens t) @ '' any tokens, '' @ show_nat (sm_declareModules t) @ '' declare-module shims, '' @
            show_nat (sm_exports t) @ '' exports, '' @ show_nat (fa_count audit) @ '' writers''] @
         map (\<lambda>(n, e). let m = we_metrics e in
           ''  '' @ n @ '': any='' @ show_nat (sm_anyTokens m) @ '' shims='' @ show_nat (sm_declareModules m) @ '' exports='' @
           show_nat (sm_exports m)) worst @
         (if length rows > length worst
          then [''  '' @ [CHR 0xE2, CHR 0x80, CHR 0xA6] @ '' and '' @ show_nat (length rows - length worst) @ '' more writers''] else [])))"

text \<open>The end of a run and the baseline it writes. An error that nothing catches ends the run with code 1.\<close>

record fidelity_run =
  fr_end :: run_end
  fr_written :: "fidelity_baseline option"

definition fidelity_says :: "string list \<Rightarrow> string list \<Rightarrow> nat \<Rightarrow> fidelity_run" where
  "fidelity_says out err code =
     \<lparr>fr_end = \<lparr>re_out = concat (map (\<lambda>l. l @ [CHR 10]) out), re_err = concat (map (\<lambda>l. l @ [CHR 10]) err), re_code = code\<rparr>, fr_written = None\<rparr>"

definition fidelity_gate :: "fidelity_audit \<Rightarrow> fidelity_baseline \<Rightarrow> fidelity_run" where
  "fidelity_gate audit baseline =
     (let result = checkAgainstBaseline audit baseline; t = fa_totals audit;
          notes = map (\<lambda>m. ''improvement: '' @ m) (fc_improvements result) @
                  map (\<lambda>n. ''removed writer (re-pin welcome): '' @ n) (fc_missing result)
      in if \<not> fc_ok result then
           fidelity_says notes
             (map (\<lambda>m. ''regression: '' @ m) (fc_regressions result) @
              [''stub fidelity ratchet failed: '' @ show_nat (length (fc_regressions result)) @ '' regression(s)'']) 1
         else
           fidelity_says
             (notes @ [''stub fidelity ratchet ok ('' @ show_nat (sm_anyTokens t) @ '' any tokens, '' @ show_nat (sm_declareModules t) @ '' shims)'']) [] 0)"

definition fidelity_main ::
  "(string \<Rightarrow> string \<Rightarrow> int) \<Rightarrow> (fidelity_audit \<Rightarrow> string) \<Rightarrow> string \<Rightarrow> (string \<Rightarrow> string option) \<Rightarrow> (string + fidelity_baseline) option \<Rightarrow>
   string list \<Rightarrow> fidelity_run" where
  "fidelity_main localeCompare pretty repo read pinned args =
     (case auditStubFidelity repo read STUB_SOURCE_FILES of
        Inl m \<Rightarrow> fidelity_says [] [m] 1
      | Inr audit \<Rightarrow>
          if ''--update-baseline'' \<in> set args then
            (fidelity_says
               [''wrote baseline: '' @ show_nat (sm_anyTokens (fa_totals audit)) @ '' any tokens, '' @
                show_nat (sm_declareModules (fa_totals audit)) @ '' shims across '' @ show_nat (fa_count audit) @ '' writers''] [] 0)
            \<lparr>fr_written := Some (toBaseline audit)\<rparr>
          else if ''--json'' \<in> set args then fidelity_says [pretty audit] [] 0
          else if ''--markdown'' \<in> set args then fidelity_says [formatMarkdown localeCompare audit] [] 0
          else if ''--check'' \<in> set args then
            (case pinned of
               None \<Rightarrow>
                 fidelity_says [] [''missing baseline scripts/bench/project-fixture-stub-fidelity-baseline.json; run --update-baseline''] 1
             | Some (Inl m) \<Rightarrow> fidelity_says [] [m] 1
             | Some (Inr baseline) \<Rightarrow> fidelity_gate audit baseline)
          else fidelity_says [formatSummary localeCompare audit] [] 0)"

section \<open>What the ratchet pins\<close>

text \<open>A writer is within the baseline when it is recorded and neither of its pinned metrics has grown.\<close>

definition not_grown :: "fidelity_baseline \<Rightarrow> string \<times> writer_entry \<Rightarrow> bool" where
  "not_grown baseline writer \<longleftrightarrow>
     (case map_of (fb_writers baseline) (fst writer) of
        None \<Rightarrow> False
      | Some base \<Rightarrow> sm_anyTokens (we_metrics (snd writer)) \<le> sm_anyTokens base \<and>
                     sm_declareModules (we_metrics (snd writer)) \<le> sm_declareModules base)"

lemma check_writer_regressions: "fc_regressions (check_writer baseline w st) = [] \<longleftrightarrow> fc_regressions st = [] \<and> not_grown baseline w"
  by (auto simp: check_writer_def not_grown_def check_metric_def metric_of_def Let_def split: option.split)

lemma check_regressions:
  "fc_regressions (fold (check_writer baseline) ws st) = [] \<longleftrightarrow> fc_regressions st = [] \<and> list_all (not_grown baseline) ws"
  by (induction ws arbitrary: st) (auto simp: check_writer_regressions)

lemma distinct_audit: "audit_sources repo read srcs writers = Inr ws \<Longrightarrow> distinct (map fst writers) \<Longrightarrow> distinct (map fst ws)"
proof (induction srcs arbitrary: writers)
  case (Cons rel srcs)
  have d: "distinct (map fst ws) \<Longrightarrow> distinct (map fst (fold audit_record hs ws))" for hs ws
    by (induction hs arbitrary: ws) (simp_all add: audit_record_def Let_def distinct_obj_set)
  from Cons show ?case by (auto split: option.splits sum.splits dest: d)
qed simp

lemma pinned_unchanged:
  assumes "distinct (map fst (fa_writers audit))"
  shows "checkAgainstBaseline audit (toBaseline audit) = \<lparr>fc_ok = True, fc_regressions = [], fc_improvements = [], fc_missing = []\<rparr>"
proof -
  have same: "check_writer (toBaseline audit) w st = st" if "w \<in> set (fa_writers audit)" for w st
  proof -
    have "map_of (fb_writers (toBaseline audit)) (fst w) = Some (we_metrics (snd w))"
      using that assms by (force simp: toBaseline_def comp_def case_prod_beta intro!: map_of_is_SomeI)
    then show ?thesis by (simp add: check_writer_def check_metric_def Let_def)
  qed
  have "fold (check_writer (toBaseline audit)) ws st = st" if "set ws \<subseteq> set (fa_writers audit)" for ws st
    using that same by (induction ws) auto
  moreover have "map fst (fb_writers (toBaseline audit)) = map fst (fa_writers audit)"
    by (simp add: toBaseline_def comp_def case_prod_beta)
  ultimately show ?thesis by (simp add: checkAgainstBaseline_def Let_def filter_empty_conv)
qed

text \<open>C34: the check passes exactly when every writer found in the shards is recorded in the baseline and has
  neither more any tokens nor more declared modules than recorded; and right after an update of the
  baseline it passes with nothing to report, whatever the shards hold.\<close>

theorem fidelity_ratchet_exact:
  assumes "auditStubFidelity repo read STUB_SOURCE_FILES = Inr audit"
  shows "(re_code (fr_end (fidelity_main lc pretty repo read (Some (Inr baseline)) [''--check''])) = 0 \<longleftrightarrow>
      list_all (not_grown baseline) (fa_writers audit)) \<and>
    fr_written (fidelity_main lc pretty repo read pinned [''--update-baseline'']) = Some (toBaseline audit) \<and>
    checkAgainstBaseline audit (toBaseline audit) = \<lparr>fc_ok = True, fc_regressions = [], fc_improvements = [], fc_missing = []\<rparr>"
proof -
  have "fc_ok (checkAgainstBaseline audit baseline) \<longleftrightarrow> list_all (not_grown baseline) (fa_writers audit)"
    by (simp add: checkAgainstBaseline_def Let_def check_regressions)
  then have gate: "re_code (fr_end (fidelity_main lc pretty repo read (Some (Inr baseline)) [''--check''])) = 0 \<longleftrightarrow>
      list_all (not_grown baseline) (fa_writers audit)"
    using assms by (simp add: fidelity_main_def fidelity_gate_def fidelity_says_def Let_def)
  obtain ws where "audit_sources repo read STUB_SOURCE_FILES [] = Inr ws" "map fst (fa_writers audit) = map fst ws"
    using assms unfolding auditStubFidelity_def Let_def by (auto split: sum.splits simp: comp_def case_prod_beta)
  then have "distinct (map fst (fa_writers audit))" using distinct_audit by fastforce
  from gate pinned_unchanged[OF this] show ?thesis
    using assms by (simp add: fidelity_main_def)
qed

text \<open>A shard with one writer, read three times, and a baseline that allows what it counts.\<close>

definition demo_shard :: string where
  "demo_shard =
     join [CHR 10]
       [''tsz_write_a() {'', ''cat > '' @ [CHR 34] @ ''x.d.ts'' @ [CHR 34] @ '' <<E'', ''declare module m { export const a: any } // any'', ''E'']"

lemma demo_heredocs:
  "extractStubHeredocs demo_shard rel =
     Inr [\<lparr>hd_writer = ''tsz_write_a'', hd_module = ''x.d.ts'', hd_body = ''declare module m { export const a: any } // any''\<rparr>]"
  by code_simp

lemma demo_measure:
  "measureStubBody ''declare module m { export const a: any } // any'' = \<lparr>sm_declareModules = 1, sm_anyTokens = 1, sm_exports = 1\<rparr>"
  by code_simp

definition demo_pinned :: fidelity_baseline where
  "demo_pinned =
     \<lparr>fb_totals = no_metrics, fb_count = 1, fb_writers = [(''tsz_write_a'', \<lparr>sm_declareModules = 3, sm_anyTokens = 4, sm_exports = 0\<rparr>)]\<rparr>"

theorem fidelity_ratchet_exact_witness:
  "\<exists>audit. auditStubFidelity ''/r'' (\<lambda>_. Some demo_shard) STUB_SOURCE_FILES = Inr audit \<and>
     fa_totals audit = \<lparr>sm_declareModules = 3, sm_anyTokens = 3, sm_exports = 3\<rparr> \<and>
     re_code (fr_end (fidelity_main (\<lambda>_ _. 0) (\<lambda>_. []) ''/r'' (\<lambda>_. Some demo_shard) (Some (Inr demo_pinned)) [''--check''])) = 0"
proof -
  obtain audit where a: "auditStubFidelity ''/r'' (\<lambda>_. Some demo_shard) STUB_SOURCE_FILES = Inr audit"
    and t: "fa_totals audit = \<lparr>sm_declareModules = 3, sm_anyTokens = 3, sm_exports = 3\<rparr>"
    and w: "map (\<lambda>(n, e). (n, we_metrics e)) (fa_writers audit) = [(''tsz_write_a'', \<lparr>sm_declareModules = 3, sm_anyTokens = 3, sm_exports = 3\<rparr>)]"
    by (simp add: auditStubFidelity_def STUB_SOURCE_FILES_def demo_heredocs audit_record_def demo_measure add_metrics_def no_metrics_def
        obj_set_def Let_def numeral_3_eq_3)
  have "list_all (not_grown demo_pinned) (fa_writers audit)"
    using w by (auto simp: not_grown_def demo_pinned_def list_all_iff)
  with fidelity_ratchet_exact[OF a, of "\<lambda>_ _. 0" "\<lambda>_. []" demo_pinned] a t show ?thesis by blast
qed

end
